(* ===== verification/Prelude.thy ===== *)
theory Prelude
  imports Main "HOL-Library.Word"
begin

text \<open>
  What every component theory shares: the collections its proofs draw on, JavaScript strings
  and optional fields, the exceptions the services throw, and the tables of the database.

  A JavaScript string is the list of its UTF-16 code units. \<open>js ''text''\<close> is the string of
  an ASCII literal of the source.

  The database is state: a table is the list of its rows in insertion order, and a Prisma
  call of the source is one of the functions below applied to the \<open>where\<close>, \<open>data\<close> and
  \<open>orderBy\<close> clauses that the source writes. Identifiers, clocks and random values come from
  outside and are arguments of the operations that use them.
\<close>

named_theorems table_simps \<open>how the table operations act on rows\<close>
named_theorems wf_intros \<open>operations keep their component's invariant\<close>
named_theorems handler_defs \<open>definitions of the handlers, unfolded when a property is proved\<close>

section \<open>Strings, optional fields, results\<close>

type_synonym code_unit = "16 word"
type_synonym jstring = "code_unit list"
type_synonym ms = int \<comment> \<open>an instant or duration in milliseconds, \<open>Date.getTime()\<close>\<close>

definition unit_of :: "char \<Rightarrow> code_unit" where
  "unit_of c = of_char c"

definition js :: "string \<Rightarrow> jstring" where
  "js s = map unit_of s"

lemma unit_of_inject [simp]: "unit_of a = unit_of b \<longleftrightarrow> a = b"
proof
  assume "unit_of a = unit_of b"
  then have "(of_nat (of_char a) :: code_unit) = of_nat (of_char b)"
    by (simp add: unit_of_def of_nat_of_char)
  moreover have "take_bit LENGTH(16) (of_char c :: nat) = of_char c" for c
    unfolding take_bit_eq_mod
    by (intro mod_less less_trans [OF nat_of_char_less_256]) simp
  ultimately have "(of_char a :: nat) = of_char b"
    by (simp add: word_of_nat_eq_iff)
  then show "a = b" by simp
qed simp

lemma js_inject [simp]: "js a = js b \<longleftrightarrow> a = b"
  by (auto simp: js_def inj_def dest: map_injective intro!: injI)

lemma js_Nil [simp]: "js [] = []"
  by (simp add: js_def)

lemma js_eq_Nil [simp]: "js s = [] \<longleftrightarrow> s = []" "[] = js s \<longleftrightarrow> s = []"
  by (auto simp: js_def)

lemma js_append: "js (a @ b) = js a @ js b"
  by (simp add: js_def)

text \<open>A property of a request body: absent, \<open>null\<close>, or a value.\<close>

datatype 'a field = Undefined | Null | Value 'a

text \<open>Prisma's \<open>data\<close> clause: an \<open>undefined\<close> entry leaves the column as it is.\<close>

fun set_nullable :: "'a field \<Rightarrow> 'a option \<Rightarrow> 'a option" where
  "set_nullable Undefined old = old"
| "set_nullable Null old = None"
| "set_nullable (Value v) old = Some v"

fun set_if_given :: "'a option \<Rightarrow> 'a \<Rightarrow> 'a" where
  "set_if_given None old = old"
| "set_if_given (Some v) old = v"

datatype http_error =
    BadRequest string
  | BadRequestRows string "int list" \<comment> \<open>with \<open>details.rowNumbers\<close>\<close>
  | Unauthorized string
  | Forbidden string
  | NotFound string
  | Conflict string
  | TooManyRequests string
  | ServiceUnavailable string
  | BadGateway string
  | ServerError string \<comment> \<open>an uncaught exception: the framework answers 500\<close>

type_synonym 'a result = "http_error + 'a"

section \<open>Tables\<close>

definition find_first :: "('r \<Rightarrow> bool) \<Rightarrow> 'r list \<Rightarrow> 'r option" where
  "find_first p rows = List.find p rows"

text \<open>\<open>findFirst\<close> with \<open>orderBy\<close> ascending in a numeric key (descending with the negated key).\<close>

definition find_first_by :: "('r \<Rightarrow> int) \<Rightarrow> ('r \<Rightarrow> bool) \<Rightarrow> 'r list \<Rightarrow> 'r option" where
  "find_first_by key p rows = List.find p (sort_key key rows)"

definition find_many :: "('r \<Rightarrow> bool) \<Rightarrow> 'r list \<Rightarrow> 'r list" where
  "find_many p rows = filter p rows"

definition find_many_by :: "('r \<Rightarrow> int) \<Rightarrow> ('r \<Rightarrow> bool) \<Rightarrow> 'r list \<Rightarrow> 'r list" where
  "find_many_by key p rows = sort_key key (filter p rows)"

definition count_rows :: "('r \<Rightarrow> bool) \<Rightarrow> 'r list \<Rightarrow> nat" where
  "count_rows p rows = length (filter p rows)"

definition update_many :: "('r \<Rightarrow> bool) \<Rightarrow> ('r \<Rightarrow> 'r) \<Rightarrow> 'r list \<Rightarrow> 'r list" where
  "update_many p f rows = map (\<lambda>r. if p r then f r else r) rows"

definition delete_many :: "('r \<Rightarrow> bool) \<Rightarrow> 'r list \<Rightarrow> 'r list" where
  "delete_many p rows = filter (\<lambda>r. \<not> p r) rows"

definition create_row :: "'r \<Rightarrow> 'r list \<Rightarrow> 'r list" where
  "create_row r rows = rows @ [r]"

lemmas table_defs = find_first_def find_many_def count_rows_def update_many_def
  delete_many_def create_row_def

lemma find_first_Some: "find_first p rows = Some r \<Longrightarrow> r \<in> set rows \<and> p r"
  by (auto simp: find_first_def find_Some_iff)

lemma find_first_None: "find_first p rows = None \<longleftrightarrow> (\<forall>r \<in> set rows. \<not> p r)"
  by (auto simp: find_first_def find_None_iff)

lemma find_sorted_least:
  assumes "List.find p xs = Some r" and "sorted (map key xs)"
  shows "\<forall>r' \<in> set xs. p r' \<longrightarrow> key r \<le> key r'"
  using assms by (induction xs) (auto split: if_splits)

lemma find_first_by_Some:
  assumes "find_first_by key p rows = Some r"
  shows "r \<in> set rows" and "p r" and "\<And>r'. r' \<in> set rows \<Longrightarrow> p r' \<Longrightarrow> key r \<le> key r'"
proof -
  have f: "List.find p (sort_key key rows) = Some r"
    using assms by (simp add: find_first_by_def)
  then have "r \<in> set (sort_key key rows) \<and> p r"
    unfolding find_Some_iff by (metis nth_mem)
  then show "r \<in> set rows" "p r" by simp_all
  from find_sorted_least [OF f sorted_sort_key]
  show "\<And>r'. r' \<in> set rows \<Longrightarrow> p r' \<Longrightarrow> key r \<le> key r'" by simp
qed

lemma find_first_by_None: "find_first_by key p rows = None \<longleftrightarrow> (\<forall>r \<in> set rows. \<not> p r)"
  by (auto simp: find_first_by_def find_None_iff)

lemma set_find_many [table_simps]: "set (find_many p rows) = {r \<in> set rows. p r}"
  by (auto simp: find_many_def)

lemma set_find_many_by [table_simps]: "set (find_many_by key p rows) = {r \<in> set rows. p r}"
  by (auto simp: find_many_by_def)

lemma set_create_row [table_simps]: "set (create_row r rows) = insert r (set rows)"
  by (auto simp: create_row_def)

lemma set_delete_many [table_simps]: "set (delete_many p rows) = {r \<in> set rows. \<not> p r}"
  by (auto simp: delete_many_def)

lemma in_set_update_many [table_simps]:
  "r \<in> set (update_many p f rows) \<longleftrightarrow> (\<exists>r0 \<in> set rows. r = (if p r0 then f r0 else r0))"
  by (auto simp: update_many_def)

lemma map_update_many:
  "(\<And>r. r \<in> set rows \<Longrightarrow> p r \<Longrightarrow> g (f r) = g r) \<Longrightarrow> map g (update_many p f rows) = map g rows"
  by (induction rows) (auto simp: update_many_def)

lemma filter_update_many:
  "(\<And>r. r \<in> set rows \<Longrightarrow> p r \<Longrightarrow> q r \<or> q (f r) \<Longrightarrow> False) \<Longrightarrow>
   filter q (update_many p f rows) = filter q rows"
  by (induction rows) (auto simp: update_many_def)

lemma update_many_none: "(\<And>r. r \<in> set rows \<Longrightarrow> \<not> p r) \<Longrightarrow> update_many p f rows = rows"
  by (induction rows) (auto simp: update_many_def)

lemma delete_many_none: "(\<And>r. r \<in> set rows \<Longrightarrow> \<not> p r) \<Longrightarrow> delete_many p rows = rows"
  by (induction rows) (auto simp: delete_many_def)

lemma count_rows_0: "count_rows p rows = 0 \<longleftrightarrow> (\<forall>r \<in> set rows. \<not> p r)"
  by (auto simp: count_rows_def filter_empty_conv)

lemma find_append_None: "List.find p xs = None \<Longrightarrow> List.find p (xs @ ys) = List.find p ys"
  by (induction xs) (auto split: if_splits)

lemma find_append_other: "\<not> p y \<Longrightarrow> List.find p (xs @ [y]) = List.find p xs"
  by (induction xs) auto

lemma find_first_update:
  assumes "\<And>r. p (f r) \<longleftrightarrow> p r"
  shows "find_first p (update_many q f rows) = map_option (\<lambda>r. if q r then f r else r) (find_first p rows)"
  using assms by (induction rows) (auto simp: find_first_def update_many_def)

lemma find_first_filter: "(\<And>r. r \<in> set rows \<Longrightarrow> p r \<Longrightarrow> q r) \<Longrightarrow> find_first p (filter q rows) = find_first p rows"
  unfolding find_first_def by (induction rows) auto

lemma find_many_filter: "(\<And>r. r \<in> set rows \<Longrightarrow> p r \<Longrightarrow> q r) \<Longrightarrow> filter p (filter q rows) = filter p rows"
  unfolding filter_filter by (intro filter_cong) auto

lemma find_first_by_filter:
  assumes "\<And>r. r \<in> set rows \<Longrightarrow> p r \<Longrightarrow> q r"
  shows "find_first_by key p (filter q rows) = find_first_by key p rows"
proof -
  have "find_first p (filter q (sort_key key rows)) = find_first p (sort_key key rows)"
    using assms by (intro find_first_filter) simp
  then show ?thesis by (simp add: find_first_by_def find_first_def filter_sort)
qed

section \<open>Interface: a conditional write that can only be won once\<close>

text \<open>
  Several operations of the source claim a row by an \<open>updateMany\<close> whose \<open>where\<close> repeats the
  condition under which the row was read, and go on only when the count is one: the
  notification worker, the rotation of a refresh token, the consumption of a one-time
  password and the ending of a goal. What they share: a claim made at \<open>t\<close> spends the row for
  every claim at a \<open>t'\<close> for which it \<open>lasts\<close>, and the write keeps the row's key.
\<close>

locale claim_once =
  fixes key :: "'r \<Rightarrow> 'k"
    and claimable :: "'t \<Rightarrow> 'r \<Rightarrow> bool"
    and mark :: "'t \<Rightarrow> 'r \<Rightarrow> 'r"
    and lasts :: "'t \<Rightarrow> 't \<Rightarrow> bool"
  assumes mark_spends: "lasts t t' \<Longrightarrow> \<not> claimable t' (mark t r)"
    and mark_key: "key (mark t r) = key r"
begin

lemma second_claim_fails:
  assumes "distinct (map key rows)" and "count_rows (\<lambda>r. key r = k \<and> claimable t r) rows \<noteq> 0" and "lasts t t'"
  shows "count_rows (\<lambda>r. key r = k \<and> claimable t' r)
     (update_many (\<lambda>r. key r = k \<and> claimable t r) (mark t) rows) = 0"
proof -
  obtain r where r: "r \<in> set rows" "key r = k" "claimable t r"
    using assms(2) by (auto simp: count_rows_0)
  have "\<not> claimable t' q"
    if q: "q \<in> set (update_many (\<lambda>r. key r = k \<and> claimable t r) (mark t) rows)" "key q = k" for q
  proof -
    obtain q0 where q0: "q0 \<in> set rows" "q = (if key q0 = k \<and> claimable t q0 then mark t q0 else q0)"
      using q(1) by (auto simp: update_many_def)
    then have "key q0 = k" using q(2) mark_key by (auto split: if_splits)
    then have "q0 = r" using r q0(1) assms(1) by (metis distinct_map inj_on_eq_iff)
    then show ?thesis using q0(2) r mark_spends [OF assms(3)] by simp
  qed
  then show ?thesis by (auto simp: count_rows_0)
qed

lemma claim_keeps_others:
  "k \<noteq> k' \<Longrightarrow> filter (\<lambda>r. key r = k') (update_many (\<lambda>r. key r = k \<and> claimable t r) (mark t) rows)
            = filter (\<lambda>r. key r = k') rows"
  using mark_key by (intro filter_update_many) auto

lemma claim_keeps_keys:
  "map key (update_many (\<lambda>r. key r = k \<and> claimable t r) (mark t) rows) = map key rows"
  using mark_key by (intro map_update_many) auto

end

end
