(* ===== verification/Js_Text.thy ===== *)
theory Js_Text
  imports Prelude
begin

text \<open>
  The string functions of JavaScript's standard library that the source uses, on lists of
  UTF-16 code units: \<open>trim\<close> and the class \<open>\s\<close>, \<open>padStart\<close>, \<open>join\<close>, \<open>indexOf\<close> on arrays,
  and decimal numerals.
\<close>

section \<open>Code units\<close>

definition unit_nl :: code_unit where "unit_nl = 10"
definition unit_cr :: code_unit where "unit_cr = 13"
definition unit_quote :: code_unit where "unit_quote = 34"
definition unit_comma :: code_unit where "unit_comma = 44"
definition unit_bom :: code_unit where "unit_bom = 0xFEFF"
definition unit_naira :: code_unit where "unit_naira = 0x20A6"

lemmas unit_defs = unit_nl_def unit_cr_def unit_quote_def unit_comma_def unit_bom_def unit_naira_def

text \<open>White space and line terminators of ECMA-262: what \<open>trim\<close> removes and \<open>\s\<close> matches.\<close>

definition is_space :: "code_unit \<Rightarrow> bool" where
  "is_space c \<longleftrightarrow>
     c \<in> {9, 10, 11, 12, 13, 32, 160, 5760, 8232, 8233, 8239, 8287, 12288, 0xFEFF}
     \<or> 8192 \<le> c \<and> c \<le> 8202"

definition is_digit :: "code_unit \<Rightarrow> bool" where
  "is_digit c \<longleftrightarrow> 48 \<le> c \<and> c \<le> 57"

definition digits_between :: "nat \<Rightarrow> nat \<Rightarrow> jstring \<Rightarrow> bool" where
  "digits_between lo hi s \<longleftrightarrow> lo \<le> length s \<and> length s \<le> hi \<and> list_all is_digit s"

definition trim_start :: "jstring \<Rightarrow> jstring" where
  "trim_start s = dropWhile is_space s"

definition trim :: "jstring \<Rightarrow> jstring" where
  "trim s = rev (dropWhile is_space (rev (dropWhile is_space s)))"

lemma trim_Nil [simp]: "trim [] = []"
  by (simp add: trim_def)

lemma all_dropWhile: "(\<forall>c \<in> set (dropWhile P s). P c) \<longleftrightarrow> (\<forall>c \<in> set s. P c)"
  by (induction s) auto

lemma trim_eq_Nil: "trim s = [] \<longleftrightarrow> (\<forall>c \<in> set s. is_space c)"
  by (simp add: trim_def dropWhile_eq_Nil_conv all_dropWhile)

definition ascii_lower_unit :: "code_unit \<Rightarrow> code_unit" where
  "ascii_lower_unit c = (if 65 \<le> c \<and> c \<le> 90 then c + 32 else c)"

definition pad_start :: "nat \<Rightarrow> code_unit \<Rightarrow> jstring \<Rightarrow> jstring" where
  "pad_start n c s = replicate (n - length s) c @ s"

definition pad_end :: "nat \<Rightarrow> code_unit \<Rightarrow> jstring \<Rightarrow> jstring" where
  "pad_end n c s = s @ replicate (n - length s) c"

fun join :: "jstring \<Rightarrow> jstring list \<Rightarrow> jstring" where
  "join sep [] = []"
| "join sep [x] = x"
| "join sep (x # y # ys) = x @ sep @ join sep (y # ys)"

text \<open>\<open>indexOf\<close> on an array: the first position, or none where the source gets \<open>-1\<close>.\<close>

fun index_of :: "'a list \<Rightarrow> 'a \<Rightarrow> nat option" where
  "index_of [] x = None"
| "index_of (y # ys) x = (if y = x then Some 0 else map_option Suc (index_of ys x))"

text \<open>\<open>record[i] ?? ''\<close>: a read past the end is \<open>undefined\<close>.\<close>

definition field_at :: "jstring list \<Rightarrow> nat \<Rightarrow> jstring" where
  "field_at xs i = (if i < length xs then xs ! i else [])"

lemma index_of_None: "index_of xs x = None \<longleftrightarrow> x \<notin> set xs"
  by (induction xs) auto

lemma index_of_Some: "index_of xs x = Some i \<Longrightarrow> i < length xs \<and> xs ! i = x"
  by (induction xs arbitrary: i) (auto split: if_splits)

section \<open>Decimal numerals\<close>

definition digit :: "int \<Rightarrow> code_unit" where
  "digit d = of_int (48 + d)"

definition digit_value :: "code_unit \<Rightarrow> int" where
  "digit_value c = uint c - 48"

function dec :: "int \<Rightarrow> jstring" where
  "dec n = (if n < 10 then [digit n] else dec (n div 10) @ [digit (n mod 10)])"
  by pat_completeness auto
termination
  by (relation "measure nat") (auto simp: nat_less_iff)

declare dec.simps [simp del]

definition digits_value :: "jstring \<Rightarrow> int" where
  "digits_value s = fold (\<lambda>c v. v * 10 + digit_value c) s 0"

text \<open>The decimal text of an integer of magnitude below 10 to the 21.\<close>

definition int_text :: "int \<Rightarrow> jstring" where
  "int_text n = (if n < 0 then unit_of CHR ''-'' # dec (- n) else dec n)"

lemma digit_cases:
  assumes "0 \<le> d" and "d < (10 :: int)"
  shows "d \<in> {0, 1, 2, 3, 4, 5, 6, 7, 8, 9}"
  using assms by (simp only: insert_iff empty_iff) presburger

lemma digit_props:
  assumes "0 \<le> d" and "d < 10"
  shows "is_digit (digit d)" and "digit_value (digit d) = d" and "\<not> is_space (digit d)"
  using digit_cases [OF assms] by (auto simp: is_digit_def digit_def digit_value_def is_space_def)

lemma digits_value_append:
  "digits_value (s @ [c]) = digits_value s * 10 + digit_value c"
  by (simp add: digits_value_def)

lemma digits_value_dec: "0 \<le> n \<Longrightarrow> digits_value (dec n) = n"
proof (induction n rule: dec.induct)
  case (1 n)
  show ?case
  proof (cases "n < 10")
    case True
    with 1 show ?thesis
      by (subst dec.simps) (simp add: digits_value_def digit_props)
  next
    case False
    with 1 show ?thesis
      by (subst dec.simps) (simp add: digits_value_append digit_props)
  qed
qed

lemma dec_digits: "0 \<le> n \<Longrightarrow> c \<in> set (dec n) \<Longrightarrow> is_digit c"
proof (induction n rule: dec.induct)
  case (1 n)
  then show ?case
    by (cases "n < 10") (auto simp: dec.simps [of n] digit_props)
qed

lemma dec_not_Nil [simp]: "dec n \<noteq> []"
  by (subst dec.simps) simp

lemma dec_inject: "0 \<le> m \<Longrightarrow> 0 \<le> n \<Longrightarrow> dec m = dec n \<longleftrightarrow> m = n"
  by (metis digits_value_dec)

lemma length_dec:
  assumes "0 \<le> n" and "n < 10 ^ k" and "0 < k"
  shows "length (dec n) \<le> k"
  using assms
proof (induction n arbitrary: k rule: dec.induct)
  case (1 n)
  show ?case
  proof (cases "n < 10")
    case True
    with 1 show ?thesis by (subst dec.simps) simp
  next
    case False
    with 1 have "k \<noteq> 1" "k \<noteq> 0" by auto
    then obtain j where k: "k = Suc j" "0 < j" by (cases k) auto
    with 1 have "n div 10 < 10 ^ j" by simp
    with 1 False k have "length (dec (n div 10)) \<le> j" by simp
    with False k show ?thesis by (subst dec.simps) simp
  qed
qed

lemma digits_value_zeros: "digits_value (replicate k (digit 0) @ s) = digits_value s"
  by (induction k) (simp_all add: digits_value_def digit_props)

lemma digits_value_pad: "digits_value (pad_start k (digit 0) s) = digits_value s"
  by (simp add: pad_start_def digits_value_zeros)

end
