(* ===== verification/Csv.thy ===== *)
theory Csv
  imports Js_Text
begin

text \<open>
  The CSV scanner \<open>api/src/transactions/transaction-import.csv.ts\<close> and the printer of the
  import adapters (\<open>csvEscape\<close> and the two \<open>join\<close>s). The scanner is the loop of the source
  with its five variables as arguments; \<open>csv[index]\<close> is the head of the remaining text. The
  main result is the round trip: printing scanned records and scanning them again gives the
  same records.
\<close>

section \<open>The scanner\<close>

text \<open>\<open>if (character === '\r' \<and> csv[index + 1] === '\n') index += 1\<close>\<close>

fun skip_lf :: "code_unit \<Rightarrow> jstring \<Rightarrow> jstring" where
  "skip_lf c [] = []"
| "skip_lf c (d # ds) = (if c = unit_cr \<and> d = unit_nl then ds else d # ds)"

lemma length_skip_lf [termination_simp]: "length (skip_lf c cs) < Suc (length cs)"
  by (cases cs) auto

definition malformed :: "'a result" where
  "malformed = Inl (BadRequest ''Malformed CSV quoting'')"

function csv_loop ::
  "bool \<Rightarrow> bool \<Rightarrow> jstring \<Rightarrow> jstring list \<Rightarrow> jstring list list \<Rightarrow> jstring \<Rightarrow> jstring list list result" where
  "csv_loop quoted closedQuote field record records [] =
     (if quoted then Inl (BadRequest ''CSV contains an unclosed quote'')
      else if field \<noteq> [] \<or> record \<noteq> [] then Inr (records @ [record @ [field]])
      else Inr records)"
| "csv_loop quoted closedQuote field record records (c # cs) =
     (if quoted then
        (if c = unit_quote then
           (case cs of
              [] \<Rightarrow> csv_loop False True field record records cs
            | d # ds \<Rightarrow>
                if d = unit_quote then csv_loop True closedQuote (field @ [unit_quote]) record records ds
                else csv_loop False True field record records cs)
         else csv_loop True closedQuote (field @ [c]) record records cs)
      else if closedQuote then
        (if c = unit_comma then csv_loop False False [] (record @ [field]) records cs
         else if c = unit_nl \<or> c = unit_cr then
           csv_loop False False [] [] (records @ [record @ [field]]) (skip_lf c cs)
         else if \<not> is_space c then malformed
         else csv_loop False True field record records cs)
      else if c = unit_quote then
        (if field \<noteq> [] then malformed else csv_loop True False field record records cs)
      else if c = unit_comma then csv_loop False False [] (record @ [field]) records cs
      else if c = unit_nl \<or> c = unit_cr then
        csv_loop False False [] [] (records @ [record @ [field]]) (skip_lf c cs)
      else csv_loop False False (field @ [c]) record records cs)"
  by pat_completeness auto
termination
  by (relation "measure (\<lambda>(_, _, _, _, _, cs). length cs)") (auto simp: length_skip_lf)

declare csv_loop.simps [simp del]

definition nonblank :: "jstring list \<Rightarrow> bool" where
  "nonblank row \<longleftrightarrow> list_ex (\<lambda>value. trim value \<noteq> []) row"

definition parseCsvRecords :: "jstring \<Rightarrow> jstring list list result" where
  "parseCsvRecords csv =
     (case csv_loop False False [] [] [] csv of
        Inl e \<Rightarrow> Inl e
      | Inr records \<Rightarrow> Inr (filter nonblank records))"

section \<open>The printer\<close>

definition needs_quotes :: "jstring \<Rightarrow> bool" where
  "needs_quotes value \<longleftrightarrow> list_ex (\<lambda>c. c = unit_quote \<or> c = unit_comma \<or> c = unit_cr \<or> c = unit_nl) value"

fun double_quotes :: "jstring \<Rightarrow> jstring" where
  "double_quotes [] = []"
| "double_quotes (c # cs) =
     (if c = unit_quote then unit_quote # unit_quote # double_quotes cs else c # double_quotes cs)"

definition csvEscape :: "jstring \<Rightarrow> jstring" where
  "csvEscape value =
     (if needs_quotes value then unit_quote # double_quotes value @ [unit_quote] else value)"

definition csv_line :: "jstring list \<Rightarrow> jstring" where
  "csv_line r = join [unit_comma] (map csvEscape r)"

definition csv_text :: "jstring list list \<Rightarrow> jstring" where
  "csv_text rs = join [unit_nl] (map csv_line rs)"

section \<open>Scanning what was printed\<close>

lemma units_distinct [simp]:
  "unit_comma \<noteq> unit_quote" "unit_quote \<noteq> unit_comma" "unit_nl \<noteq> unit_quote" "unit_quote \<noteq> unit_nl"
  "unit_nl \<noteq> unit_comma" "unit_comma \<noteq> unit_nl" "unit_nl \<noteq> unit_cr" "unit_cr \<noteq> unit_nl"
  "unit_comma \<noteq> unit_cr" "unit_cr \<noteq> unit_comma" "unit_quote \<noteq> unit_cr" "unit_cr \<noteq> unit_quote"
  by (simp_all add: unit_defs)

lemma skip_lf_nl [simp]: "skip_lf unit_nl cs = cs"
  by (cases cs) auto

text \<open>Where a field ends: at the end of the text, a comma or a line feed.\<close>

definition at_field_end :: "jstring \<Rightarrow> bool" where
  "at_field_end rest \<longleftrightarrow> rest = [] \<or> hd rest = unit_comma \<or> hd rest = unit_nl"

lemma scan_plain:
  "\<not> needs_quotes v \<Longrightarrow>
   csv_loop False False acc rec recs (v @ rest) = csv_loop False False (acc @ v) rec recs rest"
  by (induction v arbitrary: acc) (auto simp: needs_quotes_def csv_loop.simps(2))

lemma scan_quoted:
  "at_field_end rest \<Longrightarrow>
   csv_loop True False acc rec recs (double_quotes v @ unit_quote # rest)
   = csv_loop False True (acc @ v) rec recs rest"
proof (induction v arbitrary: acc)
  case Nil
  then show ?case
    by (cases rest) (auto simp: csv_loop.simps(2) at_field_end_def)
next
  case (Cons c v)
  then show ?case by (simp add: csv_loop.simps(2))
qed

lemma scan_field:
  "at_field_end rest \<Longrightarrow>
   \<exists>closed. csv_loop False False [] rec recs (csvEscape v @ rest) = csv_loop False closed v rec recs rest"
  using scan_plain [of v "[]"] scan_quoted [of rest "[]"]
  by (auto simp: csvEscape_def csv_loop.simps(2))

lemma scan_comma:
  "csv_loop False closed v rec recs (unit_comma # cs) = csv_loop False False [] (rec @ [v]) recs cs"
  by (simp add: csv_loop.simps(2))

lemma scan_newline:
  "csv_loop False closed v rec recs (unit_nl # cs) = csv_loop False False [] [] (recs @ [rec @ [v]]) cs"
  by (simp add: csv_loop.simps(2))

lemma scan_end:
  "csv_loop False closed v rec recs [] = (if v \<noteq> [] \<or> rec \<noteq> [] then Inr (recs @ [rec @ [v]]) else Inr recs)"
  by (simp add: csv_loop.simps(1))

lemma scan_record_newline:
  "r \<noteq> [] \<Longrightarrow>
   csv_loop False False [] rec recs (csv_line r @ unit_nl # cs)
   = csv_loop False False [] [] (recs @ [rec @ r]) cs"
proof (induction r arbitrary: rec)
  case Nil
  then show ?case by simp
next
  case (Cons v r)
  show ?case
  proof (cases r)
    case Nil
    have "at_field_end (unit_nl # cs)" by (simp add: at_field_end_def)
    from scan_field [OF this, of rec recs v] Nil show ?thesis
      by (auto simp: csv_line_def scan_newline)
  next
    case (Cons w r')
    have "at_field_end (unit_comma # csv_line r @ unit_nl # cs)" by (simp add: at_field_end_def)
    from scan_field [OF this, of rec recs v] Cons Cons.IH [of "rec @ [v]"] show ?thesis
      by (auto simp: csv_line_def scan_comma)
  qed
qed

lemma scan_record_end:
  "r \<noteq> [] \<Longrightarrow> rec \<noteq> [] \<or> r \<noteq> [[]] \<Longrightarrow>
   csv_loop False False [] rec recs (csv_line r) = Inr (recs @ [rec @ r])"
proof (induction r arbitrary: rec)
  case Nil
  then show ?case by simp
next
  case (Cons v r)
  show ?case
  proof (cases r)
    case Nil
    have "at_field_end []" by (simp add: at_field_end_def)
    from scan_field [OF this, of rec recs v] Nil Cons.prems show ?thesis
      by (auto simp: csv_line_def scan_end)
  next
    case (Cons w r')
    have "at_field_end (unit_comma # csv_line r)" by (simp add: at_field_end_def)
    from scan_field [OF this, of rec recs v] Cons Cons.IH [of "rec @ [v]"] show ?thesis
      by (auto simp: csv_line_def scan_comma)
  qed
qed

lemma scan_records:
  "(\<And>r. r \<in> set rs \<Longrightarrow> r \<noteq> [] \<and> r \<noteq> [[]]) \<Longrightarrow>
   csv_loop False False [] [] recs (csv_text rs) = Inr (recs @ rs)"
proof (induction rs arbitrary: recs)
  case Nil
  then show ?case by (simp add: csv_text_def csv_loop.simps(1))
next
  case (Cons r rs)
  show ?case
  proof (cases rs)
    case Nil
    with Cons.prems show ?thesis by (simp add: csv_text_def scan_record_end)
  next
    case (Cons r' rs')
    then have "csv_text (r # rs) = csv_line r @ unit_nl # csv_text rs"
      by (simp add: csv_text_def)
    with Cons.IH [of "recs @ [r]"] Cons.prems show ?thesis
      by (simp add: scan_record_newline)
  qed
qed

lemma nonblank_not_empty: "nonblank r \<Longrightarrow> r \<noteq> [] \<and> r \<noteq> [[]]"
  by (auto simp: nonblank_def)

lemma parse_print:
  assumes "\<forall>r \<in> set rs. nonblank r"
  shows "parseCsvRecords (csv_text rs) = Inr rs"
  using assms scan_records [of rs "[]"] nonblank_not_empty
  by (auto simp: parseCsvRecords_def)

lemma parse_nonblank: "parseCsvRecords csv = Inr rs \<Longrightarrow> \<forall>r \<in> set rs. nonblank r"
  by (auto simp: parseCsvRecords_def split: sum.splits)

section \<open>Interface: a text format for records\<close>

text \<open>
  What the import adapters and the import parser rely on: a scanner that yields acceptable
  records only, and a printer whose output scans back to the acceptable records it was
  given. Then a text is equivalent to its printed form.
\<close>

locale record_format =
  fixes scan :: "jstring \<Rightarrow> 'e + 'r list"
    and to_text :: "'r list \<Rightarrow> jstring"
    and ok :: "'r \<Rightarrow> bool"
  assumes scan_ok: "scan t = Inr rs \<Longrightarrow> r \<in> set rs \<Longrightarrow> ok r"
    and scan_print: "(\<forall>r \<in> set rs. ok r) \<Longrightarrow> scan (to_text rs) = Inr rs"
begin

lemma rescan: "scan t = Inr rs \<Longrightarrow> scan (to_text rs) = Inr rs"
  using scan_ok scan_print by blast

lemma print_inject:
  "(\<forall>r \<in> set rs. ok r) \<Longrightarrow> (\<forall>r \<in> set rs'. ok r) \<Longrightarrow> to_text rs = to_text rs' \<longleftrightarrow> rs = rs'"
  using scan_print by (metis sum.inject(2))

end

interpretation csv: record_format parseCsvRecords csv_text nonblank
  by unfold_locales (auto simp: parse_print dest: parse_nonblank)

text \<open>
  C39. Printing scanned records and scanning the result gives the same records: whatever
  quotes, commas, line breaks and white space the fields of the file contain, the canonical
  text of the import keeps every field of every row.
\<close>

theorem csv_roundtrip:
  assumes "parseCsvRecords text = Inr records"
  shows "parseCsvRecords (csv_text records) = Inr records"
  using assms by (rule csv.rescan)

theorem csv_roundtrip_witness:
  "parseCsvRecords (csv_text [[js ''say \"hi\", ok'', js '' b '']]) = Inr [[js ''say \"hi\", ok'', js '' b '']]"
proof -
  have "parseCsvRecords (js ''\"say \"\"hi\"\", ok\" , b '') = Inr [[js ''say \"hi\", ok'', js '' b '']]"
    by code_simp
  then show ?thesis by (rule csv_roundtrip)
qed

text \<open>
  A file that starts with a byte order mark and quotes its first column name is refused
  as malformed: the mark is removed from the first header only after the scan, and the scan
  has already taken it for the start of an unquoted field.
\<close>

lemma bom_before_quote_refused:
  "parseCsvRecords (unit_bom # unit_quote # rest) = Inl (BadRequest ''Malformed CSV quoting'')"
proof -
  have "unit_bom \<noteq> unit_quote" "unit_bom \<noteq> unit_comma" "unit_bom \<noteq> unit_nl" "unit_bom \<noteq> unit_cr"
    by (simp_all add: unit_defs)
  then show ?thesis
    by (simp add: parseCsvRecords_def csv_loop.simps(2) malformed_def)
qed

end
