(* ===== verification/Import_Adapters.thy ===== *)
theory Import_Adapters
  imports Csv
begin

text \<open>
  The statement adapters \<open>api/src/transactions/transaction-import.adapters.ts\<close>: they pick a
  layout by its column names and rewrite the records in the canonical layout \<open>date,
  description, amount, type\<close>. \<open>lower\<close> stands for \<open>toLowerCase\<close>, whose Unicode tables are
  outside the program. The regular expressions are written out as tests on the parts of the
  string that they delimit.
\<close>

section \<open>String patterns\<close>

fun split_on :: "code_unit \<Rightarrow> jstring \<Rightarrow> jstring list" where
  "split_on sep [] = [[]]"
| "split_on sep (c # cs) =
     (if c = sep then [] # split_on sep cs
      else (case split_on sep cs of p # ps \<Rightarrow> (c # p) # ps | [] \<Rightarrow> [[c]]))"

definition unit_dash :: code_unit where "unit_dash = 45"
definition unit_slash :: code_unit where "unit_slash = 47"

text \<open>\<open>/^\d{4}-\d{2}-\d{2}$/\<close>\<close>

definition iso_shape :: "jstring \<Rightarrow> (jstring \<times> jstring \<times> jstring) option" where
  "iso_shape s = (case split_on unit_dash s of
     [y, m, d] \<Rightarrow> if digits_between 4 4 y \<and> digits_between 2 2 m \<and> digits_between 2 2 d
                  then Some (y, m, d) else None
   | _ \<Rightarrow> None)"

text \<open>\<open>/^(\d{1,2})SEP(\d{1,2})SEP(\d{4})$/\<close>\<close>

definition day_first_shape :: "code_unit \<Rightarrow> jstring \<Rightarrow> (jstring \<times> jstring \<times> jstring) option" where
  "day_first_shape sep s = (case split_on sep s of
     [d, m, y] \<Rightarrow> if digits_between 1 2 d \<and> digits_between 1 2 m \<and> digits_between 4 4 y
                  then Some (d, m, y) else None
   | _ \<Rightarrow> None)"

text \<open>\<open>replace(/^(?:NGN|N)\s*/i, '')\<close> where \<open>N\<close> is the naira sign\<close>

fun strip_currency :: "jstring \<Rightarrow> jstring" where
  "strip_currency (a # b # c # cs) =
     (if ascii_lower_unit a = unit_of CHR ''n'' \<and> ascii_lower_unit b = unit_of CHR ''g''
         \<and> ascii_lower_unit c = unit_of CHR ''n'' then trim_start cs
      else if a = unit_naira then trim_start (b # c # cs)
      else a # b # c # cs)"
| "strip_currency (a # cs) = (if a = unit_naira then trim_start cs else a # cs)"
| "strip_currency [] = []"

section \<open>The adapters\<close>

definition CANONICAL_HEADERS :: "jstring list" where
  "CANONICAL_HEADERS = [js ''date'', js ''description'', js ''amount'', js ''type'']"

definition DATE_ALIASES :: "jstring list" where
  "DATE_ALIASES = [js ''date'', js ''transaction date'', js ''value date'', js ''posting date'']"

definition DESCRIPTION_ALIASES :: "jstring list" where
  "DESCRIPTION_ALIASES = [js ''description'', js ''narration'', js ''particulars'', js ''details'']"

datatype adapter = SteadCanonical | ProvisionalDebitCredit

fun strip_bom :: "jstring \<Rightarrow> jstring" where
  "strip_bom [] = []"
| "strip_bom (c # cs) = (if c = unit_bom then cs else c # cs)"

definition normalizeHeader :: "(jstring \<Rightarrow> jstring) \<Rightarrow> jstring \<Rightarrow> nat \<Rightarrow> jstring" where
  "normalizeHeader lower header index = lower (trim (if index = 0 then strip_bom header else header))"

definition normalize_headers :: "(jstring \<Rightarrow> jstring) \<Rightarrow> jstring list \<Rightarrow> jstring list" where
  "normalize_headers lower row = map (\<lambda>(i, h). normalizeHeader lower h i) (enumerate 0 row)"

fun findHeaderIndex :: "jstring list \<Rightarrow> jstring list \<Rightarrow> nat option" where
  "findHeaderIndex headers [] = None"
| "findHeaderIndex headers (alias # rest) =
     (case index_of headers alias of Some i \<Rightarrow> Some i | None \<Rightarrow> findHeaderIndex headers rest)"

definition toIsoDate :: "jstring \<Rightarrow> jstring" where
  "toIsoDate value =
     (let trimmed = trim value;
          iso = (\<lambda>(d, m, y). y @ [unit_dash] @ pad_start 2 (digit 0) m @ [unit_dash] @ pad_start 2 (digit 0) d)
      in if iso_shape trimmed \<noteq> None then trimmed
         else (case day_first_shape unit_slash trimmed of
                 Some p \<Rightarrow> iso p
               | None \<Rightarrow> (case day_first_shape unit_dash trimmed of
                             Some p \<Rightarrow> iso p
                           | None \<Rightarrow> trimmed)))"

definition amountPresent :: "jstring \<Rightarrow> bool" where
  "amountPresent value \<longleftrightarrow> strip_currency (trim value) \<noteq> []"

definition canonical_matches :: "jstring list \<Rightarrow> bool" where
  "canonical_matches headers \<longleftrightarrow> list_all (\<lambda>h. h \<in> set headers) CANONICAL_HEADERS"

fun adapter_matches :: "adapter \<Rightarrow> jstring list \<Rightarrow> bool" where
  "adapter_matches SteadCanonical headers = canonical_matches headers"
| "adapter_matches ProvisionalDebitCredit headers =
     (if canonical_matches headers then False
      else findHeaderIndex headers DATE_ALIASES \<noteq> None
         \<and> findHeaderIndex headers DESCRIPTION_ALIASES \<noteq> None
         \<and> js ''debit'' \<in> set headers \<and> js ''credit'' \<in> set headers)"

text \<open>\<open>record[index] ?? ''\<close>; an index of \<open>-1\<close> reads \<open>undefined\<close> too.\<close>

definition cell :: "jstring list \<Rightarrow> nat option \<Rightarrow> jstring" where
  "cell row i = (case i of None \<Rightarrow> [] | Some k \<Rightarrow> field_at row k)"

definition debit_credit_amount :: "jstring \<Rightarrow> jstring \<Rightarrow> jstring \<times> jstring" where
  "debit_credit_amount debit credit =
     (let creditFilled = amountPresent credit; debitFilled = amountPresent debit
      in if creditFilled \<and> \<not> debitFilled then (trim credit, js ''credit'')
         else if debitFilled \<and> \<not> creditFilled then (trim debit, js ''debit'')
         else ([], []))"

definition debit_credit_row :: "jstring list \<Rightarrow> jstring list \<Rightarrow> jstring list" where
  "debit_credit_row headers row =
     (let debit = cell row (index_of headers (js ''debit''));
          credit = cell row (index_of headers (js ''credit''))
      in case debit_credit_amount debit credit of (amount, type) \<Rightarrow>
         [toIsoDate (cell row (findHeaderIndex headers DATE_ALIASES)),
          cell row (findHeaderIndex headers DESCRIPTION_ALIASES), amount, type])"

fun toCanonicalCsv :: "(jstring \<Rightarrow> jstring) \<Rightarrow> adapter \<Rightarrow> jstring list list \<Rightarrow> jstring" where
  "toCanonicalCsv lower SteadCanonical records = csv_text records"
| "toCanonicalCsv lower ProvisionalDebitCredit records =
     (let headers = normalize_headers lower (hd records)
      in join [unit_nl] (js ''date,description,amount,type''
           # map (\<lambda>row. csv_line (debit_credit_row headers row)) (tl records)))"

definition transactionImportAdapters :: "adapter list" where
  "transactionImportAdapters = [SteadCanonical, ProvisionalDebitCredit]"

definition missing_columns :: http_error where
  "missing_columns = BadRequest ''CSV must include these columns: date, description, amount, type''"

definition toCanonicalImportCsv :: "(jstring \<Rightarrow> jstring) \<Rightarrow> jstring \<Rightarrow> jstring result" where
  "toCanonicalImportCsv lower csv =
     (case parseCsvRecords csv of
        Inl e \<Rightarrow> Inl e
      | Inr records \<Rightarrow>
          (if records = [] then Inl (BadRequest ''CSV is empty'')
           else (case List.find (\<lambda>a. adapter_matches a (normalize_headers lower (hd records)))
                        transactionImportAdapters of
                   None \<Rightarrow> Inl missing_columns
                 | Some a \<Rightarrow> Inr (toCanonicalCsv lower a records))))"

section \<open>What the adapters keep\<close>

lemma split_on_not_Nil [simp]: "split_on sep s \<noteq> []"
  by (induction s) (auto split: list.splits)

lemma join_split_on: "join [sep] (split_on sep s) = s"
proof (induction s)
  case (Cons c cs)
  then show ?case
    by (cases "split_on sep cs"; cases "tl (split_on sep cs)") auto
qed simp

lemma split_on_no_sep: "sep \<notin> set s \<Longrightarrow> split_on sep s = [s]"
  by (induction s) auto

lemma split_on_append: "sep \<notin> set s \<Longrightarrow> split_on sep (s @ sep # t) = s # split_on sep t"
  by (induction s) auto

lemma digit_not_sep:
  assumes "list_all is_digit s" and "\<not> is_digit sep"
  shows "sep \<notin> set s"
  using assms by (auto simp: list_all_iff)

lemma separators_no_digit [simp]: "\<not> is_digit unit_dash" "\<not> is_digit unit_slash" "\<not> is_digit unit_comma"
  by (simp_all add: unit_dash_def unit_slash_def unit_comma_def is_digit_def)

lemma iso_shape_dashes:
  assumes "digits_between 4 4 y" and "digits_between 2 2 m" and "digits_between 2 2 d"
  shows "iso_shape (y @ [unit_dash] @ m @ [unit_dash] @ d) = Some (y, m, d)"
  using assms
  by (simp add: iso_shape_def digits_between_def split_on_append split_on_no_sep digit_not_sep)

lemma length_CANONICAL_HEADERS: "length CANONICAL_HEADERS = 4"
  by (simp add: CANONICAL_HEADERS_def)

lemma length_4_not_blank: "length r = 4 \<Longrightarrow> r \<noteq> [] \<and> r \<noteq> [[]]"
  by auto

lemma header_line: "js ''date,description,amount,type'' = csv_line CANONICAL_HEADERS"
  by code_simp

lemma provisional_text:
  "toCanonicalCsv lower ProvisionalDebitCredit records =
     csv_text (CANONICAL_HEADERS # map (debit_credit_row (normalize_headers lower (hd records))) (tl records))"
  by (simp add: csv_text_def header_line comp_def Let_def)

text \<open>
  The canonical text of the debit and credit layout scans back to the header and one row per
  statement row that has something in it.
\<close>

lemma scan_provisional:
  assumes "parseCsvRecords csv = Inr records"
  shows "parseCsvRecords (toCanonicalCsv lower ProvisionalDebitCredit records)
       = Inr (CANONICAL_HEADERS
              # filter nonblank (map (debit_credit_row (normalize_headers lower (hd records))) (tl records)))"
proof -
  let ?rows = "map (debit_credit_row (normalize_headers lower (hd records))) (tl records)"
  have "\<And>r. r \<in> set ?rows \<Longrightarrow> length r = 4"
    by (auto simp: debit_credit_row_def Let_def split: prod.splits)
  then have "\<And>r. r \<in> set (CANONICAL_HEADERS # ?rows) \<Longrightarrow> length r = 4"
    by (metis length_CANONICAL_HEADERS set_ConsD)
  then have "\<And>r. r \<in> set (CANONICAL_HEADERS # ?rows) \<Longrightarrow> r \<noteq> [] \<and> r \<noteq> [[]]"
    by (rule length_4_not_blank)
  then have "csv_loop False False [] [] [] (csv_text (CANONICAL_HEADERS # ?rows)) = Inr ([] @ CANONICAL_HEADERS # ?rows)"
    by (rule scan_records)
  moreover have "nonblank CANONICAL_HEADERS" by code_simp
  ultimately show ?thesis
    unfolding provisional_text by (simp add: parseCsvRecords_def)
qed

lemma toCanonical_same_records:
  assumes "parseCsvRecords csv = Inr records" and "records \<noteq> []"
    and "canonical_matches (normalize_headers lower (hd records))"
  shows "toCanonicalImportCsv lower csv = Inr (csv_text records)"
    and "parseCsvRecords (csv_text records) = Inr records"
  using assms csv.rescan [OF assms(1)]
  by (simp_all add: toCanonicalImportCsv_def transactionImportAdapters_def)

text \<open>
  The day-first dates of bank statements become ISO dates: two-digit or one-digit day and
  month, separated by slashes or dashes, padded to the shape the import parser accepts.
\<close>

lemma toIsoDate_day_first:
  assumes "day_first_shape sep (trim v) = Some (d, m, y)" and "sep = unit_slash \<or> sep = unit_dash"
    and "iso_shape (trim v) = None"
  shows "toIsoDate v = y @ [unit_dash] @ pad_start 2 (digit 0) m @ [unit_dash] @ pad_start 2 (digit 0) d
       \<and> iso_shape (toIsoDate v) = Some (y, pad_start 2 (digit 0) m, pad_start 2 (digit 0) d)"
proof -
  have shape: "split_on sep (trim v) = [d, m, y]" "digits_between 1 2 d" "digits_between 1 2 m" "digits_between 4 4 y"
    using assms(1) by (auto simp: day_first_shape_def split: list.splits if_splits)
  have other: "day_first_shape unit_slash (trim v) = None" if "sep = unit_dash"
  proof -
    have "trim v = d @ [unit_dash] @ m @ [unit_dash] @ y"
      using join_split_on [of sep "trim v"] shape(1) that by simp
    then have "unit_slash \<notin> set (trim v)"
      using shape by (auto simp: digits_between_def list_all_iff unit_slash_def unit_dash_def is_digit_def)
    then show ?thesis by (simp add: day_first_shape_def split_on_no_sep)
  qed
  have eq: "toIsoDate v = y @ [unit_dash] @ pad_start 2 (digit 0) m @ [unit_dash] @ pad_start 2 (digit 0) d"
    using assms other by (auto simp: toIsoDate_def Let_def)
  have pad: "digits_between 2 2 (pad_start 2 (digit 0) s)" if "digits_between 1 2 s" for s
    using that by (auto simp: digits_between_def pad_start_def digit_props list_all_iff)
  show ?thesis
    using eq iso_shape_dashes [OF shape(4) pad [OF shape(3)] pad [OF shape(2)]] by simp
qed

lemma toIsoDate_day_first_witness:
  "toIsoDate (js '' 5/12/2026 '') = js ''2026-12-05''"
proof -
  have h: "day_first_shape unit_slash (trim (js '' 5/12/2026 '')) = Some (js ''5'', js ''12'', js ''2026'')"
    "iso_shape (trim (js '' 5/12/2026 '')) = None"
    "js ''2026'' @ [unit_dash] @ pad_start 2 (digit 0) (js ''12'') @ [unit_dash] @ pad_start 2 (digit 0) (js ''5'')
     = js ''2026-12-05''"
    by code_simp+
  show ?thesis
    using toIsoDate_day_first [OF h(1) _ h(2)] h(3) by simp
qed

end
