(* ===== verification/Js_Date.thy ===== *)
theory Js_Date
  imports Js_Text
begin

text \<open>
  JavaScript's Date, as far as the source uses it: instants are milliseconds since the
  epoch, the proleptic Gregorian calendar follows the definitions of ECMA-262
  (\<open>DayFromYear\<close>, \<open>YearFromTime\<close>, \<open>Date.UTC\<close>), and \<open>toISOString\<close> prints it.
\<close>

section \<open>The calendar\<close>

definition ms_per_day :: int where "ms_per_day = 86400000"

definition day_from_year :: "int \<Rightarrow> int" where
  "day_from_year y = 365 * (y - 1970) + (y - 1969) div 4 - (y - 1901) div 100 + (y - 1601) div 400"

definition leap :: "int \<Rightarrow> bool" where
  "leap y \<longleftrightarrow> y mod 4 = 0 \<and> y mod 100 \<noteq> 0 \<or> y mod 400 = 0"

text \<open>The year of a day: an estimate by the mean length of a year, at most one off.\<close>

definition year_from_day :: "int \<Rightarrow> int" where
  "year_from_day d =
     (let y = (d * 400) div 146097 + 1970
      in if day_from_year (y + 1) \<le> d then y + 1
         else if d < day_from_year y then y - 1 else y)"

definition month_lengths :: "bool \<Rightarrow> int list" where
  "month_lengths l = [31, if l then 29 else 28, 31, 30, 31, 30, 31, 31, 30, 31, 30, 31]"

fun split_month :: "int \<Rightarrow> int list \<Rightarrow> int \<Rightarrow> int \<times> int" where
  "split_month m [] d = (m, d + 1)"
| "split_month m (l # ls) d = (if d < l then (m, d + 1) else split_month (m + 1) ls (d - l))"

definition civil_from_days :: "int \<Rightarrow> int \<times> int \<times> int" where
  "civil_from_days d = (let y = year_from_day d
                        in (y, split_month 1 (month_lengths (leap y)) (d - day_from_year y)))"

text \<open>The day number of a year, month and day of month; the day may be out of range.\<close>

definition days_from_civil :: "int \<Rightarrow> int \<Rightarrow> int \<Rightarrow> int" where
  "days_from_civil y m d =
     day_from_year y + sum_list (take (nat (m - 1)) (month_lengths (leap y))) + d - 1"

definition valid_date :: "int \<Rightarrow> int \<Rightarrow> int \<Rightarrow> bool" where
  "valid_date y m d \<longleftrightarrow>
     1 \<le> m \<and> m \<le> 12 \<and> 1 \<le> d \<and> d \<le> month_lengths (leap y) ! nat (m - 1)"

lemma div_step:
  assumes "0 < (k :: int)"
  shows "(n + 1) div k = n div k + (if (n + 1) mod k = 0 then 1 else 0)"
proof (cases "n mod k = k - 1")
  case True
  then have "n + 1 = k * (n div k + 1) + 0"
    using mult_div_mod_eq [of k n] by (simp only: distrib_left mult_1_right add_0_right)
  then have "(n + 1) div k = n div k + 1" "(n + 1) mod k = 0"
    using assms by (auto intro: int_div_pos_eq int_mod_pos_eq)
  then show ?thesis by simp
next
  case False
  then have h: "n + 1 = k * (n div k) + (n mod k + 1)" "0 \<le> n mod k + 1" "n mod k + 1 < k"
    using mult_div_mod_eq [of k n] pos_mod_bound [OF assms, of n] pos_mod_sign [OF assms, of n]
    by linarith+
  have "(n + 1) div k = n div k" "(n + 1) mod k = n mod k + 1"
    by (rule int_div_pos_eq [OF h], rule int_mod_pos_eq [OF h])
  moreover have "n mod k + 1 \<noteq> 0"
    using pos_mod_sign [OF assms, of n] by linarith
  ultimately show ?thesis by simp
qed

lemma leap_days:
  "(if leap y then 1 else 0) =
     (if y mod 4 = 0 then 1 else 0) - (if y mod 100 = 0 then 1 else 0) + (if y mod 400 = 0 then 1 else (0 :: int))"
proof -
  have d: "y mod 400 = 0 \<Longrightarrow> y mod 100 = 0" "y mod 100 = 0 \<Longrightarrow> y mod 4 = 0"
    using mod_mod_cancel [of 100 400 y] mod_mod_cancel [of 4 100 y] by auto
  show ?thesis
  proof (cases "y mod 400 = 0")
    case True
    with d show ?thesis by (simp only: leap_def if_True HOL.simp_thms)
  next
    case False
    with d(2) show ?thesis by (cases "y mod 100 = 0") (simp_all add: leap_def)
  qed
qed

lemma day_from_year_step: "day_from_year (y + 1) = day_from_year y + (if leap y then 366 else 365)"
proof -
  define p q r :: int where pqr: "p = (if y mod 4 = 0 then 1 else 0)"
    "q = (if y mod 100 = 0 then 1 else 0)" "r = (if y mod 400 = 0 then 1 else 0)"
  define A B C where abc: "A = (y - 1969) div 4" "B = (y - 1901) div 100" "C = (y - 1601) div 400"
  have "(y + 1 - 1969) div 4 = A + p"
    using div_step [of 4 "y - 1969"] mod_mult_self1 [of y "-492" 4] by (simp add: pqr abc)
  moreover have "(y + 1 - 1901) div 100 = B + q"
    using div_step [of 100 "y - 1901"] mod_mult_self1 [of y "-19" 100] by (simp add: pqr abc)
  moreover have "(y + 1 - 1601) div 400 = C + r"
    using div_step [of 400 "y - 1601"] mod_mult_self1 [of y "-4" 400] by (simp add: pqr abc)
  ultimately have "day_from_year (y + 1) = 365 * (y + 1 - 1970) + (A + p) - (B + q) + (C + r)"
    by (simp only: day_from_year_def)
  also have "\<dots> = day_from_year y + 365 + (p - q + r)"
    by (simp add: day_from_year_def abc [symmetric])
  also have "p - q + r = (if leap y then 1 else 0)"
    by (simp only: leap_days pqr)
  finally show ?thesis by simp
qed

lemma div_bounds: "0 < k \<Longrightarrow> k * (n div k) \<le> n \<and> n < k * (n div k) + (k :: int)"
  using mult_div_mod_eq [of k n] pos_mod_bound [of k n] pos_mod_sign [of k n] by linarith

lemma day_from_year_strict_mono: "y < z \<Longrightarrow> day_from_year y < day_from_year z"
proof (induction "nat (z - y)" arbitrary: z)
  case 0
  then show ?case by simp
next
  case (Suc n)
  have s: "day_from_year (z - 1) < day_from_year z"
    using day_from_year_step [of "z - 1"] by (simp split: if_splits)
  show ?case
  proof (cases "y = z - 1")
    case True
    with s show ?thesis by simp
  next
    case False
    with Suc have "day_from_year y < day_from_year (z - 1)" by simp
    with s show ?thesis by simp
  qed
qed

lemma year_from_day_bounds:
  "day_from_year (year_from_day d) \<le> d" "d < day_from_year (year_from_day d + 1)"
proof -
  define y where "y = (d * 400) div 146097 + 1970"
  have est: "146097 * (y - 1970) \<le> d * 400" "d * 400 < 146097 * (y - 1970) + 146097"
    using mult_div_mod_eq [of 146097 "d * 400"] pos_mod_bound [of 146097 "d * 400"]
      pos_mod_sign [of 146097 "d * 400"] by (simp_all add: y_def)
  have lo: "day_from_year (y - 1) \<le> d"
    using est div_bounds [of 4 "y - 1 - 1969"] div_bounds [of 100 "y - 1 - 1901"]
      div_bounds [of 400 "y - 1 - 1601"] by (simp add: day_from_year_def)
  have hi: "d < day_from_year (y + 1 + 1)"
    using est div_bounds [of 4 "y + 2 - 1969"] div_bounds [of 100 "y + 2 - 1901"]
      div_bounds [of 400 "y + 2 - 1601"] by (simp add: day_from_year_def)
  show "day_from_year (year_from_day d) \<le> d" "d < day_from_year (year_from_day d + 1)"
    using lo hi unfolding year_from_day_def Let_def y_def [symmetric] by (auto split: if_splits)
qed

lemma year_from_day_unique:
  assumes "day_from_year y \<le> d" and "d < day_from_year (y + 1)"
  shows "year_from_day d = y"
proof (rule ccontr)
  assume ne: "year_from_day d \<noteq> y"
  show False
  proof (cases "year_from_day d < y")
    case True
    then have "day_from_year (year_from_day d + 1) \<le> day_from_year y"
      using day_from_year_strict_mono [of "year_from_day d + 1" y] by (cases "year_from_day d + 1 = y") auto
    with assms year_from_day_bounds [of d] show False by simp
  next
    case False
    with ne have "day_from_year (y + 1) \<le> day_from_year (year_from_day d)"
      using day_from_year_strict_mono [of "y + 1" "year_from_day d"] by (cases "y + 1 = year_from_day d") auto
    with assms year_from_day_bounds [of d] show False by simp
  qed
qed

lemma split_month_take:
  assumes "k < length ls" and "0 \<le> e" and "e < ls ! k" and "\<forall>l \<in> set ls. 0 \<le> l"
  shows "split_month m ls (sum_list (take k ls) + e) = (m + int k, e + 1)"
  using assms
proof (induction ls arbitrary: k m)
  case Nil
  then show ?case by simp
next
  case (Cons l ls)
  show ?case
  proof (cases k)
    case 0
    with Cons.prems show ?thesis by simp
  next
    case (Suc j)
    have "0 \<le> sum_list (take j ls)"
      using Cons.prems(4) by (intro sum_list_nonneg) (auto dest: in_set_takeD)
    with Suc Cons.IH [of j "m + 1"] Cons.prems show ?thesis by simp
  qed
qed

lemma split_month_inverse:
  assumes "0 \<le> d" and "d < sum_list ls" and "split_month m ls d = (m', e)"
  shows "\<exists>k < length ls. m' = m + int k \<and> d = sum_list (take k ls) + e - 1 \<and> 1 \<le> e \<and> e \<le> ls ! k"
  using assms
proof (induction ls arbitrary: m d)
  case Nil
  then show ?case by simp
next
  case (Cons l ls)
  show ?case
  proof (cases "d < l")
    case True
    with Cons.prems show ?thesis by (intro exI [of _ 0]) auto
  next
    case False
    with Cons.prems Cons.IH [of "d - l" "m + 1"] obtain k where
      "k < length ls" "m' = m + 1 + int k" "d - l = sum_list (take k ls) + e - 1" "1 \<le> e" "e \<le> ls ! k"
      by auto
    then show ?thesis by (intro exI [of _ "Suc k"]) auto
  qed
qed

lemma month_lengths_props [simp]:
  "length (month_lengths l) = 12" "\<forall>x \<in> set (month_lengths l). 0 \<le> x"
  "sum_list (month_lengths l) = (if l then 366 else 365)"
  by (simp_all add: month_lengths_def)

theorem days_from_civil_from_days:
  assumes "civil_from_days n = (y, m, d)"
  shows "days_from_civil y m d = n" and "valid_date y m d"
proof -
  have y: "y = year_from_day n"
    and md: "split_month 1 (month_lengths (leap y)) (n - day_from_year y) = (m, d)"
    using assms by (auto simp: civil_from_days_def Let_def)
  have "0 \<le> n - day_from_year y" "n - day_from_year y < sum_list (month_lengths (leap y))"
    using year_from_day_bounds [of n] day_from_year_step [of y] y by auto
  from split_month_inverse [OF this md] obtain k where
    k: "k < 12" "m = 1 + int k" "n - day_from_year y = sum_list (take k (month_lengths (leap y))) + d - 1"
       "1 \<le> d" "d \<le> month_lengths (leap y) ! k"
    by auto
  then show "days_from_civil y m d = n" "valid_date y m d"
    by (auto simp: days_from_civil_def valid_date_def)
qed

lemma sum_take_Suc_le:
  assumes "k < length ls" and "\<forall>l \<in> set ls. (0 :: int) \<le> l"
  shows "sum_list (take k ls) + ls ! k \<le> sum_list ls"
proof -
  have "sum_list ls = sum_list (take (Suc k) ls) + sum_list (drop (Suc k) ls)"
    by (metis append_take_drop_id sum_list.append)
  moreover have "0 \<le> sum_list (drop (Suc k) ls)"
    using assms by (intro sum_list_nonneg) (auto dest: in_set_dropD)
  ultimately show ?thesis
    using assms by (simp add: take_Suc_conv_app_nth)
qed

theorem civil_from_days_from_civil:
  assumes "valid_date y m d"
  shows "civil_from_days (days_from_civil y m d) = (y, m, d)"
proof -
  let ?ls = "month_lengths (leap y)"
  let ?k = "nat (m - 1)"
  have v: "1 \<le> m" "?k < 12" "1 \<le> d" "d \<le> ?ls ! ?k"
    using assms by (auto simp: valid_date_def)
  let ?n = "days_from_civil y m d"
  have "0 \<le> sum_list (take ?k ?ls)"
    by (intro sum_list_nonneg) (auto dest!: in_set_takeD simp: month_lengths_def split: if_splits)
  then have lo: "day_from_year y \<le> ?n"
    using v by (simp add: days_from_civil_def)
  have hi: "?n < day_from_year (y + 1)"
    using sum_take_Suc_le [of ?k ?ls] v day_from_year_step [of y]
    by (simp add: days_from_civil_def)
  have y: "year_from_day ?n = y"
    by (rule year_from_day_unique [OF lo hi])
  have "split_month 1 ?ls (sum_list (take ?k ?ls) + (d - 1)) = (1 + int ?k, d - 1 + 1)"
    using v by (intro split_month_take) auto
  then show ?thesis
    using v(1) y by (simp add: civil_from_days_def Let_def days_from_civil_def algebra_simps)
qed

section \<open>Printing\<close>

definition pad2 :: "int \<Rightarrow> jstring" where "pad2 n = pad_start 2 (digit 0) (dec n)"
definition pad3 :: "int \<Rightarrow> jstring" where "pad3 n = pad_start 3 (digit 0) (dec n)"

definition iso_year :: "int \<Rightarrow> jstring" where
  "iso_year y =
     (if 0 \<le> y \<and> y \<le> 9999 then pad_start 4 (digit 0) (dec y)
      else (if y < 0 then js ''-'' else js ''+'') @ pad_start 6 (digit 0) (dec \<bar>y\<bar>))"

text \<open>The date part of \<open>toISOString\<close>, and the whole string.\<close>

definition iso_date :: "int \<Rightarrow> jstring" where
  "iso_date day = (case civil_from_days day of (y, m, d) \<Rightarrow>
     iso_year y @ js ''-'' @ pad2 m @ js ''-'' @ pad2 d)"

definition to_iso_string :: "ms \<Rightarrow> jstring" where
  "to_iso_string t =
     (let r = t mod ms_per_day
      in iso_date (t div ms_per_day) @ js ''T'' @ pad2 (r div 3600000) @ js '':''
         @ pad2 (r div 60000 mod 60) @ js '':'' @ pad2 (r div 1000 mod 60) @ js ''.''
         @ pad3 (r mod 1000) @ js ''Z'')"

text \<open>\<open>Date.UTC\<close>: two-digit years count from 1900.\<close>

definition date_utc_day :: "int \<Rightarrow> int \<Rightarrow> int \<Rightarrow> int" where
  "date_utc_day y m d = days_from_civil (if 0 \<le> y \<and> y \<le> 99 then 1900 + y else y) m d"

text \<open>The day of the week, Sunday being 0.\<close>

definition week_day :: "int \<Rightarrow> int" where
  "week_day day = (day + 4) mod 7"

section \<open>Dates of four-digit years are told apart by their text\<close>

lemma length_pad_start: "length s \<le> k \<Longrightarrow> length (pad_start k c s) = k"
  by (simp add: pad_start_def)

lemma length_pad2: "0 \<le> n \<Longrightarrow> n < 100 \<Longrightarrow> length (pad2 n) = 2"
  using length_dec [of n 2] by (simp add: pad2_def length_pad_start)

lemma digits_value_pad_dec: "0 \<le> n \<Longrightarrow> digits_value (pad_start k (digit 0) (dec n)) = n"
  by (simp add: digits_value_pad digits_value_dec)

definition year_of_day :: "int \<Rightarrow> int" where
  "year_of_day d = fst (civil_from_days d)"

lemma iso_date_parts:
  assumes "civil_from_days n = (y, m, d)" and "0 \<le> y" and "y \<le> 9999"
  shows "iso_date n = iso_year y @ js ''-'' @ pad2 m @ js ''-'' @ pad2 d"
    and "length (iso_year y) = 4" and "length (pad2 m) = 2" and "length (pad2 d) = 2"
    and "digits_value (iso_year y) = y" and "digits_value (pad2 m) = m" and "digits_value (pad2 d) = d"
proof -
  have v: "1 \<le> m" "m \<le> 12" "1 \<le> d" "d \<le> 31"
  proof -
    have "valid_date y m d" by (rule days_from_civil_from_days(2) [OF assms(1)])
    moreover have "month_lengths l ! k \<le> 31" if "k < 12" for l k
      using that unfolding month_lengths_def by (auto simp: less_Suc_eq numeral_eq_Suc)
    ultimately show "1 \<le> m" "m \<le> 12" "1 \<le> d" "d \<le> 31"
      unfolding valid_date_def by (auto intro: order_trans)
  qed
  show "iso_date n = iso_year y @ js ''-'' @ pad2 m @ js ''-'' @ pad2 d"
    by (simp add: iso_date_def assms(1))
  show "length (iso_year y) = 4" "length (pad2 m) = 2" "length (pad2 d) = 2"
    using assms(2,3) v length_dec [of y 4] length_dec [of m 2] length_dec [of d 2]
    by (simp_all add: iso_year_def pad2_def length_pad_start)
  show "digits_value (iso_year y) = y" "digits_value (pad2 m) = m" "digits_value (pad2 d) = d"
    using assms(2,3) v by (simp_all add: iso_year_def pad2_def digits_value_pad_dec)
qed

lemma length_iso_date:
  assumes "0 \<le> year_of_day d" and "year_of_day d \<le> 9999"
  shows "length (iso_date d) = 10"
proof -
  obtain y m dd where c: "civil_from_days d = (y, m, dd)" by (cases "civil_from_days d")
  have "0 \<le> y" "y \<le> 9999" using assms by (simp_all add: year_of_day_def c)
  note p = iso_date_parts [OF c this]
  show ?thesis by (simp add: p(1-4) js_def)
qed

theorem iso_date_inject:
  assumes "iso_date a = iso_date b"
    and "0 \<le> year_of_day a" "year_of_day a \<le> 9999" "0 \<le> year_of_day b" "year_of_day b \<le> 9999"
  shows "a = b"
proof -
  obtain y m d where a: "civil_from_days a = (y, m, d)" by (cases "civil_from_days a")
  obtain y' m' d' where b: "civil_from_days b = (y', m', d')" by (cases "civil_from_days b")
  have r: "0 \<le> y" "y \<le> 9999" "0 \<le> y'" "y' \<le> 9999"
    using assms(2-5) by (simp_all add: year_of_day_def a b)
  note pa = iso_date_parts [OF a r(1,2)] and pb = iso_date_parts [OF b r(3,4)]
  have "iso_year y = iso_year y' \<and> pad2 m = pad2 m' \<and> pad2 d = pad2 d'"
    using assms(1) unfolding pa(1) pb(1) by (simp add: pa(2-4) pb(2-4))
  then have "(y, m, d) = (y', m', d')"
    by (metis pa(5-7) pb(5-7))
  then show ?thesis
    by (metis a b days_from_civil_from_days(1) prod.inject)
qed

section \<open>Reading an instant back\<close>

text \<open>
  Instants whose text has a four-digit year, and a reader of that text. \<open>Date\<close> reads other
  formats too, in ways that depend on the engine: where the source parses the date string of a
  request, the parser is a parameter; what is asked of it is \<open>parses_iso\<close>, which ECMA-262
  guarantees (\<open>Date.parse(x.toISOString())\<close> is \<open>x\<close>).
\<close>

definition four_digit_year :: "ms \<Rightarrow> bool" where
  "four_digit_year t \<longleftrightarrow> 0 \<le> year_of_day (t div ms_per_day) \<and> year_of_day (t div ms_per_day) \<le> 9999"

definition parses_iso :: "(jstring \<Rightarrow> ms option) \<Rightarrow> bool" where
  "parses_iso new_date \<longleftrightarrow> (\<forall>t. four_digit_year t \<longrightarrow> new_date (to_iso_string t) = Some t)"

definition part :: "nat \<Rightarrow> nat \<Rightarrow> jstring \<Rightarrow> int" where
  "part from len s = digits_value (take len (drop from s))"

definition parse_iso :: "jstring \<Rightarrow> ms option" where
  "parse_iso s =
     (if length s = 24
      then Some (days_from_civil (part 0 4 s) (part 5 2 s) (part 8 2 s) * ms_per_day
                 + part 11 2 s * 3600000 + part 14 2 s * 60000 + part 17 2 s * 1000 + part 20 3 s)
      else None)"

lemma pad_number:
  assumes "0 \<le> n" and "n < 10 ^ k" and "0 < k"
  shows "length (pad_start k (digit 0) (dec n)) = k" and "digits_value (pad_start k (digit 0) (dec n)) = n"
  using length_dec [OF assms] assms(1) by (simp_all add: length_pad_start digits_value_pad_dec)

lemma split_time:
  assumes "0 \<le> r" and "r < 86400000"
  shows "r div 3600000 * 3600000 + r div 60000 mod 60 * 60000 + r div 1000 mod 60 * 1000 + r mod 1000 = (r :: int)"
    and "0 \<le> r div 3600000" "r div 3600000 < 100"
proof -
  let ?s = "r div 1000" and ?m = "r div 60000"
  have m: "?m = ?s div 60" and h: "r div 3600000 = ?m div 60"
    using zdiv_zmult2_eq [of 60 r 1000] zdiv_zmult2_eq [of 60 r 60000] by simp_all
  have "r = ?s * 1000 + r mod 1000" "?s = ?m * 60 + ?s mod 60" "?m = r div 3600000 * 60 + ?m mod 60"
    unfolding m h by simp_all
  then show "r div 3600000 * 3600000 + ?m mod 60 * 60000 + ?s mod 60 * 1000 + r mod 1000 = r"
    by linarith
  show "0 \<le> r div 3600000" "r div 3600000 < 100"
    using assms by (simp_all add: pos_imp_zdiv_nonneg_iff div_less_iff_less_mult)
qed

lemma iso_parts:
  assumes "length yy = 4" "length mm = 2" "length dd = 2" "length hh = 2" "length mi = 2" "length ss = 2" "length zz = 3"
  defines "s \<equiv> (yy @ js ''-'' @ mm @ js ''-'' @ dd) @ js ''T'' @ hh @ js '':'' @ mi @ js '':'' @ ss @ js ''.'' @ zz @ js ''Z''"
  shows "length s = 24" "part 0 4 s = digits_value yy" "part 5 2 s = digits_value mm" "part 8 2 s = digits_value dd"
    "part 11 2 s = digits_value hh" "part 14 2 s = digits_value mi" "part 17 2 s = digits_value ss"
    "part 20 3 s = digits_value zz"
  by (simp_all add: s_def part_def js_def assms(1-7))

theorem parse_iso_string:
  assumes "four_digit_year t"
  shows "parse_iso (to_iso_string t) = Some t"
proof -
  let ?day = "t div ms_per_day" and ?r = "t mod ms_per_day"
  obtain y m d where c: "civil_from_days ?day = (y, m, d)" by (cases "civil_from_days ?day")
  have "0 \<le> y" "y \<le> 9999" using assms by (simp_all add: four_digit_year_def year_of_day_def c)
  note p = iso_date_parts [OF c this]
  have r: "0 \<le> ?r" "?r < 86400000" by (simp_all add: ms_per_day_def)
  note time = split_time [OF r]
  have two: "length (pad2 n) = 2" "digits_value (pad2 n) = n" if "0 \<le> n" "n < 100" for n
    using pad_number [of n 2] that by (simp_all add: pad2_def)
  have three: "length (pad3 n) = 3" "digits_value (pad3 n) = n" if "0 \<le> n" "n < 1000" for n
    using pad_number [of n 3] that by (simp_all add: pad3_def)
  have mod60: "0 \<le> k mod 60" "k mod 60 < 100" for k :: int
    using pos_mod_bound [of 60 k] by simp_all
  have "days_from_civil y m d = ?day" by (rule days_from_civil_from_days(1) [OF c])
  then have sum: "days_from_civil y m d * ms_per_day
     + ?r div 3600000 * 3600000 + ?r div 60000 mod 60 * 60000 + ?r div 1000 mod 60 * 1000 + ?r mod 1000 = t"
    using time(1) div_mult_mod_eq [of t ms_per_day] by (simp add: add.assoc)
  have z: "0 \<le> ?r mod 1000" "?r mod 1000 < 1000" by simp_all
  note parts = iso_parts [OF p(2-4) two(1) [OF time(2,3)] two(1) [OF mod60] two(1) [OF mod60] three(1) [OF z],
      of "?r div 60000" "?r div 1000"]
  show ?thesis
    unfolding parse_iso_def to_iso_string_def Let_def p(1) parts p(5-7) two(2) [OF time(2,3)]
      two(2) [OF mod60] three(2) [OF z] sum
    by (rule if_P) (rule refl)
qed

lemma parses_iso_parse_iso: "parses_iso parse_iso"
  by (simp add: parses_iso_def parse_iso_string)

end
