(* ===== verification/Schema.thy ===== *)
theory Schema
  imports Prelude Complex_Main
begin

text \<open>
  The rows of the database, one record per model of \<open>api/prisma/schema.prisma\<close>, with the
  model's columns. \<open>BigInt\<close> and \<open>Int\<close> columns are integers, \<open>DateTime\<close> columns instants in
  milliseconds, optional columns options. Columns no modelled code reads or writes are left
  out.
\<close>

section \<open>JSON texts\<close>

text \<open>
  Some columns hold JSON text. Such a text is represented by the value \<open>JSON.parse\<close> reads from
  it: \<open>Json v\<close> is what \<open>JSON.stringify\<close> writes for \<open>v\<close>, and \<open>NotJson\<close> a text on which
  \<open>JSON.parse\<close> throws.
\<close>

datatype json =
    JNull
  | JBool bool
  | JNumber rat
  | JString jstring
  | JArray "json list"
  | JObject "(jstring \<times> json) list"

datatype json_text = Json json | NotJson jstring

fun json_get :: "json \<Rightarrow> jstring \<Rightarrow> json option" where
  "json_get (JObject ps) k = map_of ps k"
| "json_get _ k = None"

section \<open>Users, goals and transactions\<close>

record user_row =
  u_id :: jstring
  u_phone :: jstring
  u_displayName :: "jstring option"
  u_createdAt :: ms
  u_updatedAt :: ms

datatype goal_status = GoalActive | GoalCompleted | GoalCancelled | GoalReplaced

record goal_row =
  g_id :: jstring
  g_userId :: jstring
  g_name :: jstring
  g_amountTotalKobo :: int
  g_dueDate :: ms
  g_monthlyIncomeKobo :: "int option"
  g_isActive :: bool
  g_status :: goal_status
  g_endedAt :: "ms option"
  g_createdAt :: ms

text \<open>The \<open>direction\<close> column is a plain string; the source treats every value but \<open>'in'\<close>
  as an outflow when it sums, and refuses to serialize a row that has neither value.\<close>

record transaction_row =
  t_id :: jstring
  t_userId :: jstring
  t_goalId :: "jstring option"
  t_amountKobo :: int
  t_direction :: jstring
  t_occurredAt :: ms
  t_note :: "jstring option"
  t_importFingerprint :: "jstring option"
  t_createdAt :: ms

section \<open>Readiness alerts\<close>

datatype stability_status = Stable | Warning | Critical

record alert_preference_row =
  ap_userId :: jstring
  ap_weeklySummaryEnabled :: bool
  ap_riskAlertsEnabled :: bool
  ap_timeZone :: jstring
  ap_weeklyDay :: int
  ap_weeklyHourLocal :: int
  ap_updatedAt :: ms

record alert_state_row =
  as_userId :: jstring
  as_goalId :: jstring
  as_lastObservedStatus :: stability_status
  as_lastObservedScore :: int
  as_lastNotifiedStatus :: "stability_status option"
  as_lastNotifiedScore :: "int option"
  as_lastRiskAlertAt :: "ms option"
  as_lastRecoveryAlertAt :: "ms option"
  as_lastWeeklySummaryAt :: "ms option"
  as_lastWeeklySummaryKey :: "jstring option"

section \<open>Authentication\<close>

record refresh_token_row =
  rt_id :: jstring
  rt_userId :: jstring
  rt_tokenHash :: jstring
  rt_familyId :: jstring
  rt_familyCreatedAt :: ms
  rt_deviceHash :: "jstring option"
  rt_expiresAt :: ms
  rt_revokedAt :: "ms option"
  rt_replacedById :: "jstring option"
  rt_createdAt :: ms

record otp_code_row =
  oc_id :: jstring
  oc_userId :: jstring
  oc_codeHash :: jstring
  oc_requestKeyHash :: jstring
  oc_requestCompletedAt :: "ms option"
  oc_developmentOtp :: "jstring option"
  oc_verificationKeyHash :: "jstring option"
  oc_verificationRequestHash :: "jstring option"
  oc_verificationResponseJson :: "json_text option"
  oc_verifiedAt :: "ms option"
  oc_verifyAttempts :: nat
  oc_expiresAt :: ms
  oc_consumedAt :: "ms option"
  oc_createdAt :: ms
  oc_ip :: "jstring option"
  oc_userAgent :: "jstring option"

datatype auth_event_type =
    OtpRequested
  | OtpRequestRateLimited
  | OtpResendBlocked
  | OtpVerifyFailed
  | OtpVerifyLocked
  | OtpVerifySucceeded

record auth_event_row =
  ae_id :: jstring
  ae_type :: auth_event_type
  ae_phone :: jstring
  ae_countryIso :: jstring
  ae_ip :: "jstring option"
  ae_deviceHash :: "jstring option"
  ae_userAgent :: "jstring option"
  ae_attemptNumber :: "nat option"
  ae_metadataJson :: "json_text option"
  ae_createdAt :: ms
  ae_userId :: "jstring option"
  ae_otpCodeId :: "jstring option"

record country_row =
  c_isoCode :: jstring
  c_name :: jstring
  c_dialCode :: jstring
  c_currencyCode :: jstring
  c_phoneExample :: jstring
  c_authEnabled :: bool
  c_marketEnabled :: bool
  c_defaultCountry :: bool
  c_sortOrder :: int

section \<open>Consents and notification jobs\<close>

datatype consent_category = Analytics | ProductResearch

record consent_preference_row =
  cp_userId :: jstring
  cp_analyticsEnabled :: bool
  cp_productResearchEnabled :: bool
  cp_updatedAt :: ms

record consent_record_row =
  cr_userId :: jstring
  cr_category :: consent_category
  cr_granted :: bool
  cr_createdAt :: ms

datatype job_status = Pending | Processing | Sent | Failed | DeadLetter

record job_row =
  j_id :: jstring
  j_type :: jstring
  j_payloadJson :: json_text
  j_status :: job_status
  j_attempts :: nat
  j_maxAttempts :: nat
  j_nextRunAt :: ms
  j_lockedAt :: "ms option"
  j_sentAt :: "ms option"
  j_failedAt :: "ms option"
  j_lastError :: "jstring option"
  j_provider :: "jstring option"
  j_providerMessageId :: "jstring option"
  j_correlationId :: jstring
  j_userId :: "jstring option"
  j_otpCodeId :: "jstring option"
  j_goalId :: "jstring option"
  j_dedupeKey :: "jstring option"
  j_createdAt :: ms
  j_updatedAt :: ms

record failure_attempt_row =
  fa_notificationJobId :: jstring
  fa_attemptNumber :: nat
  fa_terminal :: bool
  fa_failedAt :: ms

section \<open>The database\<close>

record db =
  users :: "user_row list"
  goals :: "goal_row list"
  transactions :: "transaction_row list"
  alertPreferences :: "alert_preference_row list"
  alertStates :: "alert_state_row list"
  refreshTokens :: "refresh_token_row list"
  otpCodes :: "otp_code_row list"
  authEvents :: "auth_event_row list"
  countries :: "country_row list"
  consentPreferences :: "consent_preference_row list"
  consentRecords :: "consent_record_row list"
  jobs :: "job_row list"
  failureAttempts :: "failure_attempt_row list"

definition empty_db :: db where
  "empty_db = \<lparr>users = [], goals = [], transactions = [], alertPreferences = [], alertStates = [],
     refreshTokens = [], otpCodes = [], authEvents = [], countries = [], consentPreferences = [],
     consentRecords = [], jobs = [], failureAttempts = []\<rparr>"

section \<open>What the database checks\<close>

text \<open>A foreign key, and the range of a \<open>BIGINT\<close> column. A violation is an error the services
  do not catch.\<close>

definition user_exists :: "db \<Rightarrow> jstring \<Rightarrow> bool" where
  "user_exists d userId \<longleftrightarrow> list_ex (\<lambda>u. u_id u = userId) (users d)"

text \<open>The phone number of the user a row refers to.\<close>

definition user_phone :: "db \<Rightarrow> jstring \<Rightarrow> jstring" where
  "user_phone d userId = (case find_first (\<lambda>u. u_id u = userId) (users d) of None \<Rightarrow> [] | Some u \<Rightarrow> u_phone u)"

definition goal_exists :: "db \<Rightarrow> jstring \<Rightarrow> bool" where
  "goal_exists d goalId \<longleftrightarrow> list_ex (\<lambda>g. g_id g = goalId) (goals d)"

definition big_int_column :: "int \<Rightarrow> int result" where
  "big_int_column n = (if - (2 ^ 63) \<le> n \<and> n < 2 ^ 63 then Inr n
                       else Inl (ServerError ''Unable to fit integer value into an INT8''))"

text \<open>\<open>BigInt(value)\<close> of a request field: \<open>null\<close> is a \<open>TypeError\<close>.\<close>

definition bigint_of_null :: http_error where
  "bigint_of_null = ServerError ''Cannot convert null to a BigInt''"

definition invalid_date :: http_error where
  "invalid_date = ServerError ''Invalid Date''"

definition null_column :: http_error where
  "null_column = ServerError ''Argument must not be null''"

end
