(* ===== verification/Import_Parser.thy ===== *)
theory Import_Parser
  imports Import_Adapters Js_Date Schema "HOL-Library.Multiset"
begin

text \<open>
  The import parser \<open>api/src/transactions/transaction-import.parser.ts\<close>: it reads the canonical
  text of a statement and gives one row per record, with its fields, its errors and, where
  there are none, the fingerprint that identifies the transaction. \<open>lower\<close> is \<open>toLowerCase\<close>
  (and \<open>toLocaleLowerCase('en-NG')\<close>, a locale without tailored mappings); \<open>sha256\<close> is the
  hexadecimal digest of \<open>node:crypto\<close>.
\<close>

section \<open>The fields of a row\<close>

datatype direction = DirIn | DirOut

fun direction_text :: "direction \<Rightarrow> jstring" where
  "direction_text DirIn = js ''in''"
| "direction_text DirOut = js ''out''"

text \<open>
  \<open>new Date(`${date}T12:00:00.000Z`)\<close>: the string parser of the engine accepts the months 1 to
  12 and the days 1 to 31, and carries a day past the end of the month over.
\<close>

definition noon_of :: "int \<Rightarrow> int \<Rightarrow> int \<Rightarrow> ms option" where
  "noon_of y m d = (if 1 \<le> m \<and> m \<le> 12 \<and> 1 \<le> d \<and> d \<le> 31
                    then Some (days_from_civil y m d * ms_per_day + 43200000) else None)"

definition parseDate :: "jstring \<Rightarrow> jstring option" where
  "parseDate value =
     (let normalized = trim value
      in case iso_shape normalized of
           None \<Rightarrow> None
         | Some (y, m, d) \<Rightarrow>
             (case noon_of (digits_value y) (digits_value m) (digits_value d) of
                None \<Rightarrow> None
              | Some date \<Rightarrow>
                  if take 10 (to_iso_string date) \<noteq> normalized then None
                  else Some (to_iso_string date)))"

definition parseDirection :: "(jstring \<Rightarrow> jstring) \<Rightarrow> jstring \<Rightarrow> direction option" where
  "parseDirection lower value =
     (let normalized = lower (trim value)
      in if normalized \<in> {js ''income'', js ''in'', js ''credit''} then Some DirIn
         else if normalized \<in> {js ''expense'', js ''out'', js ''debit''} then Some DirOut
         else None)"

definition unit_dot :: code_unit where "unit_dot = 46"
definition MAX_SAFE_INTEGER :: int where "MAX_SAFE_INTEGER = 9007199254740991"

text \<open>\<open>\d+|\d{1,3}(?:,\d{3})+\<close>\<close>

definition whole_shape :: "jstring \<Rightarrow> bool" where
  "whole_shape s \<longleftrightarrow> s \<noteq> [] \<and> list_all is_digit s
     \<or> (case split_on unit_comma s of
          p # ps \<Rightarrow> ps \<noteq> [] \<and> digits_between 1 3 p \<and> list_all (digits_between 3 3) ps
        | [] \<Rightarrow> False)"

text \<open>\<open>/^(?:WHOLE)(?:\.\d{1,2})?$/\<close>\<close>

definition amount_shape :: "jstring \<Rightarrow> bool" where
  "amount_shape s = (case split_on unit_dot s of
     [w] \<Rightarrow> whole_shape w
   | [w, f] \<Rightarrow> whole_shape w \<and> digits_between 1 2 f
   | _ \<Rightarrow> False)"

definition parseAmountKobo :: "jstring \<Rightarrow> int option" where
  "parseAmountKobo value =
     (let displayAmount = strip_currency (trim value)
      in if \<not> amount_shape displayAmount then None
         else (let normalized = filter (\<lambda>c. c \<noteq> unit_comma) displayAmount;
                   parts = split_on unit_dot normalized;
                   whole = hd parts;
                   fraction = field_at parts 1;
                   kobo = digits_value whole * 100 + digits_value (pad_end 2 (digit 0) fraction)
               in if kobo \<le> 0 \<or> kobo > MAX_SAFE_INTEGER then None else Some kobo))"

text \<open>\<open>replace(/\s+/g, ' ')\<close>\<close>

definition unit_space :: code_unit where "unit_space = 32"

fun collapse_spaces :: "jstring \<Rightarrow> jstring" where
  "collapse_spaces [] = []"
| "collapse_spaces (c # cs) =
     (if is_space c then
        (case cs of
           [] \<Rightarrow> [unit_space]
         | d # _ \<Rightarrow> if is_space d then collapse_spaces cs else unit_space # collapse_spaces cs)
      else c # collapse_spaces cs)"

section \<open>The rows of a statement\<close>

record import_row =
  ir_rowNumber :: int
  ir_occurredAt :: "jstring option"
  ir_direction :: "direction option"
  ir_amountKobo :: "int option"
  ir_note :: "jstring option"
  ir_fingerprint :: "jstring option"
  ir_duplicate :: bool
  ir_error :: "jstring option"

definition MAX_ROWS :: nat where "MAX_ROWS = 500"

text \<open>The positions of the four required columns.\<close>

record column_indexes =
  ix_date :: nat
  ix_description :: nat
  ix_amount :: nat
  ix_type :: nat

definition row_errors :: "jstring option \<Rightarrow> direction option \<Rightarrow> int option \<Rightarrow> jstring \<Rightarrow> jstring list" where
  "row_errors occurredAt direction amountKobo note =
     (if occurredAt = None then [js ''Date must use YYYY-MM-DD''] else [])
     @ (if direction = None then [js ''Type must be income, expense, credit, or debit''] else [])
     @ (if amountKobo = None then [js ''Amount must be a positive naira value''] else [])
     @ (if note = [] then [js ''Description is required''] else [])
     @ (if length note > 280 then [js ''Description cannot exceed 280 characters''] else [])"

definition pipe :: jstring where "pipe = js ''|''"

definition canonical_text ::
  "(jstring \<Rightarrow> jstring) \<Rightarrow> jstring \<Rightarrow> direction \<Rightarrow> int \<Rightarrow> jstring \<Rightarrow> jstring" where
  "canonical_text lower occurredAt direction amountKobo note =
     join pipe [occurredAt, direction_text direction, int_text amountKobo, lower note]"

definition row_note :: "jstring \<Rightarrow> jstring" where
  "row_note value = collapse_spaces (trim value)"

text \<open>The text a row without errors is identified by.\<close>

definition row_canonical :: "(jstring \<Rightarrow> jstring) \<Rightarrow> column_indexes \<Rightarrow> jstring list \<Rightarrow> jstring option" where
  "row_canonical lower ix record =
     (let note = row_note (field_at record (ix_description ix))
      in case (parseDate (field_at record (ix_date ix)),
               parseDirection lower (field_at record (ix_type ix)),
               parseAmountKobo (field_at record (ix_amount ix))) of
           (Some occurredAt, Some direction, Some amountKobo) \<Rightarrow>
             if row_errors (Some occurredAt) (Some direction) (Some amountKobo) note = []
             then Some (canonical_text lower occurredAt direction amountKobo note) else None
         | _ \<Rightarrow> None)"

definition import_row_of ::
  "(jstring \<Rightarrow> jstring) \<Rightarrow> column_indexes \<Rightarrow> nat \<Rightarrow> jstring list \<Rightarrow> jstring option \<Rightarrow> import_row" where
  "import_row_of lower ix index record fingerprint =
     (let occurredAt = parseDate (field_at record (ix_date ix));
          direction = parseDirection lower (field_at record (ix_type ix));
          amountKobo = parseAmountKobo (field_at record (ix_amount ix));
          note = row_note (field_at record (ix_description ix));
          errors = row_errors occurredAt direction amountKobo note
      in \<lparr>ir_rowNumber = int index + 2, ir_occurredAt = occurredAt, ir_direction = direction,
          ir_amountKobo = amountKobo, ir_note = (if note = [] then None else Some note),
          ir_fingerprint = fingerprint, ir_duplicate = False,
          ir_error = (if errors = [] then None else Some (join (js ''; '') errors))\<rparr>)"

fun import_rows ::
  "(jstring \<Rightarrow> jstring) \<Rightarrow> (jstring \<Rightarrow> jstring) \<Rightarrow> column_indexes \<Rightarrow> nat \<Rightarrow> (jstring \<Rightarrow> nat option)
   \<Rightarrow> jstring list list \<Rightarrow> import_row list" where
  "import_rows lower sha256 ix index occurrences [] = []"
| "import_rows lower sha256 ix index occurrences (record # rest) =
     (case row_canonical lower ix record of
        None \<Rightarrow> import_row_of lower ix index record None
                # import_rows lower sha256 ix (index + 1) occurrences rest
      | Some canonical \<Rightarrow>
          (let occurrence = (case occurrences canonical of None \<Rightarrow> 0 | Some n \<Rightarrow> n) + 1
           in import_row_of lower ix index record
                (Some (sha256 (canonical @ pipe @ dec (int occurrence))))
              # import_rows lower sha256 ix (index + 1) (occurrences(canonical \<mapsto> occurrence)) rest))"

definition column_positions :: "jstring list \<Rightarrow> column_indexes option" where
  "column_positions headers =
     (case (index_of headers (js ''date''), index_of headers (js ''description''),
            index_of headers (js ''amount''), index_of headers (js ''type'')) of
        (Some i, Some j, Some k, Some l) \<Rightarrow>
          Some \<lparr>ix_date = i, ix_description = j, ix_amount = k, ix_type = l\<rparr>
      | _ \<Rightarrow> None)"

definition duplicate_headers :: "jstring list \<Rightarrow> jstring list" where
  "duplicate_headers headers =
     map snd (filter (\<lambda>(i, h). h \<noteq> [] \<and> index_of headers h \<noteq> Some i) (enumerate 0 headers))"

definition parse_canonical ::
  "(jstring \<Rightarrow> jstring) \<Rightarrow> (jstring \<Rightarrow> jstring) \<Rightarrow> jstring list list \<Rightarrow> import_row list result" where
  "parse_canonical lower sha256 records =
     (if records = [] then Inl (BadRequest ''CSV is empty'')
      else (let headers = normalize_headers lower (hd records);
                dataRecords = tl records
            in if duplicate_headers headers \<noteq> []
               then Inl (BadRequest ''CSV contains duplicate column names'')
               else (case column_positions headers of
                       None \<Rightarrow> Inl missing_columns
                     | Some ix \<Rightarrow>
                         if dataRecords = [] then Inl (BadRequest ''CSV has no transaction rows'')
                         else if length dataRecords > MAX_ROWS
                         then Inl (BadRequest ''CSV cannot contain more than 500 rows'')
                         else Inr (import_rows lower sha256 ix 0 Map.empty dataRecords))))"

definition parseTransactionImport ::
  "(jstring \<Rightarrow> jstring) \<Rightarrow> (jstring \<Rightarrow> jstring) \<Rightarrow> jstring \<Rightarrow> import_row list result" where
  "parseTransactionImport lower sha256 csv =
     (case toCanonicalImportCsv lower csv of
        Inl e \<Rightarrow> Inl e
      | Inr canonicalCsv \<Rightarrow>
          (case parseCsvRecords canonicalCsv of
             Inl e \<Rightarrow> Inl e
           | Inr records \<Rightarrow> parse_canonical lower sha256 records))"

section \<open>Amounts\<close>

lemma trim_id:
  assumes "s \<noteq> []" and "\<not> is_space (hd s)" and "\<not> is_space (last s)"
  shows "trim s = s"
proof -
  have "dropWhile is_space s = s" using assms(1,2) by (cases s) auto
  moreover have "dropWhile is_space (rev s) = rev s"
    using assms(1,3) by (cases s rule: rev_cases) auto
  ultimately show ?thesis by (simp add: trim_def)
qed

lemma is_digit_props:
  assumes "is_digit c"
  shows "\<not> is_space c" "c \<noteq> unit_dot" "c \<noteq> unit_comma" "c \<noteq> unit_naira"
    "ascii_lower_unit c \<noteq> unit_of CHR ''n''"
proof -
  have "unit_of CHR ''n'' = (110 :: code_unit)" by code_simp
  then show "\<not> is_space c" "c \<noteq> unit_dot" "c \<noteq> unit_comma" "c \<noteq> unit_naira"
    "ascii_lower_unit c \<noteq> unit_of CHR ''n''"
    using assms
    by (auto simp: is_digit_def is_space_def unit_dot_def unit_comma_def unit_naira_def ascii_lower_unit_def
        word_le_nat_alt)
qed

lemma strip_currency_digit: "is_digit c \<Longrightarrow> strip_currency (c # cs) = c # cs"
  by (cases cs; cases "tl cs") (auto simp: is_digit_props)

lemma dec_hd_last: "0 \<le> n \<Longrightarrow> is_digit (hd (dec n)) \<and> is_digit (last (dec n))"
  using dec_digits [of n] by simp

lemma pad2_digits: "0 \<le> n \<Longrightarrow> list_all is_digit (pad2 n)"
  using dec_digits [of n] by (auto simp: pad2_def pad_start_def list_all_iff digit_props)

text \<open>The text of an amount: naira, a dot, and two digits of kobo.\<close>

definition naira_text :: "int \<Rightarrow> jstring" where
  "naira_text k = dec (k div 100) @ [unit_dot] @ pad2 (k mod 100)"

lemma amount_bounds:
  "parseAmountKobo v = Some k \<Longrightarrow> 1 \<le> k \<and> k \<le> MAX_SAFE_INTEGER"
  by (auto simp: parseAmountKobo_def Let_def split: if_splits)

lemma naira_text_parts:
  assumes "0 \<le> k"
  shows "list_all is_digit (dec (k div 100))" and "digits_between 2 2 (pad2 (k mod 100))"
    and "digits_value (dec (k div 100)) = k div 100" and "digits_value (pad2 (k mod 100)) = k mod 100"
  using assms dec_digits [of "k div 100"] length_pad2 [of "k mod 100"] pad2_digits [of "k mod 100"]
  by (simp_all add: list_all_iff digits_between_def digits_value_dec pad2_def digits_value_pad_dec)

lemma digits_no_sep:
  assumes "list_all is_digit s"
  shows "unit_dot \<notin> set s" and "filter (\<lambda>c. c \<noteq> unit_comma) s = s"
  using assms is_digit_props by (auto simp: list_all_iff filter_id_conv)

lemma parse_plain_amount:
  assumes "list_all is_digit w" "w \<noteq> []" "digits_between 2 2 f"
  shows "parseAmountKobo (w @ [unit_dot] @ f) =
    (let kobo = digits_value w * 100 + digits_value f
     in if kobo \<le> 0 \<or> kobo > MAX_SAFE_INTEGER then None else Some kobo)"
proof -
  have f: "list_all is_digit f" "length f = 2" using assms(3) by (auto simp: digits_between_def)
  have dots: "unit_dot \<notin> set w" "unit_dot \<notin> set f" using digits_no_sep assms(1) f(1) by auto
  obtain c cs where w: "w = c # cs" using assms(2) by (cases w) auto
  have "is_digit c" "is_digit (last f)" "f \<noteq> []"
    using assms(1) f w by (cases f rule: rev_cases; auto simp: list_all_iff)+
  then have id: "strip_currency (trim (w @ [unit_dot] @ f)) = w @ [unit_dot] @ f"
    by (subst trim_id) (auto simp: w is_digit_props strip_currency_digit)
  have parts: "split_on unit_dot (w @ [unit_dot] @ f) = [w, f]"
    using dots by (simp add: split_on_append split_on_no_sep)
  have shape: "amount_shape (w @ [unit_dot] @ f)"
    using assms f parts by (simp add: amount_shape_def whole_shape_def digits_between_def)
  have commas: "filter (\<lambda>c. c \<noteq> unit_comma) (w @ [unit_dot] @ f) = w @ [unit_dot] @ f"
    using digits_no_sep(2) [OF assms(1)] digits_no_sep(2) [OF f(1)]
    by (simp add: unit_dot_def unit_comma_def)
  show ?thesis
    unfolding parseAmountKobo_def Let_def id commas parts
    using shape f by (simp add: field_at_def pad_end_def)
qed

lemma parse_naira_text:
  "parseAmountKobo (naira_text (int k))
     = (if 1 \<le> k \<and> int k \<le> MAX_SAFE_INTEGER then Some (int k) else None)"
proof -
  have k: "0 \<le> int k" by simp
  have "int k div 100 * 100 + int k mod 100 = int k" by simp
  then show ?thesis
    unfolding naira_text_def
    by (simp only: parse_plain_amount [OF naira_text_parts(1) [OF k] dec_not_Nil naira_text_parts(2) [OF k]]
        naira_text_parts(3,4) [OF k] Let_def) auto
qed

text \<open>
  The amount parser reads every positive safe amount back from its naira text and refuses
  the others, and whatever text it accepts, the amount is a positive number of kobo that a
  double represents exactly.
\<close>

lemma amount_roundtrip:
  "parseAmountKobo (naira_text (int k))
     = (if 1 \<le> k \<and> int k \<le> MAX_SAFE_INTEGER then Some (int k) else None)
   \<and> (case parseAmountKobo v of None \<Rightarrow> True | Some j \<Rightarrow> 1 \<le> j \<and> j \<le> MAX_SAFE_INTEGER)"
  using parse_naira_text amount_bounds by (auto split: option.splits)

section \<open>Dates\<close>

lemma iso_shape_Some:
  assumes "iso_shape s = Some (y, m, d)"
  shows "s = y @ [unit_dash] @ m @ [unit_dash] @ d"
    and "digits_between 4 4 y" and "digits_between 2 2 m" and "digits_between 2 2 d"
proof -
  have p: "split_on unit_dash s = [y, m, d]" "digits_between 4 4 y" "digits_between 2 2 m" "digits_between 2 2 d"
    using assms by (auto simp: iso_shape_def split: list.splits if_splits)
  then show "s = y @ [unit_dash] @ m @ [unit_dash] @ d"
    using join_split_on [of unit_dash s] by simp
  show "digits_between 4 4 y" "digits_between 2 2 m" "digits_between 2 2 d" using p by simp_all
qed

lemma to_iso_string_date: "\<exists>rest. to_iso_string t = iso_date (t div ms_per_day) @ rest"
  by (simp add: to_iso_string_def Let_def)

lemma iso_date_not_Nil [simp]: "iso_date n \<noteq> []"
  by (auto simp: iso_date_def js_def split: prod.splits)

lemma noon_div: "(day * ms_per_day + 43200000) div ms_per_day = day"
  by (simp add: ms_per_day_def)

lemma noon_date:
  assumes "0 \<le> year_of_day day" and "year_of_day day \<le> 9999"
  shows "take 10 (to_iso_string (day * ms_per_day + 43200000)) = iso_date day"
  using to_iso_string_date [of "day * ms_per_day + 43200000"] length_iso_date [OF assms]
  by (auto simp: noon_div)

lemma iso_date_year:
  assumes "is_digit (hd (iso_date day))"
  shows "0 \<le> year_of_day day \<and> year_of_day day \<le> 9999"
proof (rule ccontr)
  obtain y m d where c: "civil_from_days day = (y, m, d)" by (cases "civil_from_days day")
  assume "\<not> (0 \<le> year_of_day day \<and> year_of_day day \<le> 9999)"
  then have "\<not> (0 \<le> y \<and> y \<le> 9999)" by (simp add: year_of_day_def c)
  then have "hd (iso_date day) \<in> {unit_of CHR ''-'', unit_of CHR ''+''}"
    by (auto simp: iso_date_def c iso_year_def js_def)
  moreover have "\<not> is_digit (unit_of CHR ''-'')" "\<not> is_digit (unit_of CHR ''+'')" by code_simp+
  ultimately show False using assms by auto
qed

lemma unit_dash_char: "unit_of CHR ''-'' = unit_dash"
  by code_simp

lemma js_dash: "js ''-'' = [unit_dash]"
  by (simp add: js_def unit_dash_char)

lemma pad_dec_digits: "0 \<le> n \<Longrightarrow> list_all is_digit (pad_start k (digit 0) (dec n))"
  using dec_digits [of n] by (auto simp: pad_start_def list_all_iff digit_props)

lemma iso_date_shape:
  assumes "0 \<le> year_of_day day" and "year_of_day day \<le> 9999"
  obtains y m d where "civil_from_days day = (y, m, d)" "valid_date y m d" "days_from_civil y m d = day"
    "iso_shape (iso_date day) = Some (iso_year y, pad2 m, pad2 d)"
    "digits_value (iso_year y) = y" "digits_value (pad2 m) = m" "digits_value (pad2 d) = d"
proof -
  obtain y m d where c: "civil_from_days day = (y, m, d)" by (cases "civil_from_days day")
  have r: "0 \<le> y" "y \<le> 9999" using assms by (simp_all add: year_of_day_def c)
  note p = iso_date_parts [OF c r] and v = days_from_civil_from_days [OF c]
  have nonneg: "0 \<le> m" "0 \<le> d" using v(2) by (simp_all add: valid_date_def)
  have "iso_shape (iso_year y @ [unit_dash] @ pad2 m @ [unit_dash] @ pad2 d)
      = Some (iso_year y, pad2 m, pad2 d)"
    using p(2-4) r nonneg
    by (intro iso_shape_dashes) (auto simp: digits_between_def pad_dec_digits pad2_def iso_year_def)
  then show ?thesis
    using that [OF c v(2,1)] p(1,5-7) by (simp add: js_dash)
qed

lemma valid_date_bounds: "valid_date y m d \<Longrightarrow> 1 \<le> m \<and> m \<le> 12 \<and> 1 \<le> d \<and> d \<le> 31"
proof -
  have "month_lengths l ! k \<le> 31" if "k < 12" for l k
    using that unfolding month_lengths_def by (auto simp: less_Suc_eq numeral_eq_Suc)
  then show "valid_date y m d \<Longrightarrow> 1 \<le> m \<and> m \<le> 12 \<and> 1 \<le> d \<and> d \<le> 31"
    unfolding valid_date_def by (auto intro: order_trans)
qed

lemma parseDate_iso_date:
  assumes "0 \<le> year_of_day day" and "year_of_day day \<le> 9999" and "trim v = iso_date day"
  shows "parseDate v = Some (to_iso_string (day * ms_per_day + 43200000))"
proof -
  from iso_date_shape [OF assms(1,2)] obtain y m d where
    s: "valid_date y m d" "days_from_civil y m d = day"
    "iso_shape (iso_date day) = Some (iso_year y, pad2 m, pad2 d)"
    "digits_value (iso_year y) = y" "digits_value (pad2 m) = m" "digits_value (pad2 d) = d" by metis
  then show ?thesis
    using valid_date_bounds [OF s(1)] noon_date [OF assms(1,2)] assms(3)
    by (simp add: parseDate_def Let_def noon_of_def)
qed

lemma parseDate_Some:
  assumes "parseDate v = Some t"
  shows "\<exists>day. 0 \<le> year_of_day day \<and> year_of_day day \<le> 9999 \<and> trim v = iso_date day
             \<and> t = to_iso_string (day * ms_per_day + 43200000)"
proof -
  from assms obtain y m d where
    s: "iso_shape (trim v) = Some (y, m, d)" and
    t: "t = to_iso_string (days_from_civil (digits_value y) (digits_value m) (digits_value d) * ms_per_day + 43200000)"
       "take 10 t = trim v"
    by (auto simp: parseDate_def Let_def noon_of_def split: option.splits if_splits)
  let ?day = "days_from_civil (digits_value y) (digits_value m) (digits_value d)"
  have sh: "trim v = y @ [unit_dash] @ m @ [unit_dash] @ d" "digits_between 4 4 y"
    using iso_shape_Some [OF s] by simp_all
  have "hd (trim v) = hd (take 10 t)" using t(2) by simp
  also have "\<dots> = hd t" by (cases t) auto
  also have "\<dots> = hd (iso_date ?day)"
    using to_iso_string_date [of "?day * ms_per_day + 43200000"] t(1) noon_div [of ?day]
    by auto
  finally have "is_digit (hd (iso_date ?day))"
    using sh by (cases y) (auto simp: digits_between_def)
  then have r: "0 \<le> year_of_day ?day \<and> year_of_day ?day \<le> 9999" by (rule iso_date_year)
  then have "trim v = iso_date ?day" using t noon_date [of ?day] by simp
  then show ?thesis using r t(1) by blast
qed

text \<open>
  A date cell is accepted exactly when it is, up to white space, the ISO text of a day of
  the calendar in the years 0 to 9999 -- no 30th of February, no 29th of February outside a
  leap year -- and the transaction is dated at noon UTC of that day.
\<close>

lemma parseDate_calendar:
  "parseDate v = Some t \<longleftrightarrow>
     (\<exists>day. 0 \<le> year_of_day day \<and> year_of_day day \<le> 9999 \<and> trim v = iso_date day
          \<and> t = to_iso_string (day * ms_per_day + 43200000))"
  using parseDate_Some parseDate_iso_date by blast

section \<open>Fingerprints\<close>

text \<open>The texts the fingerprints are made of: each occurrence of a canonical text is numbered.\<close>

fun numbered :: "(jstring \<Rightarrow> nat option) \<Rightarrow> jstring list \<Rightarrow> jstring list" where
  "numbered occurrences [] = []"
| "numbered occurrences (c # cs) =
     (let occurrence = (case occurrences c of None \<Rightarrow> 0 | Some n \<Rightarrow> n) + 1
      in (c @ pipe @ dec (int occurrence)) # numbered (occurrences(c \<mapsto> occurrence)) cs)"

definition fingerprints :: "import_row list \<Rightarrow> jstring list" where
  "fingerprints rows = List.map_filter ir_fingerprint rows"

definition canonical_texts :: "(jstring \<Rightarrow> jstring) \<Rightarrow> column_indexes \<Rightarrow> jstring list list \<Rightarrow> jstring list" where
  "canonical_texts lower ix records = List.map_filter (row_canonical lower ix) records"

lemma ir_fields [simp]:
  "ir_fingerprint (import_row_of lower ix i r fp) = fp"
  "ir_rowNumber (import_row_of lower ix i r fp) = int i + 2"
  "ir_duplicate (import_row_of lower ix i r fp) = False"
  by (simp_all add: import_row_of_def Let_def)

lemma fingerprints_import_rows:
  "fingerprints (import_rows lower sha256 ix i occ records)
     = map sha256 (numbered occ (canonical_texts lower ix records))"
  by (induction records arbitrary: i occ)
     (auto simp: fingerprints_def canonical_texts_def List.map_filter_simps Let_def split: option.splits)

lemma row_numbers:
  "map ir_rowNumber (import_rows lower sha256 ix i occ records)
     = map (\<lambda>k. int k + 2) [i..<i + length records]"
  by (induction records arbitrary: i occ)
     (auto simp: Let_def upt_conv_Cons simp del: upt_Suc split: option.splits)

lemma append_pipe_inject:
  assumes "a @ p # x = b @ p # y" and "p \<notin> set x" and "p \<notin> set y"
  shows "a = b \<and> x = y"
proof -
  have tw: "takeWhile (\<lambda>c. c \<noteq> p) (rev z @ p # r) = rev z" if "p \<notin> set z" for z r
    using that by (subst takeWhile_append2) auto
  have "rev x @ p # rev a = rev y @ p # rev b"
    using arg_cong [OF assms(1), of rev] by simp
  then have "rev x = rev y" using tw assms(2,3) by metis
  then show ?thesis using assms(1) by simp
qed

lemma pipe_unit: "pipe = [unit_of CHR ''|'']"
  by (simp add: pipe_def js_def)

lemma pipe_not_in_dec: "unit_of CHR ''|'' \<notin> set (dec (int k))"
proof -
  have "\<not> is_digit (unit_of CHR ''|'')" by code_simp
  then show ?thesis using dec_digits [of "int k"] by auto
qed

lemma numbered_text_inject:
  "c @ pipe @ dec (int m) = d @ pipe @ dec (int n) \<longleftrightarrow> c = d \<and> m = n"
proof
  assume "c @ pipe @ dec (int m) = d @ pipe @ dec (int n)"
  then have "c = d \<and> dec (int m) = dec (int n)"
    unfolding pipe_unit append_Cons append_Nil
    by (rule append_pipe_inject) (rule pipe_not_in_dec)+
  then show "c = d \<and> m = n" by (simp add: dec_inject)
qed simp

abbreviation seen :: "(jstring \<Rightarrow> nat option) \<Rightarrow> jstring \<Rightarrow> nat" where
  "seen occ c \<equiv> (case occ c of None \<Rightarrow> 0 | Some n \<Rightarrow> n)"

lemma compr_insert:
  "{t c k | c k. (c = a \<and> k = n) \<or> Q c k} = insert (t a n) {t c k | c k. Q c k}"
  by blast

lemma set_numbered:
  "set (numbered occ cs) =
     {c @ pipe @ dec (int k) | c k. seen occ c < k \<and> k \<le> seen occ c + count_list cs c}"
proof (induction cs arbitrary: occ)
  case (Cons a cs)
  let ?occ = "occ(a \<mapsto> seen occ a + 1)"
  have "{c @ pipe @ dec (int k) | c k. seen occ c < k \<and> k \<le> seen occ c + count_list (a # cs) c}
      = insert (a @ pipe @ dec (int (seen occ a + 1)))
         {c @ pipe @ dec (int k) | c k. seen ?occ c < k \<and> k \<le> seen ?occ c + count_list cs c}"
    (is "{?t c k | c k. ?P c k} = insert ?h {?t c k | c k. ?Q c k}")
  proof -
    have "?P c k \<longleftrightarrow> (c = a \<and> k = seen occ a + 1) \<or> ?Q c k" for c k
      by (auto split: option.splits)
    then show ?thesis by (simp only: compr_insert)
  qed
  then show ?case
    unfolding numbered.simps Let_def list.set Cons by simp
qed auto

lemma distinct_numbered: "distinct (numbered occ cs)"
proof (induction cs arbitrary: occ)
  case (Cons a cs)
  let ?occ = "occ(a \<mapsto> seen occ a + 1)"
  have "a @ pipe @ dec (int (seen occ a + 1)) \<notin> set (numbered ?occ cs)"
    unfolding set_numbered mem_Collect_eq numbered_text_inject by auto
  with Cons show ?case by (simp add: Let_def)
qed simp

text \<open>Reordering the records of a statement keeps the set of its numbered texts.\<close>

lemma mset_numbered:
  assumes "mset cs = mset ds"
  shows "mset (numbered Map.empty cs) = mset (numbered Map.empty ds)"
proof -
  have "count_list cs = count_list ds"
    using assms by (metis count_mset ext)
  then have "set (numbered Map.empty cs) = set (numbered Map.empty ds)"
    unfolding set_numbered by simp
  then show ?thesis
    using distinct_numbered by (metis set_eq_iff_mset_eq_distinct)
qed

lemma map_filter_mset: "mset rs = mset rs' \<Longrightarrow> mset (List.map_filter f rs) = mset (List.map_filter f rs')"
  by (simp add: List.map_filter_def mset_filter)

section \<open>What the parser promises\<close>

lemma parse_canonical_Inr:
  assumes "parse_canonical lower sha256 records = Inr rows"
  obtains ix where "column_positions (normalize_headers lower (hd records)) = Some ix"
    and "rows = import_rows lower sha256 ix 0 Map.empty (tl records)"
    and "tl records \<noteq> []" and "length (tl records) \<le> 500"
  using assms by (auto simp: parse_canonical_def Let_def MAX_ROWS_def split: if_splits option.splits)

lemma parseTransactionImport_Inr:
  assumes "parseTransactionImport lower sha256 csv = Inr rows"
  obtains records where "parse_canonical lower sha256 records = Inr rows"
    and "\<forall>sha. parseTransactionImport lower sha csv = parse_canonical lower sha records"
  using assms by (auto simp: parseTransactionImport_def split: sum.splits)

definition sound_row :: "import_row \<Rightarrow> bool" where
  "sound_row r \<longleftrightarrow>
     (ir_error r = None \<longleftrightarrow> ir_fingerprint r \<noteq> None)
   \<and> (ir_error r = None \<longrightarrow>
        ir_occurredAt r \<noteq> None \<and> ir_direction r \<noteq> None
      \<and> (\<exists>k. ir_amountKobo r = Some k \<and> 1 \<le> k \<and> k \<le> MAX_SAFE_INTEGER)
      \<and> (\<exists>n. ir_note r = Some n \<and> n \<noteq> [] \<and> length n \<le> 280))
   \<and> \<not> ir_duplicate r"

lemma row_canonical_errors:
  "(row_canonical lower ix r = None) \<longleftrightarrow>
     row_errors (parseDate (field_at r (ix_date ix))) (parseDirection lower (field_at r (ix_type ix)))
       (parseAmountKobo (field_at r (ix_amount ix))) (row_note (field_at r (ix_description ix))) \<noteq> []"
  by (auto simp: row_canonical_def Let_def row_errors_def js_def split: option.splits)

lemma row_errors_Nil:
  "row_errors t d k n = [] \<longleftrightarrow> t \<noteq> None \<and> d \<noteq> None \<and> k \<noteq> None \<and> n \<noteq> [] \<and> length n \<le> 280"
  by (auto simp: row_errors_def)

lemma sound_row_of:
  "(row_canonical lower ix r = None \<longleftrightarrow> fp = None) \<Longrightarrow> sound_row (import_row_of lower ix i r fp)"
  using amount_bounds unfolding row_canonical_errors
  by (auto simp: sound_row_def import_row_of_def Let_def row_errors_Nil)

lemma import_rows_sound: "\<forall>r \<in> set (import_rows lower sha256 ix i occ records). sound_row r"
  by (induction records arbitrary: i occ)
     (auto simp: Let_def intro!: sound_row_of split: option.splits)

lemma parsed_import_rows:
  assumes "parseTransactionImport lower sha256 csv = Inr rows"
  obtains ix records where "rows = import_rows lower sha256 ix 0 Map.empty records"
    and "\<forall>sha. parseTransactionImport lower sha csv = Inr (import_rows lower sha ix 0 Map.empty records)"
    and "records \<noteq> []" and "length records \<le> 500"
proof -
  from assms obtain records where p: "parse_canonical lower sha256 records = Inr rows"
    "\<forall>sha. parseTransactionImport lower sha csv = parse_canonical lower sha records"
    by (rule parseTransactionImport_Inr)
  from p(1) have r: "records \<noteq> []" "duplicate_headers (normalize_headers lower (hd records)) = []"
    by (auto simp: parse_canonical_def Let_def split: if_splits)
  from p(1) obtain ix where ix: "column_positions (normalize_headers lower (hd records)) = Some ix"
    "rows = import_rows lower sha256 ix 0 Map.empty (tl records)"
    "tl records \<noteq> []" "length (tl records) \<le> 500" by (rule parse_canonical_Inr)
  have "parse_canonical lower sha records = Inr (import_rows lower sha ix 0 Map.empty (tl records))" for sha
    using r ix(1,3,4) by (simp add: parse_canonical_def MAX_ROWS_def)
  then show ?thesis using that [OF ix(2) _ ix(3,4)] p(2) by simp
qed

text \<open>What a reader of the rows may rely on, besides \<open>sound_row\<close>.\<close>

lemma join_not_Nil: "xs \<noteq> [] \<Longrightarrow> hd xs \<noteq> [] \<Longrightarrow> join sep xs \<noteq> []"
  by (induction sep xs rule: join.induct) auto

lemma row_errors_hd: "row_errors t d k n \<noteq> [] \<Longrightarrow> hd (row_errors t d k n) \<noteq> []"
  by (auto simp: row_errors_def)

lemma import_row_of_facts:
  "ir_error (import_row_of lower ix i r fp) \<noteq> Some []"
  "ir_occurredAt (import_row_of lower ix i r fp) = Some t \<Longrightarrow> \<exists>m. four_digit_year m \<and> t = to_iso_string m"
proof -
  show "ir_error (import_row_of lower ix i r fp) \<noteq> Some []"
    using join_not_Nil [OF _ row_errors_hd] by (auto simp: import_row_of_def Let_def)
  assume "ir_occurredAt (import_row_of lower ix i r fp) = Some t"
  then have "parseDate (field_at r (ix_date ix)) = Some t"
    by (simp add: import_row_of_def Let_def)
  from parseDate_Some [OF this] obtain day where
    "0 \<le> year_of_day day" "year_of_day day \<le> 9999" "t = to_iso_string (day * ms_per_day + 43200000)" by blast
  then show "\<exists>m. four_digit_year m \<and> t = to_iso_string m"
    by (intro exI [of _ "day * ms_per_day + 43200000"]) (simp add: four_digit_year_def noon_div)
qed

lemma import_rows_facts:
  assumes "r \<in> set (import_rows lower sha256 ix i occ records)"
  shows "ir_error r \<noteq> Some []" "ir_occurredAt r = Some t \<Longrightarrow> \<exists>m. four_digit_year m \<and> t = to_iso_string m"
    and "ir_fingerprint r = Some f \<Longrightarrow> \<exists>x. f = sha256 x"
proof -
  have "\<exists>i rec fp. r = import_row_of lower ix i rec fp \<and> (\<forall>f. fp = Some f \<longrightarrow> (\<exists>x. f = sha256 x))"
    using assms
    by (induction records arbitrary: i occ) (fastforce simp: Let_def split: option.splits)+
  then obtain i rec fp where r: "r = import_row_of lower ix i rec fp"
    "\<forall>f. fp = Some f \<longrightarrow> (\<exists>x. f = sha256 x)" by blast
  show "ir_error r \<noteq> Some []" "ir_occurredAt r = Some t \<Longrightarrow> \<exists>m. four_digit_year m \<and> t = to_iso_string m"
    unfolding r(1) by (rule import_row_of_facts; assumption?)+
  show "ir_fingerprint r = Some f \<Longrightarrow> \<exists>x. f = sha256 x" using r by auto
qed

lemma row_numbers_distinct: "distinct (map ir_rowNumber (import_rows lower sha256 ix i occ records))"
  unfolding row_numbers by (simp add: distinct_map inj_on_def)

lemma length_import_rows: "length (import_rows lower sha256 ix i occ records) = length records"
  by (metis add_diff_cancel_left' length_map length_upt row_numbers)

text \<open>
  C38. What an accepted statement yields: between 1 and 500 rows, numbered as the lines of the
  canonical file from 2 on; a row has a fingerprint exactly when it has no error, and then it
  has a date, a direction, a safe positive amount and a description of 1 to 280 code units;
  and no row is marked as a duplicate yet.
\<close>

theorem import_rows_complete:
  assumes "parseTransactionImport lower sha256 csv = Inr rows"
  shows "map ir_rowNumber rows = map (\<lambda>k. int k + 2) [0..<length rows]
       \<and> 1 \<le> length rows \<and> length rows \<le> 500 \<and> (\<forall>r \<in> set rows. sound_row r)"
proof -
  from assms obtain ix records where r: "rows = import_rows lower sha256 ix 0 Map.empty records"
    "records \<noteq> []" "length records \<le> 500" by (rule parsed_import_rows)
  have "\<forall>r \<in> set rows. sound_row r" unfolding r(1) by (rule import_rows_sound)
  moreover have "1 \<le> length records" using r(2) by (cases records) auto
  ultimately show ?thesis
    using r(3) unfolding r(1) by (simp add: row_numbers length_import_rows)
qed

text \<open>
  No two rows of a statement share a fingerprint, even when they have the same date,
  direction, amount and description, provided the digest does not collide on the texts that
  are hashed (they are the fingerprints one gets with the identity as digest).
\<close>

lemma fingerprints_distinct:
  assumes "parseTransactionImport lower sha256 csv = Inr rows"
    and "parseTransactionImport lower (\<lambda>t. t) csv = Inr texts"
    and "inj_on sha256 (set (fingerprints texts))"
  shows "distinct (fingerprints rows) \<and> fingerprints rows = map sha256 (fingerprints texts)"
proof -
  from assms(1) obtain ix records where r: "rows = import_rows lower sha256 ix 0 Map.empty records"
    "\<forall>sha. parseTransactionImport lower sha csv = Inr (import_rows lower sha ix 0 Map.empty records)"
    by (rule parsed_import_rows)
  have t: "texts = import_rows lower (\<lambda>t. t) ix 0 Map.empty records" using r(2) assms(2) by simp
  have "fingerprints rows = map sha256 (fingerprints texts)"
    unfolding r(1) t fingerprints_import_rows by simp
  moreover have "distinct (fingerprints texts)"
    unfolding t fingerprints_import_rows by (simp add: distinct_numbered)
  ultimately show ?thesis
    using assms(3) by (simp add: distinct_map)
qed

text \<open>
  The fingerprints do not depend on the order of the rows: a statement exported again in
  another order is recognised row by row.
\<close>

lemma fingerprints_order_independent:
  assumes "parse_canonical lower sha256 (header # records) = Inr rows"
    and "mset records' = mset records"
  shows "\<exists>rows'. parse_canonical lower sha256 (header # records') = Inr rows'
           \<and> mset (fingerprints rows') = mset (fingerprints rows)"
proof -
  from assms(1) obtain ix where ix: "column_positions (normalize_headers lower header) = Some ix"
    "rows = import_rows lower sha256 ix 0 Map.empty records"
    "records \<noteq> []" "length records \<le> 500"
    by (metis parse_canonical_Inr list.sel(1,3))
  have n: "records' \<noteq> []" "length records' = length records"
    using assms(2) ix(3) by (auto dest: mset_eq_length)
  have "mset (numbered Map.empty (canonical_texts lower ix records'))
      = mset (numbered Map.empty (canonical_texts lower ix records))"
    unfolding canonical_texts_def using assms(2) by (intro mset_numbered map_filter_mset)
  then have "mset (fingerprints (import_rows lower sha256 ix 0 Map.empty records')) = mset (fingerprints rows)"
    unfolding ix(2) fingerprints_import_rows mset_map by simp
  moreover have "parse_canonical lower sha256 (header # records')
      = Inr (import_rows lower sha256 ix 0 Map.empty records')"
    using assms(1) ix(1) n ix(3,4) by (auto simp: parse_canonical_def Let_def split: if_splits)
  ultimately show ?thesis by blast
qed

section \<open>A statement is read back\<close>

record statement_entry =
  e_day :: int
  e_note :: jstring
  e_kobo :: int
  e_direction :: direction

definition entry_record :: "statement_entry \<Rightarrow> jstring list" where
  "entry_record e = [iso_date (e_day e), e_note e, naira_text (e_kobo e), direction_text (e_direction e)]"

definition entry_ok :: "statement_entry \<Rightarrow> bool" where
  "entry_ok e \<longleftrightarrow>
     0 \<le> year_of_day (e_day e) \<and> year_of_day (e_day e) \<le> 9999
   \<and> 1 \<le> e_kobo e \<and> e_kobo e \<le> MAX_SAFE_INTEGER
   \<and> row_note (e_note e) = e_note e \<and> e_note e \<noteq> [] \<and> length (e_note e) \<le> 280"

text \<open>\<open>toLowerCase\<close> keeps a string of ASCII units without capitals.\<close>

definition keeps_lower_case :: "(jstring \<Rightarrow> jstring) \<Rightarrow> bool" where
  "keeps_lower_case lower \<longleftrightarrow>
     (\<forall>s. list_all (\<lambda>c. c < 128 \<and> \<not> (65 \<le> c \<and> c \<le> 90)) s \<longrightarrow> lower s = s)"

definition row_fields ::
  "import_row \<Rightarrow> jstring option \<times> direction option \<times> int option \<times> jstring option \<times> jstring option" where
  "row_fields r = (ir_occurredAt r, ir_direction r, ir_amountKobo r, ir_note r, ir_error r)"

definition entry_fields ::
  "statement_entry \<Rightarrow> jstring option \<times> direction option \<times> int option \<times> jstring option \<times> jstring option" where
  "entry_fields e = (Some (to_iso_string (e_day e * ms_per_day + 43200000)), Some (e_direction e),
     Some (e_kobo e), Some (e_note e), None)"

definition canonical_ix :: column_indexes where
  "canonical_ix = \<lparr>ix_date = 0, ix_description = 1, ix_amount = 2, ix_type = 3\<rparr>"

lemma lower_words:
  assumes "keeps_lower_case lower"
  shows "lower (js ''date'') = js ''date''" "lower (js ''description'') = js ''description''"
    "lower (js ''amount'') = js ''amount''" "lower (js ''type'') = js ''type''"
    "lower (js ''in'') = js ''in''" "lower (js ''out'') = js ''out''"
  by (rule assms [unfolded keeps_lower_case_def, rule_format], code_simp)+

lemma trim_words:
  "trim (js ''date'') = js ''date''" "trim (js ''description'') = js ''description''"
  "trim (js ''amount'') = js ''amount''" "trim (js ''type'') = js ''type''"
  "trim (js ''in'') = js ''in''" "trim (js ''out'') = js ''out''" "strip_bom (js ''date'') = js ''date''"
  by code_simp+

lemma canonical_header:
  assumes "keeps_lower_case lower"
  shows "normalize_headers lower CANONICAL_HEADERS = CANONICAL_HEADERS"
    and "column_positions CANONICAL_HEADERS = Some canonical_ix"
    and "duplicate_headers CANONICAL_HEADERS = []" and "canonical_matches CANONICAL_HEADERS"
    and "nonblank CANONICAL_HEADERS"
proof -
  show "normalize_headers lower CANONICAL_HEADERS = CANONICAL_HEADERS"
    by (simp add: normalize_headers_def CANONICAL_HEADERS_def normalizeHeader_def trim_words
        lower_words [OF assms])
qed code_simp+

lemma parseDirection_text:
  "keeps_lower_case lower \<Longrightarrow> parseDirection lower (direction_text d) = Some d"
  by (cases d) (simp_all add: parseDirection_def Let_def trim_words lower_words)

lemma trim_iso_date:
  assumes "0 \<le> year_of_day day" and "year_of_day day \<le> 9999"
  shows "trim (iso_date day) = iso_date day"
proof -
  from iso_date_shape [OF assms] obtain y m d where
    c: "civil_from_days day = (y, m, d)" and v: "valid_date y m d" by metis
  have r: "0 \<le> y" "y \<le> 9999" using assms by (simp_all add: year_of_day_def c)
  note p = iso_date_parts [OF c r]
  have "list_all is_digit (iso_year y)" "list_all is_digit (pad2 d)"
    using r valid_date_bounds [OF v] by (auto simp: iso_year_def pad2_def pad_dec_digits)
  then have "is_digit (hd (iso_date day))" "is_digit (last (iso_date day))"
    using p(1,2,4) by (cases "iso_year y"; cases "pad2 d" rule: rev_cases; auto simp: js_dash)+
  then show ?thesis by (intro trim_id) (auto simp: is_digit_props)
qed

lemma parse_entry:
  assumes "keeps_lower_case lower" and "entry_ok e"
  shows "parseDate (field_at (entry_record e) 0) = Some (to_iso_string (e_day e * ms_per_day + 43200000))"
    and "row_note (field_at (entry_record e) 1) = e_note e"
    and "parseAmountKobo (field_at (entry_record e) 2) = Some (e_kobo e)"
    and "parseDirection lower (field_at (entry_record e) 3) = Some (e_direction e)"
proof -
  have f: "field_at (entry_record e) 0 = iso_date (e_day e)" "field_at (entry_record e) 1 = e_note e"
    "field_at (entry_record e) 2 = naira_text (e_kobo e)"
    "field_at (entry_record e) 3 = direction_text (e_direction e)"
    by (simp_all add: field_at_def entry_record_def)
  have k: "0 \<le> e_kobo e" and y: "0 \<le> year_of_day (e_day e)" "year_of_day (e_day e) \<le> 9999"
    using assms(2) by (simp_all add: entry_ok_def)
  show "parseDate (field_at (entry_record e) 0) = Some (to_iso_string (e_day e * ms_per_day + 43200000))"
    unfolding f using y trim_iso_date by (intro parseDate_iso_date) auto
  show "row_note (field_at (entry_record e) 1) = e_note e"
    unfolding f using assms(2) by (simp add: entry_ok_def)
  show "parseAmountKobo (field_at (entry_record e) 2) = Some (e_kobo e)"
  proof -
    obtain n where n: "e_kobo e = int n" using k by (rule nonneg_int_cases)
    then show ?thesis
      unfolding f using assms(2) parse_naira_text [of n] by (auto simp: entry_ok_def)
  qed
  show "parseDirection lower (field_at (entry_record e) 3) = Some (e_direction e)"
    unfolding f using assms(1) by (rule parseDirection_text)
qed

lemma row_fields_entry:
  assumes "keeps_lower_case lower" and "entry_ok e"
  shows "row_fields (import_row_of lower canonical_ix i (entry_record e) fp) = entry_fields e"
  using assms(2) parse_entry [OF assms]
  by (simp add: row_fields_def import_row_of_def Let_def canonical_ix_def row_errors_def entry_fields_def
      entry_ok_def del: One_nat_def)

lemma import_rows_entries:
  assumes "keeps_lower_case lower" and "\<forall>e \<in> set es. entry_ok e"
  shows "map row_fields (import_rows lower sha256 canonical_ix i occ (map entry_record es)) = map entry_fields es"
  using assms(2)
  by (induction es arbitrary: i occ)
     (auto simp: row_fields_entry [OF assms(1)] Let_def split: option.splits)

lemma entry_nonblank: "entry_ok e \<Longrightarrow> nonblank (entry_record e)"
  using trim_iso_date [of "e_day e"] by (simp add: nonblank_def entry_record_def entry_ok_def)

text \<open>
  C37. A statement of 1 to 500 entries written in the canonical layout is read back entry by
  entry: every entry whose day has a four-digit year, whose amount is positive and safe and
  whose description is trimmed, single-spaced and of 1 to 280 code units gives a row without
  error with that date, direction, amount and description -- through the quoting of the CSV
  text, the choice of the adapter and the parsing of each cell.
\<close>

theorem statement_roundtrip:
  assumes "keeps_lower_case lower" and "\<forall>e \<in> set es. entry_ok e" and "es \<noteq> []" and "length es \<le> 500"
  shows "\<exists>rows. parseTransactionImport lower sha256 (csv_text (CANONICAL_HEADERS # map entry_record es)) = Inr rows
           \<and> map row_fields rows = map entry_fields es"
proof -
  let ?recs = "CANONICAL_HEADERS # map entry_record es"
  note h = canonical_header [OF assms(1)]
  have "\<forall>r \<in> set ?recs. nonblank r"
    using assms(2) h(5) entry_nonblank by auto
  then have p: "parseCsvRecords (csv_text ?recs) = Inr ?recs" by (rule parse_print)
  then have "toCanonicalImportCsv lower (csv_text ?recs) = Inr (csv_text ?recs)"
    using h(1,4) by (intro toCanonical_same_records(1)) auto
  then have "parseTransactionImport lower sha256 (csv_text ?recs)
      = Inr (import_rows lower sha256 canonical_ix 0 Map.empty (map entry_record es))"
    using p h(1,2,3) assms(3,4)
    by (simp add: parseTransactionImport_def parse_canonical_def Let_def MAX_ROWS_def)
  then show ?thesis
    using import_rows_entries [OF assms(1,2)] by blast
qed

section \<open>A sample statement\<close>

text \<open>Two equal purchases of one day; the digest is the identity.\<close>

definition sample_records :: "jstring list list" where
  "sample_records =
     [CANONICAL_HEADERS, [js ''2026-03-02'', js ''Data  bundle'', js ''500'', js ''debit''],
      [js ''2026-03-02'', js ''Data bundle'', js ''500.00'', js ''out'']]"

definition sample_row :: "int \<Rightarrow> jstring \<Rightarrow> import_row" where
  "sample_row n fp = \<lparr>ir_rowNumber = n, ir_occurredAt = Some (js ''2026-03-02T12:00:00.000Z''),
     ir_direction = Some DirOut, ir_amountKobo = Some 50000, ir_note = Some (js ''Data bundle''),
     ir_fingerprint = Some fp, ir_duplicate = False, ir_error = None\<rparr>"

definition sample_rows :: "import_row list" where
  "sample_rows =
     [sample_row 2 (js ''2026-03-02T12:00:00.000Z|out|50000|Data bundle|1''),
      sample_row 3 (js ''2026-03-02T12:00:00.000Z|out|50000|Data bundle|2'')]"

definition sample_csv :: jstring where
  "sample_csv = csv_text sample_records"

lemma sample_canonical:
  "parse_canonical (\<lambda>s. s) (\<lambda>s. s) sample_records = Inr sample_rows"
  by code_simp

lemma sample_parses:
  "parseTransactionImport (\<lambda>s. s) (\<lambda>s. s) sample_csv = Inr sample_rows"
  by code_simp

theorem import_rows_complete_witness: "list_all sound_row sample_rows"
  using import_rows_complete [OF sample_parses] by (simp add: list_all_iff)

lemma fingerprints_distinct_witness: "distinct (fingerprints sample_rows)"
  using fingerprints_distinct [OF sample_parses sample_parses] by simp

lemma fingerprints_order_independent_witness:
  "\<exists>rows. parse_canonical (\<lambda>s. s) (\<lambda>s. s) (hd sample_records # rev (tl sample_records)) = Inr rows
        \<and> mset (fingerprints rows) = mset (fingerprints sample_rows)"
proof (rule fingerprints_order_independent)
  show "parse_canonical (\<lambda>s. s) (\<lambda>s. s) (hd sample_records # tl sample_records) = Inr sample_rows"
    using sample_canonical by (simp add: sample_records_def)
qed simp

definition sample_entry :: statement_entry where
  "sample_entry = \<lparr>e_day = 20514, e_note = js ''Data, \"4G\"'', e_kobo = 50000, e_direction = DirOut\<rparr>"

theorem statement_roundtrip_witness:
  "\<exists>rows. parseTransactionImport (\<lambda>s. s) (\<lambda>s. s) (csv_text (CANONICAL_HEADERS # map entry_record [sample_entry])) = Inr rows
        \<and> map row_fields rows = [entry_fields sample_entry]"
proof -
  have "entry_ok sample_entry" by code_simp
  then show ?thesis
    using statement_roundtrip [of "\<lambda>s. s" "[sample_entry]" "\<lambda>s. s"]
    by (simp add: keeps_lower_case_def)
qed

end
