(* ===== verification/Js_Number.thy ===== *)
theory Js_Number
  imports Complex_Main "HOL-Library.Log_Nat"
begin

text \<open>
  JavaScript's Number type, as far as the code under src/ uses it. A Number is an IEEE 754
  double; its value is the rational number it denotes, and every arithmetic operation of the
  source is the exact rational operation followed by \<open>fl\<close>, rounding to the nearest
  double (ties to even, 53 significant bits). The exponent is not bounded: the money and
  date values of this program stay far away from overflow and from the subnormal range.
  \<open>Math.max\<close>, \<open>Math.min\<close>, \<open>Math.ceil\<close>, \<open>Math.floor\<close>, \<open>Math.round\<close> and \<open>toFixed\<close> follow
  ECMA-262, where they act on the exact value of their argument.
\<close>

section \<open>The binary exponent of a positive rational\<close>

definition pow2 :: "int \<Rightarrow> rat" where
  "pow2 k = power_int 2 k"

definition ilog2 :: "rat \<Rightarrow> int" where
  "ilog2 x = (let (p, q) = quotient_of x; k = bitlen p - bitlen q
              in if pow2 k \<le> x then k else k - 1)"

lemma pow2_pos [simp]: "0 < pow2 k"
  by (simp add: pow2_def)

lemma pow2_nonneg [simp]: "0 \<le> pow2 k"
  by (simp add: pow2_def)

lemma pow2_neq_0 [simp]: "pow2 k \<noteq> 0"
  by (simp add: pow2_def)

lemma pow2_add: "pow2 (j + k) = pow2 j * pow2 k"
  by (simp add: pow2_def power_int_add)

lemma pow2_diff: "pow2 (j - k) = pow2 j / pow2 k"
  by (simp add: pow2_def power_int_diff)

lemma pow2_nat: "0 \<le> k \<Longrightarrow> pow2 k = of_int (2 ^ nat k)"
  by (simp add: pow2_def power_int_def)

lemma pow2_strict_mono: "j < k \<Longrightarrow> pow2 j < pow2 k"
  unfolding pow2_def by (rule power_int_strict_increasing) auto

lemma pow2_mono: "j \<le> k \<Longrightarrow> pow2 j \<le> pow2 k"
  unfolding pow2_def by (rule power_int_increasing) auto

lemma pow2_less_iff [simp]: "pow2 j < pow2 k \<longleftrightarrow> j < k"
  by (metis linorder_not_le pow2_mono pow2_strict_mono)

lemma pow2_le_iff [simp]: "pow2 j \<le> pow2 k \<longleftrightarrow> j \<le> k"
  by (metis linorder_not_le pow2_mono pow2_strict_mono)

lemma bitlen_bounds_rat:
  assumes "0 < n"
  shows "pow2 (bitlen n - 1) \<le> of_int n" and "of_int n < pow2 (bitlen n)"
proof -
  have b: "2 ^ nat (bitlen n - 1) \<le> n" "n < 2 ^ nat (bitlen n)"
    using bitlen_bounds [OF assms] by auto
  have "1 \<le> bitlen n"
    using assms by (simp add: bitlen_alt_def)
  then show "pow2 (bitlen n - 1) \<le> of_int n" "of_int n < pow2 (bitlen n)"
    using b by (simp_all add: pow2_nat del: of_int_power)
qed

lemma ilog2_bounds:
  assumes "0 < x"
  shows "pow2 (ilog2 x) \<le> x" and "x < pow2 (ilog2 x + 1)"
proof -
  obtain p q where pq: "quotient_of x = (p, q)"
    by (cases "quotient_of x")
  then have q: "0 < q" and x: "x = of_int p / of_int q"
    by (simp_all add: quotient_of_denom_pos quotient_of_div)
  with assms have p: "0 < p"
    by (simp add: zero_less_divide_iff)
  let ?k = "bitlen p - bitlen q"
  have lo: "pow2 (?k - 1) < x"
  proof -
    have "pow2 (?k - 1) = pow2 (bitlen p - 1) / pow2 (bitlen q)"
      using pow2_diff [of "bitlen p - 1" "bitlen q"] by (simp add: algebra_simps)
    also have "\<dots> < of_int p / of_int q"
      using bitlen_bounds_rat [OF p] bitlen_bounds_rat [OF q] p q
      by (intro frac_less2) auto
    finally show ?thesis by (simp add: x)
  qed
  have hi: "x < pow2 (?k + 1)"
  proof -
    have "x < pow2 (bitlen p) / pow2 (bitlen q - 1)"
      unfolding x using bitlen_bounds_rat [OF p] bitlen_bounds_rat [OF q] p q
      by (intro frac_less) auto
    also have "\<dots> = pow2 (?k + 1)"
      using pow2_diff [of "bitlen p" "bitlen q - 1"] by (simp add: algebra_simps)
    finally show ?thesis .
  qed
  show "pow2 (ilog2 x) \<le> x" "x < pow2 (ilog2 x + 1)"
    using lo hi by (auto simp: ilog2_def pq Let_def)
qed

lemma ilog2_unique:
  assumes "pow2 k \<le> x" and "x < pow2 (k + 1)"
  shows "ilog2 x = k"
proof -
  have x: "0 < x"
    using assms(1) by (rule less_le_trans [OF pow2_pos])
  have "pow2 k < pow2 (ilog2 x + 1)"
    using assms(1) ilog2_bounds(2) [OF x] by (rule le_less_trans)
  moreover have "pow2 (ilog2 x) < pow2 (k + 1)"
    using ilog2_bounds(1) [OF x] assms(2) by (rule le_less_trans)
  ultimately show ?thesis by simp
qed

lemma ilog2_mono:
  assumes "0 < x" and "x \<le> y"
  shows "ilog2 x \<le> ilog2 y"
proof -
  have y: "0 < y" using assms by simp
  have "pow2 (ilog2 x) \<le> y"
    using ilog2_bounds(1) [OF assms(1)] assms(2) by (rule order_trans)
  then have "pow2 (ilog2 x) < pow2 (ilog2 y + 1)"
    using ilog2_bounds(2) [OF y] by (rule le_less_trans)
  then show ?thesis by simp
qed

section \<open>Rounding to the nearest double\<close>

definition rne :: "rat \<Rightarrow> int" where
  "rne x = (let f = \<lfloor>x\<rfloor>; d = x - of_int f
            in if d < 1 / 2 then f
               else if 1 / 2 < d then f + 1
               else if even f then f else f + 1)"

lemma rne_of_int [simp]: "rne (of_int n) = n"
  by (simp add: rne_def)

lemma rne_near: "\<lfloor>x\<rfloor> \<le> rne x" "rne x \<le> \<lfloor>x\<rfloor> + 1"
  by (auto simp: rne_def Let_def)

lemma rne_mono: "x \<le> y \<Longrightarrow> rne x \<le> rne y"
proof (cases "\<lfloor>x\<rfloor> = \<lfloor>y\<rfloor>")
  case True
  moreover assume "x \<le> y"
  ultimately show ?thesis by (auto simp: rne_def Let_def)
next
  case False
  assume "x \<le> y"
  with False have "\<lfloor>x\<rfloor> + 1 \<le> \<lfloor>y\<rfloor>"
    using floor_mono [of x y] by linarith
  with rne_near [of x] rne_near [of y] show ?thesis by linarith
qed

lemma rne_le: "x \<le> of_int n \<Longrightarrow> rne x \<le> n"
  using rne_mono [of x "of_int n"] by simp

lemma le_rne: "of_int n \<le> x \<Longrightarrow> n \<le> rne x"
  using rne_mono [of "of_int n" x] by simp

definition ulp_exp :: "rat \<Rightarrow> int" where
  "ulp_exp x = ilog2 x - 52"

definition fl_pos :: "rat \<Rightarrow> rat" where
  "fl_pos x = of_int (rne (x / pow2 (ulp_exp x))) * pow2 (ulp_exp x)"

definition fl :: "rat \<Rightarrow> rat" where
  "fl x = (if x = 0 then 0 else if 0 < x then fl_pos x else - fl_pos (- x))"

lemma fl_pos_bounds:
  assumes "0 < x"
  shows "pow2 (ilog2 x) \<le> fl_pos x" and "fl_pos x \<le> pow2 (ilog2 x + 1)"
proof -
  let ?e = "ulp_exp x"
  have lo: "of_int (2 ^ 52) \<le> x / pow2 ?e"
    using ilog2_bounds(1) [OF assms] pow2_nat [of 52]
    by (simp add: ulp_exp_def pow2_diff field_simps)
  have up: "of_int (2 ^ 53) * pow2 ?e = pow2 (ilog2 x + 1)"
    using pow2_nat [of 53] pow2_add [of 53 ?e] by (simp add: ulp_exp_def algebra_simps)
  then have hi: "x / pow2 ?e \<le> of_int (2 ^ 53)"
    using ilog2_bounds(2) [OF assms] by (simp add: pos_divide_le_eq)
  have "of_int (2 ^ 52) \<le> (of_int (rne (x / pow2 ?e)) :: rat)"
    using le_rne [OF lo] by (simp only: of_int_le_iff)
  then have "of_int (2 ^ 52) * pow2 ?e \<le> fl_pos x"
    unfolding fl_pos_def by (rule mult_right_mono) simp
  moreover have "of_int (2 ^ 52) * pow2 ?e = pow2 (ilog2 x)"
    using pow2_nat [of 52] by (simp add: ulp_exp_def pow2_diff)
  ultimately show "pow2 (ilog2 x) \<le> fl_pos x" by simp
  have "of_int (rne (x / pow2 ?e)) \<le> (of_int (2 ^ 53) :: rat)"
    using rne_le [OF hi] by (simp only: of_int_le_iff)
  then have "fl_pos x \<le> of_int (2 ^ 53) * pow2 ?e"
    unfolding fl_pos_def by (rule mult_right_mono) simp
  with up show "fl_pos x \<le> pow2 (ilog2 x + 1)" by simp
qed

lemma fl_pos_mono:
  assumes "0 < x" and "x \<le> y"
  shows "fl_pos x \<le> fl_pos y"
proof (cases "ilog2 x = ilog2 y")
  case True
  then have "rne (x / pow2 (ulp_exp x)) \<le> rne (y / pow2 (ulp_exp x))"
    using assms by (intro rne_mono divide_right_mono) auto
  with True show ?thesis by (simp add: fl_pos_def ulp_exp_def)
next
  case False
  with ilog2_mono [OF assms] have "ilog2 x + 1 \<le> ilog2 y" by simp
  then have "pow2 (ilog2 x + 1) \<le> pow2 (ilog2 y)" by simp
  with fl_pos_bounds(2) [OF assms(1)] have "fl_pos x \<le> pow2 (ilog2 y)"
    by (rule order_trans)
  also have "\<dots> \<le> fl_pos y"
    using assms by (intro fl_pos_bounds(1)) simp
  finally show ?thesis .
qed

lemma fl_pos_pos: "0 < x \<Longrightarrow> 0 < fl_pos x"
  using fl_pos_bounds(1) [of x] pow2_pos [of "ilog2 x"] by linarith

theorem fl_mono: "x \<le> y \<Longrightarrow> fl x \<le> fl y"
  using fl_pos_mono [of x y] fl_pos_mono [of "- y" "- x"] fl_pos_pos [of x] fl_pos_pos [of y]
    fl_pos_pos [of "- x"] fl_pos_pos [of "- y"]
  by (auto simp: fl_def)

lemma fl_minus: "fl (- x) = - fl x"
  by (simp add: fl_def)

lemma fl_0 [simp]: "fl 0 = 0"
  by (simp add: fl_def)

subsection \<open>Integers up to two to the 53 are doubles\<close>

lemma fl_pos_of_int:
  assumes "0 < n" and "n \<le> 2 ^ 53"
  shows "fl_pos (of_int n) = of_int n"
proof (cases "n = 2 ^ 53")
  case True
  have "ilog2 (2 ^ 53 :: rat) = 53"
    by (rule ilog2_unique) (simp_all add: pow2_def power_int_def)
  then have "ulp_exp (2 ^ 53) = 1" by (simp add: ulp_exp_def)
  then have "fl_pos (2 ^ 53) = of_int (rne (of_int (2 ^ 52))) * 2"
    by (simp add: fl_pos_def pow2_def)
  then show ?thesis
    unfolding rne_of_int by (simp add: True)
next
  case False
  with assms have n: "n < 2 ^ 53" by simp
  let ?e = "ulp_exp (of_int n)"
  have "pow2 (ilog2 (of_int n)) < pow2 53"
    using ilog2_bounds(1) [of "of_int n"] assms n pow2_nat [of 53]
    by (metis le_less_trans of_int_0_less_iff of_int_less_iff nat_numeral zero_le_numeral)
  then have e: "?e \<le> 0" by (simp add: ulp_exp_def)
  have "of_int n / pow2 ?e = of_int n * pow2 (- ?e)"
    using pow2_diff [of 0 ?e] by (simp add: pow2_def)
  also have "\<dots> = of_int (n * 2 ^ nat (- ?e))"
    using e by (simp add: pow2_nat)
  finally have "rne (of_int n / pow2 ?e) = n * 2 ^ nat (- ?e)"
    by (simp only: rne_of_int)
  then have "fl_pos (of_int n) = of_int n * pow2 (- ?e) * pow2 ?e"
    using e by (simp add: fl_pos_def pow2_nat)
  then show ?thesis
    using pow2_add [of "- ?e" ?e] by (simp add: pow2_def)
qed

theorem fl_of_int:
  assumes "\<bar>n\<bar> \<le> 2 ^ 53"
  shows "fl (of_int n) = of_int n"
  using assms fl_pos_of_int [of n] fl_pos_of_int [of "- n"] by (auto simp: fl_def)

lemma fl_numeral:
  assumes "(numeral k :: int) \<le> 2 ^ 53"
  shows "fl (numeral k) = numeral k"
  using fl_of_int [of "numeral k"] assms by simp

lemma fl_1 [simp]: "fl 1 = 1"
  using fl_of_int [of 1] by simp

lemma fl_nonneg: "0 \<le> x \<Longrightarrow> 0 \<le> fl x"
  using fl_mono [of 0 x] by simp

lemma fl_pos_iff [simp]: "0 < fl x \<longleftrightarrow> 0 < x"
  using fl_pos_pos [of x] fl_pos_pos [of "- x"] by (auto simp: fl_def)

subsection \<open>The rounding error\<close>

lemma rne_error: "\<bar>of_int (rne x) - x\<bar> \<le> 1 / 2"
proof -
  have "of_int \<lfloor>x\<rfloor> \<le> x" "x < of_int \<lfloor>x\<rfloor> + 1"
    using floor_correct [of x] by auto
  then show ?thesis by (simp add: rne_def Let_def abs_le_iff)
qed

lemma fl_pos_error:
  assumes "0 < x"
  shows "\<bar>fl_pos x - x\<bar> \<le> pow2 (ilog2 x - 53)"
proof -
  let ?e = "ulp_exp x"
  have "fl_pos x - x = (of_int (rne (x / pow2 ?e)) - x / pow2 ?e) * pow2 ?e"
    by (simp add: fl_pos_def algebra_simps)
  then have "\<bar>fl_pos x - x\<bar> = \<bar>of_int (rne (x / pow2 ?e)) - x / pow2 ?e\<bar> * pow2 ?e"
    by (simp add: abs_mult)
  also have "\<dots> \<le> 1 / 2 * pow2 ?e"
    by (intro mult_right_mono rne_error) simp
  also have "\<dots> = pow2 (ilog2 x - 53)"
    using pow2_diff [of ?e 1] by (simp add: ulp_exp_def pow2_def)
  finally show ?thesis .
qed

lemma fl_error_small:
  assumes "0 < x" and "x < pow2 k"
  shows "\<bar>fl x - x\<bar> \<le> pow2 (k - 54)"
proof -
  have "pow2 (ilog2 x) < pow2 k"
    using ilog2_bounds(1) [OF assms(1)] assms(2) by (rule le_less_trans)
  then have "pow2 (ilog2 x - 53) \<le> pow2 (k - 54)" by simp
  with fl_pos_error [OF assms(1)] have "\<bar>fl_pos x - x\<bar> \<le> pow2 (k - 54)"
    by (rule order_trans)
  then show ?thesis
    using assms(1) by (simp add: fl_def)
qed

lemma fl_relative_error:
  assumes "0 \<le> x"
  shows "x * (1 - pow2 (- 53)) \<le> fl x" and "fl x \<le> x * (1 + pow2 (- 53))"
proof -
  have "\<bar>fl x - x\<bar> \<le> x * pow2 (- 53)"
  proof (cases "x = 0")
    case False
    with assms have x: "0 < x" by simp
    have "pow2 (ilog2 x - 53) = pow2 (ilog2 x) * pow2 (- 53)"
      using pow2_add [of "ilog2 x" "- 53"] by simp
    also have "\<dots> \<le> x * pow2 (- 53)"
      by (intro mult_right_mono ilog2_bounds(1) x) simp
    finally show ?thesis
      using fl_pos_error [OF x] x by (simp add: fl_def)
  qed simp
  then show "x * (1 - pow2 (- 53)) \<le> fl x" "fl x \<le> x * (1 + pow2 (- 53))"
    by (simp_all add: algebra_simps abs_le_iff)
qed

section \<open>Interface: a rounding mode\<close>

text \<open>
  What the engine and the dashboard rely on of the Number type: rounding is monotone and
  leaves integers up to two to the 53 alone.
\<close>

locale number_rounding =
  fixes rnd :: "rat \<Rightarrow> rat"
  assumes rnd_mono: "x \<le> y \<Longrightarrow> rnd x \<le> rnd y"
    and rnd_int: "\<bar>n\<bar> \<le> 2 ^ 53 \<Longrightarrow> rnd (of_int n) = of_int n"
begin

lemma rnd_between:
  assumes "of_int l \<le> x" and "x \<le> of_int h" and "\<bar>l\<bar> \<le> 2 ^ 53" and "\<bar>h\<bar> \<le> 2 ^ 53"
  shows "of_int l \<le> rnd x" and "rnd x \<le> of_int h"
  using rnd_mono [OF assms(1)] rnd_mono [OF assms(2)] rnd_int assms(3,4) by auto

lemma rnd_ge_0: "0 \<le> x \<Longrightarrow> 0 \<le> rnd x"
  using rnd_mono [of 0 x] rnd_int [of 0] by simp

lemma rnd_le_0: "x \<le> 0 \<Longrightarrow> rnd x \<le> 0"
  using rnd_mono [of x 0] rnd_int [of 0] by simp

lemma rnd_ge_1: "1 \<le> x \<Longrightarrow> 1 \<le> rnd x"
  using rnd_mono [of 1 x] rnd_int [of 1] by simp

text \<open>A sum of four parts, each a ratio between zero and one times its weight.\<close>

lemma weighted_sum_bounds:
  assumes "0 \<le> a" "a \<le> 1" "0 \<le> b" "b \<le> 1" "0 \<le> c" "c \<le> 1" "0 \<le> d" "d \<le> 1"
  shows "0 \<le> rnd (rnd (rnd (rnd (a * 40) + rnd (b * 30)) + rnd (c * 20)) + rnd (d * 10))"
    and "rnd (rnd (rnd (rnd (a * 40) + rnd (b * 30)) + rnd (c * 20)) + rnd (d * 10)) \<le> 100"
proof -
  have a: "0 \<le> rnd (a * 40)" "rnd (a * 40) \<le> 40"
    using rnd_between [of 0 "a * 40" 40] assms by auto
  have b: "0 \<le> rnd (b * 30)" "rnd (b * 30) \<le> 30"
    using rnd_between [of 0 "b * 30" 30] assms by auto
  have c: "0 \<le> rnd (c * 20)" "rnd (c * 20) \<le> 20"
    using rnd_between [of 0 "c * 20" 20] assms by auto
  have d: "0 \<le> rnd (d * 10)" "rnd (d * 10) \<le> 10"
    using rnd_between [of 0 "d * 10" 10] assms by auto
  let ?ab = "rnd (rnd (a * 40) + rnd (b * 30))"
  have ab: "0 \<le> ?ab" "?ab \<le> 70"
    using rnd_between [of 0 "rnd (a * 40) + rnd (b * 30)" 70] a b by auto
  let ?abc = "rnd (?ab + rnd (c * 20))"
  have abc: "0 \<le> ?abc" "?abc \<le> 90"
    using rnd_between [of 0 "?ab + rnd (c * 20)" 90] ab c by auto
  show "0 \<le> rnd (?abc + rnd (d * 10))" "rnd (?abc + rnd (d * 10)) \<le> 100"
    using rnd_between [of 0 "?abc + rnd (d * 10)" 100] abc d by auto
qed

lemma weighted_sum_mono:
  assumes "a \<le> a'" "b \<le> b'" "c \<le> c'" "d \<le> d'"
  shows "rnd (rnd (rnd (rnd (a * 40) + rnd (b * 30)) + rnd (c * 20)) + rnd (d * 10))
       \<le> rnd (rnd (rnd (rnd (a' * 40) + rnd (b' * 30)) + rnd (c' * 20)) + rnd (d' * 10))"
  using assms by (intro rnd_mono add_mono mult_right_mono) auto

text \<open>A running sum whose partial sums stay in range is the exact integer sum.\<close>

lemma rounded_fold_exact:
  assumes "\<bar>z\<bar> + sum_list (map abs xs) \<le> 2 ^ 53"
  shows "fold (\<lambda>x acc. rnd (acc + rnd (of_int x))) xs (of_int z) = of_int (z + sum_list xs)"
  using assms
proof (induction xs arbitrary: z)
  case Nil
  then show ?case by simp
next
  case (Cons x xs)
  have nonneg: "0 \<le> sum_list (map abs xs)"
    by (rule sum_list_nonneg) auto
  with Cons.prems have "\<bar>x\<bar> \<le> 2 ^ 53" and "\<bar>z + x\<bar> \<le> 2 ^ 53"
    and rest: "\<bar>z + x\<bar> + sum_list (map abs xs) \<le> 2 ^ 53"
    by auto
  then have "rnd (of_int z + rnd (of_int x)) = of_int (z + x)"
    by (metis of_int_add rnd_int)
  with Cons.IH [OF rest] show ?case by (simp add: add.assoc)
qed

end

interpretation ieee: number_rounding fl
  by unfold_locales (rule fl_mono fl_of_int; assumption)+

section \<open>Math and number formatting\<close>

definition to_number :: "int \<Rightarrow> rat" where
  "to_number n = fl (of_int n)" \<comment> \<open>\<open>Number(bigint)\<close>\<close>

definition js_clamp :: "rat \<Rightarrow> rat \<Rightarrow> rat \<Rightarrow> rat" where
  "js_clamp v lo hi = min hi (max lo v)"

definition math_round :: "rat \<Rightarrow> int" where
  "math_round x = \<lfloor>x + 1 / 2\<rfloor>"

text \<open>\<open>Number(x.toFixed(1))\<close>: the integer \<open>n\<close> with \<open>n / 10\<close> closest to the exact value of
  \<open>x\<close>, the larger one on a tie (for negative \<open>x\<close>, the result for \<open>- x\<close> negated), read back
  as a Number.\<close>

definition to_fixed1 :: "rat \<Rightarrow> rat" where
  "to_fixed1 x = (if x < 0 then - fl (of_int \<lfloor>- x * 10 + 1 / 2\<rfloor> / 10)
                  else fl (of_int \<lfloor>x * 10 + 1 / 2\<rfloor> / 10))"

lemma math_round_mono: "x \<le> y \<Longrightarrow> math_round x \<le> math_round y"
  by (simp add: math_round_def floor_mono)

lemma math_round_of_int [simp]: "math_round (of_int n) = n"
  by (simp add: math_round_def floor_eq_iff)

lemma js_clamp_range: "lo \<le> hi \<Longrightarrow> lo \<le> js_clamp v lo hi" "js_clamp v lo hi \<le> hi"
  by (auto simp: js_clamp_def)

lemma js_clamp_mono: "v \<le> w \<Longrightarrow> js_clamp v lo hi \<le> js_clamp w lo hi"
  by (auto simp: js_clamp_def)

end
