(* ===== verification/Engine.thy ===== *)
theory Engine
  imports Js_Number Schema
begin

text \<open>
  The stability engine \<open>api/src/dashboard/engine.ts\<close> and the dashboard service that feeds it
  from the goal and the transactions of a user. Every arithmetic operation on Numbers is
  followed by the rounding \<open>fl\<close>.
\<close>

section \<open>The engine\<close>

record stability_inputs =
  goalTotalKobo :: rat
  goalSavedKobo :: rat
  dueDate :: ms
  today :: ms
  estimatedBalanceKobo :: rat
  monthlyIncomeKobo :: "rat option"

record stability_output =
  daysRemaining :: int
  remainingObligationKobo :: rat
  readinessPct :: rat
  paceRequiredMonthlyKobo :: rat
  safeToSpendKobo :: rat
  stabilityScore :: int
  status :: stability_status

definition days_remaining :: "ms \<Rightarrow> ms \<Rightarrow> int" where
  "days_remaining due now =
     max 0 \<lceil>fl (fl (of_int due - of_int now) / (1000 * 60 * 60 * 24))\<rceil>"

definition remaining_obligation :: "rat \<Rightarrow> rat \<Rightarrow> rat" where
  "remaining_obligation goalTotal saved = max 0 (fl (goalTotal - saved))"

definition readiness_ratio :: "rat \<Rightarrow> rat \<Rightarrow> rat" where
  "readiness_ratio goalTotal saved =
     (if goalTotal > 0 then js_clamp (fl (saved / goalTotal)) 0 1 else 0)"

definition pace_required :: "rat \<Rightarrow> int \<Rightarrow> rat" where
  "pace_required remaining days =
     (if days > 0
      then of_int \<lceil>fl (remaining / max (fl (of_int days / 30)) (fl (1 / 30)))\<rceil>
      else remaining)"

definition safe_to_spend :: "rat \<Rightarrow> rat \<Rightarrow> rat" where
  "safe_to_spend balance remaining = max 0 (fl (balance - remaining))"

definition coverage_ratio :: "rat \<Rightarrow> rat \<Rightarrow> rat" where
  "coverage_ratio balance remaining =
     (if remaining = 0 then 1 else js_clamp (fl (balance / max remaining 1)) 0 1)"

definition income_support_ratio :: "rat option \<Rightarrow> rat \<Rightarrow> rat" where
  "income_support_ratio income pace =
     (case income of
        None \<Rightarrow> 0
      | Some i \<Rightarrow> if i \<noteq> 0 \<and> pace > 0 then js_clamp (fl (i / pace)) 0 1 else 0)"

definition buffer_ratio :: "rat \<Rightarrow> rat \<Rightarrow> rat" where
  "buffer_ratio safe remaining =
     (if remaining > 0 then js_clamp (fl (safe / remaining)) 0 1 else 1)"

definition stability_score :: "rat \<Rightarrow> rat \<Rightarrow> rat \<Rightarrow> rat \<Rightarrow> int" where
  "stability_score readiness coverage incomeSupport buffer =
     math_round (fl (fl (fl (fl (readiness * 40) + fl (coverage * 30))
                         + fl (incomeSupport * 20)) + fl (buffer * 10)))"

definition score_status :: "int \<Rightarrow> stability_status" where
  "score_status score = (if score \<ge> 70 then Stable else if score \<ge> 40 then Warning else Critical)"

definition computeStability :: "stability_inputs \<Rightarrow> stability_output" where
  "computeStability input =
     (let goalTotal = max 0 (goalTotalKobo input);
          saved = max 0 (goalSavedKobo input);
          balance = estimatedBalanceKobo input;
          days = days_remaining (dueDate input) (today input);
          remaining = remaining_obligation goalTotal saved;
          readinessRatio = readiness_ratio goalTotal saved;
          pace = pace_required remaining days;
          safe = safe_to_spend balance remaining;
          score = stability_score readinessRatio (coverage_ratio balance remaining)
                    (income_support_ratio (monthlyIncomeKobo input) pace)
                    (buffer_ratio safe remaining)
      in \<lparr>daysRemaining = days,
          remainingObligationKobo = remaining,
          readinessPct = to_fixed1 (fl (readinessRatio * 100)),
          paceRequiredMonthlyKobo = pace,
          safeToSpendKobo = safe,
          stabilityScore = score,
          status = score_status score\<rparr>)"

lemma computeStability_sel:
  "daysRemaining (computeStability i) = days_remaining (dueDate i) (today i)"
  "remainingObligationKobo (computeStability i) =
     remaining_obligation (max 0 (goalTotalKobo i)) (max 0 (goalSavedKobo i))"
  "safeToSpendKobo (computeStability i) =
     safe_to_spend (estimatedBalanceKobo i) (remainingObligationKobo (computeStability i))"
  "paceRequiredMonthlyKobo (computeStability i) =
     pace_required (remainingObligationKobo (computeStability i)) (daysRemaining (computeStability i))"
  "readinessPct (computeStability i) =
     to_fixed1 (fl (readiness_ratio (max 0 (goalTotalKobo i)) (max 0 (goalSavedKobo i)) * 100))"
  "stabilityScore (computeStability i) =
     (let total = max 0 (goalTotalKobo i); saved = max 0 (goalSavedKobo i);
          remaining = remaining_obligation total saved;
          pace = pace_required remaining (days_remaining (dueDate i) (today i));
          safe = safe_to_spend (estimatedBalanceKobo i) remaining
      in stability_score (readiness_ratio total saved)
           (coverage_ratio (estimatedBalanceKobo i) remaining)
           (income_support_ratio (monthlyIncomeKobo i) pace) (buffer_ratio safe remaining))"
  "status (computeStability i) = score_status (stabilityScore (computeStability i))"
  by (simp_all add: computeStability_def Let_def)

section \<open>What the engine computes\<close>

lemma ratio_ranges:
  "0 \<le> readiness_ratio a b" "readiness_ratio a b \<le> 1"
  "0 \<le> coverage_ratio a b" "coverage_ratio a b \<le> 1"
  "0 \<le> income_support_ratio m a" "income_support_ratio m a \<le> 1"
  "0 \<le> buffer_ratio a b" "buffer_ratio a b \<le> 1"
  by (auto simp: readiness_ratio_def coverage_ratio_def income_support_ratio_def
      buffer_ratio_def js_clamp_range split: option.split)

lemma stability_score_range:
  assumes "0 \<le> a" "a \<le> 1" "0 \<le> b" "b \<le> 1" "0 \<le> c" "c \<le> 1" "0 \<le> d" "d \<le> 1"
  shows "0 \<le> stability_score a b c d" and "stability_score a b c d \<le> 100"
  using ieee.weighted_sum_bounds [OF assms]
    math_round_mono [of 0] math_round_mono [of _ 100] math_round_of_int [of 0] math_round_of_int [of 100]
  unfolding stability_score_def by (metis of_int_0, metis of_int_numeral)

lemma stability_score_mono:
  assumes "a \<le> a'" "b \<le> b'" "c \<le> c'" "d \<le> d'"
  shows "stability_score a b c d \<le> stability_score a' b' c' d'"
  unfolding stability_score_def by (intro math_round_mono ieee.weighted_sum_mono assms)

lemma safe_to_spend_mono: "b \<le> b' \<Longrightarrow> safe_to_spend b r \<le> safe_to_spend b' r"
  unfolding safe_to_spend_def by (intro max.mono fl_mono) auto

lemma coverage_ratio_mono: "b \<le> b' \<Longrightarrow> coverage_ratio b r \<le> coverage_ratio b' r"
  unfolding coverage_ratio_def by (auto intro!: js_clamp_mono fl_mono divide_right_mono)

lemma buffer_ratio_mono: "s \<le> s' \<Longrightarrow> buffer_ratio s r \<le> buffer_ratio s' r"
  unfolding buffer_ratio_def by (auto intro!: js_clamp_mono fl_mono divide_right_mono)

definition income_or_zero :: "rat option \<Rightarrow> rat" where
  "income_or_zero m = (case m of None \<Rightarrow> 0 | Some i \<Rightarrow> i)"

lemma income_support_alt:
  "income_support_ratio m pace =
     (if pace > 0 then js_clamp (fl (income_or_zero m / pace)) 0 1 else 0)"
  by (auto simp: income_support_ratio_def income_or_zero_def js_clamp_def split: option.split)

lemma income_support_mono:
  "income_or_zero m \<le> income_or_zero m' \<Longrightarrow> income_support_ratio m p \<le> income_support_ratio m' p"
  unfolding income_support_alt by (auto intro!: js_clamp_mono fl_mono divide_right_mono)

text \<open>
  C26. The stability score lies between 0 and 100 for every input: any goal, any savings, any
  balance, any income and any pair of dates.
\<close>

theorem stabilityScore_range:
  "0 \<le> stabilityScore (computeStability i) \<and> stabilityScore (computeStability i) \<le> 100"
  by (simp add: computeStability_sel Let_def stability_score_range ratio_ranges)

text \<open>
  C27. More money never lowers the score: with the goal, the savings and the dates fixed, a
  balance at least as large and an income at least as large (no income counting as zero)
  give a score at least as large.
\<close>

theorem stabilityScore_mono:
  assumes "estimatedBalanceKobo i \<le> b" and "income_or_zero (monthlyIncomeKobo i) \<le> income_or_zero m"
  shows "stabilityScore (computeStability i)
       \<le> stabilityScore (computeStability (i\<lparr>estimatedBalanceKobo := b, monthlyIncomeKobo := m\<rparr>))"
  by (simp add: computeStability_sel(6) Let_def stability_score_mono coverage_ratio_mono
      income_support_mono buffer_ratio_mono safe_to_spend_mono assms)

definition sample_input :: stability_inputs where
  "sample_input = \<lparr>goalTotalKobo = 120000000, goalSavedKobo = 30000000,
     dueDate = 1800000000000, today = 1790000000000,
     estimatedBalanceKobo = 50000000, monthlyIncomeKobo = Some 45000000\<rparr>"

theorem stabilityScore_mono_witness:
  "stabilityScore (computeStability sample_input)
     \<le> stabilityScore (computeStability
          (sample_input\<lparr>estimatedBalanceKobo := 60000000, monthlyIncomeKobo := Some 90000000\<rparr>))"
  by (rule stabilityScore_mono) (simp_all add: sample_input_def income_or_zero_def)

subsection \<open>A goal that is fully saved\<close>

lemma funded_ratios:
  assumes "0 < t" and "t \<le> s"
  shows "remaining_obligation t s = 0" and "readiness_ratio t s = 1"
proof -
  have "fl (t - s) \<le> 0"
    using assms by (intro ieee.rnd_le_0) simp
  then show "remaining_obligation t s = 0"
    by (simp add: remaining_obligation_def)
  have "1 \<le> fl (s / t)"
    using assms by (intro ieee.rnd_ge_1) (simp add: le_divide_eq)
  with assms show "readiness_ratio t s = 1"
    by (simp add: readiness_ratio_def js_clamp_def)
qed

lemma pace_required_0: "pace_required 0 d = 0"
  by (simp add: pace_required_def)

lemma funded_score: "stability_score 1 1 0 1 = 80"
  by code_simp

text \<open>
  A goal whose savings reach its amount leaves no obligation and no pace to keep, is
  100 percent ready and stable, and scores exactly 80: nothing is left for an income to
  support, so that part of the score is zero whatever the income is.
\<close>

lemma funded_goal_outcome:
  assumes "0 < goalTotalKobo i" and "goalTotalKobo i \<le> goalSavedKobo i"
  shows "remainingObligationKobo (computeStability i) = 0
       \<and> paceRequiredMonthlyKobo (computeStability i) = 0
       \<and> readinessPct (computeStability i) = 100
       \<and> stabilityScore (computeStability i) = 80
       \<and> status (computeStability i) = Stable"
proof -
  have pos: "0 < max 0 (goalTotalKobo i)" and le: "max 0 (goalTotalKobo i) \<le> max 0 (goalSavedKobo i)"
    using assms by auto
  note r = funded_ratios [OF pos le]
  have pct: "to_fixed1 (fl (1 * 100)) = 100" by code_simp
  have "stabilityScore (computeStability i) = 80"
    by (simp add: computeStability_sel Let_def r pace_required_0 income_support_alt
        coverage_ratio_def buffer_ratio_def funded_score)
  then show ?thesis
    using pct by (simp add: computeStability_sel(1-5,7) r pace_required_0 score_status_def)
qed

lemma funded_goal_outcome_witness:
  "stabilityScore (computeStability (sample_input\<lparr>goalSavedKobo := 120000000\<rparr>)) = 80"
  using funded_goal_outcome [of "sample_input\<lparr>goalSavedKobo := 120000000\<rparr>"]
  by (simp add: sample_input_def)

text \<open>
  Saving the last kobo can lower the score: one kobo short of the goal, with a balance and
  an income that cover it, the score is 100; at the goal it is 80.
\<close>

lemma last_kobo_lowers_score:
  "stabilityScore (computeStability (sample_input\<lparr>goalSavedKobo := 119999999\<rparr>)) = 100
   \<and> stabilityScore (computeStability (sample_input\<lparr>goalSavedKobo := 120000000\<rparr>)) = 80"
  by code_simp

subsection \<open>Amounts of whole kobo\<close>

text \<open>
  C30. On whole-kobo inputs up to two to the 52 the money outputs are exact integer
  arithmetic, without rounding: the obligation is the goal less the savings, and what is
  safe to spend is the balance less the obligation, neither below zero.
\<close>

theorem money_outputs_exact:
  assumes "goalTotalKobo i = of_int t" and "goalSavedKobo i = of_int s"
    and "estimatedBalanceKobo i = of_int b"
    and "\<bar>t\<bar> \<le> 2 ^ 52" and "\<bar>s\<bar> \<le> 2 ^ 52" and "\<bar>b\<bar> \<le> 2 ^ 52"
  shows "remainingObligationKobo (computeStability i) = of_int (max 0 (max 0 t - max 0 s))
       \<and> safeToSpendKobo (computeStability i) = of_int (max 0 (b - max 0 (max 0 t - max 0 s)))"
proof -
  let ?r = "max 0 (max 0 t - max 0 s)"
  have "fl (of_int (max 0 t - max 0 s)) = of_int (max 0 t - max 0 s)"
    using assms(4,5) by (intro fl_of_int) auto
  then have r: "remaining_obligation (max 0 (of_int t)) (max 0 (of_int s)) = of_int ?r"
    by (simp add: remaining_obligation_def of_int_max)
  have "fl (of_int (b - ?r)) = of_int (b - ?r)"
    using assms(4,5,6) by (intro fl_of_int) auto
  then have "safe_to_spend (of_int b) (of_int ?r) = of_int (max 0 (b - ?r))"
    by (simp add: safe_to_spend_def of_int_max)
  with r show ?thesis
    by (simp only: computeStability_sel(2,3) assms(1,2,3))
qed

theorem money_outputs_exact_witness:
  "safeToSpendKobo (computeStability (sample_input\<lparr>estimatedBalanceKobo := 100000000\<rparr>)) = 10000000"
  using money_outputs_exact [of "sample_input\<lparr>estimatedBalanceKobo := 100000000\<rparr>"
      120000000 30000000 100000000]
  by (simp add: sample_input_def)

subsection \<open>Days and pace\<close>

lemma fl_ceiling_div:
  assumes n: "0 < n" and k: "n < 2 ^ 26 * 86400000"
  shows "\<lceil>fl (of_int n / 86400000)\<rceil> = \<lceil>of_int n / 86400000 :: rat\<rceil>"
proof -
  let ?x = "of_int n / 86400000 :: rat"
  let ?c = "\<lceil>?x\<rceil>"
  have x0: "0 < ?x" using n by simp
  have "of_int n < (of_int (2 ^ 26 * 86400000) :: rat)"
    using k by (simp only: of_int_less_iff)
  then have x26: "?x < pow2 26"
    using pow2_nat [of 26] by simp
  have c: "of_int ?c - 1 < ?x" "?x \<le> of_int ?c"
    using ceiling_correct [of ?x] by auto
  have c26: "?c \<le> 2 ^ 26" "0 \<le> ?c"
    using x26 x0 pow2_nat [of 26] by (simp_all add: ceiling_le_iff less_imp_le)
  have up: "fl ?x \<le> of_int ?c"
    using ieee.rnd_between(2) [of 0 ?x ?c] x0 c c26 by auto
  have "(?c - 1) * 86400000 < n"
  proof -
    have "of_int ((?c - 1) * 86400000) < (of_int n :: rat)"
      using c(1) by (simp add: field_simps)
    then show ?thesis by (simp only: of_int_less_iff)
  qed
  then have "(?c - 1) * 86400000 + 1 \<le> n" by simp
  then have "of_int ((?c - 1) * 86400000 + 1) \<le> (of_int n :: rat)"
    by (simp only: of_int_le_iff)
  then have gap: "of_int ?c - 1 + 1 / 86400000 \<le> ?x"
    by (simp add: field_simps)
  have "?x - fl ?x \<le> pow2 (26 - 54)"
    using fl_error_small [OF x0 x26] by simp
  moreover have "pow2 (26 - 54) < 1 / 86400000"
    by (simp add: pow2_def power_int_def power_one_over)
  ultimately have "of_int ?c - 1 < fl ?x"
    using gap by linarith
  with up show ?thesis
    by (simp add: ceiling_unique)
qed

text \<open>
  C31. For dates at most two to the 26 days apart the days remaining are the exact number of
  started days of 24 hours until the due date, and none when it has passed: the rounding of
  the two divisions never moves the result to a neighbouring day.
\<close>

theorem daysRemaining_exact:
  assumes "\<bar>dueDate i - today i\<bar> < 2 ^ 26 * 86400000"
  shows "daysRemaining (computeStability i) = max 0 \<lceil>of_int (dueDate i - today i) / 86400000 :: rat\<rceil>"
proof -
  let ?n = "dueDate i - today i"
  have "fl (of_int (dueDate i) - of_int (today i)) = of_int ?n"
    using fl_of_int [of ?n] assms by simp
  then have d: "daysRemaining (computeStability i) = max 0 \<lceil>fl (of_int ?n / 86400000)\<rceil>"
    by (simp add: computeStability_sel(1) days_remaining_def)
  show ?thesis
  proof (cases "0 < ?n")
    case True
    with assms show ?thesis
      using fl_ceiling_div [of ?n] d by simp
  next
    case False
    then have le: "of_int ?n / 86400000 \<le> (0 :: rat)" by simp
    then have "\<lceil>of_int ?n / 86400000 :: rat\<rceil> \<le> 0" "\<lceil>fl (of_int ?n / 86400000)\<rceil> \<le> 0"
      using ieee.rnd_le_0 [OF le] by (simp_all only: ceiling_le_iff of_int_0)
    with d show ?thesis by simp
  qed
qed

theorem daysRemaining_exact_witness:
  "daysRemaining (computeStability sample_input) = max 0 \<lceil>10000000000 / 86400000 :: rat\<rceil>"
  using daysRemaining_exact [of sample_input] by (simp add: sample_input_def)

lemma pace_required_sufficient:
  assumes "0 < days" and "0 \<le> r" and "r < 2 ^ 52"
  shows "r - 1 < pace_required r days * of_int days / 30"
proof -
  define u where "u = pow2 (- 53)"
  define x where "x = (of_int days / 30 :: rat)"
  have u: "0 < u" "r * (2 * u) < 1" "u \<le> 1"
    using assms(2,3) by (simp_all add: u_def pow2_def power_int_def power_one_over)
  have x: "0 < x" "1 / 30 \<le> x"
    using assms(1) by (simp_all add: x_def)
  then have f: "0 < fl x" "fl x \<le> x * (1 + u)"
    using fl_relative_error(2) [of x] by (simp_all add: u_def)
  have "max (fl x) (fl (1 / 30)) = fl x"
    using fl_mono [OF x(2)] by simp
  then have p: "pace_required r days = of_int \<lceil>fl (r / fl x)\<rceil>"
    using assms(1) by (simp add: pace_required_def x_def)
  have "r * (1 - 2 * u) * (1 + u) \<le> r * (1 - u)"
  proof -
    have "(1 - 2 * u) * (1 + u) \<le> 1 - u"
      using u(1) by (simp add: algebra_simps)
    then show ?thesis
      using mult_left_mono [OF _ assms(2)] by (simp add: mult.assoc)
  qed
  then have "r * (1 - 2 * u) * fl x \<le> r * (1 - u) * x"
  proof -
    assume h: "r * (1 - 2 * u) * (1 + u) \<le> r * (1 - u)"
    have "u \<le> 1 / 2" by (simp add: u_def pow2_def power_int_def power_one_over)
    then have "0 \<le> r * (1 - 2 * u)" using assms(2) by simp
    then have "r * (1 - 2 * u) * fl x \<le> r * (1 - 2 * u) * (x * (1 + u))"
      by (intro mult_left_mono f(2))
    also have "\<dots> = r * (1 - 2 * u) * (1 + u) * x" by (simp add: algebra_simps)
    also have "\<dots> \<le> r * (1 - u) * x"
      using h x(1) by (intro mult_right_mono) auto
    finally show ?thesis .
  qed
  then have "r * (1 - 2 * u) \<le> r / fl x * (1 - u) * x"
    using f(1) by (simp add: pos_le_divide_eq mult.commute mult.left_commute)
  also have "\<dots> \<le> fl (r / fl x) * x"
    using fl_relative_error(1) [of "r / fl x"] assms(2) f(1) x(1)
    by (intro mult_right_mono) (auto simp: u_def)
  also have "\<dots> \<le> pace_required r days * x"
    unfolding p using x(1) by (intro mult_right_mono) (auto simp: le_of_int_ceiling)
  finally have "r - r * (2 * u) \<le> pace_required r days * x"
    by (simp add: algebra_simps)
  with u(2) show ?thesis by (simp add: x_def)
qed

text \<open>
  The pace is enough: saving the required monthly amount until the due date (a month
  being 30 days) falls short of the remaining obligation by less than one kobo, for
  obligations below two to the 52 kobo.
\<close>

lemma pace_meets_obligation:
  assumes "0 < daysRemaining (computeStability i)"
    and "remainingObligationKobo (computeStability i) < 2 ^ 52"
  shows "remainingObligationKobo (computeStability i) - 1
       < paceRequiredMonthlyKobo (computeStability i) * of_int (daysRemaining (computeStability i)) / 30"
proof -
  have "0 \<le> remainingObligationKobo (computeStability i)"
    by (simp add: computeStability_sel(2) remaining_obligation_def)
  with assms show ?thesis
    using pace_required_sufficient by (simp add: computeStability_sel(4))
qed

lemma pace_meets_obligation_witness:
  "90000000 - 1 < paceRequiredMonthlyKobo (computeStability sample_input) * 116 / 30"
proof -
  have h: "daysRemaining (computeStability sample_input) = 116"
    "remainingObligationKobo (computeStability sample_input) = 90000000"
    by code_simp+
  show ?thesis
    using pace_meets_obligation [of sample_input] by (simp add: h)
qed

end
