(* ===== verification/Dashboard.thy ===== *)
theory Dashboard
  imports Engine Js_Date
begin

text \<open>
  The dashboard service \<open>api/src/dashboard/dashboard.service.ts\<close>: it reads the active goal and
  the transactions of a user, sums them as Numbers and runs the engine.
\<close>

section \<open>The service\<close>

record goal_summary =
  gs_id :: jstring
  gs_name :: jstring
  gs_amountTotalKobo :: rat
  gs_dueDate :: jstring
  gs_monthlyIncomeKobo :: "rat option"

datatype dashboard_response =
    NoActiveGoal string
  | Snapshot goal_summary stability_output rat rat
    \<comment> \<open>the goal, the engine's result, \<open>goalSavedKobo\<close> and \<open>estimatedBalanceKobo\<close>\<close>

definition add_transaction :: "transaction_row \<Rightarrow> rat \<Rightarrow> rat" where
  "add_transaction tx acc =
     (let amount = to_number (t_amountKobo tx)
      in if t_direction tx = js ''in'' then fl (acc + amount) else fl (acc - amount))"

definition estimated_balance :: "transaction_row list \<Rightarrow> rat" where
  "estimated_balance txs = fold add_transaction txs 0"

definition goal_saved :: "jstring \<Rightarrow> transaction_row list \<Rightarrow> rat" where
  "goal_saved goalId txs =
     fold (\<lambda>tx acc. if t_goalId tx \<noteq> Some goalId then acc else add_transaction tx acc) txs 0"

text \<open>\<open>goal.monthlyIncomeKobo ? Number(\<dots>) : null\<close>: \<open>0n\<close> counts as absent.\<close>

definition income_number :: "int option \<Rightarrow> rat option" where
  "income_number m = (case m of None \<Rightarrow> None | Some n \<Rightarrow> if n = 0 then None else Some (to_number n))"

definition active_goal :: "db \<Rightarrow> jstring \<Rightarrow> goal_row option" where
  "active_goal d userId =
     find_first_by (\<lambda>g. - g_createdAt g) (\<lambda>g. g_userId g = userId \<and> g_isActive g) (goals d)"

definition getStability :: "db \<Rightarrow> jstring \<Rightarrow> ms \<Rightarrow> dashboard_response" where
  "getStability d userId now =
     (case active_goal d userId of
        None \<Rightarrow> NoActiveGoal ''No active goal found''
      | Some goal \<Rightarrow>
          (let txs = find_many (\<lambda>t. t_userId t = userId) (transactions d);
               balance = estimated_balance txs;
               saved = goal_saved (g_id goal) txs;
               result = computeStability
                 \<lparr>goalTotalKobo = to_number (g_amountTotalKobo goal), goalSavedKobo = saved,
                  dueDate = g_dueDate goal, today = now, estimatedBalanceKobo = balance,
                  monthlyIncomeKobo = income_number (g_monthlyIncomeKobo goal)\<rparr>
           in Snapshot
                \<lparr>gs_id = g_id goal, gs_name = g_name goal,
                 gs_amountTotalKobo = to_number (g_amountTotalKobo goal),
                 gs_dueDate = to_iso_string (g_dueDate goal),
                 gs_monthlyIncomeKobo = income_number (g_monthlyIncomeKobo goal)\<rparr>
                result saved balance))"

section \<open>The sums of the ledger\<close>

definition signed_kobo :: "transaction_row \<Rightarrow> int" where
  "signed_kobo tx = (if t_direction tx = js ''in'' then t_amountKobo tx else - t_amountKobo tx)"

lemma add_transaction_signed:
  "add_transaction tx acc = fl (acc + fl (of_int (signed_kobo tx)))"
  using fl_minus [of "of_int (t_amountKobo tx)"]
  by (simp add: add_transaction_def to_number_def signed_kobo_def Let_def)

lemma abs_signed_kobo: "\<bar>signed_kobo tx\<bar> = \<bar>t_amountKobo tx\<bar>"
  by (simp add: signed_kobo_def)

lemma fold_add_transaction:
  assumes "(\<Sum>tx\<leftarrow>txs. \<bar>t_amountKobo tx\<bar>) \<le> 2 ^ 53"
  shows "fold add_transaction txs 0 = of_int (\<Sum>tx\<leftarrow>txs. signed_kobo tx)"
proof -
  have "fold add_transaction txs 0
      = fold (\<lambda>x acc. fl (acc + fl (of_int x))) (map signed_kobo txs) (of_int 0)"
    by (simp add: fold_map comp_def add_transaction_signed [abs_def])
  also have "\<dots> = of_int (0 + sum_list (map signed_kobo txs))"
    using assms by (intro ieee.rounded_fold_exact) (simp add: comp_def abs_signed_kobo)
  finally show ?thesis by simp
qed

lemma fold_filtered:
  "fold (\<lambda>x acc. if \<not> p x then acc else f x acc) xs z = fold f (filter p xs) z"
  by (induction xs arbitrary: z) auto

lemma goal_saved_filter:
  "goal_saved gid txs = fold add_transaction (filter (\<lambda>tx. t_goalId tx = Some gid) txs) 0"
  unfolding goal_saved_def
  using fold_filtered [of "\<lambda>tx. t_goalId tx = Some gid" add_transaction txs 0] by simp

text \<open>
  C33. While the amounts of a user's transactions add up to at most two to the 53 kobo, the
  two sums of the dashboard are the exact integer sums of the ledger (inflows less outflows),
  over all transactions for the balance and over those mapped to the goal for the savings.
\<close>

theorem ledger_sums_exact:
  assumes "(\<Sum>tx\<leftarrow>txs. \<bar>t_amountKobo tx\<bar>) \<le> 2 ^ 53"
  shows "estimated_balance txs = of_int (\<Sum>tx\<leftarrow>txs. signed_kobo tx)
       \<and> goal_saved gid txs = of_int (\<Sum>tx\<leftarrow>filter (\<lambda>tx. t_goalId tx = Some gid) txs. signed_kobo tx)"
proof -
  have "(\<Sum>tx\<leftarrow>filter p txs. \<bar>t_amountKobo tx\<bar>) \<le> (\<Sum>tx\<leftarrow>txs. \<bar>t_amountKobo tx\<bar>)" for p
    by (induction txs) auto
  with assms have "(\<Sum>tx\<leftarrow>filter (\<lambda>tx. t_goalId tx = Some gid) txs. \<bar>t_amountKobo tx\<bar>) \<le> 2 ^ 53"
    by (meson order_trans)
  with assms show ?thesis
    by (simp only: estimated_balance_def goal_saved_filter fold_add_transaction simp_thms)
qed

definition sample_tx :: "string \<Rightarrow> int \<Rightarrow> string option \<Rightarrow> transaction_row" where
  "sample_tx dir n gid = \<lparr>t_id = js ''t'', t_userId = js ''u'', t_goalId = map_option js gid,
     t_amountKobo = n, t_direction = js dir, t_occurredAt = 0, t_note = None,
     t_importFingerprint = None, t_createdAt = 0\<rparr>"

theorem ledger_sums_exact_witness:
  "estimated_balance [sample_tx ''in'' 500 (Some ''g''), sample_tx ''out'' 120 None] = 380"
  using ledger_sums_exact [of "[sample_tx ''in'' 500 (Some ''g''), sample_tx ''out'' 120 None]" "js ''g''"]
  by (simp add: sample_tx_def signed_kobo_def)

text \<open>
  The dashboard of a user depends on that user's rows alone: removing every other user's
  goals and transactions changes nothing.
\<close>

lemma getStability_own_rows:
  "getStability (d\<lparr>goals := filter (\<lambda>g. g_userId g = u) (goals d),
                  transactions := filter (\<lambda>t. t_userId t = u) (transactions d)\<rparr>) u now
   = getStability d u now"
proof -
  let ?d = "d\<lparr>goals := filter (\<lambda>g. g_userId g = u) (goals d),
               transactions := filter (\<lambda>t. t_userId t = u) (transactions d)\<rparr>"
  have "List.find (\<lambda>x. p x \<and> q x) (filter p xs) = List.find (\<lambda>x. p x \<and> q x) xs"
    for p q and xs :: "goal_row list"
    by (induction xs) auto
  then have "active_goal ?d u = active_goal d u"
    by (simp add: active_goal_def find_first_by_def flip: filter_sort)
  moreover have "find_many (\<lambda>t. t_userId t = u) (transactions ?d)
      = find_many (\<lambda>t. t_userId t = u) (transactions d)"
    by (simp add: find_many_def)
  ultimately show ?thesis
    by (simp only: getStability_def)
qed

end
