(* ===== verification/Alert_Rules.thy ===== *)
theory Alert_Rules
  imports Dashboard
begin

text \<open>
  The pure rules of the readiness alerts, \<open>api/src/alerts/alert-rules.ts\<close>: when a risk or
  recovery alert is due, the key that identifies its occurrence, and the weekly schedule in
  the user's time zone.
\<close>

section \<open>Risk and recovery\<close>

definition RISK_SCORE_DROP :: int where "RISK_SCORE_DROP = 15"
definition RISK_COOLDOWN_MS :: ms where "RISK_COOLDOWN_MS = 24 * 60 * 60 * 1000"

fun severity :: "stability_status \<Rightarrow> int" where
  "severity Stable = 0"
| "severity Warning = 1"
| "severity Critical = 2"

datatype decision = Risk | Recovery

text \<open>The baseline is the stored alert state of the user and goal, when there is one.\<close>

definition riskDecision ::
  "stability_status \<Rightarrow> int \<Rightarrow> alert_state_row option \<Rightarrow> ms \<Rightarrow> decision option" where
  "riskDecision cur score baseline now =
     (let previousStatus = Option.bind baseline as_lastNotifiedStatus
      in if cur = Stable
         then (if previousStatus = Some Warning \<or> previousStatus = Some Critical
               then Some Recovery else None)
         else
           (let cooldownActive =
              (case Option.bind baseline as_lastRiskAlertAt of
                 None \<Rightarrow> False
               | Some t \<Rightarrow> now - t < RISK_COOLDOWN_MS)
            in if cooldownActive then None
               else (case (previousStatus, Option.bind baseline as_lastNotifiedScore) of
                       (Some p, Some s) \<Rightarrow>
                         if severity cur > severity p then Some Risk
                         else if score \<le> s - RISK_SCORE_DROP then Some Risk
                         else None
                     | _ \<Rightarrow> Some Risk)))"

section \<open>The key of an occurrence\<close>

fun status_text :: "stability_status \<Rightarrow> jstring" where
  "status_text Stable = js ''stable''"
| "status_text Warning = js ''warning''"
| "status_text Critical = js ''critical''"

fun decision_type :: "decision \<Rightarrow> jstring" where
  "decision_type Risk = js ''risk.alert''"
| "decision_type Recovery = js ''risk.recovery''"

definition or_else :: "'a option \<Rightarrow> 'a option \<Rightarrow> 'a option" where
  "or_else a b = (case a of None \<Rightarrow> b | Some _ \<Rightarrow> a)" \<comment> \<open>\<open>a ?? b\<close>\<close>

definition colon :: jstring where "colon = js '':''"

definition alertOccurrenceKey ::
  "decision \<Rightarrow> jstring \<Rightarrow> jstring \<Rightarrow> stability_status option \<Rightarrow> int option \<Rightarrow>
   stability_status \<Rightarrow> int \<Rightarrow> ms option \<Rightarrow> ms option \<Rightarrow> jstring" where
  "alertOccurrenceKey type userId goalId previousStatus previousScore currentStatus currentScore
     lastRiskAlertAt lastRecoveryAlertAt =
     (let occurrence = (case type of
            Risk \<Rightarrow> or_else lastRecoveryAlertAt lastRiskAlertAt
          | Recovery \<Rightarrow> or_else lastRiskAlertAt lastRecoveryAlertAt);
          anchor = (case occurrence of None \<Rightarrow> js ''initial'' | Some t \<Rightarrow> to_iso_string t)
      in join colon
           [decision_type type, userId, goalId, anchor,
            (case previousStatus of None \<Rightarrow> js ''none'' | Some s \<Rightarrow> status_text s),
            (case previousScore of None \<Rightarrow> js ''none'' | Some n \<Rightarrow> int_text n),
            status_text currentStatus, int_text currentScore])"

section \<open>The weekly schedule\<close>

text \<open>
  \<open>Intl.DateTimeFormat(\<dots>).formatToParts\<close> gives the calendar fields of the local time in a
  time zone. The time zone database is outside the program: \<open>offset tz t\<close> is the offset from
  UTC, in milliseconds, that the zone has at the instant \<open>t\<close>.
\<close>

record zoned_parts =
  zp_weekday :: jstring
  zp_year :: int
  zp_month :: int
  zp_day :: int
  zp_hour :: int

definition weekday_name :: "int \<Rightarrow> jstring" where
  "weekday_name w =
     js (if w = 0 then ''Sun'' else if w = 1 then ''Mon'' else if w = 2 then ''Tue''
         else if w = 3 then ''Wed'' else if w = 4 then ''Thu'' else if w = 5 then ''Fri'' else ''Sat'')"

definition local_day :: "(jstring \<Rightarrow> ms \<Rightarrow> ms) \<Rightarrow> jstring \<Rightarrow> ms \<Rightarrow> int" where
  "local_day offset tz t = (t + offset tz t) div ms_per_day"

definition local_hour :: "(jstring \<Rightarrow> ms \<Rightarrow> ms) \<Rightarrow> jstring \<Rightarrow> ms \<Rightarrow> int" where
  "local_hour offset tz t = (t + offset tz t) mod ms_per_day div 3600000"

definition format_to_parts :: "(jstring \<Rightarrow> ms \<Rightarrow> ms) \<Rightarrow> jstring \<Rightarrow> ms \<Rightarrow> zoned_parts" where
  "format_to_parts offset tz t =
     (let d = local_day offset tz t
      in case civil_from_days d of (y, m, dd) \<Rightarrow>
        \<lparr>zp_weekday = weekday_name (week_day d), zp_year = y, zp_month = m, zp_day = dd,
         zp_hour = local_hour offset tz t\<rparr>)"

definition weekdayIndex :: "jstring \<Rightarrow> int option" where
  "weekdayIndex w = map_of
     [(js ''Sun'', 0), (js ''Mon'', 1), (js ''Tue'', 2), (js ''Wed'', 3), (js ''Thu'', 4),
      (js ''Fri'', 5), (js ''Sat'', 6)] w"

record weekly_due =
  wd_due :: bool
  wd_key :: jstring

definition weeklySchedule ::
  "(jstring \<Rightarrow> ms \<Rightarrow> ms) \<Rightarrow> ms \<Rightarrow> jstring \<Rightarrow> int \<Rightarrow> int \<Rightarrow> weekly_due" where
  "weeklySchedule offset now timeZone scheduledDay scheduledHour =
     (let parts = format_to_parts offset timeZone now;
          day = (case weekdayIndex (zp_weekday parts) of None \<Rightarrow> 0 | Some i \<Rightarrow> i);
          hour = zp_hour parts;
          weekStart = date_utc_day (zp_year parts) (zp_month parts) (zp_day parts - day) * ms_per_day;
          key = take 10 (to_iso_string weekStart)
      in \<lparr>wd_due = (day > scheduledDay \<or> day = scheduledDay \<and> hour \<ge> scheduledHour),
          wd_key = key\<rparr>)"

section \<open>What the rules promise\<close>

lemma riskDecision_Risk:
  "riskDecision cur score b now = Some Risk \<Longrightarrow>
     cur \<noteq> Stable \<and>
     (case Option.bind b as_lastRiskAlertAt of None \<Rightarrow> True | Some t \<Rightarrow> t + RISK_COOLDOWN_MS \<le> now)"
  by (auto simp: riskDecision_def Let_def split: if_splits option.splits)

lemma riskDecision_Recovery:
  "riskDecision cur score b now = Some Recovery \<longleftrightarrow>
     cur = Stable \<and> (\<exists>p. Option.bind b as_lastNotifiedStatus = Some p \<and> p \<noteq> Stable)"
proof -
  have "(p = Warning \<or> p = Critical) \<longleftrightarrow> p \<noteq> Stable" for p by (cases p) auto
  then show ?thesis
    by (auto simp: riskDecision_def Let_def split: if_splits option.splits)
qed

text \<open>A repeated risk alert means a worse state: on scores whose status is the engine's, the
  score of the new alert is strictly below the last notified one.\<close>

lemma severity_score: "severity (score_status a) > severity (score_status b) \<Longrightarrow> a < b"
  by (auto simp: score_status_def split: if_splits)

lemma riskDecision_Risk_lower:
  assumes "riskDecision (score_status score) score (Some b) now = Some Risk"
    and "as_lastNotifiedStatus b = Some (score_status s)" and "as_lastNotifiedScore b = Some s"
  shows "score < s"
  using assms severity_score [where a = score and b = s]
  by (auto simp: riskDecision_def Let_def RISK_SCORE_DROP_def split: if_splits option.splits)

lemma weekdayIndex_name: "0 \<le> w \<Longrightarrow> w < 7 \<Longrightarrow> weekdayIndex (weekday_name w) = Some w"
  by (auto simp: weekdayIndex_def weekday_name_def)

lemma week_day_range: "0 \<le> week_day d" "week_day d < 7"
  by (simp_all add: week_day_def)

definition week_start :: "int \<Rightarrow> int" where
  "week_start d = d - week_day d" \<comment> \<open>the Sunday of the day's week\<close>

lemma week_start_eq: "week_start d = 7 * ((d + 4) div 7) - 4"
  unfolding week_start_def week_day_def using mult_div_mod_eq [of 7 "d + 4"] by linarith

lemma days_from_civil_shift: "days_from_civil y m (d - k) = days_from_civil y m d - k"
  by (simp add: days_from_civil_def)

lemma to_iso_string_midnight: "to_iso_string (d * ms_per_day) =
   iso_date d @ js ''T00:00:00.000Z''"
proof -
  have "pad2 0 = js ''00''" "pad3 0 = js ''000''" by code_simp+
  then show ?thesis
    by (simp add: to_iso_string_def ms_per_day_def Let_def js_def)
qed

lemma weeklySchedule_eq:
  assumes "100 \<le> year_of_day (local_day offset tz now)"
  shows "weeklySchedule offset now tz sd sh =
     (let d = local_day offset tz now
      in \<lparr>wd_due = (week_day d > sd \<or> week_day d = sd \<and> local_hour offset tz now \<ge> sh),
          wd_key = take 10 (iso_date (week_start d) @ js ''T00:00:00.000Z'')\<rparr>)"
proof -
  let ?d = "local_day offset tz now"
  obtain y m dd where c: "civil_from_days ?d = (y, m, dd)" by (cases "civil_from_days ?d")
  have "date_utc_day y m (dd - week_day ?d) = week_start ?d"
    using assms days_from_civil_from_days(1) [OF c]
    by (simp add: date_utc_day_def days_from_civil_shift week_start_def year_of_day_def c)
  then show ?thesis
    using week_day_range [of ?d]
    by (simp add: weeklySchedule_def format_to_parts_def Let_def c weekdayIndex_name
        to_iso_string_midnight)
qed


lemma year_of_day_bounds:
  "day_from_year (year_of_day d) \<le> d" "d < day_from_year (year_of_day d + 1)"
  using year_from_day_bounds [of d] by (simp_all add: year_of_day_def civil_from_days_def Let_def)

lemma day_from_year_le_iff: "day_from_year y \<le> day_from_year z \<longleftrightarrow> y \<le> z"
  using day_from_year_strict_mono [of y z] day_from_year_strict_mono [of z y] by force

lemma year_of_day_mono: "a \<le> b \<Longrightarrow> year_of_day a \<le> year_of_day b"
  using year_of_day_bounds [of a] year_of_day_bounds [of b]
    day_from_year_le_iff [of "year_of_day b + 1" "year_of_day a"] by force

lemma year_of_week_start:
  "year_of_day (week_start d) \<le> year_of_day d" "year_of_day d - 1 \<le> year_of_day (week_start d)"
proof -
  have le: "week_start d \<le> d" "d - 6 \<le> week_start d"
    using week_day_range [of d] by (simp_all add: week_start_def)
  from le(1) show "year_of_day (week_start d) \<le> year_of_day d" by (rule year_of_day_mono)
  have "day_from_year (year_of_day d - 1) \<le> d - 365"
    using year_of_day_bounds(1) [of d] day_from_year_step [of "year_of_day d - 1"]
    by (simp split: if_splits)
  then have "day_from_year (year_of_day d - 1) < day_from_year (year_of_day (week_start d) + 1)"
    using le(2) year_of_day_bounds(2) [of "week_start d"] by linarith
  then show "year_of_day d - 1 \<le> year_of_day (week_start d)"
    using day_from_year_le_iff [of "year_of_day (week_start d) + 1" "year_of_day d - 1"] by linarith
qed

definition tz_sane :: "(jstring \<Rightarrow> ms \<Rightarrow> ms) \<Rightarrow> jstring \<Rightarrow> ms \<Rightarrow> bool" where
  "tz_sane offset tz t \<longleftrightarrow>
     100 \<le> year_of_day (local_day offset tz t) \<and> year_of_day (local_day offset tz t) \<le> 9999"

lemma year_of_week_start_range:
  assumes "tz_sane offset tz t"
  shows "0 \<le> year_of_day (week_start (local_day offset tz t))"
    and "year_of_day (week_start (local_day offset tz t)) \<le> 9999"
  using assms year_of_week_start [of "local_day offset tz t"] by (simp_all add: tz_sane_def)

lemma weekly_key:
  assumes "tz_sane offset tz t"
  shows "wd_key (weeklySchedule offset t tz sd sh) = iso_date (week_start (local_day offset tz t))"
  using assms weeklySchedule_eq [of offset tz t sd sh] year_of_week_start [of "local_day offset tz t"]
    length_iso_date [of "week_start (local_day offset tz t)"]
  by (simp add: tz_sane_def Let_def)

text \<open>
  C34. The weekly key names the Sunday-based calendar week of the user's time zone: two
  instants (in the years 100 to 9999 of local time) have the same key exactly when their
  local days lie in the same week. And within a week the schedule stays due: once the
  chosen local day and hour are reached, every later local time of the week is due too.
\<close>

theorem weekly_key_is_local_week:
  assumes "tz_sane offset tz t" and "tz_sane offset tz t'"
  shows "(wd_key (weeklySchedule offset t tz sd sh) = wd_key (weeklySchedule offset t' tz sd sh)
          \<longleftrightarrow> week_start (local_day offset tz t) = week_start (local_day offset tz t'))
       \<and> (week_start (local_day offset tz t) = week_start (local_day offset tz t')
          \<longrightarrow> t + offset tz t \<le> t' + offset tz t'
          \<longrightarrow> wd_due (weeklySchedule offset t tz sd sh) \<longrightarrow> wd_due (weeklySchedule offset t' tz sd sh))"
proof (intro conjI impI)
  show "wd_key (weeklySchedule offset t tz sd sh) = wd_key (weeklySchedule offset t' tz sd sh)
    \<longleftrightarrow> week_start (local_day offset tz t) = week_start (local_day offset tz t')"
    unfolding weekly_key [OF assms(1)] weekly_key [OF assms(2)]
    by (intro iffI, rule iso_date_inject) (simp_all add: year_of_week_start_range assms)
next
  assume w: "week_start (local_day offset tz t) = week_start (local_day offset tz t')"
    and le: "t + offset tz t \<le> t' + offset tz t'"
    and due: "wd_due (weeklySchedule offset t tz sd sh)"
  have d: "local_day offset tz t \<le> local_day offset tz t'"
    using le by (simp add: local_day_def ms_per_day_def zdiv_mono1)
  have h: "local_hour offset tz t \<le> local_hour offset tz t'"
    if "local_day offset tz t = local_day offset tz t'"
  proof -
    have "ms_per_day * ((t + offset tz t) div ms_per_day) = ms_per_day * ((t' + offset tz t') div ms_per_day)"
      using that by (simp only: local_day_def)
    then have "(t + offset tz t) mod ms_per_day \<le> (t' + offset tz t') mod ms_per_day"
      using le mult_div_mod_eq [of ms_per_day "t + offset tz t"]
        mult_div_mod_eq [of ms_per_day "t' + offset tz t'"] by linarith
    then show ?thesis by (simp add: local_hour_def zdiv_mono1)
  qed
  have wd: "week_day (local_day offset tz t') - week_day (local_day offset tz t)
      = local_day offset tz t' - local_day offset tz t"
    using w by (simp add: week_start_def)
  show "wd_due (weeklySchedule offset t' tz sd sh)"
  proof (cases "local_day offset tz t = local_day offset tz t'")
    case True
    with due h wd assms show ?thesis by (auto simp: weeklySchedule_eq tz_sane_def Let_def)
  next
    case False
    with due d wd assms show ?thesis by (auto simp: weeklySchedule_eq tz_sane_def Let_def)
  qed
qed

text \<open>Lagos is one hour ahead of UTC: Monday 2026-03-02 09:00 and the Saturday after it.\<close>

theorem weekly_key_is_local_week_witness:
  "wd_key (weeklySchedule (\<lambda>_ _. 3600000) 1772438400000 (js ''Africa/Lagos'') 1 9)
   = wd_key (weeklySchedule (\<lambda>_ _. 3600000) 1772870400000 (js ''Africa/Lagos'') 1 9)"
proof -
  have s: "tz_sane (\<lambda>_ _. 3600000) (js ''Africa/Lagos'') 1772438400000"
    "tz_sane (\<lambda>_ _. 3600000) (js ''Africa/Lagos'') 1772870400000"
    "week_start (local_day (\<lambda>_ _. 3600000) (js ''Africa/Lagos'') 1772438400000)
     = week_start (local_day (\<lambda>_ _. 3600000) (js ''Africa/Lagos'') 1772870400000)"
    by code_simp+
  show ?thesis
    using weekly_key_is_local_week [OF s(1,2), of 1 9] s(3) by simp
qed

end
