(* ===== verification/Alert_Keys.thy ===== *)
theory Alert_Keys
  imports Alert_Rules
begin

text \<open>
  The key of an alert's occurrence (\<open>alertOccurrenceKey\<close> in \<open>api/src/alerts/alert-rules.ts\<close>) tells
  occurrences apart: identifiers without a colon, instants of the years 0 to 9999 and the scores
  can be read back from it.
\<close>

section \<open>The text of an instant\<close>

definition clock_sane :: "ms \<Rightarrow> bool" where
  "clock_sane t \<longleftrightarrow> 0 \<le> year_of_day (t div ms_per_day) \<and> year_of_day (t div ms_per_day) \<le> 9999"

lemma time_of_day:
  fixes r :: int
  shows "r = 3600000 * (r div 3600000) + 60000 * (r div 60000 mod 60) + 1000 * (r div 1000 mod 60) + r mod 1000"
proof -
  have "r div 1000 div 60 = r div 60000" "r div 60000 div 60 = r div 3600000"
    by (simp_all add: zdiv_zmult2_eq [symmetric])
  then show ?thesis
    using mult_div_mod_eq [of 1000 r] mult_div_mod_eq [of 60 "r div 1000"] mult_div_mod_eq [of 60 "r div 60000"] by linarith
qed

lemma length_pad3: "0 \<le> n \<Longrightarrow> n < 1000 \<Longrightarrow> length (pad3 n) = 3"
  using length_dec [of n 3] by (simp add: pad3_def length_pad_start)

lemma pad_inject:
  "0 \<le> m \<Longrightarrow> 0 \<le> n \<Longrightarrow> pad2 m = pad2 n \<longleftrightarrow> m = n" "0 \<le> m \<Longrightarrow> 0 \<le> n \<Longrightarrow> pad3 m = pad3 n \<longleftrightarrow> m = n"
  unfolding pad2_def pad3_def by (metis digits_value_pad_dec)+

lemma clock_parts:
  "0 \<le> (t mod ms_per_day) div 3600000" "(t mod ms_per_day) div 3600000 < 100"
  "0 \<le> (t mod ms_per_day) div 60000 mod 60" "(t mod ms_per_day) div 60000 mod 60 < 100"
  "0 \<le> (t mod ms_per_day) div 1000 mod 60" "(t mod ms_per_day) div 1000 mod 60 < 100"
proof -
  have r: "0 \<le> t mod ms_per_day" "t mod ms_per_day \<le> 86399999"
    using pos_mod_bound [of ms_per_day t] by (simp_all add: ms_per_day_def)
  show "(t mod ms_per_day) div 3600000 < 100" using zdiv_mono1 [OF r(2), of 3600000] by simp
  show "0 \<le> (t mod ms_per_day) div 3600000" using r(1) by (simp add: pos_imp_zdiv_nonneg_iff)
  show "0 \<le> (t mod ms_per_day) div 60000 mod 60" "0 \<le> (t mod ms_per_day) div 1000 mod 60" by simp_all
  have "x mod 60 < 100" for x :: int using pos_mod_bound [of 60 x] by linarith
  then show "(t mod ms_per_day) div 60000 mod 60 < 100" "(t mod ms_per_day) div 1000 mod 60 < 100" by blast+
qed

definition clock_text :: "int \<Rightarrow> int \<Rightarrow> int \<Rightarrow> int \<Rightarrow> int \<Rightarrow> jstring" where
  "clock_text d h m sec z = iso_date d @ js ''T'' @ pad2 h @ js '':'' @ pad2 m @ js '':'' @ pad2 sec @ js ''.'' @ pad3 z @ js ''Z''"

lemma to_iso_clock_text:
  "to_iso_string t = (let r = t mod ms_per_day
     in clock_text (t div ms_per_day) (r div 3600000) (r div 60000 mod 60) (r div 1000 mod 60) (r mod 1000))"
  by (simp only: to_iso_string_def clock_text_def Let_def)

lemma length_clock_text:
  assumes "0 \<le> year_of_day d" "year_of_day d \<le> 9999" and "0 \<le> h" "h < 100" "0 \<le> m" "m < 100" "0 \<le> sec" "sec < 100" "0 \<le> z" "z < 1000"
  shows "length (clock_text d h m sec z) = 24"
  using assms by (simp add: clock_text_def length_iso_date length_pad2 length_pad3 js_def)

lemma clock_text_inject:
  assumes "0 \<le> year_of_day d" "year_of_day d \<le> 9999" and "0 \<le> h" "h < 100" "0 \<le> m" "m < 100" "0 \<le> sec" "sec < 100" "0 \<le> z" "z < 1000"
    and "0 \<le> year_of_day d'" "year_of_day d' \<le> 9999" and "0 \<le> h'" "h' < 100" "0 \<le> m'" "m' < 100" "0 \<le> sec'" "sec' < 100" "0 \<le> z'" "z' < 1000"
    and eq: "clock_text d h m sec z = clock_text d' h' m' sec' z'"
  shows "d = d' \<and> h = h' \<and> m = m' \<and> sec = sec' \<and> z = z'"
proof -
  have "length (iso_date d) = length (iso_date d')" "length (pad2 h) = length (pad2 h')" "length (pad2 m) = length (pad2 m')"
    "length (pad2 sec) = length (pad2 sec')" "length (pad3 z) = length (pad3 z')"
    using assms by (simp_all add: length_iso_date length_pad2 length_pad3)
  then have "iso_date d = iso_date d'" "pad2 h = pad2 h'" "pad2 m = pad2 m'" "pad2 sec = pad2 sec'" "pad3 z = pad3 z'"
    using eq by (simp_all add: clock_text_def append_eq_append_conv)
  then show ?thesis
    using assms iso_date_inject [of d d'] by (simp add: pad_inject)
qed

lemma clock_bounds:
  assumes "clock_sane t"
  shows "0 \<le> year_of_day (t div ms_per_day)" "year_of_day (t div ms_per_day) \<le> 9999"
    "0 \<le> t mod ms_per_day mod 1000" "t mod ms_per_day mod 1000 < 1000"
  using assms unfolding clock_sane_def by (blast, blast, simp, simp)

lemma length_iso: "clock_sane t \<Longrightarrow> length (to_iso_string t) = 24"
  unfolding to_iso_clock_text Let_def by (intro length_clock_text clock_bounds clock_parts)

lemma to_iso_inject:
  assumes "clock_sane s" and "clock_sane t" and "to_iso_string s = to_iso_string t"
  shows "s = t"
proof -
  note parts = clock_text_inject [OF clock_bounds(1,2) [OF assms(1)] clock_parts [of s] clock_bounds(3,4) [OF assms(1)]
    clock_bounds(1,2) [OF assms(2)] clock_parts [of t] clock_bounds(3,4) [OF assms(2)] assms(3) [unfolded to_iso_clock_text Let_def]]
  have "s mod ms_per_day = t mod ms_per_day"
    using time_of_day [of "s mod ms_per_day"] time_of_day [of "t mod ms_per_day"] parts by argo
  then show ?thesis using parts mult_div_mod_eq [of ms_per_day s] mult_div_mod_eq [of ms_per_day t] by argo
qed

section \<open>Texts between colons\<close>

definition plain :: "jstring \<Rightarrow> bool" where
  "plain s \<longleftrightarrow> unit_of CHR '':'' \<notin> set s"

lemma split_at_colon:
  assumes "plain a" and "plain b" and "a @ colon @ x = b @ colon @ y"
  shows "a = b \<and> x = y"
proof -
  have tw: "takeWhile (\<lambda>c. c \<noteq> unit_of CHR '':'') (z @ colon @ r) = z" if "plain z" for z r
    using that by (subst takeWhile_append2) (auto simp: plain_def colon_def js_def)
  have "a = b" using tw [OF assms(1), of x] tw [OF assms(2), of y] assms(3) by simp
  with assms(3) show ?thesis by simp
qed

lemma plain_js: "plain (js s) \<longleftrightarrow> CHR '':'' \<notin> set s"
  by (auto simp: plain_def js_def)

lemma plain_status [simp]: "plain (status_text s)"
  by (cases s) (simp_all add: plain_js)

lemma plain_decision [simp]: "plain (decision_type k)"
  by (cases k) (simp_all add: plain_js)

lemma digit_not: "c \<in> set (dec n) \<Longrightarrow> 0 \<le> n \<Longrightarrow> c \<noteq> unit_of CHR '':'' \<and> c \<noteq> unit_of CHR ''-'' \<and> c \<noteq> unit_of CHR ''n'' \<and> c \<noteq> unit_of CHR ''i''"
proof -
  have "\<not> is_digit (unit_of CHR '':'')" "\<not> is_digit (unit_of CHR ''-'')" "\<not> is_digit (unit_of CHR ''n'')"
    "\<not> is_digit (unit_of CHR ''i'')" by code_simp+
  then show "c \<in> set (dec n) \<Longrightarrow> 0 \<le> n \<Longrightarrow> ?thesis" using dec_digits by blast
qed

lemma plain_dec: "0 \<le> n \<Longrightarrow> plain (dec n)"
  using digit_not by (auto simp: plain_def)

lemma plain_int_text [simp]: "plain (int_text n)"
  using plain_dec [of n] plain_dec [of "- n"] by (simp add: plain_def int_text_def)

lemma int_text_inject [simp]: "int_text m = int_text n \<longleftrightarrow> m = n"
proof
  assume eq: "int_text m = int_text n"
  have hd: "hd (dec k) \<noteq> unit_of CHR ''-''" if "0 \<le> k" for k
    using digit_not [of "hd (dec k)" k] that by (simp add: hd_in_set)
  show "m = n"
    using eq hd [of m] hd [of n] by (auto simp: int_text_def dec_inject split: if_splits dest: arg_cong [where f = hd])
qed simp

lemma int_text_none: "int_text n \<noteq> js ''none''"
proof
  assume eq: "int_text n = js ''none''"
  then have "unit_of CHR ''n'' \<in> set (int_text n)" by (simp add: js_def)
  then show False using digit_not [of "unit_of CHR ''n''" n] digit_not [of "unit_of CHR ''n''" "- n"]
    by (auto simp: int_text_def split: if_splits)
qed

section \<open>What the key tells\<close>

definition anchor_of :: "decision \<Rightarrow> ms option \<Rightarrow> ms option \<Rightarrow> ms option" where
  "anchor_of k riskAt recoveryAt = (case k of Risk \<Rightarrow> or_else recoveryAt riskAt | Recovery \<Rightarrow> or_else riskAt recoveryAt)"

definition anchor_text :: "ms option \<Rightarrow> jstring" where
  "anchor_text a = (case a of None \<Rightarrow> js ''initial'' | Some t \<Rightarrow> to_iso_string t)"

definition score_text :: "int option \<Rightarrow> jstring" where
  "score_text s = (case s of None \<Rightarrow> js ''none'' | Some n \<Rightarrow> int_text n)"

definition status_or_none :: "stability_status option \<Rightarrow> jstring" where
  "status_or_none s = (case s of None \<Rightarrow> js ''none'' | Some x \<Rightarrow> status_text x)"

lemma occurrence_key_text:
  "alertOccurrenceKey k u g ps psc cs csc r c =
     decision_type k @ colon @ u @ colon @ g @ colon @ anchor_text (anchor_of k r c) @ colon @ status_or_none ps @ colon
     @ score_text psc @ colon @ status_text cs @ colon @ int_text csc"
  by (simp add: alertOccurrenceKey_def Let_def anchor_of_def anchor_text_def score_text_def status_or_none_def)

lemma plain_parts [simp]: "plain (status_or_none s)" "plain (score_text n)"
  by (cases s; simp add: status_or_none_def plain_js) (cases n; simp add: score_text_def plain_js)

lemma score_text_inject [simp]: "score_text m = score_text n \<longleftrightarrow> m = n"
  using int_text_none int_text_none [symmetric] by (cases m; cases n) (auto simp: score_text_def)

lemma decision_type_inject [simp]: "decision_type k = decision_type k' \<longleftrightarrow> k = k'"
  by (cases k; cases k') simp_all

lemma split_at_anchor:
  assumes "\<And>t. a = Some t \<Longrightarrow> clock_sane t" and "\<And>t. b = Some t \<Longrightarrow> clock_sane t"
    and eq: "anchor_text a @ colon @ x = anchor_text b @ colon @ y"
  shows "a = b \<and> x = y"
proof -
  have mixed: "js ''initial'' @ colon @ p \<noteq> to_iso_string t @ colon @ q" if "clock_sane t" for t p q
  proof
    assume eq: "js ''initial'' @ colon @ p = to_iso_string t @ colon @ q"
    have "length (iso_date (t div ms_per_day)) = 10" using that clock_bounds(1,2) length_iso_date by blast
    then have "take 4 (to_iso_string t) = take 4 (iso_date (t div ms_per_day))" by (simp add: to_iso_string_def Let_def)
    moreover obtain y m d where c: "civil_from_days (t div ms_per_day) = (y, m, d)" by (cases "civil_from_days (t div ms_per_day)")
    moreover have y: "0 \<le> y" "y \<le> 9999" using clock_bounds(1,2) [OF that] c by (simp_all add: year_of_day_def)
    ultimately have year: "take 4 (to_iso_string t) = iso_year y" using iso_date_parts(1,2) [OF c y] by simp
    have "take 4 (to_iso_string t @ colon @ q) = iso_year y" using year length_iso [OF that] by simp
    then have "iso_year y = js ''init''" using eq [symmetric] by (simp add: js_def)
    moreover have "is_digit ch" if "ch \<in> set (iso_year y)" for ch
      using that y dec_digits [of y] by (auto simp: iso_year_def pad_start_def digit_props)
    moreover have "\<not> is_digit (unit_of CHR ''i'')" by code_simp
    ultimately show False by (simp add: js_def)
  qed
  show ?thesis
  proof (cases a)
    case None
    then show ?thesis
    proof (cases b)
      case (Some t)
      then show ?thesis using eq None mixed [OF assms(2)] by (simp add: anchor_text_def)
    qed (use eq None in \<open>simp add: anchor_text_def\<close>)
  next
    case (Some s)
    then show ?thesis
    proof (cases b)
      case None
      then show ?thesis using eq [symmetric] Some mixed [OF assms(1)] by (simp add: anchor_text_def)
    next
      case (Some t)
      then have "length (anchor_text a) = length (anchor_text b)"
        using assms(1,2) \<open>a = Some s\<close> by (simp add: anchor_text_def length_iso)
      then show ?thesis using eq to_iso_inject [of s t] assms(1,2) Some \<open>a = Some s\<close>
        by (simp add: append_eq_append_conv anchor_text_def)
    qed
  qed
qed

lemma occurrence_key_inject:
  assumes "plain u" "plain g" "plain u'" "plain g'"
    and "\<And>t. anchor_of k r c = Some t \<Longrightarrow> clock_sane t" and "\<And>t. anchor_of k' r' c' = Some t \<Longrightarrow> clock_sane t"
    and eq: "alertOccurrenceKey k u g ps psc cs csc r c = alertOccurrenceKey k' u' g' ps' psc' cs' csc' r' c'"
  shows "k = k' \<and> u = u' \<and> g = g' \<and> anchor_of k r c = anchor_of k' r' c' \<and> psc = psc' \<and> csc = csc'"
proof -
  note eq1 = split_at_colon [OF plain_decision plain_decision eq [unfolded occurrence_key_text]]
  note eq2 = split_at_colon [OF assms(1,3) conjunct2 [OF eq1]]
  note eq3 = split_at_colon [OF assms(2,4) conjunct2 [OF eq2]]
  note eq4 = split_at_anchor [OF assms(5,6) conjunct2 [OF eq3]]
  note eq5 = split_at_colon [OF plain_parts(1) plain_parts(1) conjunct2 [OF eq4]]
  note eq6 = split_at_colon [OF plain_parts(2) plain_parts(2) conjunct2 [OF eq5]]
  note eq7 = split_at_colon [OF plain_status plain_status conjunct2 [OF eq6]]
  show ?thesis using eq1 eq2 eq3 eq4 eq6 eq7 by simp
qed

end
