(* ===== verification/Goals.thy ===== *)
theory Goals
  imports Dashboard "HOL-Library.List_Lexorder"
begin

text \<open>
  The goals service \<open>api/src/goals/goals.service.ts\<close> and the request classes of
  \<open>api/src/goals/dto\<close>. Each handler runs in one database transaction: it returns its result
  with the new database, and the old one when it throws. \<open>new_date\<close> is the string parser of
  \<open>Date\<close>, \<open>None\<close> being an invalid date; the identifier of a new row and the clock are
  arguments.
\<close>

section \<open>Requests\<close>

record create_goal_dto =
  cg_name :: jstring
  cg_amountTotalKobo :: int
  cg_dueDate :: jstring
  cg_monthlyIncomeKobo :: "int field"

record update_goal_dto =
  ug_name :: "jstring field"
  ug_amountTotalKobo :: "int field"
  ug_dueDate :: "jstring field"
  ug_monthlyIncomeKobo :: "int field"
  ug_isActive :: "bool field"

datatype end_status = EndCompleted | EndCancelled

text \<open>The validation decorators; \<open>IsOptional\<close> skips the others on \<open>undefined\<close> and \<open>null\<close>.\<close>

fun optional_field :: "('a \<Rightarrow> bool) \<Rightarrow> 'a field \<Rightarrow> bool" where
  "optional_field p (Value v) = p v"
| "optional_field p _ = True"

definition valid_create_goal :: "(jstring \<Rightarrow> bool) \<Rightarrow> create_goal_dto \<Rightarrow> bool" where
  "valid_create_goal isDateString dto \<longleftrightarrow>
     length (cg_name dto) \<le> 100 \<and> 1 \<le> cg_amountTotalKobo dto \<and> isDateString (cg_dueDate dto)
     \<and> optional_field (\<lambda>n. 0 \<le> n) (cg_monthlyIncomeKobo dto)"

definition valid_update_goal :: "(jstring \<Rightarrow> bool) \<Rightarrow> update_goal_dto \<Rightarrow> bool" where
  "valid_update_goal isDateString dto \<longleftrightarrow>
     optional_field (\<lambda>s. length s \<le> 100) (ug_name dto)
     \<and> optional_field (\<lambda>n. 1 \<le> n) (ug_amountTotalKobo dto)
     \<and> optional_field isDateString (ug_dueDate dto)
     \<and> optional_field (\<lambda>n. 0 \<le> n) (ug_monthlyIncomeKobo dto)"

section \<open>Answers\<close>

record goal_view =
  gv_id :: jstring
  gv_userId :: jstring
  gv_name :: jstring
  gv_amountTotalKobo :: rat
  gv_dueDate :: jstring
  gv_monthlyIncomeKobo :: "rat option"
  gv_isActive :: bool
  gv_status :: goal_status
  gv_endedAt :: "jstring option"
  gv_createdAt :: jstring

definition serializeGoal :: "goal_row \<Rightarrow> goal_view" where
  "serializeGoal goal =
     \<lparr>gv_id = g_id goal, gv_userId = g_userId goal, gv_name = g_name goal,
      gv_amountTotalKobo = to_number (g_amountTotalKobo goal),
      gv_dueDate = to_iso_string (g_dueDate goal),
      gv_monthlyIncomeKobo = map_option to_number (g_monthlyIncomeKobo goal),
      gv_isActive = g_isActive goal, gv_status = g_status goal,
      gv_endedAt = map_option to_iso_string (g_endedAt goal),
      gv_createdAt = to_iso_string (g_createdAt goal)\<rparr>"

section \<open>The service\<close>

definition replace_goal :: "ms \<Rightarrow> goal_row \<Rightarrow> goal_row" where
  "replace_goal now g = g\<lparr>g_isActive := False, g_status := GoalReplaced, g_endedAt := Some now\<rparr>"

text \<open>The columns a request supplies, or the error their conversion throws.\<close>

fun given_bigint :: "int field \<Rightarrow> int option result" where
  "given_bigint Undefined = Inr None"
| "given_bigint Null = Inl bigint_of_null"
| "given_bigint (Value n) = map_sum id Some (big_int_column n)"

text \<open>\<open>new Date(value)\<close> of an optional field: \<open>null\<close> is the epoch.\<close>

fun given_date :: "(jstring \<Rightarrow> ms option) \<Rightarrow> jstring field \<Rightarrow> ms option result" where
  "given_date new_date Undefined = Inr None"
| "given_date new_date Null = Inr (Some 0)"
| "given_date new_date (Value s) = (case new_date s of None \<Rightarrow> Inl invalid_date | Some t \<Rightarrow> Inr (Some t))"

fun given_column :: "'a field \<Rightarrow> 'a option result" where
  "given_column Undefined = Inr None"
| "given_column Null = Inl null_column"
| "given_column (Value v) = Inr (Some v)"

definition new_goal :: "jstring \<Rightarrow> jstring \<Rightarrow> jstring \<Rightarrow> int \<Rightarrow> ms \<Rightarrow> int option \<Rightarrow> ms \<Rightarrow> goal_row" where
  "new_goal newId userId name amount due income createdAt =
     \<lparr>g_id = newId, g_userId = userId, g_name = name, g_amountTotalKobo = amount, g_dueDate = due,
      g_monthlyIncomeKobo = income, g_isActive = True, g_status = GoalActive, g_endedAt = None,
      g_createdAt = createdAt\<rparr>"

definition create_goal ::
  "(jstring \<Rightarrow> ms option) \<Rightarrow> db \<Rightarrow> jstring \<Rightarrow> jstring \<Rightarrow> ms \<Rightarrow> ms \<Rightarrow> create_goal_dto \<Rightarrow> goal_view result \<times> db"
where
  "create_goal new_date d userId newId endedAt createdAt dto =
     (let replaced = update_many (\<lambda>g. g_userId g = userId \<and> g_isActive g) (replace_goal endedAt) (goals d)
      in case (big_int_column (cg_amountTotalKobo dto), new_date (cg_dueDate dto),
               given_bigint (cg_monthlyIncomeKobo dto)) of
           (Inr amount, Some due, Inr income) \<Rightarrow>
             if \<not> user_exists d userId then (Inl (ServerError ''Foreign key constraint violated''), d)
             else
               (let goal = new_goal newId userId (cg_name dto) amount due income createdAt
                in (Inr (serializeGoal goal), d\<lparr>goals := create_row goal replaced\<rparr>))
         | (_, _, Inl e) \<Rightarrow> (Inl e, d)
         | (_, None, _) \<Rightarrow> (Inl invalid_date, d)
         | (Inl e, _, _) \<Rightarrow> (Inl e, d))"

definition getActive :: "db \<Rightarrow> jstring \<Rightarrow> goal_view result" where
  "getActive d userId =
     (case find_first_by (\<lambda>g. - g_createdAt g)
             (\<lambda>g. g_userId g = userId \<and> g_isActive g \<and> g_status g = GoalActive) (goals d) of
        None \<Rightarrow> Inl (NotFound ''No active goal found'')
      | Some goal \<Rightarrow> Inr (serializeGoal goal))"

text \<open>\<open>orderBy: [{ createdAt: 'desc' }, { id: 'desc' }]\<close>: newest first, ties by descending id.\<close>

definition list_goals :: "db \<Rightarrow> jstring \<Rightarrow> goal_view list" where
  "list_goals d userId =
     map serializeGoal
       (sort_key (\<lambda>g. - g_createdAt g)
         (rev (sort_key g_id (find_many (\<lambda>g. g_userId g = userId) (goals d)))))"

definition own_goal :: "db \<Rightarrow> jstring \<Rightarrow> jstring \<Rightarrow> goal_row option" where
  "own_goal d goalId userId = find_first (\<lambda>g. g_id g = goalId \<and> g_userId g = userId) (goals d)"

fun next_status :: "bool field \<Rightarrow> bool \<Rightarrow> goal_status option" where
  "next_status isActive existingActive =
     (if isActive = Value True then Some GoalActive
      else if isActive = Value False \<and> existingActive then Some GoalCancelled else None)"

fun next_ended :: "bool field \<Rightarrow> bool \<Rightarrow> ms \<Rightarrow> ms field" where
  "next_ended isActive existingActive now =
     (if isActive = Value True then Null
      else if isActive = Value False \<and> existingActive then Value now else Undefined)"

definition income_data :: "int field \<Rightarrow> int field result" where
  "income_data f = (case f of
     Undefined \<Rightarrow> Inr Undefined
   | Null \<Rightarrow> Inr Null
   | Value n \<Rightarrow> map_sum id Value (big_int_column n))"

text \<open>The \<open>data\<close> clause of the update.\<close>

definition changed_goal ::
  "update_goal_dto \<Rightarrow> bool \<Rightarrow> ms \<Rightarrow> int option \<Rightarrow> ms option \<Rightarrow> int field \<Rightarrow> jstring option \<Rightarrow> bool option
   \<Rightarrow> goal_row \<Rightarrow> goal_row" where
  "changed_goal dto existingActive now amount due income name active g =
     g\<lparr>g_name := set_if_given name (g_name g),
       g_amountTotalKobo := set_if_given amount (g_amountTotalKobo g),
       g_dueDate := set_if_given due (g_dueDate g),
       g_monthlyIncomeKobo := set_nullable income (g_monthlyIncomeKobo g),
       g_isActive := set_if_given active (g_isActive g),
       g_status := set_if_given (next_status (ug_isActive dto) existingActive) (g_status g),
       g_endedAt := set_nullable (next_ended (ug_isActive dto) existingActive now) (g_endedAt g)\<rparr>"

definition update_goal ::
  "(jstring \<Rightarrow> ms option) \<Rightarrow> db \<Rightarrow> jstring \<Rightarrow> jstring \<Rightarrow> ms \<Rightarrow> ms \<Rightarrow> update_goal_dto \<Rightarrow> goal_view result \<times> db"
where
  "update_goal new_date d userId goalId replacedAt now dto =
     (case own_goal d goalId userId of
        None \<Rightarrow> (Inl (NotFound ''Goal not found''), d)
      | Some existing \<Rightarrow>
          (let others = (if ug_isActive dto = Value True
                 then update_many (\<lambda>g. g_userId g = userId \<and> g_isActive g \<and> g_id g \<noteq> goalId)
                        (replace_goal replacedAt) (goals d)
                 else goals d)
           in case (given_bigint (ug_amountTotalKobo dto), given_date new_date (ug_dueDate dto),
                    income_data (ug_monthlyIncomeKobo dto), given_column (ug_name dto),
                    given_column (ug_isActive dto)) of
                (Inr amount, Inr due, Inr income, Inr name, Inr active) \<Rightarrow>
                  (let change = changed_goal dto (g_isActive existing) now amount due income name active
                   in (Inr (serializeGoal (change existing)),
                       d\<lparr>goals := update_many (\<lambda>g. g_id g = goalId) change others\<rparr>))
              | (Inl e, _) \<Rightarrow> (Inl e, d)
              | (_, Inl e, _) \<Rightarrow> (Inl e, d)
              | (_, _, Inl e, _) \<Rightarrow> (Inl e, d)
              | (_, _, _, Inl e, _) \<Rightarrow> (Inl e, d)
              | (_, _, _, _, Inl e) \<Rightarrow> (Inl e, d)))"

fun end_goal_status :: "end_status \<Rightarrow> goal_status" where
  "end_goal_status EndCompleted = GoalCompleted"
| "end_goal_status EndCancelled = GoalCancelled"

definition endable :: "jstring \<Rightarrow> goal_row \<Rightarrow> bool" where
  "endable userId g \<longleftrightarrow> g_userId g = userId \<and> g_isActive g \<and> g_status g = GoalActive"

definition finish_goal :: "end_status \<Rightarrow> ms \<Rightarrow> goal_row \<Rightarrow> goal_row" where
  "finish_goal outcome now g =
     g\<lparr>g_isActive := False, g_status := end_goal_status outcome, g_endedAt := Some now\<rparr>"

definition end_goal :: "db \<Rightarrow> jstring \<Rightarrow> jstring \<Rightarrow> ms \<Rightarrow> end_status \<Rightarrow> goal_view result \<times> db" where
  "end_goal d userId goalId now outcome =
     (case own_goal d goalId userId of
        None \<Rightarrow> (Inl (NotFound ''Goal not found''), d)
      | Some existing \<Rightarrow>
          if \<not> g_isActive existing \<or> g_status existing \<noteq> GoalActive
          then (Inl (BadRequest ''Only the active goal can be ended''), d)
          else
            (let claim = (\<lambda>g. g_id g = goalId \<and> endable userId g);
                 d' = d\<lparr>goals := update_many claim (finish_goal outcome now) (goals d)\<rparr>
             in if count_rows claim (goals d) \<noteq> 1
                then (Inl (BadRequest ''Only the active goal can be ended''), d)
                else (case own_goal d' goalId userId of
                        None \<Rightarrow> (Inl (NotFound ''Goal not found''), d)
                      | Some updated \<Rightarrow> (Inr (serializeGoal updated), d'))))"

section \<open>The invariant\<close>

definition goal_ok :: "goal_row \<Rightarrow> bool" where
  "goal_ok g \<longleftrightarrow> (g_isActive g \<longleftrightarrow> g_status g = GoalActive) \<and> (g_isActive g \<longleftrightarrow> g_endedAt g = None)"

definition goals_ok :: "goal_row list \<Rightarrow> bool" where
  "goals_ok gs \<longleftrightarrow> distinct (map g_id gs) \<and> (\<forall>g \<in> set gs. goal_ok g)
     \<and> (\<forall>g \<in> set gs. \<forall>h \<in> set gs. g_isActive g \<longrightarrow> g_isActive h \<longrightarrow> g_userId g = g_userId h \<longrightarrow> g_id g = g_id h)"

lemma goals_okD:
  assumes "goals_ok gs"
  shows "distinct (map g_id gs)" and "\<And>g. g \<in> set gs \<Longrightarrow> goal_ok g"
    and "\<And>g h. g \<in> set gs \<Longrightarrow> h \<in> set gs \<Longrightarrow> g_isActive g \<Longrightarrow> g_isActive h \<Longrightarrow> g_userId g = g_userId h \<Longrightarrow> g_id g = g_id h"
  using assms unfolding goals_ok_def by blast+

lemma row_by_id: "distinct (map key rows) \<Longrightarrow> r \<in> set rows \<Longrightarrow> r' \<in> set rows \<Longrightarrow> key r = key r' \<Longrightarrow> r = r'"
  by (metis distinct_map inj_on_eq_iff)

lemma filter_by_key:
  "distinct (map key rows) \<Longrightarrow> r \<in> set rows \<Longrightarrow> filter (\<lambda>h. key h = key r) rows = [r]"
  by (induction rows) (auto simp: filter_empty_conv image_iff)

lemma map_id_update [simp]:
  "(\<And>g. g_id (f g) = g_id g) \<Longrightarrow> map g_id (update_many p f gs) = map g_id gs"
  by (rule map_update_many)

lemma replace_goal_fields [simp]:
  "g_id (replace_goal t g) = g_id g" "g_userId (replace_goal t g) = g_userId g"
  "\<not> g_isActive (replace_goal t g)" "goal_ok (replace_goal t g)"
  by (simp_all add: replace_goal_def goal_ok_def)

lemma finish_goal_fields [simp]:
  "g_id (finish_goal s t g) = g_id g" "g_userId (finish_goal s t g) = g_userId g"
  "\<not> g_isActive (finish_goal s t g)" "goal_ok (finish_goal s t g)"
  by (cases s; simp add: finish_goal_def goal_ok_def)+

lemma open_in_update:
  "h \<in> set (update_many p f gs) \<Longrightarrow> g_isActive h \<Longrightarrow> \<forall>g. \<not> g_isActive (f g) \<Longrightarrow> h \<in> set gs \<and> \<not> p h"
  unfolding in_set_update_many by (metis (full_types))

text \<open>Closing goals, in any selection, keeps the invariant.\<close>

lemma goals_ok_close:
  assumes "goals_ok gs" and "\<And>g. g_id (f g) = g_id g" "\<And>g. g_userId (f g) = g_userId g"
    "\<forall>g. \<not> g_isActive (f g)" "\<And>g. goal_ok (f g)"
  shows "goals_ok (update_many p f gs)"
  unfolding goals_ok_def
proof (intro conjI ballI impI)
  show "distinct (map g_id (update_many p f gs))"
    using goals_okD(1) [OF assms(1)] assms(2) by simp
  show "goal_ok g" if "g \<in> set (update_many p f gs)" for g
    using that assms(5) goals_okD(2) [OF assms(1)] by (auto simp: in_set_update_many)
  show "g_id g = g_id h"
    if "g \<in> set (update_many p f gs)" "h \<in> set (update_many p f gs)" "g_isActive g" "g_isActive h"
      "g_userId g = g_userId h" for g h
    using open_in_update [OF that(1,3) assms(4)] open_in_update [OF that(2,4) assms(4)] that(3-5)
      goals_okD(3) [OF assms(1)] by blast
qed

text \<open>A row of a user who has no other active goal may be added or made active.\<close>

lemma goals_ok_add:
  assumes "goals_ok gs" and "g_id g \<notin> g_id ` set gs" and "goal_ok g"
    and "\<And>h. h \<in> set gs \<Longrightarrow> g_isActive h \<Longrightarrow> g_userId h \<noteq> g_userId g"
  shows "goals_ok (create_row g gs)"
  unfolding goals_ok_def
proof (intro conjI ballI impI)
  show "distinct (map g_id (create_row g gs))"
    using goals_okD(1) [OF assms(1)] assms(2) by (simp add: create_row_def)
  show "goal_ok h" if "h \<in> set (create_row g gs)" for h
    using that goals_okD(2) [OF assms(1)] assms(3) by (auto simp: set_create_row)
  show "g_id h = g_id k"
    if "h \<in> set (create_row g gs)" "k \<in> set (create_row g gs)" "g_isActive h" "g_isActive k"
      "g_userId h = g_userId k" for h k
    using that assms(4) [of h] assms(4) [of k] goals_okD(3) [OF assms(1), of h k]
    by (auto simp: set_create_row)
qed

lemma goals_ok_change:
  assumes ok: "goals_ok gs" and f: "\<And>g. g_id (f g) = g_id g" "\<And>g. g_userId (f g) = g_userId g"
    and good: "\<And>g. g \<in> set gs \<Longrightarrow> g_id g = i \<Longrightarrow> goal_ok (f g)"
    and alone: "\<And>g h. g \<in> set gs \<Longrightarrow> g_id g = i \<Longrightarrow> g_isActive (f g) \<Longrightarrow> h \<in> set gs \<Longrightarrow> g_id h \<noteq> i \<Longrightarrow>
                  g_isActive h \<Longrightarrow> g_userId h \<noteq> g_userId g"
  shows "goals_ok (update_many (\<lambda>g. g_id g = i) f gs)"
  unfolding goals_ok_def
proof (intro conjI ballI impI)
  let ?gs = "update_many (\<lambda>g. g_id g = i) f gs"
  show "distinct (map g_id ?gs)" using goals_okD(1) [OF ok] f(1) by simp
  show "goal_ok g" if "g \<in> set ?gs" for g
    using that good goals_okD(2) [OF ok] by (auto simp: in_set_update_many)
  show "g_id g = g_id h"
    if g: "g \<in> set ?gs" "h \<in> set ?gs" "g_isActive g" "g_isActive h" "g_userId g = g_userId h" for g h
  proof -
    obtain g0 h0 where o: "g0 \<in> set gs" "g = (if g_id g0 = i then f g0 else g0)"
      "h0 \<in> set gs" "h = (if g_id h0 = i then f h0 else h0)"
      using g(1,2) by (auto simp: in_set_update_many)
    show ?thesis
      using o g(3-5) f alone [of g0 h0] alone [of h0 g0] goals_okD(3) [OF ok, of g0 h0]
      by (auto split: if_splits)
  qed
qed

section \<open>The handlers keep the invariant\<close>

lemma create_goal_Inl:
  "create_goal new_date d userId newId endedAt createdAt dto = (Inl e, d') \<Longrightarrow> d' = d"
  unfolding create_goal_def Let_def by (simp split: option.splits sum.splits if_splits)

lemma create_goal_Inr:
  assumes "create_goal new_date d userId newId endedAt createdAt dto = (Inr v, d')"
  obtains amount due income where
    "big_int_column (cg_amountTotalKobo dto) = Inr amount" "new_date (cg_dueDate dto) = Some due"
    "given_bigint (cg_monthlyIncomeKobo dto) = Inr income" "user_exists d userId"
    "v = serializeGoal (new_goal newId userId (cg_name dto) amount due income createdAt)"
    "d' = d\<lparr>goals := create_row (new_goal newId userId (cg_name dto) amount due income createdAt)
             (update_many (\<lambda>g. g_userId g = userId \<and> g_isActive g) (replace_goal endedAt) (goals d))\<rparr>"
  using assms unfolding create_goal_def Let_def
  by (cases "big_int_column (cg_amountTotalKobo dto)"; cases "new_date (cg_dueDate dto)";
      cases "given_bigint (cg_monthlyIncomeKobo dto)"; cases "user_exists d userId") auto

lemma own_goal_Some: "own_goal d i u = Some g \<Longrightarrow> g \<in> set (goals d) \<and> g_id g = i \<and> g_userId g = u"
  unfolding own_goal_def by (auto dest: find_first_Some)

lemma create_goal_ok:
  assumes "create_goal new_date d userId newId endedAt createdAt dto = (r, d')"
    and "goals_ok (goals d)" and "newId \<notin> g_id ` set (goals d)"
  shows "goals_ok (goals d')"
proof -
  let ?gs = "update_many (\<lambda>g. g_userId g = userId \<and> g_isActive g) (replace_goal endedAt) (goals d)"
  have ok: "goals_ok ?gs" using assms(2) by (rule goals_ok_close) simp_all
  have "map g_id ?gs = map g_id (goals d)" by simp
  then have ids: "g_id ` set ?gs = g_id ` set (goals d)"
    by (metis list.set_map)
  have none: "g_userId h \<noteq> userId" if "h \<in> set ?gs" "g_isActive h" for h
    using open_in_update [OF that] that(2) by simp
  show ?thesis
  proof (cases r)
    case (Inl e)
    with assms(1,2) create_goal_Inl show ?thesis by blast
  next
    case (Inr v)
    with assms(1) obtain amount due income where
      "d' = d\<lparr>goals := create_row (new_goal newId userId (cg_name dto) amount due income createdAt) ?gs\<rparr>"
      by (auto elim: create_goal_Inr)
    then show ?thesis
      using ids none assms(3) by (simp add: goals_ok_add [OF ok] new_goal_def goal_ok_def)
  qed
qed

definition update_change :: "(jstring \<Rightarrow> ms option) \<Rightarrow> update_goal_dto \<Rightarrow> bool \<Rightarrow> ms \<Rightarrow> goal_row \<Rightarrow> goal_row \<Rightarrow> bool" where
  "update_change new_date dto wasActive now g g' \<longleftrightarrow>
     g_id g' = g_id g \<and> g_userId g' = g_userId g
   \<and> (ug_isActive dto = Value True \<longrightarrow> g_isActive g' \<and> g_status g' = GoalActive \<and> g_endedAt g' = None)
   \<and> (ug_isActive dto = Value False \<longrightarrow> \<not> g_isActive g' \<and>
        (if wasActive then g_status g' = GoalCancelled \<and> g_endedAt g' = Some now
         else g_status g' = g_status g \<and> g_endedAt g' = g_endedAt g))
   \<and> (ug_isActive dto = Undefined \<longrightarrow>
        g_isActive g' = g_isActive g \<and> g_status g' = g_status g \<and> g_endedAt g' = g_endedAt g)
   \<and> ug_isActive dto \<noteq> Null"

lemma changed_goal_change:
  "given_column (ug_isActive dto) = Inr active \<Longrightarrow>
   update_change new_date dto wasActive now g (changed_goal dto wasActive now amount due income name active g)"
  by (cases "ug_isActive dto") (auto simp: update_change_def changed_goal_def)

lemma update_goal_Inr:
  assumes "update_goal new_date d userId goalId replacedAt now dto = (Inr v, d')"
  obtains existing amount due income name active where
    "own_goal d goalId userId = Some existing" "given_column (ug_isActive dto) = Inr active"
    "given_bigint (ug_amountTotalKobo dto) = Inr amount" "given_date new_date (ug_dueDate dto) = Inr due"
    "v = serializeGoal (changed_goal dto (g_isActive existing) now amount due income name active existing)"
    "d' = d\<lparr>goals := update_many (\<lambda>g. g_id g = goalId)
          (changed_goal dto (g_isActive existing) now amount due income name active)
          (if ug_isActive dto = Value True
           then update_many (\<lambda>g. g_userId g = userId \<and> g_isActive g \<and> g_id g \<noteq> goalId)
                  (replace_goal replacedAt) (goals d)
           else goals d)\<rparr>"
  using assms unfolding update_goal_def Let_def
  by (simp split: option.splits sum.splits prod.splits) blast

lemma update_goal_Inl:
  "update_goal new_date d userId goalId replacedAt now dto = (Inl e, d') \<Longrightarrow> d' = d"
  unfolding update_goal_def Let_def by (simp split: option.splits sum.splits prod.splits)

lemma untouched_in_update:
  assumes "g \<in> set (update_many p f gs)" and "g_id g = i"
    and "\<And>h. p h \<Longrightarrow> g_id h \<noteq> i" and "\<And>h. g_id (f h) = g_id h"
  shows "g \<in> set gs"
proof -
  obtain h where "h \<in> set gs" "g = (if p h then f h else h)"
    using assms(1) by (auto simp: in_set_update_many)
  then show ?thesis using assms(2-4) by (auto split: if_splits)
qed

lemma update_goal_ok:
  assumes "update_goal new_date d userId goalId replacedAt now dto = (r, d')"
    and ok: "goals_ok (goals d)"
  shows "goals_ok (goals d')"
proof (cases r)
  case (Inl e)
  with assms update_goal_Inl show ?thesis by blast
next
  case (Inr v)
  let ?on = "ug_isActive dto = Value True"
  let ?gs = "if ?on then update_many (\<lambda>g. g_userId g = userId \<and> g_isActive g \<and> g_id g \<noteq> goalId)
                  (replace_goal replacedAt) (goals d) else goals d"
  from assms(1) Inr have u: "update_goal new_date d userId goalId replacedAt now dto = (Inr v, d')" by simp
  from u obtain existing amount due income name active where
    ex: "own_goal d goalId userId = Some existing" and act: "given_column (ug_isActive dto) = Inr active"
    and d': "goals d' = update_many (\<lambda>g. g_id g = goalId)
          (changed_goal dto (g_isActive existing) now amount due income name active) ?gs"
    by (rule update_goal_Inr) simp
  let ?f = "changed_goal dto (g_isActive existing) now amount due income name active"
  note ch = changed_goal_change [OF act, of new_date "g_isActive existing" now _ amount due income name]
  note old = own_goal_Some [OF ex]
  have gs_ok: "goals_ok ?gs" using ok by (auto intro: goals_ok_close)
  have same: "g = existing" if "g \<in> set ?gs" "g_id g = goalId" for g
  proof -
    have "g \<in> set (goals d)"
      using that(1) untouched_in_update [OF _ that(2)] by (cases ?on) auto
    then show ?thesis using row_by_id [OF goals_okD(1) [OF ok]] old that(2) by auto
  qed
  show ?thesis
    unfolding d'
  proof (rule goals_ok_change [OF gs_ok])
    show "g_id (?f g) = g_id g" "g_userId (?f g) = g_userId g" for g
      using ch [of g] by (simp_all add: update_change_def)
    show "goal_ok (?f g)" if "g \<in> set ?gs" "g_id g = goalId" for g
      using ch [of g] same [OF that] goals_okD(2) [OF ok, of existing] old
      by (cases "ug_isActive dto") (auto simp: update_change_def goal_ok_def split: if_splits)
    show "g_userId h \<noteq> g_userId g"
      if g: "g \<in> set ?gs" "g_id g = goalId" "g_isActive (?f g)"
        and h: "h \<in> set ?gs" "g_id h \<noteq> goalId" "g_isActive h" for g h
    proof (cases ?on)
      case True
      then have "\<not> (g_userId h = userId \<and> g_isActive h \<and> g_id h \<noteq> goalId)"
        using open_in_update [of h _ "replace_goal replacedAt" "goals d"] h by auto
      then show ?thesis using same [OF g(1,2)] old h by auto
    next
      case False
      then have "g_isActive g"
        using ch [of g] g(3) by (cases "ug_isActive dto") (auto simp: update_change_def split: if_splits)
      then show ?thesis
        using False goals_okD(3) [OF ok, of g h] g h by auto
    qed
  qed
qed

lemma end_goal_Inr:
  assumes "end_goal d userId goalId now outcome = (Inr v, d')"
  obtains existing updated where "own_goal d goalId userId = Some existing" "endable userId existing"
    "d' = d\<lparr>goals := update_many (\<lambda>g. g_id g = goalId \<and> endable userId g) (finish_goal outcome now) (goals d)\<rparr>"
    "own_goal d' goalId userId = Some updated" "v = serializeGoal updated"
  using assms own_goal_Some unfolding end_goal_def Let_def endable_def
  by (fastforce split: option.splits if_splits)

lemma end_goal_Inl: "end_goal d userId goalId now outcome = (Inl e, d') \<Longrightarrow> d' = d"
  unfolding end_goal_def Let_def by (auto split: option.splits if_splits)

lemma end_goal_ok:
  assumes "end_goal d userId goalId now outcome = (r, d')" and "goals_ok (goals d)"
  shows "goals_ok (goals d')"
proof (cases r)
  case (Inl e)
  with assms end_goal_Inl show ?thesis by blast
next
  case (Inr v)
  with assms(1) have "goals d' = update_many (\<lambda>g. g_id g = goalId \<and> endable userId g) (finish_goal outcome now) (goals d)"
    by (auto elim: end_goal_Inr)
  then show ?thesis using goals_ok_close [OF assms(2)] by simp
qed

section \<open>The life of goals\<close>

text \<open>One committed request of the goals service; \<open>create_goal\<close> takes an identifier that no goal has.\<close>

inductive goals_step :: "db \<Rightarrow> db \<Rightarrow> bool" where
  created: "newId \<notin> g_id ` set (goals d) \<Longrightarrow>
    create_goal new_date d userId newId endedAt createdAt dto = (r, d') \<Longrightarrow> goals_step d d'"
| updated: "update_goal new_date d userId goalId replacedAt now udto = (r, d') \<Longrightarrow> goals_step d d'"
| ended: "end_goal d userId goalId now outcome = (r, d') \<Longrightarrow> goals_step d d'"

lemma goals_step_ok: "goals_step d d' \<Longrightarrow> goals_ok (goals d) \<Longrightarrow> goals_ok (goals d')"
  by (induction rule: goals_step.induct) (blast intro: create_goal_ok update_goal_ok end_goal_ok)+

lemma goals_reachable_ok: "goals_step\<^sup>*\<^sup>* d d' \<Longrightarrow> goals d = [] \<Longrightarrow> goals_ok (goals d')"
  by (induction rule: rtranclp_induct) (auto simp: goals_ok_def [of "[]"] intro: goals_step_ok)

lemma one_active:
  assumes "goals_ok gs"
  shows "length (filter (\<lambda>g. g_userId g = u \<and> g_isActive g) gs) \<le> 1"
proof (cases "filter (\<lambda>g. g_userId g = u \<and> g_isActive g) gs")
  case (Cons g rest)
  show ?thesis
  proof (cases rest)
    case (Cons h rest')
    let ?fs = "filter (\<lambda>g. g_userId g = u \<and> g_isActive g) gs"
    have fs: "?fs = g # h # rest'" using \<open>?fs = g # rest\<close> Cons by simp
    then have "g \<in> set ?fs" "h \<in> set ?fs" by (metis list.set_intros)+
    then have "g_id g = g_id h" using goals_okD(3) [OF assms, of g h] by auto
    moreover have "distinct (map g_id ?fs)"
      using goals_okD(1) [OF assms] by (simp add: distinct_map_filter)
    ultimately show ?thesis unfolding fs by simp
  qed (use \<open>filter _ gs = g # rest\<close> in simp)
qed simp

text \<open>
  C1. Whatever sequence of creations, updates and endings the goals went through from an empty
  table, every user has at most one active goal, a goal is active exactly when its status is
  \<open>active\<close> and exactly when it has no end time, and identifiers are unique.
\<close>

theorem goals_lifecycle:
  assumes "goals_step\<^sup>*\<^sup>* d d'" and "goals d = []"
  shows "length (filter (\<lambda>g. g_userId g = u \<and> g_isActive g) (goals d')) \<le> 1
       \<and> list_all (\<lambda>g. (g_isActive g \<longleftrightarrow> g_status g = GoalActive) \<and> (g_isActive g \<longleftrightarrow> g_endedAt g = None)) (goals d')
       \<and> distinct (map g_id (goals d'))"
proof -
  have ok: "goals_ok (goals d')" by (rule goals_reachable_ok [OF assms])
  have "list_all (\<lambda>g. (g_isActive g \<longleftrightarrow> g_status g = GoalActive) \<and> (g_isActive g \<longleftrightarrow> g_endedAt g = None)) (goals d')"
    unfolding list_all_iff using goals_okD(2) [OF ok] unfolding goal_ok_def by blast
  with one_active [OF ok, of u] goals_okD(1) [OF ok] show ?thesis by blast
qed

text \<open>
  On the goals the service can reach, the dashboard and the goals service agree on which
  goal is the active one, although the dashboard looks at the flag alone and the goals service
  at flag and status.
\<close>

lemma dashboard_goals_agree:
  assumes "goals_step\<^sup>*\<^sup>* d d'" and "goals d = []"
  shows "getActive d' userId = (case active_goal d' userId of
           None \<Rightarrow> Inl (NotFound ''No active goal found'') | Some g \<Rightarrow> Inr (serializeGoal g))"
proof -
  have ok: "goal_ok g" if "g \<in> set (goals d')" for g
    using goals_reachable_ok [OF assms] that by (rule goals_okD(2))
  have "List.find (\<lambda>g. g_userId g = userId \<and> g_isActive g \<and> g_status g = GoalActive) gs
      = List.find (\<lambda>g. g_userId g = userId \<and> g_isActive g) gs" if "set gs \<subseteq> set (goals d')" for gs
    using that ok by (induction gs) (auto simp: goal_ok_def)
  from this [of "sort_key (\<lambda>g. - g_createdAt g) (goals d')"] show ?thesis
    by (simp add: getActive_def active_goal_def find_first_by_def)
qed

section \<open>What each operation does\<close>

text \<open>Ending a goal is a claim: the written row can no longer be ended.\<close>

interpretation goal_end: claim_once g_id "\<lambda>_. endable userId" "finish_goal outcome" "\<lambda>_ _. True"
  for userId outcome
  by unfold_locales (simp_all add: endable_def)

lemma getActive_unique:
  assumes "goals_ok (goals d)" and "g \<in> set (goals d)" and "g_userId g = u" and "g_isActive g"
  shows "getActive d u = Inr (serializeGoal g)"
proof (cases "find_first_by (\<lambda>g. - g_createdAt g)
             (\<lambda>g. g_userId g = u \<and> g_isActive g \<and> g_status g = GoalActive) (goals d)")
  case None
  then show ?thesis
    using assms goals_okD(2) [OF assms(1,2)] by (auto simp: find_first_by_None goal_ok_def)
next
  case (Some h)
  have h: "h \<in> set (goals d)" "g_userId h = u" "g_isActive h"
    using find_first_by_Some(1,2) [OF Some] by simp_all
  have "g_id h = g_id g"
    by (rule goals_okD(3) [OF assms(1) h(1) assms(2) h(3) assms(4)]) (simp add: h(2) assms(3))
  then have "h = g" by (rule row_by_id [OF goals_okD(1) [OF assms(1)] h(1) assms(2)])
  then show ?thesis by (simp add: getActive_def Some)
qed

lemma getActive_none:
  "(\<And>g. g \<in> set (goals d) \<Longrightarrow> g_isActive g \<Longrightarrow> g_userId g \<noteq> u) \<Longrightarrow>
   getActive d u = Inl (NotFound ''No active goal found'')"
  by (simp add: getActive_def find_first_by_None [THEN iffD2])

text \<open>
  Creating a goal, for a user who exists and with a date that parses and amounts that fit
  their columns: the new goal is the user's active goal, the goals that were active before are
  kept as replaced, ended at that moment, and all other goals are untouched.
\<close>

lemma create_goal_replaces:
  assumes "goals_ok (goals d)" and "user_exists d userId" and "newId \<notin> g_id ` set (goals d)"
    and "new_date (cg_dueDate dto) = Some due"
    and "big_int_column (cg_amountTotalKobo dto) = Inr amount"
    and "given_bigint (cg_monthlyIncomeKobo dto) = Inr income"
  shows "\<exists>goal d'. create_goal new_date d userId newId endedAt createdAt dto = (Inr (serializeGoal goal), d')
       \<and> goal = new_goal newId userId (cg_name dto) amount due income createdAt
       \<and> getActive d' userId = Inr (serializeGoal goal)
       \<and> goals d' = map (\<lambda>g. if g_userId g = userId \<and> g_isActive g
              then g\<lparr>g_isActive := False, g_status := GoalReplaced, g_endedAt := Some endedAt\<rparr> else g) (goals d) @ [goal]"
proof -
  let ?goal = "new_goal newId userId (cg_name dto) amount due income createdAt"
  let ?d' = "d\<lparr>goals := create_row ?goal
      (update_many (\<lambda>g. g_userId g = userId \<and> g_isActive g) (replace_goal endedAt) (goals d))\<rparr>"
  have c: "create_goal new_date d userId newId endedAt createdAt dto = (Inr (serializeGoal ?goal), ?d')"
    using assms by (simp add: create_goal_def Let_def)
  have "goals_ok (goals ?d')" by (rule create_goal_ok [OF c assms(1,3)])
  then have "getActive ?d' userId = Inr (serializeGoal ?goal)"
    by (rule getActive_unique) (simp_all add: create_row_def new_goal_def)
  moreover have "goals ?d' = map (\<lambda>g. if g_userId g = userId \<and> g_isActive g
      then g\<lparr>g_isActive := False, g_status := GoalReplaced, g_endedAt := Some endedAt\<rparr> else g) (goals d) @ [?goal]"
    by (simp add: create_row_def update_many_def replace_goal_def)
  ultimately show ?thesis using c by blast
qed

lemma own_goal_unique:
  assumes "goals_ok (goals d)" and "g \<in> set (goals d)" and "g_userId g = u"
  shows "own_goal d (g_id g) u = Some g"
proof (cases "own_goal d (g_id g) u")
  case None
  then show ?thesis using assms(2,3) unfolding own_goal_def find_first_None by blast
next
  case (Some h)
  then show ?thesis
    using own_goal_Some [OF Some] row_by_id [OF goals_okD(1) [OF assms(1)]] assms(2) by blast
qed

lemma end_goal_eq:
  assumes ok: "goals_ok (goals d)" and g: "g \<in> set (goals d)" "endable userId g"
  shows "end_goal d userId (g_id g) now outcome =
    (Inr (serializeGoal (finish_goal outcome now g)),
     d\<lparr>goals := update_many (\<lambda>h. g_id h = g_id g \<and> endable userId h) (finish_goal outcome now) (goals d)\<rparr>)"
proof -
  let ?claim = "\<lambda>h. g_id h = g_id g \<and> endable userId h"
  let ?d' = "d\<lparr>goals := update_many ?claim (finish_goal outcome now) (goals d)\<rparr>"
  have e: "g_userId g = userId" "g_isActive g" "g_status g = GoalActive" using g(2) by (simp_all add: endable_def)
  have "filter ?claim (goals d) = filter (\<lambda>h. g_id h = g_id g) (goals d)"
    using row_by_id [OF goals_okD(1) [OF ok] g(1)] g(2) by (intro filter_cong refl) metis
  also have "\<dots> = [g]" by (rule filter_by_key [OF goals_okD(1) [OF ok] g(1)])
  finally have one: "count_rows ?claim (goals d) = 1" unfolding count_rows_def by simp
  have ok': "goals_ok (goals ?d')" using goals_ok_close [OF ok] by simp
  have "finish_goal outcome now g \<in> set (goals ?d')"
    using g by (auto simp: in_set_update_many)
  from own_goal_unique [OF ok' this, of userId]
  have "own_goal ?d' (g_id g) userId = Some (finish_goal outcome now g)" by (simp add: e)
  then show ?thesis
    using own_goal_unique [OF ok g(1)] e one by (simp add: end_goal_def)
qed

text \<open>
  Ending the active goal records the outcome and the time, leaves the user without an
  active goal and cannot be done twice: the second request is refused and changes nothing. All
  other goals are untouched.
\<close>

lemma end_goal_once:
  assumes "goals_ok (goals d)" and "g \<in> set (goals d)" and "endable userId g"
  shows "\<exists>d'. end_goal d userId (g_id g) now outcome
           = (Inr (serializeGoal (g\<lparr>g_isActive := False, g_status := end_goal_status outcome, g_endedAt := Some now\<rparr>)), d')
       \<and> getActive d' userId = Inl (NotFound ''No active goal found'')
       \<and> end_goal d' userId (g_id g) now' outcome' = (Inl (BadRequest ''Only the active goal can be ended''), d')
       \<and> filter (\<lambda>h. g_id h \<noteq> g_id g) (goals d') = filter (\<lambda>h. g_id h \<noteq> g_id g) (goals d)"
proof -
  let ?claim = "\<lambda>h. g_id h = g_id g \<and> endable userId h"
  let ?d' = "d\<lparr>goals := update_many ?claim (finish_goal outcome now) (goals d)\<rparr>"
  have e: "g_userId g = userId" "g_isActive g" using assms(3) by (simp_all add: endable_def)
  have ok': "goals_ok (goals ?d')" using goals_ok_close [OF assms(1)] by simp
  have fin: "finish_goal outcome now g \<in> set (goals ?d')"
    using assms(2,3) by (auto simp: in_set_update_many)
  have "own_goal ?d' (g_id g) userId = Some (finish_goal outcome now g)"
    using own_goal_unique [OF ok' fin, of userId] e by simp
  then have twice: "end_goal ?d' userId (g_id g) now' outcome' = (Inl (BadRequest ''Only the active goal can be ended''), ?d')"
    by (simp add: end_goal_def)
  have none: "getActive ?d' userId = Inl (NotFound ''No active goal found'')"
  proof (rule getActive_none)
    fix h assume h: "h \<in> set (goals ?d')" "g_isActive h"
    then have "h \<in> set (goals d) \<and> \<not> ?claim h"
      using open_in_update [of h ?claim "finish_goal outcome now" "goals d"] by simp
    then show "g_userId h \<noteq> userId"
      using goals_okD(3) [OF assms(1), of h g] goals_okD(2) [OF assms(1), of h] assms(2) e h(2)
      by (auto simp: endable_def goal_ok_def)
  qed
  have others: "filter (\<lambda>h. g_id h \<noteq> g_id g) (goals ?d') = filter (\<lambda>h. g_id h \<noteq> g_id g) (goals d)"
    by (simp, intro filter_update_many) auto
  show ?thesis
    using end_goal_eq [OF assms, of now outcome] twice none others
    by (intro exI [of _ ?d']) (simp add: finish_goal_def)
qed

section \<open>Isolation\<close>

text \<open>Every write of a handler is to rows of its user.\<close>

lemma filter_others_update:
  "(\<And>g. g \<in> set gs \<Longrightarrow> p g \<Longrightarrow> g_userId g = u \<and> g_userId (f g) = u) \<Longrightarrow>
   filter (\<lambda>g. g_userId g \<noteq> u) (update_many p f gs) = filter (\<lambda>g. g_userId g \<noteq> u) gs"
  by (intro filter_update_many) blast

definition only_own_goals :: "jstring \<Rightarrow> db \<Rightarrow> db \<Rightarrow> bool" where
  "only_own_goals u d d' \<longleftrightarrow> d' = d\<lparr>goals := goals d'\<rparr>
     \<and> filter (\<lambda>g. g_userId g \<noteq> u) (goals d') = filter (\<lambda>g. g_userId g \<noteq> u) (goals d)"

lemma only_own_goals_refl [simp]: "only_own_goals u d d"
  by (simp add: only_own_goals_def)

lemma create_goal_own:
  "only_own_goals u d (snd (create_goal new_date d u newId endedAt createdAt dto))"
proof (cases "create_goal new_date d u newId endedAt createdAt dto")
  case (Pair r d')
  show ?thesis
  proof (cases r)
    case (Inl e)
    with Pair create_goal_Inl show ?thesis by fastforce
  next
    case (Inr v)
    with Pair have c: "create_goal new_date d u newId endedAt createdAt dto = (Inr v, d')" by simp
    then obtain goal where d': "d' = d\<lparr>goals := create_row goal
        (update_many (\<lambda>g. g_userId g = u \<and> g_isActive g) (replace_goal endedAt) (goals d))\<rparr>"
      and "g_userId goal = u"
      by (rule create_goal_Inr) (simp add: new_goal_def)
    then show ?thesis
      using filter_others_update [of "goals d" "\<lambda>g. g_userId g = u \<and> g_isActive g" u "replace_goal endedAt"]
      by (simp add: Pair only_own_goals_def create_row_def)
  qed
qed

lemma update_goal_own:
  assumes ok: "goals_ok (goals d)"
  shows "only_own_goals u d (snd (update_goal new_date d u goalId replacedAt now dto))"
proof (cases "update_goal new_date d u goalId replacedAt now dto")
  case (Pair r d')
  show ?thesis
  proof (cases r)
    case (Inl e)
    with Pair update_goal_Inl show ?thesis by fastforce
  next
    case (Inr v)
    let ?others = "\<lambda>g. g_userId g = u \<and> g_isActive g \<and> g_id g \<noteq> goalId"
    let ?gs = "if ug_isActive dto = Value True then update_many ?others (replace_goal replacedAt) (goals d) else goals d"
    from Pair Inr have c: "update_goal new_date d u goalId replacedAt now dto = (Inr v, d')" by simp
    then obtain existing amount due income name active where ex: "own_goal d goalId u = Some existing"
      and d': "d' = d\<lparr>goals := update_many (\<lambda>g. g_id g = goalId)
          (changed_goal dto (g_isActive existing) now amount due income name active) ?gs\<rparr>"
      by (rule update_goal_Inr)
    let ?f = "changed_goal dto (g_isActive existing) now amount due income name active"
    have f: "g_userId (?f g) = g_userId g" for g by (simp add: changed_goal_def)
    have own: "g_userId g = u" if "g \<in> set (goals d)" "g_id g = goalId" for g
      using row_by_id [OF goals_okD(1) [OF ok] that(1), of existing] own_goal_Some [OF ex] that(2) by blast
    have own': "g_userId g = u" if "g \<in> set ?gs" "g_id g = goalId" for g
    proof (rule own [OF _ that(2)])
      show "g \<in> set (goals d)"
        using that(1) untouched_in_update [OF _ that(2)] by (cases "ug_isActive dto = Value True") auto
    qed
    have "filter (\<lambda>g. g_userId g \<noteq> u) ?gs = filter (\<lambda>g. g_userId g \<noteq> u) (goals d)"
      using filter_others_update [of "goals d" ?others u "replace_goal replacedAt"] by simp
    moreover have "filter (\<lambda>g. g_userId g \<noteq> u) (update_many (\<lambda>g. g_id g = goalId) ?f ?gs)
        = filter (\<lambda>g. g_userId g \<noteq> u) ?gs"
      using own' f by (intro filter_others_update) blast
    ultimately show ?thesis
      by (simp add: Pair only_own_goals_def d')
  qed
qed

lemma end_goal_own: "only_own_goals u d (snd (end_goal d u goalId now outcome))"
proof (cases "end_goal d u goalId now outcome")
  case (Pair r d')
  show ?thesis
  proof (cases r)
    case (Inl e)
    with Pair end_goal_Inl show ?thesis by fastforce
  next
    case (Inr v)
    with Pair have "end_goal d u goalId now outcome = (Inr v, d')" by simp
    then have "d' = d\<lparr>goals := update_many (\<lambda>g. g_id g = goalId \<and> endable u g) (finish_goal outcome now) (goals d)\<rparr>"
      by (rule end_goal_Inr)
    then show ?thesis
      using filter_others_update [of "goals d" "\<lambda>g. g_id g = goalId \<and> endable u g" u "finish_goal outcome now"]
      by (simp add: Pair only_own_goals_def endable_def)
  qed
qed

text \<open>
  A request of one user never touches another user's goals, nor any other table: not even
  with another user's goal identifier in the path.
\<close>

lemma goals_isolated:
  assumes "goals_ok (goals d)"
  shows "only_own_goals u d (snd (create_goal new_date d u newId endedAt createdAt dto))
       \<and> only_own_goals u d (snd (update_goal new_date d u goalId replacedAt now udto))
       \<and> only_own_goals u d (snd (end_goal d u goalId now outcome))"
  using create_goal_own update_goal_own [OF assms] end_goal_own by blast

section \<open>Two requests the validation lets through\<close>

text \<open>
  A creation whose \<open>monthlyIncomeKobo\<close> is \<open>null\<close> passes the validation -- the decorator
  \<open>IsOptional\<close> accepts \<open>null\<close> -- and fails with an uncaught \<open>TypeError\<close>: the handler checks for
  \<open>undefined\<close> only. The update handler of the same field accepts \<open>null\<close>.
\<close>

lemma create_null_income_fails:
  "valid_create_goal isDateString (dto\<lparr>cg_monthlyIncomeKobo := Null\<rparr>)
     = valid_create_goal isDateString (dto\<lparr>cg_monthlyIncomeKobo := Undefined\<rparr>)
   \<and> create_goal new_date d userId newId endedAt createdAt (dto\<lparr>cg_monthlyIncomeKobo := Null\<rparr>)
     = (Inl (ServerError ''Cannot convert null to a BigInt''), d)"
  by (auto simp: valid_create_goal_def create_goal_def Let_def bigint_of_null_def split: sum.splits option.splits)

text \<open>
  An update whose \<open>dueDate\<close> is \<open>null\<close> passes the validation and moves the due date to the
  epoch, 1970-01-01: \<open>new Date(null)\<close> is a valid date.
\<close>

lemma update_null_due_date:
  assumes "own_goal d goalId userId = Some g"
  shows "valid_update_goal isDateString \<lparr>ug_name = Undefined, ug_amountTotalKobo = Undefined, ug_dueDate = Null,
            ug_monthlyIncomeKobo = Undefined, ug_isActive = Undefined\<rparr>
       \<and> update_goal new_date d userId goalId replacedAt now
           \<lparr>ug_name = Undefined, ug_amountTotalKobo = Undefined, ug_dueDate = Null,
            ug_monthlyIncomeKobo = Undefined, ug_isActive = Undefined\<rparr>
         = (Inr (serializeGoal (g\<lparr>g_dueDate := 0\<rparr>)),
            d\<lparr>goals := update_many (\<lambda>h. g_id h = goalId) (\<lambda>h. h\<lparr>g_dueDate := 0\<rparr>) (goals d)\<rparr>)"
proof -
  have "changed_goal \<lparr>ug_name = Undefined, ug_amountTotalKobo = Undefined, ug_dueDate = Null,
            ug_monthlyIncomeKobo = Undefined, ug_isActive = Undefined\<rparr> a now None (Some 0) Undefined None None
      = (\<lambda>h. h\<lparr>g_dueDate := 0\<rparr>)" for a
    by (simp add: changed_goal_def fun_eq_iff)
  then show ?thesis
    using assms by (simp add: update_goal_def Let_def income_data_def valid_update_goal_def)
qed

section \<open>Concrete requests\<close>

definition sample_goals_db :: db where
  "sample_goals_db = empty_db\<lparr>users := [\<lparr>u_id = js ''u1'', u_phone = js ''+2348012345678'',
     u_displayName = None, u_createdAt = 0, u_updatedAt = 0\<rparr>]\<rparr>"

definition sample_goal_dto :: create_goal_dto where
  "sample_goal_dto = \<lparr>cg_name = js ''Rent'', cg_amountTotalKobo = 50000000, cg_dueDate = js ''2026-12-01'',
     cg_monthlyIncomeKobo = Undefined\<rparr>"

definition sample_goal :: goal_row where
  "sample_goal = new_goal (js ''g1'') (js ''u1'') (js ''Rent'') 50000000 1796083200000 None 1"

definition one_goal_db :: db where
  "one_goal_db = sample_goals_db\<lparr>goals := [sample_goal]\<rparr>"

lemma sample_step: "goals_step sample_goals_db one_goal_db"
proof (rule goals_step.created)
  show "js ''g1'' \<notin> g_id ` set (goals sample_goals_db)" by (simp add: sample_goals_db_def empty_db_def)
  show "create_goal (\<lambda>_. Some 1796083200000) sample_goals_db (js ''u1'') (js ''g1'') 1 1 sample_goal_dto
      = (Inr (serializeGoal sample_goal), one_goal_db)"
    by (simp add: create_goal_def Let_def sample_goals_db_def sample_goal_dto_def empty_db_def one_goal_db_def
        user_exists_def big_int_column_def create_row_def update_many_def sample_goal_def)
qed

lemma sample_goals_ok: "goals_ok (goals one_goal_db)"
  by (simp add: one_goal_db_def goals_ok_def goal_ok_def sample_goal_def new_goal_def)

lemma no_goals: "goals sample_goals_db = []"
  by (simp add: sample_goals_db_def empty_db_def)

theorem goals_lifecycle_witness:
  "length (filter (\<lambda>g. g_userId g = js ''u1'' \<and> g_isActive g) (goals one_goal_db)) \<le> 1"
  using goals_lifecycle [OF r_into_rtranclp [of goals_step, OF sample_step] no_goals] by blast

lemma dashboard_goals_agree_witness:
  "getActive one_goal_db (js ''u1'') = (case active_goal one_goal_db (js ''u1'') of
     None \<Rightarrow> Inl (NotFound ''No active goal found'') | Some g \<Rightarrow> Inr (serializeGoal g))"
  by (rule dashboard_goals_agree [OF r_into_rtranclp [of goals_step, OF sample_step] no_goals])

lemma create_goal_replaces_witness:
  "\<exists>goal d'. create_goal (\<lambda>_. Some 5) one_goal_db (js ''u1'') (js ''g2'') 7 8 sample_goal_dto
       = (Inr (serializeGoal goal), d')
     \<and> map g_status (goals d') = [GoalReplaced, GoalActive]"
proof -
  have h: "user_exists one_goal_db (js ''u1'')" "js ''g2'' \<notin> g_id ` set (goals one_goal_db)"
    "big_int_column (cg_amountTotalKobo sample_goal_dto) = Inr 50000000"
    "given_bigint (cg_monthlyIncomeKobo sample_goal_dto) = Inr None"
    by (simp_all add: one_goal_db_def sample_goals_db_def user_exists_def sample_goal_dto_def big_int_column_def
        sample_goal_def new_goal_def)
  show ?thesis
    using create_goal_replaces [OF sample_goals_ok h(1,2) _ h(3,4), of "\<lambda>_. Some 5" 5 7 8]
    by (auto simp: one_goal_db_def sample_goal_def new_goal_def)
qed

lemma end_goal_once_witness:
  "\<exists>v d'. end_goal one_goal_db (js ''u1'') (js ''g1'') 9 EndCompleted = (Inr v, d')
     \<and> end_goal d' (js ''u1'') (js ''g1'') 10 EndCancelled = (Inl (BadRequest ''Only the active goal can be ended''), d')"
proof -
  have "sample_goal \<in> set (goals one_goal_db)" "endable (js ''u1'') sample_goal" "g_id sample_goal = js ''g1''"
    by (simp_all add: one_goal_db_def endable_def sample_goal_def new_goal_def)
  then show ?thesis
    using end_goal_once [OF sample_goals_ok, of sample_goal "js ''u1''" 9 EndCompleted 10 EndCancelled] by auto
qed

lemma goals_isolated_witness:
  "only_own_goals (js ''u2'') one_goal_db (snd (end_goal one_goal_db (js ''u2'') (js ''g1'') 9 EndCompleted))"
  using goals_isolated [OF sample_goals_ok] by blast

lemma update_null_due_date_witness:
  "\<exists>v d'. update_goal (\<lambda>_. None) one_goal_db (js ''u1'') (js ''g1'') 5 5
        \<lparr>ug_name = Undefined, ug_amountTotalKobo = Undefined, ug_dueDate = Null,
         ug_monthlyIncomeKobo = Undefined, ug_isActive = Undefined\<rparr> = (Inr v, d')
     \<and> map g_dueDate (goals d') = [0]"
proof -
  have "own_goal one_goal_db (js ''g1'') (js ''u1'') = Some sample_goal"
    by (simp add: own_goal_def find_first_def one_goal_db_def sample_goal_def new_goal_def)
  from update_null_due_date [OF this] show ?thesis
    by (simp add: one_goal_db_def update_many_def sample_goal_def new_goal_def)
qed

end
