(* ===== verification/Transactions.thy ===== *)
theory Transactions
  imports Import_Parser Goals
begin

text \<open>
  The transactions service \<open>api/src/transactions/transactions.service.ts\<close> with the request
  classes of \<open>api/src/transactions/dto\<close>. Each handler makes at most one write, its last
  database call, so a handler that throws leaves the database as it was. \<open>new_date\<close> is the
  string parser of \<open>Date\<close>; \<open>lower\<close> and \<open>sha256\<close> are those of the import parser.
\<close>

section \<open>Requests and answers\<close>

record create_transaction_dto =
  ct_direction :: direction
  ct_amountKobo :: int
  ct_occurredAt :: jstring
  ct_goalId :: "jstring field"
  ct_note :: "jstring field"

record update_transaction_dto =
  ut_direction :: "direction field"
  ut_amountKobo :: "int field"
  ut_occurredAt :: "jstring field"
  ut_goalId :: "jstring field"
  ut_note :: "jstring field"

record list_transactions_dto =
  lt_from :: "jstring field"
  lt_to :: "jstring field"

record preview_import_dto =
  pi_csv :: jstring
  pi_goalId :: "jstring field"

record confirm_import_dto =
  ci_csv :: jstring
  ci_rowNumbers :: "int list"
  ci_goalId :: "jstring field"

definition valid_create_transaction :: "(jstring \<Rightarrow> bool) \<Rightarrow> create_transaction_dto \<Rightarrow> bool" where
  "valid_create_transaction isDateString dto \<longleftrightarrow>
     1 \<le> ct_amountKobo dto \<and> isDateString (ct_occurredAt dto)
     \<and> optional_field (\<lambda>s. length s \<le> 280) (ct_note dto)"

definition valid_update_transaction :: "(jstring \<Rightarrow> bool) \<Rightarrow> update_transaction_dto \<Rightarrow> bool" where
  "valid_update_transaction isDateString dto \<longleftrightarrow>
     optional_field (\<lambda>n. 1 \<le> n) (ut_amountKobo dto)
     \<and> optional_field isDateString (ut_occurredAt dto)
     \<and> optional_field (\<lambda>s. length s \<le> 280) (ut_note dto)"

definition valid_list_transactions :: "(jstring \<Rightarrow> bool) \<Rightarrow> list_transactions_dto \<Rightarrow> bool" where
  "valid_list_transactions isDateString dto \<longleftrightarrow>
     optional_field isDateString (lt_from dto) \<and> optional_field isDateString (lt_to dto)"

definition valid_preview_import :: "preview_import_dto \<Rightarrow> bool" where
  "valid_preview_import dto \<longleftrightarrow> 1 \<le> length (pi_csv dto) \<and> length (pi_csv dto) \<le> 200000
     \<and> optional_field (\<lambda>s. 1 \<le> length s) (pi_goalId dto)"

definition valid_confirm_import :: "confirm_import_dto \<Rightarrow> bool" where
  "valid_confirm_import dto \<longleftrightarrow> 1 \<le> length (ci_csv dto) \<and> length (ci_csv dto) \<le> 200000
     \<and> 1 \<le> length (ci_rowNumbers dto) \<and> length (ci_rowNumbers dto) \<le> 500
     \<and> distinct (ci_rowNumbers dto) \<and> list_all (\<lambda>n. 2 \<le> n) (ci_rowNumbers dto)
     \<and> optional_field (\<lambda>s. 1 \<le> length s) (ci_goalId dto)"

record transaction_view =
  tv_id :: jstring
  tv_userId :: jstring
  tv_goalId :: "jstring option"
  tv_amountKobo :: rat
  tv_direction :: direction
  tv_occurredAt :: jstring
  tv_note :: "jstring option"
  tv_createdAt :: jstring

record import_preview =
  pv_rows :: "import_row list"
  pv_readyCount :: nat
  pv_duplicateCount :: nat
  pv_invalidCount :: nat

record import_result =
  im_importedCount :: nat
  im_duplicateCount :: nat

definition direction_of :: "jstring \<Rightarrow> direction option" where
  "direction_of s = (if s = js ''in'' then Some DirIn else if s = js ''out'' then Some DirOut else None)"

definition serializeTransaction :: "transaction_row \<Rightarrow> transaction_view result" where
  "serializeTransaction t =
     (case direction_of (t_direction t) of
        None \<Rightarrow> Inl (ServerError ''Unsupported transaction direction'')
      | Some direction \<Rightarrow>
          Inr \<lparr>tv_id = t_id t, tv_userId = t_userId t, tv_goalId = t_goalId t,
               tv_amountKobo = to_number (t_amountKobo t), tv_direction = direction,
               tv_occurredAt = to_iso_string (t_occurredAt t), tv_note = t_note t,
               tv_createdAt = to_iso_string (t_createdAt t)\<rparr>)"

section \<open>Checks of ownership\<close>

text \<open>Truthiness of an optional string, and \<open>value || null\<close> and \<open>value ?? null\<close>.\<close>

definition truthy :: "jstring option \<Rightarrow> bool" where
  "truthy v \<longleftrightarrow> v \<noteq> None \<and> v \<noteq> Some []"

fun field_value :: "'a field \<Rightarrow> 'a option" where
  "field_value (Value v) = Some v"
| "field_value _ = None"

definition or_null :: "jstring field \<Rightarrow> jstring option" where
  "or_null f = (if truthy (field_value f) then field_value f else None)"

definition ensureGoalBelongsToUser :: "db \<Rightarrow> jstring \<Rightarrow> jstring \<Rightarrow> unit result" where
  "ensureGoalBelongsToUser d goalId userId =
     (case find_first (\<lambda>g. g_id g = goalId \<and> g_userId g = userId) (goals d) of
        None \<Rightarrow> Inl (NotFound ''Goal not found'') | Some _ \<Rightarrow> Inr ())"

definition ensureTransactionBelongsToUser :: "db \<Rightarrow> jstring \<Rightarrow> jstring \<Rightarrow> unit result" where
  "ensureTransactionBelongsToUser d i userId =
     (case find_first (\<lambda>t. t_id t = i \<and> t_userId t = userId) (transactions d) of
        None \<Rightarrow> Inl (NotFound ''Transaction not found'') | Some _ \<Rightarrow> Inr ())"

text \<open>\<open>if (dto.goalId) await this.ensureGoalBelongsToUser(dto.goalId, userId)\<close>\<close>

definition check_goal :: "db \<Rightarrow> jstring field \<Rightarrow> jstring \<Rightarrow> unit result" where
  "check_goal d f userId =
     (case or_null f of None \<Rightarrow> Inr () | Some goalId \<Rightarrow> ensureGoalBelongsToUser d goalId userId)"

text \<open>The foreign keys of the \<open>Transaction\<close> table.\<close>

definition foreign_key_violation :: http_error where
  "foreign_key_violation = ServerError ''Foreign key constraint violated''"

definition goal_reference_ok :: "db \<Rightarrow> jstring option \<Rightarrow> bool" where
  "goal_reference_ok d g = (case g of None \<Rightarrow> True | Some i \<Rightarrow> goal_exists d i)"

section \<open>Manual transactions\<close>

definition create_transaction ::
  "(jstring \<Rightarrow> ms option) \<Rightarrow> db \<Rightarrow> jstring \<Rightarrow> jstring \<Rightarrow> ms \<Rightarrow> create_transaction_dto
   \<Rightarrow> transaction_view result \<times> db" where
  "create_transaction new_date d userId newId now dto =
     (case check_goal d (ct_goalId dto) userId of
        Inl e \<Rightarrow> (Inl e, d)
      | Inr _ \<Rightarrow>
          (case (big_int_column (ct_amountKobo dto), new_date (ct_occurredAt dto)) of
             (Inl e, _) \<Rightarrow> (Inl e, d)
           | (Inr _, None) \<Rightarrow> (Inl invalid_date, d)
           | (Inr amount, Some occurredAt) \<Rightarrow>
               (let t = \<lparr>t_id = newId, t_userId = userId, t_goalId = or_null (ct_goalId dto),
                      t_amountKobo = amount, t_direction = direction_text (ct_direction dto),
                      t_occurredAt = occurredAt, t_note = or_null (ct_note dto),
                      t_importFingerprint = None, t_createdAt = now\<rparr>
                in if \<not> user_exists d userId then (Inl foreign_key_violation, d)
                   else (serializeTransaction t, d\<lparr>transactions := create_row t (transactions d)\<rparr>))))"

text \<open>\<open>query.from ? new Date(query.from) : undefined\<close>\<close>

definition query_bound :: "(jstring \<Rightarrow> ms option) \<Rightarrow> jstring field \<Rightarrow> ms option result" where
  "query_bound new_date f = (case or_null f of
     None \<Rightarrow> Inr None
   | Some s \<Rightarrow> (case new_date s of None \<Rightarrow> Inl invalid_date | Some t \<Rightarrow> Inr (Some t)))"

fun serialize_all :: "transaction_row list \<Rightarrow> transaction_view list result" where
  "serialize_all [] = Inr []"
| "serialize_all (t # ts) =
     (case serializeTransaction t of
        Inl e \<Rightarrow> Inl e
      | Inr v \<Rightarrow> (case serialize_all ts of Inl e \<Rightarrow> Inl e | Inr vs \<Rightarrow> Inr (v # vs)))"

definition in_range :: "ms option \<Rightarrow> ms option \<Rightarrow> ms \<Rightarrow> bool" where
  "in_range from until t \<longleftrightarrow>
     (case from of None \<Rightarrow> True | Some a \<Rightarrow> a \<le> t) \<and> (case until of None \<Rightarrow> True | Some b \<Rightarrow> t \<le> b)"

definition list_transactions ::
  "(jstring \<Rightarrow> ms option) \<Rightarrow> db \<Rightarrow> jstring \<Rightarrow> list_transactions_dto \<Rightarrow> transaction_view list result" where
  "list_transactions new_date d userId query =
     (case (query_bound new_date (lt_from query), query_bound new_date (lt_to query)) of
        (Inl e, _) \<Rightarrow> Inl e
      | (_, Inl e) \<Rightarrow> Inl e
      | (Inr from, Inr until) \<Rightarrow>
          serialize_all (find_many_by (\<lambda>t. - t_occurredAt t)
            (\<lambda>t. t_userId t = userId \<and> in_range from until (t_occurredAt t)) (transactions d)))"

definition changed_transaction ::
  "direction option \<Rightarrow> int option \<Rightarrow> ms option \<Rightarrow> jstring field \<Rightarrow> jstring field \<Rightarrow> transaction_row \<Rightarrow> transaction_row"
where
  "changed_transaction direction amount occurredAt goalId note t =
     t\<lparr>t_direction := set_if_given (map_option direction_text direction) (t_direction t),
       t_amountKobo := set_if_given amount (t_amountKobo t),
       t_occurredAt := set_if_given occurredAt (t_occurredAt t),
       t_goalId := set_nullable goalId (t_goalId t),
       t_note := set_nullable note (t_note t)\<rparr>"

definition update_transaction ::
  "(jstring \<Rightarrow> ms option) \<Rightarrow> db \<Rightarrow> jstring \<Rightarrow> jstring \<Rightarrow> update_transaction_dto
   \<Rightarrow> transaction_view result \<times> db" where
  "update_transaction new_date d userId i dto =
     (case find_first (\<lambda>t. t_id t = i \<and> t_userId t = userId) (transactions d) of
        None \<Rightarrow> (Inl (NotFound ''Transaction not found''), d)
      | Some t \<Rightarrow>
          (case check_goal d (ut_goalId dto) userId of
             Inl e \<Rightarrow> (Inl e, d)
           | Inr _ \<Rightarrow>
               (case (given_column (ut_direction dto), given_bigint (ut_amountKobo dto),
                      given_date new_date (ut_occurredAt dto)) of
                  (Inr direction, Inr amount, Inr occurredAt) \<Rightarrow>
                    if \<not> goal_reference_ok d (field_value (ut_goalId dto)) then (Inl foreign_key_violation, d)
                    else
                      (let change = changed_transaction direction amount occurredAt (ut_goalId dto) (ut_note dto)
                       in (serializeTransaction (change t),
                           d\<lparr>transactions := update_many (\<lambda>t. t_id t = i) change (transactions d)\<rparr>))
                | (_, Inl e, _) \<Rightarrow> (Inl e, d)
                | (_, _, Inl e) \<Rightarrow> (Inl e, d)
                | (Inl e, _, _) \<Rightarrow> (Inl e, d))))"

definition remove_transaction :: "db \<Rightarrow> jstring \<Rightarrow> jstring \<Rightarrow> bool result \<times> db" where
  "remove_transaction d userId i =
     (case ensureTransactionBelongsToUser d i userId of
        Inl e \<Rightarrow> (Inl e, d)
      | Inr _ \<Rightarrow> (Inr True, d\<lparr>transactions := delete_many (\<lambda>t. t_id t = i) (transactions d)\<rparr>))"

section \<open>Imports\<close>

definition previewImport ::
  "(jstring \<Rightarrow> jstring) \<Rightarrow> (jstring \<Rightarrow> jstring) \<Rightarrow> db \<Rightarrow> jstring \<Rightarrow> preview_import_dto \<Rightarrow> import_preview result"
where
  "previewImport lower sha256 d userId dto =
     (case check_goal d (pi_goalId dto) userId of
        Inl e \<Rightarrow> Inl e
      | Inr _ \<Rightarrow>
          (case parseTransactionImport lower sha256 (pi_csv dto) of
             Inl e \<Rightarrow> Inl e
           | Inr rows \<Rightarrow>
               (let fps = filter (\<lambda>f. f \<noteq> []) (List.map_filter ir_fingerprint rows);
                    known = filter truthy (map t_importFingerprint
                      (find_many (\<lambda>t. t_userId t = userId \<and> (\<exists>f \<in> set fps. t_importFingerprint t = Some f))
                        (transactions d)));
                    previewRows = map (\<lambda>row. row\<lparr>ir_duplicate :=
                      truthy (ir_fingerprint row) \<and> ir_fingerprint row \<in> set known\<rparr>) rows
                in Inr \<lparr>pv_rows = previewRows,
                     pv_readyCount = length (filter (\<lambda>row. \<not> truthy (ir_error row) \<and> \<not> ir_duplicate row) previewRows),
                     pv_duplicateCount = length (filter ir_duplicate previewRows),
                     pv_invalidCount = length (filter (\<lambda>row. truthy (ir_error row)) previewRows)\<rparr>)))"

text \<open>\<open>createMany\<close> with \<open>skipDuplicates\<close>: a row is skipped when its user already has a row with
  its fingerprint, one inserted by the same call included.\<close>

definition import_conflict :: "transaction_row \<Rightarrow> transaction_row list \<Rightarrow> bool" where
  "import_conflict r rows \<longleftrightarrow> t_importFingerprint r \<noteq> None
     \<and> list_ex (\<lambda>t. t_userId t = t_userId r \<and> t_importFingerprint t = t_importFingerprint r) rows"

fun create_many :: "transaction_row list \<Rightarrow> transaction_row list \<Rightarrow> nat \<times> transaction_row list" where
  "create_many [] rows = (0, rows)"
| "create_many (r # rs) rows =
     (if import_conflict r rows then create_many rs rows
      else (case create_many rs (create_row r rows) of (n, rows') \<Rightarrow> (n + 1, rows')))"

definition invalid_row :: "import_row \<Rightarrow> bool" where
  "invalid_row row \<longleftrightarrow> truthy (ir_error row) \<or> \<not> truthy (ir_fingerprint row)
     \<or> \<not> truthy (ir_occurredAt row) \<or> ir_direction row = None \<or> ir_amountKobo row = None"

definition import_data ::
  "(jstring \<Rightarrow> ms option) \<Rightarrow> jstring \<Rightarrow> jstring option \<Rightarrow> (int \<Rightarrow> jstring) \<Rightarrow> ms \<Rightarrow> import_row \<Rightarrow> transaction_row result"
where
  "import_data new_date userId goalId newId now row =
     (case Option.bind (ir_occurredAt row) new_date of
        None \<Rightarrow> Inl invalid_date
      | Some t \<Rightarrow>
          Inr \<lparr>t_id = newId (ir_rowNumber row), t_userId = userId, t_goalId = goalId,
               t_amountKobo = (case ir_amountKobo row of None \<Rightarrow> 0 | Some k \<Rightarrow> k),
               t_direction = (case ir_direction row of None \<Rightarrow> [] | Some dir \<Rightarrow> direction_text dir),
               t_occurredAt = t, t_note = ir_note row, t_importFingerprint = ir_fingerprint row,
               t_createdAt = now\<rparr>)"

fun all_results :: "'a result list \<Rightarrow> 'a list result" where
  "all_results [] = Inr []"
| "all_results (Inl e # rs) = Inl e"
| "all_results (Inr v # rs) = (case all_results rs of Inl e \<Rightarrow> Inl e | Inr vs \<Rightarrow> Inr (v # vs))"

definition confirmImport ::
  "(jstring \<Rightarrow> jstring) \<Rightarrow> (jstring \<Rightarrow> jstring) \<Rightarrow> (jstring \<Rightarrow> ms option) \<Rightarrow> db \<Rightarrow> jstring \<Rightarrow> (int \<Rightarrow> jstring)
   \<Rightarrow> ms \<Rightarrow> confirm_import_dto \<Rightarrow> import_result result \<times> db"
where
  "confirmImport lower sha256 new_date d userId newId now dto =
     (case check_goal d (ci_goalId dto) userId of
        Inl e \<Rightarrow> (Inl e, d)
      | Inr _ \<Rightarrow>
          (case parseTransactionImport lower sha256 (ci_csv dto) of
             Inl e \<Rightarrow> (Inl e, d)
           | Inr parsed \<Rightarrow>
               (let rows = filter (\<lambda>row. ir_rowNumber row \<in> set (ci_rowNumbers dto)) parsed;
                    missingRows = filter (\<lambda>n. n \<notin> set (map ir_rowNumber rows)) (ci_rowNumbers dto);
                    invalidRows = filter invalid_row rows
                in if missingRows \<noteq> [] \<or> invalidRows \<noteq> []
                   then (Inl (BadRequestRows ''Only valid rows from the current preview can be imported''
                           (missingRows @ map ir_rowNumber invalidRows)), d)
                   else
                     (case all_results (map (import_data new_date userId (field_value (ci_goalId dto)) newId now) rows) of
                        Inl e \<Rightarrow> (Inl e, d)
                      | Inr data \<Rightarrow>
                          if data \<noteq> [] \<and> (\<not> user_exists d userId \<or> \<not> goal_reference_ok d (field_value (ci_goalId dto)))
                          then (Inl foreign_key_violation, d)
                          else (case create_many data (transactions d) of (inserted, rows') \<Rightarrow>
                            (Inr \<lparr>im_importedCount = inserted, im_duplicateCount = length rows - inserted\<rparr>,
                             d\<lparr>transactions := rows'\<rparr>))))))"

section \<open>Inserting with skipped duplicates\<close>

text \<open>The rows \<open>create_many\<close> inserts.\<close>

fun novel :: "transaction_row list \<Rightarrow> transaction_row list \<Rightarrow> transaction_row list" where
  "novel [] rows = []"
| "novel (r # rs) rows = (if import_conflict r rows then novel rs rows else r # novel rs (create_row r rows))"

lemma create_many_novel: "create_many rs rows = (length (novel rs rows), rows @ novel rs rows)"
  by (induction rs arbitrary: rows) (simp_all add: create_row_def)

lemma set_novel: "set (novel rs rows) \<subseteq> set rs"
  by (induction rs arbitrary: rows) auto

lemma length_novel: "length (novel rs rows) \<le> length rs"
  by (induction rs arbitrary: rows) (auto intro: le_SucI)

definition import_key :: "transaction_row \<Rightarrow> jstring \<times> jstring option" where
  "import_key t = (t_userId t, t_importFingerprint t)"

lemma import_conflict_iff:
  "import_conflict r rows \<longleftrightarrow> t_importFingerprint r \<noteq> None \<and> import_key r \<in> import_key ` set rows"
  unfolding import_conflict_def list_ex_iff import_key_def image_iff by (metis prod.inject)

lemma keys_create_row [simp]:
  "import_key ` set (create_row r rows) = insert (import_key r) (import_key ` set rows)"
  by (simp add: set_create_row)

lemma novel_conflicts:
  "r \<in> set rs \<Longrightarrow> t_importFingerprint r \<noteq> None \<Longrightarrow> import_key r \<in> import_key ` set (rows @ novel rs rows)"
proof (induction rs arbitrary: rows)
  case (Cons a rs)
  show ?case
  proof (cases "import_conflict a rows")
    case True
    with Cons show ?thesis by (auto simp: import_conflict_iff)
  next
    case False
    with Cons.IH [of "create_row a rows"] Cons.prems show ?thesis
      by (auto simp: create_row_def)
  qed
qed simp

lemma novel_all_conflict: "(\<And>r. r \<in> set rs \<Longrightarrow> import_conflict r rows) \<Longrightarrow> novel rs rows = []"
  by (induction rs) auto

lemma novel_fresh:
  assumes "distinct (map t_importFingerprint rs)" and "\<And>r. r \<in> set rs \<Longrightarrow> \<not> import_conflict r rows"
  shows "novel rs rows = rs"
  using assms
proof (induction rs arbitrary: rows)
  case (Cons r rs)
  have "\<not> import_conflict q (create_row r rows)" if q: "q \<in> set rs" for q
  proof -
    have "import_key q \<noteq> import_key r"
      using Cons.prems(1) q by (metis distinct.simps(2) image_eqI import_key_def list.set_map list.simps(9) prod.inject)
    then show ?thesis
      using Cons.prems(2) [of q] q by (simp add: import_conflict_iff)
  qed
  with Cons show ?case by simp
qed simp

text \<open>No user has two transactions with the same fingerprint.\<close>

definition imports_unique :: "transaction_row list \<Rightarrow> bool" where
  "imports_unique rows \<longleftrightarrow>
     distinct (map import_key (filter (\<lambda>t. t_importFingerprint t \<noteq> None) rows))"

lemma imports_unique_novel: "imports_unique rows \<Longrightarrow> imports_unique (rows @ novel rs rows)"
proof (induction rs arbitrary: rows)
  case (Cons r rs)
  show ?case
  proof (cases "import_conflict r rows")
    case False
    then have "imports_unique (create_row r rows)"
      using Cons.prems by (auto simp: imports_unique_def create_row_def import_conflict_iff)
    from Cons.IH [OF this] show ?thesis
      using False by (simp add: create_row_def)
  qed (simp add: Cons)
qed simp

section \<open>The import handler\<close>

lemma all_results_map:
  "all_results (map f xs) = Inr ys \<Longrightarrow> length ys = length xs \<and> (\<forall>i < length xs. f (xs ! i) = Inr (ys ! i))"
proof (induction xs arbitrary: ys)
  case (Cons x xs)
  then obtain y ys' where "f x = Inr y" "all_results (map f xs) = Inr ys'" "ys = y # ys'"
    by (cases "f x"; cases "all_results (map f xs)") auto
  with Cons.IH [of ys'] show ?case by (auto simp: nth_Cons split: nat.split)
qed simp

lemma all_results_Inr:
  "(\<And>x. x \<in> set xs \<Longrightarrow> f x = Inr (g x)) \<Longrightarrow> all_results (map f xs) = Inr (map g xs)"
  by (induction xs) auto

definition selected_rows :: "import_row list \<Rightarrow> int list \<Rightarrow> import_row list" where
  "selected_rows parsed numbers = filter (\<lambda>row. ir_rowNumber row \<in> set numbers) parsed"

text \<open>The row \<open>import_data\<close> gives where the date parses.\<close>

definition imported_row ::
  "(jstring \<Rightarrow> ms option) \<Rightarrow> jstring \<Rightarrow> jstring option \<Rightarrow> (int \<Rightarrow> jstring) \<Rightarrow> ms \<Rightarrow> import_row \<Rightarrow> transaction_row" where
  "imported_row new_date userId goalId newId now row =
     (case import_data new_date userId goalId newId now row of Inr t \<Rightarrow> t | Inl _ \<Rightarrow> undefined)"

lemma import_data_imported:
  "Option.bind (ir_occurredAt row) new_date \<noteq> None \<Longrightarrow>
   import_data new_date userId goalId newId now row = Inr (imported_row new_date userId goalId newId now row)"
  by (auto simp: import_data_def imported_row_def)

lemma imported_row_fields:
  assumes "Option.bind (ir_occurredAt row) new_date = Some t"
  shows "t_userId (imported_row new_date userId goalId newId now row) = userId"
    "t_goalId (imported_row new_date userId goalId newId now row) = goalId"
    "t_importFingerprint (imported_row new_date userId goalId newId now row) = ir_fingerprint row"
    "t_id (imported_row new_date userId goalId newId now row) = newId (ir_rowNumber row)"
    "t_amountKobo (imported_row new_date userId goalId newId now row) = (case ir_amountKobo row of None \<Rightarrow> 0 | Some k \<Rightarrow> k)"
    "t_direction (imported_row new_date userId goalId newId now row) = (case ir_direction row of None \<Rightarrow> [] | Some dir \<Rightarrow> direction_text dir)"
  using assms by (simp_all add: imported_row_def import_data_def)

lemma confirmImport_Inr:
  assumes "confirmImport lower sha256 new_date d userId newId now dto = (Inr res, d')"
  obtains parsed where "check_goal d (ci_goalId dto) userId = Inr ()"
    "parseTransactionImport lower sha256 (ci_csv dto) = Inr parsed"
    "\<forall>row \<in> set (selected_rows parsed (ci_rowNumbers dto)). \<not> invalid_row row \<and> Option.bind (ir_occurredAt row) new_date \<noteq> None"
    "\<forall>n \<in> set (ci_rowNumbers dto). n \<in> ir_rowNumber ` set (selected_rows parsed (ci_rowNumbers dto))"
    "selected_rows parsed (ci_rowNumbers dto) = [] \<or> user_exists d userId \<and> goal_reference_ok d (field_value (ci_goalId dto))"
    "d' = d\<lparr>transactions := transactions d @ novel (map (imported_row new_date userId (field_value (ci_goalId dto)) newId now)
            (selected_rows parsed (ci_rowNumbers dto))) (transactions d)\<rparr>"
    "im_importedCount res = length (novel (map (imported_row new_date userId (field_value (ci_goalId dto)) newId now)
            (selected_rows parsed (ci_rowNumbers dto))) (transactions d))"
    "im_duplicateCount res = length (selected_rows parsed (ci_rowNumbers dto)) - im_importedCount res"
proof -
  let ?sel = "\<lambda>parsed. selected_rows parsed (ci_rowNumbers dto)"
  let ?data = "import_data new_date userId (field_value (ci_goalId dto)) newId now"
  from assms obtain parsed data where
    p: "check_goal d (ci_goalId dto) userId = Inr ()"
      "parseTransactionImport lower sha256 (ci_csv dto) = Inr parsed"
      "filter invalid_row (?sel parsed) = []"
      "filter (\<lambda>n. n \<notin> set (map ir_rowNumber (?sel parsed))) (ci_rowNumbers dto) = []"
      "all_results (map ?data (?sel parsed)) = Inr data"
      "data = [] \<or> user_exists d userId \<and> goal_reference_ok d (field_value (ci_goalId dto))"
      "(Inr \<lparr>im_importedCount = length (novel data (transactions d)),
             im_duplicateCount = length (?sel parsed) - length (novel data (transactions d))\<rparr>,
        d\<lparr>transactions := transactions d @ novel data (transactions d)\<rparr>) = (Inr res, d')"
    unfolding confirmImport_def Let_def selected_rows_def
    by (auto simp: create_many_novel split: sum.splits if_splits)
  note a = all_results_map [OF p(5)]
  have dates: "Option.bind (ir_occurredAt row) new_date \<noteq> None" if "row \<in> set (?sel parsed)" for row
  proof -
    from that obtain i where "i < length (?sel parsed)" "?sel parsed ! i = row" by (auto simp: in_set_conv_nth)
    with a have "?data row = Inr (data ! i)" by auto
    then show ?thesis by (cases "Option.bind (ir_occurredAt row) new_date") (simp_all add: import_data_def)
  qed
  have "data = map (imported_row new_date userId (field_value (ci_goalId dto)) newId now) (?sel parsed)"
  proof (rule nth_equalityI)
    show "data ! i = map (imported_row new_date userId (field_value (ci_goalId dto)) newId now) (?sel parsed) ! i"
      if "i < length data" for i
      using a that by (auto simp: imported_row_def)
  qed (use a in simp)
  then show ?thesis
    using p dates by (intro that [of parsed]) (auto simp: filter_empty_conv)
qed

lemma check_goal_cong: "goals d' = goals d \<Longrightarrow> check_goal d' f u = check_goal d f u"
  by (simp add: check_goal_def ensureGoalBelongsToUser_def split: option.split)

lemma goal_reference_cong: "goals d' = goals d \<Longrightarrow> goal_reference_ok d' g = goal_reference_ok d g"
  by (simp add: goal_reference_ok_def goal_exists_def split: option.split)

lemma confirmImport_eq:
  assumes "check_goal d (ci_goalId dto) userId = Inr ()"
    and "parseTransactionImport lower sha256 (ci_csv dto) = Inr parsed"
    and "\<forall>row \<in> set (selected_rows parsed (ci_rowNumbers dto)). \<not> invalid_row row \<and> Option.bind (ir_occurredAt row) new_date \<noteq> None"
    and "\<forall>n \<in> set (ci_rowNumbers dto). n \<in> ir_rowNumber ` set (selected_rows parsed (ci_rowNumbers dto))"
    and "selected_rows parsed (ci_rowNumbers dto) = [] \<or> user_exists d userId \<and> goal_reference_ok d (field_value (ci_goalId dto))"
  shows "confirmImport lower sha256 new_date d userId newId now dto =
    (let rows = selected_rows parsed (ci_rowNumbers dto);
         ins = novel (map (imported_row new_date userId (field_value (ci_goalId dto)) newId now) rows) (transactions d)
     in (Inr \<lparr>im_importedCount = length ins, im_duplicateCount = length rows - length ins\<rparr>,
         d\<lparr>transactions := transactions d @ ins\<rparr>))"
proof -
  let ?rows = "selected_rows parsed (ci_rowNumbers dto)"
  have data: "all_results (map (import_data new_date userId (field_value (ci_goalId dto)) newId now) ?rows)
      = Inr (map (imported_row new_date userId (field_value (ci_goalId dto)) newId now) ?rows)"
    using assms(3) by (intro all_results_Inr import_data_imported) blast
  have none: "filter (\<lambda>n. n \<notin> set (map ir_rowNumber ?rows)) (ci_rowNumbers dto) = []" "filter invalid_row ?rows = []"
    using assms(3,4) by (auto simp: filter_empty_conv)
  show ?thesis
    using assms(1,2,5) none data
    unfolding confirmImport_def selected_rows_def [symmetric] Let_def
    by (simp add: create_many_novel)
qed

text \<open>
  C3. Confirming an import again -- the same file and selection, at any later time, with any
  new identifiers -- imports nothing, reports every row as a duplicate and leaves the database
  as it is.
\<close>

theorem import_idempotent:
  assumes "confirmImport lower sha256 new_date d userId newId now dto = (Inr res, d')"
  shows "confirmImport lower sha256 new_date d' userId newId' now' dto
    = (Inr \<lparr>im_importedCount = 0, im_duplicateCount = im_importedCount res + im_duplicateCount res\<rparr>, d')"
proof -
  let ?g = "field_value (ci_goalId dto)"
  from assms obtain parsed where
    p: "check_goal d (ci_goalId dto) userId = Inr ()"
      "parseTransactionImport lower sha256 (ci_csv dto) = Inr parsed" and
    sel: "\<forall>row \<in> set (selected_rows parsed (ci_rowNumbers dto)). \<not> invalid_row row \<and> Option.bind (ir_occurredAt row) new_date \<noteq> None"
      "\<forall>n \<in> set (ci_rowNumbers dto). n \<in> ir_rowNumber ` set (selected_rows parsed (ci_rowNumbers dto))"
      "selected_rows parsed (ci_rowNumbers dto) = [] \<or> user_exists d userId \<and> goal_reference_ok d ?g" and
    d': "d' = d\<lparr>transactions := transactions d @ novel (map (imported_row new_date userId ?g newId now)
            (selected_rows parsed (ci_rowNumbers dto))) (transactions d)\<rparr>" and
    res: "im_importedCount res = length (novel (map (imported_row new_date userId ?g newId now)
            (selected_rows parsed (ci_rowNumbers dto))) (transactions d))"
      "im_duplicateCount res = length (selected_rows parsed (ci_rowNumbers dto)) - im_importedCount res"
    by (rule confirmImport_Inr)
  let ?rows = "selected_rows parsed (ci_rowNumbers dto)"
  let ?old = "imported_row new_date userId ?g newId now" and ?new = "imported_row new_date userId ?g newId' now'"
  have key: "import_key (?new row) = import_key (?old row) \<and> t_importFingerprint (?new row) = ir_fingerprint row
      \<and> t_importFingerprint (?old row) = ir_fingerprint row" if "row \<in> set ?rows" for row
    using sel(1) that by (auto simp: import_key_def imported_row_fields)
  have conflict: "import_conflict r (transactions d')" if "r \<in> set (map ?new ?rows)" for r
  proof -
    from that obtain row where row: "row \<in> set ?rows" "r = ?new row" by auto
    then have fp: "ir_fingerprint row \<noteq> None"
      using sel(1) by (auto simp: invalid_row_def truthy_def)
    have "import_key (?old row) \<in> import_key ` set (transactions d @ novel (map ?old ?rows) (transactions d))"
      by (rule novel_conflicts) (use row fp key in auto)
    then show ?thesis using row fp key by (simp add: import_conflict_iff d')
  qed
  have novel: "novel (map ?new ?rows) (transactions d') = []"
    by (rule novel_all_conflict) (rule conflict)
  have count: "im_importedCount res + im_duplicateCount res = length ?rows"
    using length_novel [of "map ?old ?rows" "transactions d"] res by simp
  have same: "check_goal d' (ci_goalId dto) userId = Inr ()"
    "?rows = [] \<or> user_exists d' userId \<and> goal_reference_ok d' ?g"
    using p(1) sel(3) check_goal_cong [of d' d] goal_reference_cong [of d' d] by (auto simp: d' user_exists_def)
  show ?thesis
    using confirmImport_eq [OF same(1) p(2) sel(1,2) same(2), of newId' now'] count
    by (simp add: novel)
qed

section \<open>Preview and confirmation\<close>

definition known_fingerprint :: "db \<Rightarrow> jstring \<Rightarrow> jstring option \<Rightarrow> bool" where
  "known_fingerprint d userId f \<longleftrightarrow>
     truthy f \<and> list_ex (\<lambda>t. t_userId t = userId \<and> t_importFingerprint t = f) (transactions d)"

lemma previewImport_Inr:
  assumes "previewImport lower sha256 d userId dto = Inr pv"
  obtains parsed where "check_goal d (pi_goalId dto) userId = Inr ()"
    "parseTransactionImport lower sha256 (pi_csv dto) = Inr parsed"
    "pv_rows pv = map (\<lambda>row. row\<lparr>ir_duplicate := known_fingerprint d userId (ir_fingerprint row)\<rparr>) parsed"
    "pv_readyCount pv = length (filter (\<lambda>row. \<not> truthy (ir_error row) \<and> \<not> ir_duplicate row) (pv_rows pv))"
    "pv_duplicateCount pv = length (filter ir_duplicate (pv_rows pv))"
    "pv_invalidCount pv = length (filter (\<lambda>row. truthy (ir_error row)) (pv_rows pv))"
proof -
  let ?fps = "\<lambda>rows. filter (\<lambda>f. f \<noteq> []) (List.map_filter ir_fingerprint rows)"
  let ?known = "\<lambda>rows. filter truthy (map t_importFingerprint
      (find_many (\<lambda>t. t_userId t = userId \<and> (\<exists>f \<in> set (?fps rows). t_importFingerprint t = Some f)) (transactions d)))"
  have known: "truthy (ir_fingerprint row) \<and> ir_fingerprint row \<in> set (?known rows)
      \<longleftrightarrow> known_fingerprint d userId (ir_fingerprint row)" if "row \<in> set rows" for row rows
  proof (cases "ir_fingerprint row")
    case (Some f)
    have "f \<in> set (List.map_filter ir_fingerprint rows)"
      using that Some by (force simp: List.map_filter_def)
    then show ?thesis
      using Some by (auto simp: known_fingerprint_def truthy_def set_find_many list_ex_iff image_iff)
  qed (simp add: known_fingerprint_def truthy_def)
  then have marks: "map (\<lambda>row. row\<lparr>ir_duplicate := truthy (ir_fingerprint row) \<and> ir_fingerprint row \<in> set (?known rows)\<rparr>) rows
      = map (\<lambda>row. row\<lparr>ir_duplicate := known_fingerprint d userId (ir_fingerprint row)\<rparr>) rows" for rows
    by (intro map_cong refl) (simp only: known)
  show ?thesis
    using assms that unfolding previewImport_def Let_def marks
    by (auto split: sum.splits)
qed

lemma select_filtered:
  assumes "distinct (map ir_rowNumber rows)"
  shows "selected_rows rows (map ir_rowNumber (filter P rows)) = filter P rows"
proof -
  have "ir_rowNumber row \<in> set (map ir_rowNumber (filter P rows)) \<longleftrightarrow> P row" if "row \<in> set rows" for row
    using row_by_id [OF assms that] that by auto
  then show ?thesis unfolding selected_rows_def by (rule filter_cong [OF refl])
qed

lemma distinct_fingerprints:
  "distinct (fingerprints rows) \<Longrightarrow> \<forall>row \<in> set rows. P row \<longrightarrow> ir_fingerprint row \<noteq> None \<Longrightarrow>
   distinct (map ir_fingerprint (filter P rows))"
proof (induction rows)
  case (Cons r rows)
  then have "distinct (map ir_fingerprint (filter P rows))"
    by (simp add: fingerprints_def List.map_filter_simps split: option.splits)
  moreover have "ir_fingerprint q \<noteq> ir_fingerprint r" if "q \<in> set rows" "P r" for q
    using Cons.prems that by (force simp: fingerprints_def List.map_filter_def split: option.splits)
  ultimately show ?case by (auto dest!: not_sym)
qed simp

lemma ready_rows_valid:
  assumes "r \<in> set (import_rows lower sha256 ix 0 Map.empty records)" and "ir_error r = None"
    and "\<forall>t. sha256 t \<noteq> []" and "parses_iso new_date"
  shows "\<not> invalid_row r" and "Option.bind (ir_occurredAt r) new_date \<noteq> None"
    and "ir_fingerprint r \<noteq> None"
proof -
  have "sound_row r" using import_rows_sound assms(1) by blast
  then obtain f t dir k where r: "ir_fingerprint r = Some f" "ir_occurredAt r = Some t"
    "ir_direction r = Some dir" "ir_amountKobo r = Some k"
    using assms(2) by (auto simp: sound_row_def)
  obtain m where m: "four_digit_year m" "t = to_iso_string m"
    using import_rows_facts(2) [OF assms(1) r(2)] by blast
  obtain x where "f = sha256 x" using import_rows_facts(3) [OF assms(1) r(1)] by blast
  then have "f \<noteq> []" using assms(3) by simp
  moreover have "t \<noteq> []" using to_iso_string_date [of m] m(2) by auto
  ultimately show "\<not> invalid_row r" using r assms(2) by (simp add: invalid_row_def truthy_def)
  show "Option.bind (ir_occurredAt r) new_date \<noteq> None"
    using assms(4) m r(2) by (simp add: parses_iso_def)
  show "ir_fingerprint r \<noteq> None" using r by simp
qed

lemma check_goal_reference:
  assumes "check_goal d f u = Inr ()" and "optional_field (\<lambda>s. 1 \<le> length s) f"
  shows "goal_reference_ok d (field_value f)"
proof (cases f)
  case (Value g)
  with assms(2) have "or_null f = Some g" by (auto simp: or_null_def truthy_def)
  with assms(1) have "find_first (\<lambda>x. g_id x = g \<and> g_userId x = u) (goals d) \<noteq> None"
    by (auto simp: check_goal_def ensureGoalBelongsToUser_def split: option.splits)
  then show ?thesis
    using Value by (auto simp: find_first_None goal_reference_ok_def goal_exists_def list_ex_iff)
qed (simp_all add: goal_reference_ok_def)

lemma partition_counts:
  assumes "\<And>r. r \<in> set xs \<Longrightarrow> bad r \<longleftrightarrow> ir_error r \<noteq> None" and "\<And>r. r \<in> set xs \<Longrightarrow> dup r \<Longrightarrow> ir_error r = None"
  shows "length (filter (\<lambda>r. ir_error r = None \<and> \<not> dup r) xs) + length (filter dup xs) + length (filter bad xs) = length xs"
  using assms
proof (induction xs)
  case (Cons x xs)
  have "length (filter (\<lambda>r. ir_error r = None \<and> \<not> dup r) xs) + length (filter dup xs) + length (filter bad xs) = length xs"
    by (rule Cons.IH) (use Cons.prems in auto)
  then show ?case using Cons.prems [of x] by (cases "bad x") auto
qed simp

text \<open>Confirming rows of a file that have no error is never refused: each is imported or skipped.\<close>

lemma confirm_sound_rows:
  assumes "parseTransactionImport lower sha256 csv = Inr parsed"
    and sound: "set ns \<subseteq> ir_rowNumber ` {row \<in> set parsed. ir_error row = None}"
    and "check_goal d goal userId = Inr ()" and "optional_field (\<lambda>s. 1 \<le> length s) goal" and "user_exists d userId"
    and digest: "\<forall>t. sha256 t \<noteq> []" and date: "parses_iso new_date"
  shows "confirmImport lower sha256 new_date d userId newId now \<lparr>ci_csv = csv, ci_rowNumbers = ns, ci_goalId = goal\<rparr> =
    (let rows = selected_rows parsed ns;
         ins = novel (map (imported_row new_date userId (field_value goal) newId now) rows) (transactions d)
     in (Inr \<lparr>im_importedCount = length ins, im_duplicateCount = length rows - length ins\<rparr>,
         d\<lparr>transactions := transactions d @ ins\<rparr>))"
    and "distinct ns \<Longrightarrow> length (selected_rows parsed ns) = length ns"
    and "row \<in> set (selected_rows parsed ns) \<Longrightarrow> \<not> invalid_row row \<and> Option.bind (ir_occurredAt row) new_date \<noteq> None
      \<and> ir_fingerprint row \<noteq> None"
proof -
  let ?dto = "\<lparr>ci_csv = csv, ci_rowNumbers = ns, ci_goalId = goal\<rparr>"
  obtain ix records where ir: "parsed = import_rows lower sha256 ix 0 Map.empty records"
    using assms(1) by (rule parsed_import_rows) blast
  have nums: "distinct (map ir_rowNumber parsed)" by (simp add: ir row_numbers_distinct)
  have ok: "ir_error row = None" if "row \<in> set (selected_rows parsed ns)" for row
  proof -
    from that sound obtain row' where "row' \<in> set parsed" "ir_rowNumber row' = ir_rowNumber row" "ir_error row' = None"
      by (force simp: selected_rows_def)
    with that nums show ?thesis by (auto simp: selected_rows_def distinct_map dest: inj_onD)
  qed
  show valid: "\<not> invalid_row row \<and> Option.bind (ir_occurredAt row) new_date \<noteq> None \<and> ir_fingerprint row \<noteq> None"
    if "row \<in> set (selected_rows parsed ns)" for row
    using ready_rows_valid [OF _ ok [OF that] digest date, of lower ix records, folded ir] that
    by (auto simp: selected_rows_def)
  have all: "set ns = ir_rowNumber ` set (selected_rows parsed ns)"
    using sound by (auto simp: selected_rows_def)
  have "confirmImport lower sha256 new_date d userId newId now ?dto =
    (let rows = selected_rows parsed (ci_rowNumbers ?dto);
         ins = novel (map (imported_row new_date userId (field_value (ci_goalId ?dto)) newId now) rows) (transactions d)
     in (Inr \<lparr>im_importedCount = length ins, im_duplicateCount = length rows - length ins\<rparr>,
         d\<lparr>transactions := transactions d @ ins\<rparr>))"
    by (rule confirmImport_eq) (use assms(1,3,5) all valid check_goal_reference [OF assms(3,4)] in auto)
  then show "confirmImport lower sha256 new_date d userId newId now ?dto =
    (let rows = selected_rows parsed ns;
         ins = novel (map (imported_row new_date userId (field_value goal) newId now) rows) (transactions d)
     in (Inr \<lparr>im_importedCount = length ins, im_duplicateCount = length rows - length ins\<rparr>,
         d\<lparr>transactions := transactions d @ ins\<rparr>))"
    by simp
  have "distinct (map ir_rowNumber (selected_rows parsed ns))"
    using nums by (simp add: selected_rows_def distinct_map_filter)
  then show "length (selected_rows parsed ns) = length ns" if "distinct ns"
    using that all by (metis distinct_card length_map set_map)
qed

text \<open>Rows with distinct fingerprints that the user does not have yet are all inserted.\<close>

lemma novel_unknown:
  assumes "distinct (map ir_fingerprint rows)"
    and "\<And>row. row \<in> set rows \<Longrightarrow> Option.bind (ir_occurredAt row) new_date \<noteq> None
      \<and> truthy (ir_fingerprint row) \<and> \<not> known_fingerprint d userId (ir_fingerprint row)"
  shows "novel (map (imported_row new_date userId goal newId now) rows) (transactions d)
    = map (imported_row new_date userId goal newId now) rows"
proof (rule novel_fresh)
  let ?row = "imported_row new_date userId goal newId now"
  have fp: "t_importFingerprint (?row r) = ir_fingerprint r" "t_userId (?row r) = userId" if "r \<in> set rows" for r
    using assms(2) [OF that] by (auto simp: imported_row_fields)
  then have "map t_importFingerprint (map ?row rows) = map ir_fingerprint rows" by simp
  then show "distinct (map t_importFingerprint (map ?row rows))" using assms(1) by (simp only:)
  show "\<not> import_conflict t (transactions d)" if "t \<in> set (map ?row rows)" for t
  proof -
    from that obtain r where r: "r \<in> set rows" "t = ?row r" by auto
    with assms(2) [OF r(1)] show ?thesis by (simp add: fp import_conflict_def known_fingerprint_def)
  qed
qed

lemma preview_counts:
  assumes "parseTransactionImport lower sha256 csv = Inr parsed"
    and "pv_rows pv = map (\<lambda>row. row\<lparr>ir_duplicate := known_fingerprint d userId (ir_fingerprint row)\<rparr>) parsed"
  shows "filter (\<lambda>row. \<not> truthy (ir_error row) \<and> \<not> ir_duplicate row) (pv_rows pv)
      = map (\<lambda>row. row\<lparr>ir_duplicate := known_fingerprint d userId (ir_fingerprint row)\<rparr>)
          (filter (\<lambda>row. ir_error row = None \<and> \<not> known_fingerprint d userId (ir_fingerprint row)) parsed)"
    and "length (filter (\<lambda>row. \<not> truthy (ir_error row) \<and> \<not> ir_duplicate row) (pv_rows pv))
      + length (filter ir_duplicate (pv_rows pv)) + length (filter (\<lambda>row. truthy (ir_error row)) (pv_rows pv)) = length (pv_rows pv)"
proof -
  let ?known = "\<lambda>row. known_fingerprint d userId (ir_fingerprint row)"
  obtain ix records where ir: "parsed = import_rows lower sha256 ix 0 Map.empty records"
    using assms(1) by (rule parsed_import_rows) blast
  have err: "truthy (ir_error row) \<longleftrightarrow> ir_error row \<noteq> None" if "row \<in> set parsed" for row
    using import_rows_facts(1) that unfolding ir truthy_def by blast
  have known_ok: "ir_error row = None" if "row \<in> set parsed" "?known row" for row
    using import_rows_sound that unfolding ir
    by (auto simp: sound_row_def known_fingerprint_def truthy_def)
  show ready: "filter (\<lambda>row. \<not> truthy (ir_error row) \<and> \<not> ir_duplicate row) (pv_rows pv)
      = map (\<lambda>row. row\<lparr>ir_duplicate := ?known row\<rparr>) (filter (\<lambda>row. ir_error row = None \<and> \<not> ?known row) parsed)"
    unfolding assms(2) using err by (simp add: filter_map comp_def cong: filter_cong)
  show "length (filter (\<lambda>row. \<not> truthy (ir_error row) \<and> \<not> ir_duplicate row) (pv_rows pv))
      + length (filter ir_duplicate (pv_rows pv)) + length (filter (\<lambda>row. truthy (ir_error row)) (pv_rows pv)) = length (pv_rows pv)"
    unfolding ready unfolding assms(2)
    using partition_counts [of parsed "\<lambda>r. truthy (ir_error r)" ?known] err known_ok
    by (simp add: filter_map comp_def)
qed

text \<open>
  C21. Preview and confirmation agree: every row of a preview is ready, a duplicate or invalid,
  and confirming exactly the ready rows of the preview imports all of them and finds no
  duplicate, provided the digest does not collide on the rows of the file (and never yields an
  empty text) and \<open>Date\<close> reads back what \<open>toISOString\<close> wrote.
\<close>

theorem preview_confirm_agree:
  assumes "previewImport lower sha256 d userId \<lparr>pi_csv = csv, pi_goalId = goal\<rparr> = Inr pv"
    and "valid_preview_import \<lparr>pi_csv = csv, pi_goalId = goal\<rparr>" and "user_exists d userId"
    and "parseTransactionImport lower (\<lambda>t. t) csv = Inr texts" and "inj_on sha256 (set (fingerprints texts))"
    and "\<forall>t. sha256 t \<noteq> []" and "parses_iso new_date"
  shows "pv_readyCount pv + pv_duplicateCount pv + pv_invalidCount pv = length (pv_rows pv)
    \<and> (\<exists>d'. confirmImport lower sha256 new_date d userId newId now
          \<lparr>ci_csv = csv, ci_rowNumbers = map ir_rowNumber (filter (\<lambda>r. ir_error r = None \<and> \<not> ir_duplicate r) (pv_rows pv)),
           ci_goalId = goal\<rparr> = (Inr \<lparr>im_importedCount = pv_readyCount pv, im_duplicateCount = 0\<rparr>, d')
        \<and> length (transactions d') = length (transactions d) + pv_readyCount pv)"
proof -
  from assms(1) obtain parsed where g: "check_goal d goal userId = Inr ()"
    and p: "parseTransactionImport lower sha256 csv = Inr parsed"
    and rows: "pv_rows pv = map (\<lambda>row. row\<lparr>ir_duplicate := known_fingerprint d userId (ir_fingerprint row)\<rparr>) parsed"
    and counts: "pv_readyCount pv = length (filter (\<lambda>row. \<not> truthy (ir_error row) \<and> \<not> ir_duplicate row) (pv_rows pv))"
      "pv_duplicateCount pv = length (filter ir_duplicate (pv_rows pv))"
      "pv_invalidCount pv = length (filter (\<lambda>row. truthy (ir_error row)) (pv_rows pv))"
    by (rule previewImport_Inr) simp
  from p obtain ix records where ir: "parsed = import_rows lower sha256 ix 0 Map.empty records"
    "\<forall>sha. parseTransactionImport lower sha csv = Inr (import_rows lower sha ix 0 Map.empty records)"
    by (rule parsed_import_rows)
  let ?P = "\<lambda>row. ir_error row = None \<and> \<not> known_fingerprint d userId (ir_fingerprint row)"
  let ?ns = "map ir_rowNumber (filter ?P parsed)"
  have nums: "map ir_rowNumber (filter (\<lambda>r. ir_error r = None \<and> \<not> ir_duplicate r) (pv_rows pv)) = ?ns"
    unfolding rows by (simp add: filter_map comp_def)
  have sel: "selected_rows parsed ?ns = filter ?P parsed"
    by (rule select_filtered) (simp add: ir(1) row_numbers_distinct)
  have sound: "set ?ns \<subseteq> ir_rowNumber ` {row \<in> set parsed. ir_error row = None}" by auto
  have goal: "optional_field (\<lambda>s. 1 \<le> length s) goal" using assms(2) by (simp add: valid_preview_import_def)
  note confirm = confirm_sound_rows [OF p sound g goal assms(3,6,7), unfolded sel]
  have "texts = import_rows lower (\<lambda>t. t) ix 0 Map.empty records" using ir(2) assms(4) by simp
  then have "distinct (fingerprints parsed)"
    using assms(5) distinct_numbered unfolding ir(1) by (simp add: fingerprints_import_rows distinct_map)
  then have "distinct (map ir_fingerprint (filter ?P parsed))"
    using ready_rows_valid(3) [OF _ _ assms(6,7), of _ lower ix records, folded ir(1)]
    by (intro distinct_fingerprints) auto
  then have "novel (map (imported_row new_date userId (field_value goal) newId now) (filter ?P parsed)) (transactions d)
      = map (imported_row new_date userId (field_value goal) newId now) (filter ?P parsed)"
    using confirm(3) by (intro novel_unknown) (auto simp: invalid_row_def)
  then show ?thesis
    unfolding nums using confirm(1) preview_counts [OF p rows] by (simp add: Let_def counts)
qed

section \<open>What the other operations write\<close>

lemma create_transaction_Inr:
  assumes "create_transaction new_date d userId newId now dto = (Inr v, d')"
  obtains t where "d' = d\<lparr>transactions := create_row t (transactions d)\<rparr>" "t_userId t = userId" "t_id t = newId"
    "t_importFingerprint t = None" "t_direction t = direction_text (ct_direction dto)" "t_amountKobo t = ct_amountKobo dto"
    "t_goalId t = or_null (ct_goalId dto)" "check_goal d (ct_goalId dto) userId = Inr ()" "user_exists d userId"
  using assms unfolding create_transaction_def Let_def big_int_column_def
  by (simp split: sum.splits option.splits if_splits) (metis transaction_row.select_convs(1-8))

lemma create_transaction_Inl: "create_transaction new_date d userId newId now dto = (Inl e, d') \<Longrightarrow> d' = d"
proof -
  have "serializeTransaction t \<noteq> Inl e" if "t_direction t = direction_text dir" for t dir
    using that by (cases dir) (simp_all add: serializeTransaction_def direction_of_def)
  then show "create_transaction new_date d userId newId now dto = (Inl e, d') \<Longrightarrow> d' = d"
    unfolding create_transaction_def Let_def by (simp split: sum.splits option.splits if_splits)
qed

lemma update_transaction_Inr:
  assumes "update_transaction new_date d userId i dto = (Inr v, d')"
  obtains t direction amount occurredAt where "t \<in> set (transactions d)" "t_id t = i" "t_userId t = userId"
    "check_goal d (ut_goalId dto) userId = Inr ()" "goal_reference_ok d (field_value (ut_goalId dto))"
    "given_bigint (ut_amountKobo dto) = Inr amount" "given_column (ut_direction dto) = Inr direction"
    "d' = d\<lparr>transactions := update_many (\<lambda>t. t_id t = i)
        (changed_transaction direction amount occurredAt (ut_goalId dto) (ut_note dto)) (transactions d)\<rparr>"
  using assms unfolding update_transaction_def Let_def
  by (simp split: sum.splits option.splits if_splits) (blast dest: find_first_Some)

lemma remove_transaction_Inr:
  assumes "remove_transaction d userId i = (Inr ok, d')"
  obtains t where "t \<in> set (transactions d)" "t_id t = i" "t_userId t = userId"
    "d' = d\<lparr>transactions := delete_many (\<lambda>t. t_id t = i) (transactions d)\<rparr>"
  using assms unfolding remove_transaction_def ensureTransactionBelongsToUser_def
  by (auto split: option.splits dest: find_first_Some)

lemma remove_transaction_Inl: "remove_transaction d userId i = (Inl e, d') \<Longrightarrow> d' = d"
  unfolding remove_transaction_def by (simp split: sum.splits)

lemma confirmImport_Inl:
  "confirmImport lower sha256 new_date d userId newId now dto = (Inl e, d') \<Longrightarrow> d' = d"
  unfolding confirmImport_def Let_def by (simp split: sum.splits if_splits prod.splits)

text \<open>
  A row whose stored direction is neither in nor out is written by no handler, but the update
  handler answers such a row with an error after it has changed it.
\<close>

lemma update_transaction_writes:
  assumes "update_transaction new_date d userId i dto = (r, d')"
  shows "d' = d \<or> (\<exists>t direction amount occurredAt. t \<in> set (transactions d) \<and> t_id t = i \<and> t_userId t = userId
    \<and> check_goal d (ut_goalId dto) userId = Inr () \<and> goal_reference_ok d (field_value (ut_goalId dto))
    \<and> d' = d\<lparr>transactions := update_many (\<lambda>t. t_id t = i)
        (changed_transaction direction amount occurredAt (ut_goalId dto) (ut_note dto)) (transactions d)\<rparr>)"
  using assms unfolding update_transaction_def Let_def
  by (simp split: sum.splits option.splits if_splits) (blast dest: find_first_Some)+

section \<open>Concrete imports\<close>

definition sample_confirm :: confirm_import_dto where
  "sample_confirm = \<lparr>ci_csv = sample_csv, ci_rowNumbers = [2, 3], ci_goalId = Undefined\<rparr>"

lemma sample_confirms:
  "\<exists>res d'. confirmImport (\<lambda>s. s) (\<lambda>s. s) parse_iso one_goal_db (js ''u1'') dec 0 sample_confirm = (Inr res, d')"
proof -
  have sel: "selected_rows sample_rows (ci_rowNumbers sample_confirm) = sample_rows"
    by (simp add: selected_rows_def sample_confirm_def sample_rows_def sample_row_def)
  have "\<forall>row \<in> set sample_rows. \<not> invalid_row row \<and> Option.bind (ir_occurredAt row) parse_iso \<noteq> None"
    by (simp add: sample_rows_def sample_row_def invalid_row_def truthy_def parse_iso_def js_def)
  moreover have "\<forall>n \<in> set (ci_rowNumbers sample_confirm). n \<in> ir_rowNumber ` set sample_rows"
    by (simp add: sample_confirm_def sample_rows_def sample_row_def)
  moreover have "user_exists one_goal_db (js ''u1'')"
    by (simp add: one_goal_db_def sample_goals_db_def user_exists_def)
  moreover have "check_goal one_goal_db (ci_goalId sample_confirm) (js ''u1'') = Inr ()"
    "goal_reference_ok one_goal_db (field_value (ci_goalId sample_confirm))"
    by (simp_all add: sample_confirm_def check_goal_def or_null_def truthy_def goal_reference_ok_def)
  moreover have "parseTransactionImport (\<lambda>s. s) (\<lambda>s. s) (ci_csv sample_confirm) = Inr sample_rows"
    by (simp add: sample_confirm_def sample_parses)
  ultimately show ?thesis
    using confirmImport_eq [where d = one_goal_db and dto = sample_confirm and userId = "js ''u1''"
        and parsed = sample_rows and new_date = parse_iso and newId = dec and now = 0
        and lower = "\<lambda>s. s" and ?sha256.0 = "\<lambda>s. s"] sel
    by (simp add: Let_def)
qed

theorem import_idempotent_witness:
  "\<exists>n d'. confirmImport (\<lambda>s. s) (\<lambda>s. s) parse_iso d' (js ''u1'') dec 1 sample_confirm
     = (Inr \<lparr>im_importedCount = 0, im_duplicateCount = n\<rparr>, d')"
proof -
  obtain res d' where "confirmImport (\<lambda>s. s) (\<lambda>s. s) parse_iso one_goal_db (js ''u1'') dec 0 sample_confirm = (Inr res, d')"
    using sample_confirms by blast
  from import_idempotent [OF this, of dec 1] show ?thesis by blast
qed

definition sample_digest :: "jstring \<Rightarrow> jstring" where
  "sample_digest t = unit_dot # t"

theorem preview_confirm_agree_witness:
  "\<exists>pv d'. previewImport (\<lambda>s. s) sample_digest one_goal_db (js ''u1'') \<lparr>pi_csv = sample_csv, pi_goalId = Undefined\<rparr> = Inr pv
     \<and> confirmImport (\<lambda>s. s) sample_digest parse_iso one_goal_db (js ''u1'') dec 0
          \<lparr>ci_csv = sample_csv, ci_rowNumbers = map ir_rowNumber (filter (\<lambda>r. ir_error r = None \<and> \<not> ir_duplicate r) (pv_rows pv)),
           ci_goalId = Undefined\<rparr> = (Inr \<lparr>im_importedCount = pv_readyCount pv, im_duplicateCount = 0\<rparr>, d')"
proof -
  obtain ix records where "\<forall>sha. parseTransactionImport (\<lambda>s. s) sha sample_csv = Inr (import_rows (\<lambda>s. s) sha ix 0 Map.empty records)"
    using sample_parses by (rule parsed_import_rows)
  then obtain pv where pv: "previewImport (\<lambda>s. s) sample_digest one_goal_db (js ''u1'') \<lparr>pi_csv = sample_csv, pi_goalId = Undefined\<rparr> = Inr pv"
    by (simp add: previewImport_def check_goal_def or_null_def truthy_def Let_def)
  have "length sample_csv = 96" by code_simp
  then have v: "valid_preview_import \<lparr>pi_csv = sample_csv, pi_goalId = Undefined\<rparr>" "user_exists one_goal_db (js ''u1'')"
    by (simp_all add: valid_preview_import_def one_goal_db_def sample_goals_db_def user_exists_def)
  show ?thesis
    using preview_confirm_agree [OF pv v sample_parses _ _ parses_iso_parse_iso, of dec 0] pv
    by (auto simp: sample_digest_def inj_on_def)
qed

end
