(* ===== verification/Notification_Queue.thy ===== *)
theory Notification_Queue
  imports Transactions "HOL-Library.Countable"
begin

text \<open>
  The notification queue \<open>api/src/notifications/notification-queue.service.ts\<close>: jobs are rows of
  the database, with an encrypted payload; workers claim a job by a conditional write, deliver
  it and record the outcome. The memory of the process holds the accounts whose deletion is in
  progress. AES-256-GCM, the digest and the configured secret are parameters, gathered in a
  record; random vectors, identifiers and the clock are arguments.
\<close>

section \<open>Payloads\<close>

definition JOB_LOCK_TIMEOUT_MS :: int where "JOB_LOCK_TIMEOUT_MS = 5 * 60 * 1000"

text \<open>\<open>JSON.stringify({ redacted: true })\<close>\<close>

definition REDACTED_PAYLOAD_JSON :: json_text where
  "REDACTED_PAYLOAD_JSON = Json (JObject [(js ''redacted'', JBool True)])"

text \<open>A payload is redacted, or the object the stored text describes.\<close>

datatype payload = Redacted | Payload json

definition json_string :: "json \<Rightarrow> jstring \<Rightarrow> jstring option" where
  "json_string v k = (case json_get v k of Some (JString s) \<Rightarrow> Some s | _ \<Rightarrow> None)"

definition isOtpPayload :: "json \<Rightarrow> bool" where
  "isOtpPayload v \<longleftrightarrow> json_string v (js ''phone'') \<noteq> None \<and> json_string v (js ''otp'') \<noteq> None"

definition isReadinessPayload :: "json \<Rightarrow> bool" where
  "isReadinessPayload v \<longleftrightarrow> json_string v (js ''phone'') \<noteq> None \<and> json_string v (js ''body'') \<noteq> None"

definition isNotificationPayload :: "json \<Rightarrow> bool" where
  "isNotificationPayload v \<longleftrightarrow> isOtpPayload v \<or> isReadinessPayload v"

definition isEncryptedEnvelope :: "json \<Rightarrow> bool" where
  "isEncryptedEnvelope v \<longleftrightarrow> json_get v (js ''v'') = Some (JNumber 1) \<and> json_string v (js ''iv'') \<noteq> None
     \<and> json_string v (js ''authTag'') \<noteq> None \<and> json_string v (js ''ciphertext'') \<noteq> None"

text \<open>
  \<open>gcm_encrypt key iv text\<close> gives the ciphertext and the authentication tag, \<open>gcm_decrypt key iv
  tag ciphertext\<close> the text unless the tag does not fit, all in the encodings of the envelope.
\<close>

record crypto =
  secret :: "jstring option" \<comment> \<open>\<open>NOTIFICATION_PAYLOAD_ENCRYPTION_KEY\<close>\<close>
  key_digest :: "jstring \<Rightarrow> jstring"
  gcm_encrypt :: "jstring \<Rightarrow> jstring \<Rightarrow> json_text \<Rightarrow> jstring \<times> jstring"
  gcm_decrypt :: "jstring \<Rightarrow> jstring \<Rightarrow> jstring \<Rightarrow> jstring \<Rightarrow> json_text option"

definition encryptionKey :: "crypto \<Rightarrow> jstring result" where
  "encryptionKey c = (if truthy (secret c) then Inr (key_digest c (the (secret c)))
     else Inl (ServerError ''Notification payload encryption key is not configured''))"

definition encryptPayload :: "crypto \<Rightarrow> jstring \<Rightarrow> json \<Rightarrow> json_text result" where
  "encryptPayload c iv payload =
     (case encryptionKey c of
        Inl e \<Rightarrow> Inl e
      | Inr key \<Rightarrow>
          (case gcm_encrypt c key iv (Json payload) of (ciphertext, authTag) \<Rightarrow>
             Inr (Json (JObject [(js ''v'', JNumber 1), (js ''iv'', JString iv),
               (js ''authTag'', JString authTag), (js ''ciphertext'', JString ciphertext)]))))"

definition unable_to_decrypt :: http_error where
  "unable_to_decrypt = ServerError ''Unable to decrypt notification payload''"

definition decryptPayload :: "crypto \<Rightarrow> json_text \<Rightarrow> payload result" where
  "decryptPayload c text =
     (case text of
        NotJson _ \<Rightarrow> Inl (ServerError ''SyntaxError'')
      | Json JNull \<Rightarrow> Inl (ServerError ''TypeError'')
      | Json stored \<Rightarrow>
          (if json_get stored (js ''redacted'') = Some (JBool True) then Inr Redacted
           else if isNotificationPayload stored then Inr (Payload stored)
           else if \<not> isEncryptedEnvelope stored then Inl (ServerError ''Invalid notification payload'')
           else (case encryptionKey c of
                   Inl _ \<Rightarrow> Inl unable_to_decrypt
                 | Inr key \<Rightarrow>
                     (case gcm_decrypt c key (the (json_string stored (js ''iv''))) (the (json_string stored (js ''authTag'')))
                             (the (json_string stored (js ''ciphertext''))) of
                        Some (Json p) \<Rightarrow> if isNotificationPayload p then Inr (Payload p) else Inl unable_to_decrypt
                      | _ \<Rightarrow> Inl unable_to_decrypt))))"

definition payload_phone :: "payload \<Rightarrow> jstring" where
  "payload_phone p = (case p of
     Redacted \<Rightarrow> js ''<redacted>''
   | Payload v \<Rightarrow> (case json_string v (js ''phone'') of None \<Rightarrow> [] | Some s \<Rightarrow> s))"

section \<open>Jobs\<close>

record notification_job =
  nj_id :: jstring
  nj_type :: jstring
  nj_payload :: payload
  nj_status :: job_status
  nj_attempts :: nat
  nj_maxAttempts :: nat
  nj_nextRunAt :: ms
  nj_lockedAt :: "ms option"
  nj_sentAt :: "ms option"
  nj_failedAt :: "ms option"
  nj_lastError :: "jstring option"
  nj_provider :: "jstring option"
  nj_providerMessageId :: "jstring option"
  nj_correlationId :: jstring
  nj_userId :: "jstring option"
  nj_goalId :: "jstring option"
  nj_dedupeKey :: "jstring option"
  nj_createdAt :: ms
  nj_updatedAt :: ms

definition otp_requested :: jstring where "otp_requested = js ''otp.requested''"

definition normalizeType :: "jstring \<Rightarrow> jstring" where
  "normalizeType t =
     (if t = js ''weekly.summary'' \<or> t = js ''risk.alert'' \<or> t = js ''risk.recovery'' then t else otp_requested)"

definition mapJobMetadata :: "job_row \<Rightarrow> payload \<Rightarrow> notification_job" where
  "mapJobMetadata job p =
     \<lparr>nj_id = j_id job, nj_type = normalizeType (j_type job), nj_payload = p, nj_status = j_status job,
      nj_attempts = j_attempts job, nj_maxAttempts = j_maxAttempts job, nj_nextRunAt = j_nextRunAt job,
      nj_lockedAt = j_lockedAt job, nj_sentAt = j_sentAt job, nj_failedAt = j_failedAt job,
      nj_lastError = j_lastError job, nj_provider = j_provider job,
      nj_providerMessageId = j_providerMessageId job, nj_correlationId = j_correlationId job,
      nj_userId = j_userId job, nj_goalId = j_goalId job, nj_dedupeKey = j_dedupeKey job,
      nj_createdAt = j_createdAt job, nj_updatedAt = j_updatedAt job\<rparr>"

definition mapJob :: "crypto \<Rightarrow> job_row \<Rightarrow> notification_job result" where
  "mapJob c job = (case decryptPayload c (j_payloadJson job) of
     Inl e \<Rightarrow> Inl e | Inr p \<Rightarrow> Inr (mapJobMetadata job p))"

definition mapUndecryptableJob :: "job_row \<Rightarrow> notification_job" where
  "mapUndecryptableJob job = mapJobMetadata job Redacted"

section \<open>Enqueueing\<close>

record otp_requested_input =
  oi_userId :: jstring
  oi_otpCodeId :: jstring
  oi_dedupeKey :: jstring
  oi_phone :: jstring
  oi_otp :: jstring

record legacy_otp_request_input =
  li_userId :: jstring
  li_otpCodeId :: jstring
  li_dedupeKey :: jstring
  li_requestedAt :: ms
  li_expiresAt :: ms

record readiness_alert_input =
  ri_type :: jstring
  ri_phone :: jstring
  ri_body :: jstring
  ri_userId :: jstring
  ri_goalId :: jstring
  ri_dedupeKey :: jstring

definition otp_payload :: "jstring \<Rightarrow> jstring \<Rightarrow> json" where
  "otp_payload phone otp = JObject [(js ''phone'', JString phone), (js ''otp'', JString otp)]"

definition readiness_payload :: "jstring \<Rightarrow> jstring \<Rightarrow> json" where
  "readiness_payload phone body = JObject [(js ''phone'', JString phone), (js ''body'', JString body)]"

text \<open>What the database refuses: a second row with a unique value, a dangling reference.\<close>

datatype prisma_error = P2002 | P2003

definition prisma_error_thrown :: "prisma_error \<Rightarrow> http_error" where
  "prisma_error_thrown e = (case e of P2002 \<Rightarrow> ServerError ''P2002'' | P2003 \<Rightarrow> ServerError ''P2003'')"

definition otp_exists :: "db \<Rightarrow> jstring \<Rightarrow> bool" where
  "otp_exists d i \<longleftrightarrow> list_ex (\<lambda>r. oc_id r = i) (otpCodes d)"

definition job_conflict :: "job_row \<Rightarrow> job_row list \<Rightarrow> bool" where
  "job_conflict r rows \<longleftrightarrow> list_ex (\<lambda>q. j_id q = j_id r
      \<or> (j_otpCodeId r \<noteq> None \<and> j_otpCodeId q = j_otpCodeId r)
      \<or> (j_dedupeKey r \<noteq> None \<and> j_dedupeKey q = j_dedupeKey r)) rows"

definition job_references_ok :: "db \<Rightarrow> job_row \<Rightarrow> bool" where
  "job_references_ok d r \<longleftrightarrow> (case j_userId r of None \<Rightarrow> True | Some u \<Rightarrow> user_exists d u)
     \<and> (case j_otpCodeId r of None \<Rightarrow> True | Some i \<Rightarrow> otp_exists d i)"

definition insert_job :: "db \<Rightarrow> job_row \<Rightarrow> prisma_error + db" where
  "insert_job d r =
     (if job_conflict r (jobs d) then Inl P2002
      else if \<not> job_references_ok d r then Inl P2003
      else Inr (d\<lparr>jobs := create_row r (jobs d)\<rparr>))"

definition new_job ::
  "jstring \<Rightarrow> jstring \<Rightarrow> json_text \<Rightarrow> jstring \<Rightarrow> jstring option \<Rightarrow> jstring option \<Rightarrow> jstring \<Rightarrow> jstring \<Rightarrow> ms \<Rightarrow> job_row"
where
  "new_job newId type text userId otpCodeId goalId dedupeKey correlationId now =
     \<lparr>j_id = newId, j_type = type, j_payloadJson = text, j_status = Pending, j_attempts = 0,
      j_maxAttempts = 3, j_nextRunAt = now, j_lockedAt = None, j_sentAt = None, j_failedAt = None,
      j_lastError = None, j_provider = None, j_providerMessageId = None, j_correlationId = correlationId,
      j_userId = Some userId, j_otpCodeId = otpCodeId, j_goalId = goalId, j_dedupeKey = Some dedupeKey,
      j_createdAt = now, j_updatedAt = now\<rparr>"

definition isOtpRequestEnqueued :: "db \<Rightarrow> jstring \<Rightarrow> jstring \<Rightarrow> bool" where
  "isOtpRequestEnqueued d dedupeKey otpCodeId =
     (case find_first (\<lambda>j. j_dedupeKey j = Some dedupeKey) (jobs d) of
        None \<Rightarrow> False
      | Some existing \<Rightarrow> j_type existing = otp_requested \<and> j_otpCodeId existing = Some otpCodeId)"

text \<open>\<open>iv\<close>, \<open>newId\<close> and \<open>correlationId\<close> are the random values of the call.\<close>

definition enqueueOtpRequested ::
  "crypto \<Rightarrow> jstring \<Rightarrow> jstring \<Rightarrow> jstring \<Rightarrow> ms \<Rightarrow> db \<Rightarrow> otp_requested_input \<Rightarrow> jstring result \<times> db" where
  "enqueueOtpRequested c iv newId correlationId now d input =
     (case encryptPayload c iv (otp_payload (oi_phone input) (oi_otp input)) of
        Inl e \<Rightarrow> (Inl e, d)
      | Inr text \<Rightarrow>
          (case insert_job d (new_job newId otp_requested text (oi_userId input) (Some (oi_otpCodeId input)) None
                   (oi_dedupeKey input) correlationId now) of
             Inr d' \<Rightarrow> (Inr newId, d')
           | Inl P2003 \<Rightarrow> (Inl (prisma_error_thrown P2003), d)
           | Inl P2002 \<Rightarrow>
               (case find_first (\<lambda>j. j_dedupeKey j = Some (oi_dedupeKey input)) (jobs d) of
                  None \<Rightarrow> (Inl (prisma_error_thrown P2002), d)
                | Some existing \<Rightarrow>
                    if j_type existing = otp_requested \<and> j_otpCodeId existing = Some (oi_otpCodeId input)
                    then (Inr (j_id existing), d) else (Inl (prisma_error_thrown P2002), d))))"

definition adoptable :: "legacy_otp_request_input \<Rightarrow> job_row \<Rightarrow> bool" where
  "adoptable input j \<longleftrightarrow> j_type j = otp_requested \<and> j_userId j = Some (li_userId input)
     \<and> j_otpCodeId j = None \<and> j_dedupeKey j = None"

definition adopt_row :: "legacy_otp_request_input \<Rightarrow> jstring \<Rightarrow> ms \<Rightarrow> job_row \<Rightarrow> job_row" where
  "adopt_row input correlationId now j =
     j\<lparr>j_otpCodeId := Some (li_otpCodeId input), j_dedupeKey := Some (li_dedupeKey input),
       j_correlationId := correlationId, j_updatedAt := now\<rparr>"

definition adoptLegacyOtpRequest ::
  "jstring \<Rightarrow> ms \<Rightarrow> db \<Rightarrow> legacy_otp_request_input \<Rightarrow> bool result \<times> db" where
  "adoptLegacyOtpRequest correlationId now d input =
     (case find_first_by j_createdAt (\<lambda>j. adoptable input j
             \<and> li_requestedAt input \<le> j_createdAt j \<and> j_createdAt j \<le> li_expiresAt input) (jobs d) of
        None \<Rightarrow> (Inr False, d)
      | Some legacy \<Rightarrow>
          (let claim = (\<lambda>j. j_id j = j_id legacy \<and> adoptable input j);
               row = adopt_row input correlationId now legacy;
               enqueued = Inr (isOtpRequestEnqueued d (li_dedupeKey input) (li_otpCodeId input))
           in if count_rows claim (jobs d) = 0 then (enqueued, d)
              else if job_conflict row (filter (\<lambda>j. j_id j \<noteq> j_id legacy) (jobs d)) then (enqueued, d)
              else if \<not> otp_exists d (li_otpCodeId input) then (Inl (prisma_error_thrown P2003), d)
              else (Inr True, d\<lparr>jobs := update_many claim (adopt_row input correlationId now) (jobs d)\<rparr>)))"

definition enqueueReadinessAlert ::
  "crypto \<Rightarrow> jstring \<Rightarrow> jstring \<Rightarrow> jstring \<Rightarrow> ms \<Rightarrow> db \<Rightarrow> readiness_alert_input \<Rightarrow> bool result \<times> db" where
  "enqueueReadinessAlert c iv newId correlationId now d input =
     (case encryptPayload c iv (readiness_payload (ri_phone input) (ri_body input)) of
        Inl e \<Rightarrow> (Inl e, d)
      | Inr text \<Rightarrow>
          (case insert_job d (new_job newId (ri_type input) text (ri_userId input) None (Some (ri_goalId input))
                   (ri_dedupeKey input) correlationId now) of
             Inr d' \<Rightarrow> (Inr True, d')
           | Inl P2002 \<Rightarrow> (Inr False, d)
           | Inl P2003 \<Rightarrow> (Inl (prisma_error_thrown P2003), d)))"

section \<open>Accounts being deleted\<close>

record queue_memory =
  deletingAccountIds :: "jstring set"
  discoveringAccountPhones :: "jstring set"
  deletingNotificationIds :: "jstring set"
  deletingNotificationIdsByAccount :: "jstring \<Rightarrow> jstring list option"

definition empty_memory :: queue_memory where
  "empty_memory = \<lparr>deletingAccountIds = {}, discoveringAccountPhones = {}, deletingNotificationIds = {},
     deletingNotificationIdsByAccount = Map.empty\<rparr>"

text \<open>The jobs of an account: its own, and older jobs without a user whose payload names its phone.\<close>

definition account_job :: "crypto \<Rightarrow> jstring \<Rightarrow> jstring \<Rightarrow> job_row \<Rightarrow> bool" where
  "account_job c userId phone job =
     (if j_userId job = Some userId then True
      else (case decryptPayload c (j_payloadJson job) of
              Inl _ \<Rightarrow> False | Inr p \<Rightarrow> payload_phone p = phone))"

text \<open>The deletion runs in two steps, around the query: other calls may run in between.\<close>

definition startAccountDeletion :: "jstring \<Rightarrow> jstring \<Rightarrow> queue_memory \<Rightarrow> queue_memory" where
  "startAccountDeletion userId phone m =
     m\<lparr>deletingAccountIds := insert userId (deletingAccountIds m),
       discoveringAccountPhones := insert phone (discoveringAccountPhones m)\<rparr>"

definition beginAccountDeletion ::
  "crypto \<Rightarrow> db \<Rightarrow> jstring \<Rightarrow> jstring \<Rightarrow> queue_memory \<Rightarrow> jstring list \<times> queue_memory" where
  "beginAccountDeletion c d userId phone m =
     (let m = startAccountDeletion userId phone m;
          candidates = find_many (\<lambda>j. j_userId j = Some userId \<or> j_userId j = None) (jobs d);
          ids = map j_id (filter (account_job c userId phone) candidates)
      in (ids, m\<lparr>deletingNotificationIdsByAccount := (deletingNotificationIdsByAccount m)(userId \<mapsto> ids),
                 deletingNotificationIds := deletingNotificationIds m \<union> set ids,
                 discoveringAccountPhones := discoveringAccountPhones m - {phone}\<rparr>))"

definition canDeliver :: "db \<Rightarrow> queue_memory \<Rightarrow> notification_job \<Rightarrow> bool" where
  "canDeliver d m job =
     (if nj_id job \<in> deletingNotificationIds m
         \<or> (case nj_userId job of None \<Rightarrow> False | Some u \<Rightarrow> u \<noteq> [] \<and> u \<in> deletingAccountIds m)
         \<or> payload_phone (nj_payload job) \<in> discoveringAccountPhones m
      then False
      else find_first (\<lambda>j. j_id j = nj_id job) (jobs d) \<noteq> None)"

definition clearAccountDeletionBlock :: "jstring \<Rightarrow> queue_memory \<Rightarrow> queue_memory" where
  "clearAccountDeletionBlock userId m =
     (let ids = (case deletingNotificationIdsByAccount m userId of None \<Rightarrow> [] | Some ids \<Rightarrow> ids)
      in m\<lparr>deletingAccountIds := deletingAccountIds m - {userId},
           deletingNotificationIds := deletingNotificationIds m - set ids,
           deletingNotificationIdsByAccount := (deletingNotificationIdsByAccount m)(userId := None)\<rparr>)"

definition restoreForAccount :: "jstring \<Rightarrow> queue_memory \<Rightarrow> queue_memory" where
  "restoreForAccount userId m = clearAccountDeletionBlock userId m"

text \<open>\<open>finalizeAccountDeletion\<close> lifts the block when its timer, of \<open>JOB_LOCK_TIMEOUT_MS\<close>, fires.\<close>

definition finalizeAccountDeletion :: "jstring \<Rightarrow> ms \<Rightarrow> ms \<times> (queue_memory \<Rightarrow> queue_memory)" where
  "finalizeAccountDeletion userId now = (now + JOB_LOCK_TIMEOUT_MS, clearAccountDeletionBlock userId)"

section \<open>Claiming and finishing\<close>

definition stale_lock :: "ms \<Rightarrow> job_row \<Rightarrow> bool" where
  "stale_lock now j = (case j_lockedAt j of None \<Rightarrow> True | Some t \<Rightarrow> t \<le> now - JOB_LOCK_TIMEOUT_MS)"

definition readyWhere :: "ms \<Rightarrow> job_row \<Rightarrow> bool" where
  "readyWhere now j \<longleftrightarrow> (j_status j = Pending \<and> j_nextRunAt j \<le> now) \<or> (j_status j = Processing \<and> stale_lock now j)"

definition lock_job :: "ms \<Rightarrow> job_row \<Rightarrow> job_row" where
  "lock_job now j = j\<lparr>j_status := Processing, j_lockedAt := Some now, j_updatedAt := now\<rparr>"

definition backoffMs :: "nat \<Rightarrow> int" where
  "backoffMs attempt = min 30000 (1000 * 2 ^ attempt)"

definition keep_if_falsy :: "jstring option \<Rightarrow> jstring option \<Rightarrow> jstring option" where
  "keep_if_falsy v old = (if truthy v then v else old)" \<comment> \<open>\<open>v || undefined\<close> as a column\<close>

definition succeeded_row :: "ms \<Rightarrow> jstring option \<Rightarrow> jstring option \<Rightarrow> job_row \<Rightarrow> job_row" where
  "succeeded_row now provider messageId j =
     j\<lparr>j_payloadJson := REDACTED_PAYLOAD_JSON, j_status := Sent, j_sentAt := Some now,
       j_provider := keep_if_falsy provider (j_provider j),
       j_providerMessageId := keep_if_falsy messageId (j_providerMessageId j),
       j_lastError := None, j_failedAt := None, j_lockedAt := None, j_updatedAt := now\<rparr>"

definition markSucceeded :: "ms \<Rightarrow> db \<Rightarrow> notification_job \<Rightarrow> jstring option \<Rightarrow> jstring option \<Rightarrow> db" where
  "markSucceeded now d job provider messageId =
     d\<lparr>jobs := update_many (\<lambda>j. j_id j = nj_id job) (succeeded_row now provider messageId) (jobs d)\<rparr>"

definition terminal_attempt :: "notification_job \<Rightarrow> bool" where
  "terminal_attempt job \<longleftrightarrow> nj_attempts job + 1 \<ge> nj_maxAttempts job"

definition failed_row :: "ms \<Rightarrow> notification_job \<Rightarrow> jstring \<Rightarrow> job_row \<Rightarrow> job_row" where
  "failed_row now job message j =
     (let attempts = nj_attempts job + 1; terminal = attempts \<ge> nj_maxAttempts job
      in j\<lparr>j_payloadJson := (if terminal then REDACTED_PAYLOAD_JSON else j_payloadJson j),
           j_attempts := attempts,
           j_status := (if terminal then DeadLetter else Pending),
           j_nextRunAt := (if terminal then nj_nextRunAt job else now + backoffMs attempts),
           j_failedAt := Some now, j_lastError := Some message, j_lockedAt := None, j_updatedAt := now\<rparr>)"

text \<open>The record of the attempt is created with the update, so only when the job still exists.\<close>

definition markFailed :: "ms \<Rightarrow> db \<Rightarrow> notification_job \<Rightarrow> jstring option \<Rightarrow> db" where
  "markFailed now d job message =
     (let errorMessage = (case message of None \<Rightarrow> js ''Unknown notification error'' | Some s \<Rightarrow> s);
          mine = (\<lambda>j. j_id j = nj_id job)
      in if count_rows mine (jobs d) = 0 then d
         else d\<lparr>jobs := update_many mine (failed_row now job errorMessage) (jobs d),
                failureAttempts := create_row \<lparr>fa_notificationJobId = nj_id job,
                   fa_attemptNumber = nj_attempts job + 1, fa_terminal = terminal_attempt job,
                   fa_failedAt = now\<rparr> (failureAttempts d)\<rparr>)"

text \<open>The three database calls of a claim are separate: workers may interleave between them.\<close>

definition claim_candidate :: "db \<Rightarrow> ms \<Rightarrow> job_row option" where
  "claim_candidate d now = find_first_by j_createdAt (readyWhere now) (jobs d)"

definition claim_write :: "db \<Rightarrow> ms \<Rightarrow> jstring \<Rightarrow> nat \<times> db" where
  "claim_write d now i =
     (let claim = (\<lambda>j. j_id j = i \<and> readyWhere now j)
      in (count_rows claim (jobs d), d\<lparr>jobs := update_many claim (lock_job now) (jobs d)\<rparr>))"

definition claim_read :: "crypto \<Rightarrow> db \<Rightarrow> ms \<Rightarrow> jstring \<Rightarrow> notification_job option result \<times> db" where
  "claim_read c d now i =
     (case find_first (\<lambda>j. j_id j = i) (jobs d) of
        None \<Rightarrow> (Inl (ServerError ''P2025''), d)
      | Some locked \<Rightarrow>
          (case mapJob c locked of
             Inr job \<Rightarrow> (Inr (Some job), d)
           | Inl e \<Rightarrow> (Inr None, markFailed now d (mapUndecryptableJob locked)
                         (Some (case e of ServerError s \<Rightarrow> js s | _ \<Rightarrow> [])))))"

definition claimReadyJob :: "crypto \<Rightarrow> db \<Rightarrow> ms \<Rightarrow> notification_job option result \<times> db" where
  "claimReadyJob c d now =
     (case claim_candidate d now of
        None \<Rightarrow> (Inr None, d)
      | Some candidate \<Rightarrow>
          (case claim_write d now (j_id candidate) of (claimed, d') \<Rightarrow>
             if claimed = 0 then (Inr None, d') else claim_read c d' now (j_id candidate)))"

section \<open>Inspection\<close>

definition getQueueDepth :: "db \<Rightarrow> nat" where
  "getQueueDepth d = count_rows (\<lambda>j. j_status j = Pending \<or> j_status j = Processing) (jobs d)"

definition redactTerminalPayloads :: "ms \<Rightarrow> db \<Rightarrow> db" where
  "redactTerminalPayloads now d =
     d\<lparr>jobs := update_many (\<lambda>j. (j_status j = Sent \<or> j_status j = DeadLetter) \<and> j_payloadJson j \<noteq> REDACTED_PAYLOAD_JSON)
         (\<lambda>j. j\<lparr>j_payloadJson := REDACTED_PAYLOAD_JSON, j_updatedAt := now\<rparr>) (jobs d)\<rparr>"

definition getDeadLetterDepth :: "db \<Rightarrow> nat" where
  "getDeadLetterDepth d = count_rows (\<lambda>j. j_status j = DeadLetter) (jobs d)"

text \<open>A status that no job has is absent from the grouped result.\<close>

definition getStatusSummary :: "db \<Rightarrow> job_status \<Rightarrow> nat option" where
  "getStatusSummary d s =
     (let n = count_rows (\<lambda>j. j_status j = s) (jobs d) in if n = 0 then None else Some n)"

record oldest_pending =
  op_id :: jstring
  op_nextRunAt :: ms
  op_attempts :: nat

record last_failure =
  lf_id :: jstring
  lf_status :: job_status
  lf_failedAt :: ms
  lf_lastError :: "jstring option"

record operational_health =
  oh_generatedAt :: ms
  oh_retrying :: nat
  oh_staleProcessing :: nat
  oh_attemptFailuresLast24Hours :: nat
  oh_deadLettersLast24Hours :: nat
  oh_oldestPending :: "oldest_pending option"
  oh_lastFailure :: "last_failure option"

text \<open>The attempt's job exists: its rows are deleted with it.\<close>

definition getOperationalHealth :: "db \<Rightarrow> ms \<Rightarrow> operational_health" where
  "getOperationalHealth d now =
     (let last24Hours = now - 24 * 60 * 60 * 1000
      in \<lparr>oh_generatedAt = now,
          oh_retrying = count_rows (\<lambda>j. j_status j = Pending \<and> 0 < j_attempts j) (jobs d),
          oh_staleProcessing = count_rows (\<lambda>j. j_status j = Processing \<and> stale_lock now j) (jobs d),
          oh_attemptFailuresLast24Hours = count_rows (\<lambda>a. last24Hours \<le> fa_failedAt a) (failureAttempts d),
          oh_deadLettersLast24Hours = count_rows (\<lambda>j. j_status j = DeadLetter
             \<and> (case j_failedAt j of None \<Rightarrow> False | Some t \<Rightarrow> last24Hours \<le> t)) (jobs d),
          oh_oldestPending = map_option (\<lambda>j. \<lparr>op_id = j_id j, op_nextRunAt = j_nextRunAt j, op_attempts = j_attempts j\<rparr>)
             (find_first_by j_nextRunAt (\<lambda>j. j_status j = Pending) (jobs d)),
          oh_lastFailure =
            (case find_first_by (\<lambda>a. - fa_failedAt a) (\<lambda>a. True) (failureAttempts d) of
               None \<Rightarrow> None
             | Some a \<Rightarrow> map_option (\<lambda>j. \<lparr>lf_id = fa_notificationJobId a, lf_status = j_status j,
                   lf_failedAt = fa_failedAt a, lf_lastError = j_lastError j\<rparr>)
                 (find_first (\<lambda>j. j_id j = fa_notificationJobId a) (jobs d)))\<rparr>)"

definition listRecentJobs :: "crypto \<Rightarrow> db \<Rightarrow> nat \<Rightarrow> notification_job list" where
  "listRecentJobs c d limit =
     map (\<lambda>job. case mapJob c job of Inr j \<Rightarrow> j | Inl _ \<Rightarrow> mapUndecryptableJob job)
       (take limit (find_many_by (\<lambda>j. - j_updatedAt j) (\<lambda>j. True) (jobs d)))"

section \<open>Sealing and opening a payload\<close>

text \<open>What the source relies on: a configured key, and a cipher that opens what it sealed.\<close>

definition cipher_ok :: "crypto \<Rightarrow> bool" where
  "cipher_ok c \<longleftrightarrow> truthy (secret c) \<and>
     (\<forall>key iv text. case gcm_encrypt c key iv text of (ct, tag) \<Rightarrow> gcm_decrypt c key iv tag ct = Some text)"

lemma envelope_fields:
  defines "env i a b \<equiv> JObject [(js ''v'', JNumber 1), (js ''iv'', JString i),
     (js ''authTag'', JString a), (js ''ciphertext'', JString b)]"
  shows "json_get (env i a b) (js ''redacted'') = None" "\<not> isNotificationPayload (env i a b)"
    "isEncryptedEnvelope (env i a b)" "json_string (env i a b) (js ''iv'') = Some i"
    "json_string (env i a b) (js ''authTag'') = Some a" "json_string (env i a b) (js ''ciphertext'') = Some b"
  by (simp_all add: env_def isNotificationPayload_def isOtpPayload_def isReadinessPayload_def
      isEncryptedEnvelope_def json_string_def)

lemma decrypt_encrypt:
  assumes "cipher_ok c" and "isNotificationPayload p" and "encryptPayload c iv p = Inr text"
  shows "decryptPayload c text = Inr (Payload p)"
proof -
  obtain key ct tag where k: "encryptionKey c = Inr key" "gcm_encrypt c key iv (Json p) = (ct, tag)"
    and t: "text = Json (JObject [(js ''v'', JNumber 1), (js ''iv'', JString iv),
               (js ''authTag'', JString tag), (js ''ciphertext'', JString ct)])"
    using assms(3) by (auto simp: encryptPayload_def split: sum.splits prod.splits)
  have "gcm_decrypt c key iv tag ct = Some (Json p)"
    using assms(1) k(2) unfolding cipher_ok_def by (metis (mono_tags, lifting) case_prod_conv)
  then show ?thesis
    using assms(2) k(1) by (simp add: decryptPayload_def t envelope_fields)
qed

lemma encrypt_total:
  assumes "cipher_ok c"
  shows "\<exists>t. encryptPayload c iv p = Inr t"
proof (cases "gcm_encrypt c (key_digest c (the (secret c))) iv (Json p)")
  case (Pair ct tag)
  with assms show ?thesis by (simp add: encryptPayload_def encryptionKey_def cipher_ok_def)
qed

lemma otp_payload_ok:
  "isNotificationPayload (otp_payload phone otp)" "isNotificationPayload (readiness_payload phone body)"
  "payload_phone (Payload (otp_payload phone otp)) = phone"
  "payload_phone (Payload (readiness_payload phone body)) = phone"
  by (simp_all add: isNotificationPayload_def isOtpPayload_def isReadinessPayload_def otp_payload_def
      readiness_payload_def json_string_def payload_phone_def)


text \<open>A cipher for the witnesses: the ciphertext is the decimal number of the text.\<close>

instance json :: countable
  by countable_datatype

instance json_text :: countable
  by countable_datatype

definition sample_crypto :: crypto where
  "sample_crypto = \<lparr>secret = Some (js ''k''), key_digest = (\<lambda>s. s),
     gcm_encrypt = (\<lambda>key iv text. (dec (int (to_nat text)), [])),
     gcm_decrypt = (\<lambda>key iv tag ct. Some (from_nat (nat (digits_value ct))))\<rparr>"

lemma sample_crypto_ok: "cipher_ok sample_crypto"
  by (simp add: cipher_ok_def sample_crypto_def truthy_def digits_value_dec)


section \<open>Enqueueing is idempotent\<close>

lemma insert_job_Inr:
  "insert_job d r = Inr d' \<longleftrightarrow>
     \<not> job_conflict r (jobs d) \<and> job_references_ok d r \<and> d' = d\<lparr>jobs := create_row r (jobs d)\<rparr>"
  by (auto simp: insert_job_def)

text \<open>
  A readiness alert is queued at most once per dedupe key: after it was queued, asking
  again with the same key -- whatever the payload, vector and time -- answers that nothing was
  queued and changes nothing. The first answer is true exactly when a job was added.
\<close>

lemma readiness_alert_deduplicated:
  assumes "enqueueReadinessAlert c iv newId cid now d input = (Inr b, d')"
    and "encryptPayload c iv' (readiness_payload (ri_phone input') (ri_body input')) = Inr text"
    and "ri_dedupeKey input' = ri_dedupeKey input"
    and "\<forall>j \<in> set (jobs d). j_id j \<noteq> newId" 
  shows "enqueueReadinessAlert c iv' newId' cid' now' d' input' = (Inr False, d')
    \<and> length (jobs d') = length (jobs d) + (if b then 1 else 0)"
proof -
  from assms(1) obtain t where
    t: "encryptPayload c iv (readiness_payload (ri_phone input) (ri_body input)) = Inr t"
    by (auto simp: enqueueReadinessAlert_def split: sum.splits)
  let ?job = "new_job newId (ri_type input) t (ri_userId input) None (Some (ri_goalId input)) (ri_dedupeKey input) cid now"
  let ?job' = "new_job newId' (ri_type input') text (ri_userId input') None (Some (ri_goalId input')) (ri_dedupeKey input') cid' now'"
  consider (added) "insert_job d ?job = Inr d'" "b" | (known) "insert_job d ?job = Inl P2002" "\<not> b" "d' = d"
    using assms(1) t by (auto simp: enqueueReadinessAlert_def split: sum.splits prisma_error.splits)
  then have "(\<exists>q \<in> set (jobs d'). j_dedupeKey q = Some (ri_dedupeKey input)) \<and> length (jobs d') = length (jobs d) + (if b then 1 else 0)"
  proof cases
    case added
    then show ?thesis by (auto simp: insert_job_Inr create_row_def new_job_def)
  next
    case known
    then have "job_conflict ?job (jobs d)" by (auto simp: insert_job_def split: if_splits)
    then show ?thesis using known assms(4) by (auto simp: job_conflict_def new_job_def list_ex_iff)
  qed
  moreover from this have "insert_job d' ?job' = Inl P2002"
    using assms(3) by (auto simp: insert_job_def job_conflict_def new_job_def list_ex_iff)
  ultimately show ?thesis
    using assms(2) by (simp add: enqueueReadinessAlert_def)
qed

section \<open>Workers in parallel\<close>

text \<open>
  A claim a worker holds: the job as it was read, and when it was locked. The system is the
  database, the claims held by all workers, and the time.
\<close>

record worker_claim =
  wc_job :: notification_job
  wc_at :: ms

record queue_system =
  qs_db :: db
  qs_held :: "worker_claim list"
  qs_now :: ms

text \<open>
  One database call of one worker or publisher; the candidate of a claim may have been read
  arbitrarily long before. With \<open>timely\<close>, a worker records its outcome within
  \<open>JOB_LOCK_TIMEOUT_MS\<close> of its lock; without, it may be arbitrarily late. Claims are also
  dropped, by a cancelled delivery or a crash, and jobs deleted with their accounts.
\<close>

inductive queue_step :: "crypto \<Rightarrow> bool \<Rightarrow> queue_system \<Rightarrow> queue_system \<Rightarrow> bool" for c timely where
  time: "qs_now s \<le> t \<Longrightarrow> queue_step c timely s (s\<lparr>qs_now := t\<rparr>)"
| enqueued: "insert_job (qs_db s) (new_job i type sealed u otp goal key cid (qs_now s)) = Inr d' \<Longrightarrow>
    i \<notin> nj_id ` wc_job ` set (qs_held s) \<Longrightarrow> queue_step c timely s (s\<lparr>qs_db := d'\<rparr>)"
| adopted: "adoptLegacyOtpRequest cid (qs_now s) (qs_db s) input = (r, d') \<Longrightarrow>
    queue_step c timely s (s\<lparr>qs_db := d'\<rparr>)"
| claimed: "claim_write (qs_db s) (qs_now s) i = (n, d1) \<Longrightarrow> n \<noteq> 0 \<Longrightarrow>
    claim_read c d1 (qs_now s) i = (Inr (Some job), d') \<Longrightarrow>
    queue_step c timely s (s\<lparr>qs_db := d', qs_held := \<lparr>wc_job = job, wc_at = qs_now s\<rparr> # qs_held s\<rparr>)"
| unreadable: "claim_write (qs_db s) (qs_now s) i = (n, d1) \<Longrightarrow> n \<noteq> 0 \<Longrightarrow>
    claim_read c d1 (qs_now s) i = (Inr None, d') \<Longrightarrow> queue_step c timely s (s\<lparr>qs_db := d'\<rparr>)"
| delivered: "w \<in> set (qs_held s) \<Longrightarrow> timely \<longrightarrow> qs_now s < wc_at w + JOB_LOCK_TIMEOUT_MS \<Longrightarrow>
    queue_step c timely s (s\<lparr>qs_db := markSucceeded (qs_now s) (qs_db s) (wc_job w) provider messageId,
                             qs_held := remove1 w (qs_held s)\<rparr>)"
| failed: "w \<in> set (qs_held s) \<Longrightarrow> timely \<longrightarrow> qs_now s < wc_at w + JOB_LOCK_TIMEOUT_MS \<Longrightarrow>
    queue_step c timely s (s\<lparr>qs_db := markFailed (qs_now s) (qs_db s) (wc_job w) message,
                             qs_held := remove1 w (qs_held s)\<rparr>)"
| dropped: "w \<in> set (qs_held s) \<Longrightarrow> queue_step c timely s (s\<lparr>qs_held := remove1 w (qs_held s)\<rparr>)"
| redacted: "queue_step c timely s (s\<lparr>qs_db := redactTerminalPayloads (qs_now s) (qs_db s)\<rparr>)"
| deleted: "queue_step c timely s (s\<lparr>qs_db := (qs_db s)\<lparr>jobs := delete_many p (jobs (qs_db s))\<rparr>\<rparr>)"

section \<open>The invariant of the queue\<close>

definition terminal :: "job_row \<Rightarrow> bool" where
  "terminal j \<longleftrightarrow> j_status j = Sent \<or> j_status j = DeadLetter"

definition job_ok :: "job_row \<Rightarrow> bool" where
  "job_ok j \<longleftrightarrow> (terminal j \<longrightarrow> j_payloadJson j = REDACTED_PAYLOAD_JSON)
     \<and> j_attempts j \<le> j_maxAttempts j \<and> (\<not> terminal j \<longrightarrow> j_attempts j < j_maxAttempts j)
     \<and> (j_status j = DeadLetter \<longrightarrow> j_attempts j = j_maxAttempts j) \<and> j_status j \<noteq> Failed"

definition unique_key :: "(job_row \<Rightarrow> jstring option) \<Rightarrow> job_row list \<Rightarrow> bool" where
  "unique_key k rows \<longleftrightarrow> (\<forall>q \<in> set rows. \<forall>r \<in> set rows. k q \<noteq> None \<longrightarrow> k q = k r \<longrightarrow> j_id q = j_id r)"

definition jobs_ok :: "job_row list \<Rightarrow> bool" where
  "jobs_ok rows \<longleftrightarrow> distinct (map j_id rows) \<and> (\<forall>j \<in> set rows. job_ok j)
     \<and> unique_key j_dedupeKey rows \<and> unique_key j_otpCodeId rows"

text \<open>A held claim is younger than its row's last attempt and agrees on the limit.\<close>

definition claim_ok :: "job_row list \<Rightarrow> worker_claim \<Rightarrow> bool" where
  "claim_ok rows w \<longleftrightarrow> nj_attempts (wc_job w) < nj_maxAttempts (wc_job w)
     \<and> (\<forall>j \<in> set rows. j_id j = nj_id (wc_job w) \<longrightarrow> j_maxAttempts j = nj_maxAttempts (wc_job w))"

definition queue_ok :: "queue_system \<Rightarrow> bool" where
  "queue_ok s \<longleftrightarrow> jobs_ok (jobs (qs_db s)) \<and> (\<forall>w \<in> set (qs_held s). claim_ok (jobs (qs_db s)) w)"

lemma jobs_okD:
  assumes "jobs_ok rows"
  shows "distinct (map j_id rows)" and "\<And>j. j \<in> set rows \<Longrightarrow> job_ok j"
    and "unique_key j_dedupeKey rows" and "unique_key j_otpCodeId rows"
  using assms by (simp_all add: jobs_ok_def)

lemma in_update_cases:
  assumes "r \<in> set (update_many p f rows)"
  obtains (kept) "r \<in> set rows" "\<not> p r" | (changed) r0 where "r0 \<in> set rows" "p r0" "r = f r0"
  using assms unfolding in_set_update_many by (metis (full_types))

lemma unique_key_update:
  assumes "unique_key k rows" and "\<And>r. p r \<Longrightarrow> k (f r) = k r \<and> j_id (f r) = j_id r"
  shows "unique_key k (update_many p f rows)"
  unfolding unique_key_def
proof (intro ballI impI)
  fix q r assume q: "q \<in> set (update_many p f rows)" "r \<in> set (update_many p f rows)" "k q \<noteq> None" "k q = k r"
  have "\<exists>x0 \<in> set rows. k x = k x0 \<and> j_id x = j_id x0" if "x \<in> set (update_many p f rows)" for x
    using that by (rule in_update_cases) (use assms(2) in auto)
  then obtain q0 r0 where "q0 \<in> set rows" "k q = k q0" "j_id q = j_id q0" "r0 \<in> set rows" "k r = k r0" "j_id r = j_id r0"
    using q(1,2) by blast
  then show "j_id q = j_id r" using assms(1) q(3,4) unfolding unique_key_def by metis
qed

lemma jobs_ok_update:
  assumes "jobs_ok rows" and f: "\<And>r. p r \<Longrightarrow> j_id (f r) = j_id r \<and> j_dedupeKey (f r) = j_dedupeKey r \<and> j_otpCodeId (f r) = j_otpCodeId r"
    and "\<And>r. r \<in> set rows \<Longrightarrow> p r \<Longrightarrow> job_ok (f r)"
  shows "jobs_ok (update_many p f rows)"
  unfolding jobs_ok_def
proof (intro conjI ballI)
  have "map j_id (update_many p f rows) = map j_id rows"
    using f by (intro map_update_many) auto
  then show "distinct (map j_id (update_many p f rows))" using jobs_okD(1) [OF assms(1)] by simp
  show "job_ok j" if "j \<in> set (update_many p f rows)" for j
    using that by (rule in_update_cases) (use assms(3) jobs_okD(2) [OF assms(1)] in auto)
  show "unique_key j_dedupeKey (update_many p f rows)" "unique_key j_otpCodeId (update_many p f rows)"
    using f jobs_okD(3,4) [OF assms(1)] by (intro unique_key_update; auto)+
qed

lemma claim_ok_update:
  assumes "claim_ok rows w" and "\<And>r. p r \<Longrightarrow> j_id (f r) = j_id r \<and> j_maxAttempts (f r) = j_maxAttempts r"
  shows "claim_ok (update_many p f rows) w"
  unfolding claim_ok_def
proof (intro conjI ballI impI)
  show "nj_attempts (wc_job w) < nj_maxAttempts (wc_job w)" using assms(1) by (simp add: claim_ok_def)
  show "j_maxAttempts j = nj_maxAttempts (wc_job w)" if j: "j \<in> set (update_many p f rows)" "j_id j = nj_id (wc_job w)" for j
    using j(1) by (rule in_update_cases) (use assms j(2) in \<open>auto simp: claim_ok_def\<close>)
qed

lemma job_ok_changes:
  "job_ok r \<Longrightarrow> \<not> terminal r \<Longrightarrow> job_ok (lock_job now r)"
  "job_ok r \<Longrightarrow> job_ok (succeeded_row now provider messageId r)"
  "nj_attempts job < nj_maxAttempts job \<Longrightarrow> j_maxAttempts r = nj_maxAttempts job \<Longrightarrow> job_ok (failed_row now job message r)"
  "job_ok r \<Longrightarrow> job_ok (adopt_row input cid now r)"
  "job_ok (new_job i type t u otp goal key cid now)"
  by (auto simp: job_ok_def terminal_def lock_job_def succeeded_row_def failed_row_def Let_def adopt_row_def new_job_def)

lemma row_changes_keep [simp]:
  "j_id (lock_job now r) = j_id r" "j_dedupeKey (lock_job now r) = j_dedupeKey r"
  "j_otpCodeId (lock_job now r) = j_otpCodeId r" "j_maxAttempts (lock_job now r) = j_maxAttempts r"
  "j_id (succeeded_row now pr mi r) = j_id r" "j_dedupeKey (succeeded_row now pr mi r) = j_dedupeKey r"
  "j_otpCodeId (succeeded_row now pr mi r) = j_otpCodeId r" "j_maxAttempts (succeeded_row now pr mi r) = j_maxAttempts r"
  "j_id (failed_row now job m r) = j_id r" "j_dedupeKey (failed_row now job m r) = j_dedupeKey r"
  "j_otpCodeId (failed_row now job m r) = j_otpCodeId r" "j_maxAttempts (failed_row now job m r) = j_maxAttempts r"
  "j_id (adopt_row input cid now r) = j_id r" "j_maxAttempts (adopt_row input cid now r) = j_maxAttempts r"
  "j_dedupeKey (adopt_row input cid now r) = Some (li_dedupeKey input)"
  "j_otpCodeId (adopt_row input cid now r) = Some (li_otpCodeId input)"
  by (simp_all add: lock_job_def succeeded_row_def failed_row_def Let_def adopt_row_def)

lemma readyWhere_not_terminal: "readyWhere now j \<Longrightarrow> \<not> terminal j"
  by (auto simp: readyWhere_def terminal_def)

section \<open>Every call keeps the invariant\<close>

lemma jobs_markFailed:
  "jobs (markFailed now d job m) = update_many (\<lambda>j. j_id j = nj_id job)
     (failed_row now job (case m of None \<Rightarrow> js ''Unknown notification error'' | Some s \<Rightarrow> s)) (jobs d)"
  by (auto simp: markFailed_def Let_def count_rows_0 update_many_none)

lemma mapJobMetadata_fields [simp]:
  "nj_id (mapJobMetadata j p) = j_id j" "nj_attempts (mapJobMetadata j p) = j_attempts j"
  "nj_maxAttempts (mapJobMetadata j p) = j_maxAttempts j" "nj_payload (mapJobMetadata j p) = p"
  "nj_userId (mapJobMetadata j p) = j_userId j"
  by (simp_all add: mapJobMetadata_def)

lemma claim_read_Some:
  assumes "claim_read c d now i = (Inr (Some job), d')"
  obtains locked p where "d' = d" "locked \<in> set (jobs d)" "j_id locked = i" "job = mapJobMetadata locked p"
    "decryptPayload c (j_payloadJson locked) = Inr p"
  using assms unfolding claim_read_def mapJob_def
  by (auto split: option.splits sum.splits http_error.splits dest: find_first_Some)

lemma claim_read_None:
  assumes "claim_read c d now i = (Inr None, d')"
  obtains locked m where "locked \<in> set (jobs d)" "j_id locked = i"
    "d' = markFailed now d (mapUndecryptableJob locked) m"
  using assms unfolding claim_read_def
  by (auto split: option.splits sum.splits dest: find_first_Some)

lemma jobs_ok_lock:
  "jobs_ok rows \<Longrightarrow> jobs_ok (update_many (\<lambda>j. j_id j = i \<and> readyWhere now j) (lock_job now) rows)"
  using readyWhere_not_terminal job_ok_changes(1) jobs_okD(2) by (intro jobs_ok_update) auto

lemma jobs_ok_failed:
  assumes "jobs_ok rows" and "nj_attempts job < nj_maxAttempts job"
    and "\<forall>j \<in> set rows. j_id j = nj_id job \<longrightarrow> j_maxAttempts j = nj_maxAttempts job"
  shows "jobs_ok (update_many (\<lambda>j. j_id j = nj_id job) (failed_row now job m) rows)"
  using assms job_ok_changes(3) by (intro jobs_ok_update) auto

lemma locked_job:
  assumes "claim_write d now i = (n, d1)" and "n \<noteq> 0" and "distinct (map j_id (jobs d))"
    and "locked \<in> set (jobs d1)" and "j_id locked = i"
  obtains r where "r \<in> set (jobs d)" "j_id r = i" "readyWhere now r" "locked = lock_job now r"
proof -
  have d1: "jobs d1 = update_many (\<lambda>j. j_id j = i \<and> readyWhere now j) (lock_job now) (jobs d)"
    and "count_rows (\<lambda>j. j_id j = i \<and> readyWhere now j) (jobs d) \<noteq> 0"
    using assms(1,2) by (auto simp: claim_write_def Let_def)
  then obtain r where r: "r \<in> set (jobs d)" "j_id r = i" "readyWhere now r"
    by (auto simp: count_rows_0)
  have "locked = lock_job now r"
    using assms(4) unfolding d1
  proof (rule in_update_cases)
    assume "locked \<in> set (jobs d)" "\<not> (j_id locked = i \<and> readyWhere now locked)"
    then show ?thesis using r assms(5) row_by_id [OF assms(3), of locked r] by auto
  next
    fix r0 assume "r0 \<in> set (jobs d)" "j_id r0 = i \<and> readyWhere now r0" "locked = lock_job now r0"
    then show ?thesis using r row_by_id [OF assms(3), of r0 r] by auto
  qed
  with r that show ?thesis by blast
qed

lemma jobs_claim_write:
  "claim_write d now i = (n, d1) \<Longrightarrow>
   jobs d1 = update_many (\<lambda>j. j_id j = i \<and> readyWhere now j) (lock_job now) (jobs d)"
  by (auto simp: claim_write_def Let_def)

lemma adopt_jobs:
  assumes "adoptLegacyOtpRequest cid now d input = (r, d')"
  obtains (same) "d' = d"
  | (adopted) legacy where "legacy \<in> set (jobs d)"
      "\<not> job_conflict (adopt_row input cid now legacy) (filter (\<lambda>j. j_id j \<noteq> j_id legacy) (jobs d))"
      "d' = d\<lparr>jobs := update_many (\<lambda>j. j_id j = j_id legacy \<and> adoptable input j) (adopt_row input cid now) (jobs d)\<rparr>"
proof (cases "find_first_by j_createdAt (\<lambda>j. adoptable input j
             \<and> li_requestedAt input \<le> j_createdAt j \<and> j_createdAt j \<le> li_expiresAt input) (jobs d)")
  case None
  then show ?thesis using assms by (intro same) (simp add: adoptLegacyOtpRequest_def)
next
  case (Some legacy)
  note l = find_first_by_Some(1) [OF Some]
  show ?thesis
  proof (cases "d' = d")
    case False
    have "\<not> job_conflict (adopt_row input cid now legacy) (filter (\<lambda>j. j_id j \<noteq> j_id legacy) (jobs d))
      \<and> d' = d\<lparr>jobs := update_many (\<lambda>j. j_id j = j_id legacy \<and> adoptable input j) (adopt_row input cid now) (jobs d)\<rparr>"
      using assms False unfolding adoptLegacyOtpRequest_def Some Let_def option.case
      by (simp only: prod.inject split: if_split_asm) blast+
    then show ?thesis using adopted [OF l] by blast
  qed (rule same)
qed

lemma unique_key_adopt:
  assumes "unique_key k rows" and "distinct (map j_id rows)"
    and new: "\<And>r. p r \<Longrightarrow> j_id r = i \<and> j_id (f r) = i \<and> k (f r) = v"
    and free: "\<And>q. q \<in> set rows \<Longrightarrow> j_id q \<noteq> i \<Longrightarrow> k q \<noteq> v"
  shows "unique_key k (update_many p f rows)"
  unfolding unique_key_def
proof (intro ballI impI)
  fix q r assume q: "q \<in> set (update_many p f rows)" "r \<in> set (update_many p f rows)" "k q \<noteq> None" "k q = k r"
  have kept: "(x \<in> set rows) \<or> (j_id x = i \<and> k x = v)" if "x \<in> set (update_many p f rows)" for x
    using that by (rule in_update_cases) (use new in auto)
  show "j_id q = j_id r"
    using kept [OF q(1)] kept [OF q(2)] q(3,4) assms(1) free unfolding unique_key_def by metis
qed

lemma jobs_ok_adopt:
  assumes "adoptLegacyOtpRequest cid now d input = (r, d')" and "jobs_ok (jobs d)"
  shows "jobs_ok (jobs d')"
  using assms(1)
proof (rule adopt_jobs)
  fix legacy
  let ?row = "adopt_row input cid now legacy" and ?p = "\<lambda>j. j_id j = j_id legacy \<and> adoptable input j"
  assume c: "\<not> job_conflict ?row (filter (\<lambda>j. j_id j \<noteq> j_id legacy) (jobs d))"
    and d': "d' = d\<lparr>jobs := update_many ?p (adopt_row input cid now) (jobs d)\<rparr>"
  have free: "j_dedupeKey q \<noteq> Some (li_dedupeKey input) \<and> j_otpCodeId q \<noteq> Some (li_otpCodeId input)"
    if "q \<in> set (jobs d)" "j_id q \<noteq> j_id legacy" for q
    using c that by (auto simp: job_conflict_def list_ex_iff)
  show ?thesis
    unfolding jobs_ok_def d'
  proof (intro conjI ballI; simp)
    have "map j_id (update_many ?p (adopt_row input cid now) (jobs d)) = map j_id (jobs d)"
      by (intro map_update_many) auto
    then show "distinct (map j_id (update_many ?p (adopt_row input cid now) (jobs d)))"
      using jobs_okD(1) [OF assms(2)] by simp
    show "job_ok j" if "j \<in> set (update_many ?p (adopt_row input cid now) (jobs d))" for j
      using that by (rule in_update_cases) (use jobs_okD(2) [OF assms(2)] job_ok_changes(4) in auto)
    show "unique_key j_dedupeKey (update_many ?p (adopt_row input cid now) (jobs d))"
      using jobs_okD(1,3) [OF assms(2)] free
      by (intro unique_key_adopt [where i = "j_id legacy" and v = "Some (li_dedupeKey input)"]) auto
    show "unique_key j_otpCodeId (update_many ?p (adopt_row input cid now) (jobs d))"
      using jobs_okD(1,4) [OF assms(2)] free
      by (intro unique_key_adopt [where i = "j_id legacy" and v = "Some (li_otpCodeId input)"]) auto
  qed
qed (use assms(2) in simp)

lemma unique_key_subset: "unique_key k rows \<Longrightarrow> set rows' \<subseteq> set rows \<Longrightarrow> unique_key k rows'"
  unfolding unique_key_def by blast

lemma unique_key_create:
  assumes "unique_key k rows" and "k r = None \<or> (\<forall>q \<in> set rows. k q \<noteq> k r)"
  shows "unique_key k (create_row r rows)"
  unfolding unique_key_def set_create_row
proof (intro ballI impI)
  fix q q' assume "q \<in> insert r (set rows)" "q' \<in> insert r (set rows)" "k q \<noteq> None" "k q = k q'"
  then show "j_id q = j_id q'"
    using assms(1) [unfolded unique_key_def, rule_format, of q q'] assms(2) by (cases "q = r"; cases "q' = r") auto
qed

lemma jobs_ok_create:
  assumes "jobs_ok rows" and "\<not> job_conflict r rows" and "job_ok r"
  shows "jobs_ok (create_row r rows)"
proof -
  have free: "\<forall>q \<in> set rows. j_id q \<noteq> j_id r" "j_otpCodeId r = None \<or> (\<forall>q \<in> set rows. j_otpCodeId q \<noteq> j_otpCodeId r)"
    "j_dedupeKey r = None \<or> (\<forall>q \<in> set rows. j_dedupeKey q \<noteq> j_dedupeKey r)"
    using assms(2) unfolding job_conflict_def list_ex_iff by blast+
  have "distinct (map j_id (create_row r rows))"
    using jobs_okD(1) [OF assms(1)] free(1) unfolding create_row_def by (auto simp: image_iff)
  moreover have "job_ok j" if "j \<in> set (create_row r rows)" for j
    using that jobs_okD(2) [OF assms(1)] assms(3) by (auto simp: set_create_row)
  ultimately show ?thesis
    using unique_key_create [OF jobs_okD(3) [OF assms(1)] free(3)]
      unique_key_create [OF jobs_okD(4) [OF assms(1)] free(2)] by (simp add: jobs_ok_def)
qed

lemma jobs_ok_delete:
  assumes "jobs_ok rows"
  shows "jobs_ok (delete_many p rows)"
proof -
  have sub: "set (delete_many p rows) \<subseteq> set rows" by (auto simp: set_delete_many)
  have "distinct (map j_id (delete_many p rows))"
    using jobs_okD(1) [OF assms] by (simp add: delete_many_def distinct_map_filter)
  moreover have "\<forall>j \<in> set (delete_many p rows). job_ok j" using jobs_okD(2) [OF assms] sub by blast
  ultimately show ?thesis
    using unique_key_subset [OF jobs_okD(3) [OF assms] sub] unique_key_subset [OF jobs_okD(4) [OF assms] sub]
    by (simp add: jobs_ok_def)
qed

lemma claim_ok_subset: "claim_ok rows w \<Longrightarrow> set rows' \<subseteq> set rows \<Longrightarrow> claim_ok rows' w"
  unfolding claim_ok_def by blast

lemma jobs_finish:
  "jobs (markSucceeded now d job pr mi) = update_many (\<lambda>j. j_id j = nj_id job) (succeeded_row now pr mi) (jobs d)"
  by (simp add: markSucceeded_def)

lemma job_ok_redact:
  "job_ok r \<Longrightarrow> job_ok (r\<lparr>j_payloadJson := REDACTED_PAYLOAD_JSON, j_updatedAt := now\<rparr>)"
  by (simp add: job_ok_def terminal_def)

lemma claimed_ok:
  assumes w: "claim_write d now i = (n, d1)" and r: "claim_read c d1 now i = (Inr (Some job), d')"
    and n: "n \<noteq> 0" and ok: "jobs_ok (jobs d)"
  shows "jobs d' = update_many (\<lambda>j. j_id j = i \<and> readyWhere now j) (lock_job now) (jobs d)"
    and "claim_ok (jobs d') \<lparr>wc_job = job, wc_at = now\<rparr>" and "nj_id job = i"
proof -
  note d1 = jobs_claim_write [OF w]
  from r obtain locked p where l: "d' = d1" "locked \<in> set (jobs d1)" "j_id locked = i" "job = mapJobMetadata locked p"
    by (rule claim_read_Some)
  then show "jobs d' = update_many (\<lambda>j. j_id j = i \<and> readyWhere now j) (lock_job now) (jobs d)" "nj_id job = i"
    using d1 by simp_all
  have ok1: "jobs_ok (jobs d1)" unfolding d1 using ok by (rule jobs_ok_lock)
  obtain r0 where "r0 \<in> set (jobs d)" "readyWhere now r0" "locked = lock_job now r0"
    using locked_job [OF w n jobs_okD(1) [OF ok] l(2,3)] by blast
  then have "j_attempts locked < j_maxAttempts locked"
    using jobs_okD(2) [OF ok] readyWhere_not_terminal by (auto simp: job_ok_def lock_job_def)
  then show "claim_ok (jobs d') \<lparr>wc_job = job, wc_at = now\<rparr>"
    using l row_by_id [OF jobs_okD(1) [OF ok1]] by (auto simp: claim_ok_def)
qed

lemma unreadable_ok:
  assumes w: "claim_write d now i = (n, d1)" and r: "claim_read c d1 now i = (Inr None, d')"
    and n: "n \<noteq> 0" and ok: "jobs_ok (jobs d)"
  obtains job m where "nj_id job = i"
    "jobs d' = update_many (\<lambda>j. j_id j = i) (failed_row now job m)
        (update_many (\<lambda>j. j_id j = i \<and> readyWhere now j) (lock_job now) (jobs d))"
    "jobs_ok (jobs d')"
proof -
  note d1 = jobs_claim_write [OF w]
  have ok1: "jobs_ok (jobs d1)" unfolding d1 using ok by (rule jobs_ok_lock)
  from r obtain locked m where l: "locked \<in> set (jobs d1)" "j_id locked = i"
    "d' = markFailed now d1 (mapUndecryptableJob locked) m" by (rule claim_read_None)
  obtain r0 where "r0 \<in> set (jobs d)" "readyWhere now r0" "locked = lock_job now r0"
    using locked_job [OF w n jobs_okD(1) [OF ok] l(1,2)] by blast
  then have att: "nj_attempts (mapUndecryptableJob locked) < nj_maxAttempts (mapUndecryptableJob locked)"
    using jobs_okD(2) [OF ok] readyWhere_not_terminal by (auto simp: job_ok_def lock_job_def mapUndecryptableJob_def)
  have "\<forall>j \<in> set (jobs d1). j_id j = nj_id (mapUndecryptableJob locked) \<longrightarrow>
      j_maxAttempts j = nj_maxAttempts (mapUndecryptableJob locked)"
    using row_by_id [OF jobs_okD(1) [OF ok1] _ l(1)] by (auto simp: mapUndecryptableJob_def)
  from jobs_ok_failed [OF ok1 att this]
  show ?thesis
    using l by (intro that [of "mapUndecryptableJob locked"]) (auto simp: jobs_markFailed d1 mapUndecryptableJob_def)
qed

lemma jobs_ok_redact:
  assumes "jobs_ok (jobs d)"
  shows "jobs_ok (jobs (redactTerminalPayloads now d))"
proof -
  have "jobs_ok (update_many (\<lambda>j. (j_status j = Sent \<or> j_status j = DeadLetter) \<and> j_payloadJson j \<noteq> REDACTED_PAYLOAD_JSON)
      (\<lambda>j. j\<lparr>j_payloadJson := REDACTED_PAYLOAD_JSON, j_updatedAt := now\<rparr>) (jobs d))"
  proof (rule jobs_ok_update [OF assms])
    fix r assume "r \<in> set (jobs d)"
    then show "job_ok (r\<lparr>j_payloadJson := REDACTED_PAYLOAD_JSON, j_updatedAt := now\<rparr>)"
      by (rule job_ok_redact [OF jobs_okD(2) [OF assms]])
  qed simp
  then show ?thesis by (simp add: redactTerminalPayloads_def)
qed

lemma claim_ok_redact:
  assumes "claim_ok (jobs d) w"
  shows "claim_ok (jobs (redactTerminalPayloads now d)) w"
proof -
  have "claim_ok (update_many (\<lambda>j. (j_status j = Sent \<or> j_status j = DeadLetter) \<and> j_payloadJson j \<noteq> REDACTED_PAYLOAD_JSON)
      (\<lambda>j. j\<lparr>j_payloadJson := REDACTED_PAYLOAD_JSON, j_updatedAt := now\<rparr>) (jobs d)) w"
    by (rule claim_ok_update [OF assms]) simp
  then show ?thesis by (simp add: redactTerminalPayloads_def)
qed

lemma queue_step_ok:
  assumes "queue_step c timely s s'" and "queue_ok s"
  shows "queue_ok s'"
  using assms
proof (induction rule: queue_step.induct)
  case (time s t)
  then show ?case by (simp add: queue_ok_def)
next
  case (enqueued s i type sealed u otp goal key cid d')
  let ?r = "new_job i type sealed u otp goal key cid (qs_now s)"
  have r: "\<not> job_conflict ?r (jobs (qs_db s))" "jobs d' = create_row ?r (jobs (qs_db s))"
    using enqueued(1) by (auto simp: insert_job_Inr)
  have "claim_ok (jobs d') w" if "w \<in> set (qs_held s)" for w
    using that enqueued(2,3) unfolding queue_ok_def r(2) claim_ok_def by (auto simp: set_create_row new_job_def)
  then show ?case
    using enqueued(3) jobs_ok_create [OF _ r(1) job_ok_changes(5)] r(2) by (simp add: queue_ok_def)
next
  case (adopted cid s input r d')
  have "claim_ok (jobs d') w" if "w \<in> set (qs_held s)" for w
    using adopted(1)
  proof (rule adopt_jobs)
    fix legacy
    assume "d' = (qs_db s)\<lparr>jobs := update_many (\<lambda>j. j_id j = j_id legacy \<and> adoptable input j)
        (adopt_row input cid (qs_now s)) (jobs (qs_db s))\<rparr>"
    then show ?thesis using that adopted(2) by (auto simp: queue_ok_def intro: claim_ok_update)
  qed (use that adopted(2) in \<open>simp add: queue_ok_def\<close>)
  then show ?case using adopted(2) jobs_ok_adopt [OF adopted(1)] by (simp add: queue_ok_def)
next
  case (claimed s i n d1 job d')
  have ok: "jobs_ok (jobs (qs_db s))" using claimed(4) by (simp add: queue_ok_def)
  note c = claimed_ok [OF claimed(1,3,2) ok]
  have "claim_ok (jobs d') w" if "w \<in> set (qs_held s)" for w
    unfolding c(1) using that claimed(4) by (intro claim_ok_update) (auto simp: queue_ok_def)
  then show ?case using c(1,2) jobs_ok_lock [OF ok] by (simp add: queue_ok_def)
next
  case (unreadable s i n d1 d')
  have ok: "jobs_ok (jobs (qs_db s))" using unreadable(4) by (simp add: queue_ok_def)
  from unreadable_ok [OF unreadable(1,3,2) ok] obtain job m where
    d': "jobs d' = update_many (\<lambda>j. j_id j = i) (failed_row (qs_now s) job m)
        (update_many (\<lambda>j. j_id j = i \<and> readyWhere (qs_now s) j) (lock_job (qs_now s)) (jobs (qs_db s)))"
    "jobs_ok (jobs d')" .
  have "claim_ok (jobs d') w" if "w \<in> set (qs_held s)" for w
    unfolding d'(1) using that unreadable(4) by (intro claim_ok_update) (auto simp: queue_ok_def)
  then show ?case using d'(2) by (simp add: queue_ok_def)
next
  case (delivered w s provider messageId)
  have "jobs_ok (jobs (markSucceeded (qs_now s) (qs_db s) (wc_job w) provider messageId))"
    unfolding jobs_finish using delivered(3) jobs_okD(2) job_ok_changes(2)
    by (intro jobs_ok_update) (auto simp: queue_ok_def)
  moreover have "claim_ok (jobs (markSucceeded (qs_now s) (qs_db s) (wc_job w) provider messageId)) v"
    if "v \<in> set (remove1 w (qs_held s))" for v
    unfolding jobs_finish using notin_set_remove1 that delivered(3)
    by (intro claim_ok_update) (auto simp: queue_ok_def dest: set_remove1_subset [THEN subsetD])
  ultimately show ?case by (simp add: queue_ok_def)
next
  case (failed w s message)
  have w: "claim_ok (jobs (qs_db s)) w" using failed(1,3) by (simp add: queue_ok_def)
  have "jobs_ok (jobs (markFailed (qs_now s) (qs_db s) (wc_job w) message))"
    unfolding jobs_markFailed using failed(3) w by (intro jobs_ok_failed) (auto simp: queue_ok_def claim_ok_def)
  moreover have "claim_ok (jobs (markFailed (qs_now s) (qs_db s) (wc_job w) message)) v"
    if "v \<in> set (remove1 w (qs_held s))" for v
    unfolding jobs_markFailed using that failed(3)
    by (intro claim_ok_update) (auto simp: queue_ok_def dest: set_remove1_subset [THEN subsetD])
  ultimately show ?case by (simp add: queue_ok_def)
next
  case (dropped w s)
  then show ?case by (auto simp: queue_ok_def dest: set_remove1_subset [THEN subsetD])
next
  case (redacted s)
  have "jobs_ok (jobs (redactTerminalPayloads (qs_now s) (qs_db s)))"
    using redacted by (intro jobs_ok_redact) (simp add: queue_ok_def)
  moreover have "claim_ok (jobs (redactTerminalPayloads (qs_now s) (qs_db s))) w" if "w \<in> set (qs_held s)" for w
    using that redacted by (intro claim_ok_redact) (simp add: queue_ok_def)
  ultimately show ?case by (simp add: queue_ok_def)
next
  case (deleted s p)
  have "claim_ok (delete_many p (jobs (qs_db s))) w" if "w \<in> set (qs_held s)" for w
    by (rule claim_ok_subset [of "jobs (qs_db s)"])
      (use that deleted in \<open>simp add: queue_ok_def\<close>, simp add: set_delete_many Collect_restrict)
  moreover have "jobs_ok (delete_many p (jobs (qs_db s)))"
    by (rule jobs_ok_delete) (use deleted in \<open>simp add: queue_ok_def\<close>)
  ultimately show ?case by (simp add: queue_ok_def)
qed

lemma distinct_keys:
  assumes "unique_key k rows" and "distinct (map j_id rows)"
  shows "distinct (List.map_filter k rows)"
  using assms
proof (induction rows)
  case (Cons r rows)
  have "unique_key k rows" using Cons.prems(1) by (rule unique_key_subset) auto
  then have "distinct (List.map_filter k rows)" using Cons by simp
  moreover have "v \<notin> set (List.map_filter k rows)" if "k r = Some v" for v
  proof
    assume "v \<in> set (List.map_filter k rows)"
    then obtain q where q: "q \<in> set rows" "k q = Some v" by (auto simp: List.map_filter_def)
    then have "j_id r = j_id q" using Cons.prems(1) that unfolding unique_key_def by (metis list.set_intros option.distinct(1))
    then show False using Cons.prems(2) q(1) by (auto simp: image_iff)
  qed
  ultimately show ?case by (auto simp: List.map_filter_simps split: option.splits)
qed simp

definition empty_queue :: "db \<Rightarrow> queue_system \<Rightarrow> bool" where
  "empty_queue d s \<longleftrightarrow> qs_db s = d\<lparr>jobs := []\<rparr> \<and> qs_held s = []"

lemma reachable_queue_ok:
  assumes "(queue_step c timely)\<^sup>*\<^sup>* s s'" and "empty_queue d s"
  shows "queue_ok s'"
  using assms(1)
proof (induction rule: rtranclp_induct)
  case base
  then show ?case using assms(2) by (simp add: empty_queue_def queue_ok_def jobs_ok_def unique_key_def)
qed (rule queue_step_ok)


section \<open>Timely workers\<close>

definition live :: "queue_system \<Rightarrow> worker_claim \<Rightarrow> bool" where
  "live s w \<longleftrightarrow> qs_now s < wc_at w + JOB_LOCK_TIMEOUT_MS"

text \<open>The row of a live claim is as the claim left it, and no other live claim is on it.\<close>

definition holds_lock :: "job_row list \<Rightarrow> worker_claim \<Rightarrow> bool" where
  "holds_lock rows w \<longleftrightarrow> (\<forall>j \<in> set rows. j_id j = nj_id (wc_job w) \<longrightarrow>
     j_status j = Processing \<and> j_lockedAt j = Some (wc_at w) \<and> j_attempts j = nj_attempts (wc_job w))"

definition held_ids :: "queue_system \<Rightarrow> jstring list" where
  "held_ids s = map (\<lambda>w. nj_id (wc_job w)) (filter (live s) (qs_held s))"

definition exclusive :: "queue_system \<Rightarrow> bool" where
  "exclusive s \<longleftrightarrow> queue_ok s \<and> distinct (held_ids s)
     \<and> (\<forall>w \<in> set (qs_held s). live s w \<longrightarrow> holds_lock (jobs (qs_db s)) w \<and> wc_at w \<le> qs_now s)"

text \<open>A claim lasts until its lock is stale.\<close>

interpretation job_claim: claim_once j_id readyWhere lock_job "\<lambda>t t'. t' < t + JOB_LOCK_TIMEOUT_MS"
  by unfold_locales (auto simp: readyWhere_def lock_job_def stale_lock_def)

text \<open>
  Of two workers that try to lock the same job less than \<open>JOB_LOCK_TIMEOUT_MS\<close> apart, the
  second one fails: its conditional write counts no row and changes nothing.
\<close>

lemma claim_exclusive:
  assumes "distinct (map j_id (jobs d))" and "claim_write d t i = (n, d')" and "n \<noteq> 0"
    and "t' < t + JOB_LOCK_TIMEOUT_MS"
  shows "claim_write d' t' i = (0, d')"
proof -
  have "count_rows (\<lambda>r. j_id r = i \<and> readyWhere t r) (jobs d) \<noteq> 0" using assms(2,3) by (simp add: claim_write_def Let_def)
  from job_claim.second_claim_fails [OF assms(1) this assms(4)]
  have zero: "count_rows (\<lambda>r. j_id r = i \<and> readyWhere t' r) (jobs d') = 0"
    using jobs_claim_write [OF assms(2)] by simp
  then have "update_many (\<lambda>r. j_id r = i \<and> readyWhere t' r) (lock_job t') (jobs d') = jobs d'"
    by (intro update_many_none) (auto simp: count_rows_0)
  with zero show ?thesis by (simp add: claim_write_def Let_def)
qed

lemma holds_lock_keep:
  assumes "holds_lock rows w" and "\<And>r. p r \<Longrightarrow> j_id (f r) = j_id r \<and> j_status (f r) = j_status r
      \<and> j_lockedAt (f r) = j_lockedAt r \<and> j_attempts (f r) = j_attempts r"
  shows "holds_lock (update_many p f rows) w"
  unfolding holds_lock_def
proof (intro ballI impI)
  fix j assume j: "j \<in> set (update_many p f rows)" "j_id j = nj_id (wc_job w)"
  from j(1) show "j_status j = Processing \<and> j_lockedAt j = Some (wc_at w) \<and> j_attempts j = nj_attempts (wc_job w)"
    by (rule in_update_cases) (use assms j(2) in \<open>auto simp: holds_lock_def\<close>)
qed

lemma holds_lock_subset: "holds_lock rows w \<Longrightarrow> set rows' \<subseteq> set rows \<Longrightarrow> holds_lock rows' w"
  unfolding holds_lock_def by blast

lemma holds_lock_update:
  assumes "holds_lock rows w" and "\<And>r. j_id (f r) = j_id r" and "\<And>r. r \<in> set rows \<Longrightarrow> p r \<Longrightarrow> j_id r \<noteq> nj_id (wc_job w)"
  shows "holds_lock (update_many p f rows) w"
  unfolding holds_lock_def
proof (intro ballI impI)
  fix j assume j: "j \<in> set (update_many p f rows)" "j_id j = nj_id (wc_job w)"
  from j(1) have "j \<in> set rows"
    by (rule in_update_cases) (use assms(2,3) j(2) in auto)
  then show "j_status j = Processing \<and> j_lockedAt j = Some (wc_at w) \<and> j_attempts j = nj_attempts (wc_job w)"
    using assms(1) j(2) by (simp add: holds_lock_def)
qed

lemma live_not_ready:
  assumes "holds_lock rows w" and "now < wc_at w + JOB_LOCK_TIMEOUT_MS"
    and "r \<in> set rows" and "readyWhere now r"
  shows "j_id r \<noteq> nj_id (wc_job w)"
  using assms by (auto simp: holds_lock_def readyWhere_def stale_lock_def)

lemma held_ids_subset:
  "distinct (map g (filter p xs)) \<Longrightarrow> distinct (map g (filter p (remove1 w xs)))"
proof (induction xs)
  case (Cons x xs)
  have "set (filter p (remove1 w xs)) \<subseteq> set (filter p xs)" using set_remove1_subset [of w xs] by auto
  with Cons show ?case by (auto simp: image_iff split: if_splits)
qed simp

lemma remove1_other:
  assumes "distinct (map g (filter p xs))" and "w \<in> set xs" "p w" and "v \<in> set (remove1 w xs)" "p v"
  shows "g v \<noteq> g w"
  using assms
proof (induction xs)
  case (Cons x xs)
  show ?case
  proof (cases "x = w")
    case True
    then show ?thesis using Cons.prems by (auto simp: image_iff)
  next
    case False
    then show ?thesis using Cons set_remove1_subset [of w xs] by (auto simp: image_iff split: if_splits)
  qed
qed simp


lemma exclusiveD:
  assumes "exclusive s"
  shows "queue_ok s" and "distinct (held_ids s)"
    and "\<And>w. w \<in> set (qs_held s) \<Longrightarrow> live s w \<Longrightarrow> holds_lock (jobs (qs_db s)) w \<and> wc_at w \<le> qs_now s"
  using assms by (simp_all add: exclusive_def)

lemma exclusiveI:
  assumes "queue_ok s" "distinct (held_ids s)"
    "\<And>w. w \<in> set (qs_held s) \<Longrightarrow> live s w \<Longrightarrow> holds_lock (jobs (qs_db s)) w \<and> wc_at w \<le> qs_now s"
  shows "exclusive s"
  using assms by (simp add: exclusive_def)

text \<open>A live claim is not on a row that another claim may take.\<close>

lemma live_other_row:
  assumes "exclusive s" and "v \<in> set (qs_held s)" "live s v" and "r \<in> set (jobs (qs_db s))" "readyWhere (qs_now s) r"
  shows "j_id r \<noteq> nj_id (wc_job v)"
proof (rule live_not_ready [OF _ _ assms(4,5)])
  show "holds_lock (jobs (qs_db s)) v" using exclusiveD(3) [OF assms(1-3)] by simp
  show "qs_now s < wc_at v + JOB_LOCK_TIMEOUT_MS" using assms(3) by (simp add: live_def)
qed

lemma ready_row:
  assumes "claim_write d now i = (n, d1)" and "n \<noteq> 0"
  obtains r where "r \<in> set (jobs d)" "j_id r = i" "readyWhere now r"
proof -
  from assms have "count_rows (\<lambda>j. j_id j = i \<and> readyWhere now j) (jobs d) \<noteq> 0" by (auto simp: claim_write_def Let_def)
  then show ?thesis using that unfolding count_rows_0 by blast
qed

lemma holds_after_claim:
  assumes "exclusive s" and "claim_write (qs_db s) (qs_now s) i = (n, d1)" and "v \<in> set (qs_held s)" "live s v"
  shows "holds_lock (jobs d1) v"
  unfolding jobs_claim_write [OF assms(2)]
proof (rule holds_lock_update)
  show "holds_lock (jobs (qs_db s)) v" using exclusiveD(3) [OF assms(1,3,4)] by simp
qed (use live_other_row [OF assms(1,3,4)] in auto)

lemma claimed_holds:
  assumes w: "claim_write d now i = (n, d1)" and r: "claim_read c d1 now i = (Inr (Some job), d')"
    and n: "n \<noteq> 0" and ok: "jobs_ok (jobs d)"
  shows "d' = d1" and "holds_lock (jobs d') \<lparr>wc_job = job, wc_at = now\<rparr>"
proof -
  from r obtain locked p where l: "d' = d1" "locked \<in> set (jobs d1)" "j_id locked = i" "job = mapJobMetadata locked p"
    by (rule claim_read_Some)
  have "jobs_ok (jobs d1)" unfolding jobs_claim_write [OF w] using ok by (rule jobs_ok_lock)
  then have only: "\<And>j. j \<in> set (jobs d1) \<Longrightarrow> j_id j = i \<Longrightarrow> j = locked"
    using row_by_id [OF jobs_okD(1)] l(2,3) by metis
  obtain r0 where "locked = lock_job now r0"
    using locked_job [OF w n jobs_okD(1) [OF ok] l(2,3)] by blast
  then have "j_status locked = Processing" "j_lockedAt locked = Some now" by (simp_all add: lock_job_def)
  then show "holds_lock (jobs d') \<lparr>wc_job = job, wc_at = now\<rparr>"
    unfolding holds_lock_def using only l(1,3,4) by auto
  show "d' = d1" by (rule l(1))
qed

lemma exclusive_same_held:
  assumes "exclusive s" and "queue_ok s'" and "qs_now s' = qs_now s" "qs_held s' = qs_held s"
    and "\<And>v. v \<in> set (qs_held s) \<Longrightarrow> live s v \<Longrightarrow> holds_lock (jobs (qs_db s)) v \<Longrightarrow> holds_lock (jobs (qs_db s')) v"
  shows "exclusive s'"
proof (rule exclusiveI [OF assms(2)])
  have l: "live s' = live s" using assms(3) by (simp add: live_def fun_eq_iff)
  show "distinct (held_ids s')" using exclusiveD(2) [OF assms(1)] assms(4) by (simp add: held_ids_def l)
  show "holds_lock (jobs (qs_db s')) w \<and> wc_at w \<le> qs_now s'" if "w \<in> set (qs_held s')" "live s' w" for w
    using exclusiveD(3) [OF assms(1), of w] assms(3,4) assms(5) [of w] that by (simp add: l)
qed

lemma exclusive_remove:
  assumes "exclusive s" and "queue_ok s'" and "qs_now s' = qs_now s" "qs_held s' = remove1 w (qs_held s)"
    and "\<And>v. v \<in> set (remove1 w (qs_held s)) \<Longrightarrow> live s v \<Longrightarrow> holds_lock (jobs (qs_db s)) v \<Longrightarrow> holds_lock (jobs (qs_db s')) v"
  shows "exclusive s'"
proof (rule exclusiveI [OF assms(2)])
  have l: "live s' = live s" using assms(3) by (simp add: live_def fun_eq_iff)
  show "distinct (held_ids s')"
    using held_ids_subset exclusiveD(2) [OF assms(1)] assms(4) unfolding held_ids_def l by fastforce
  show "holds_lock (jobs (qs_db s')) v \<and> wc_at v \<le> qs_now s'" if v: "v \<in> set (qs_held s')" "live s' v" for v
  proof -
    have "v \<in> set (qs_held s)" using v(1) assms(4) set_remove1_subset by fastforce
    then show ?thesis using exclusiveD(3) [OF assms(1), of v] assms(3,4) assms(5) [of v] v by (simp add: l)
  qed
qed

text \<open>Recording the outcome of a live claim touches the row of no other live claim.\<close>

lemma other_live_row:
  assumes "exclusive s" and "w \<in> set (qs_held s)" "live s w" and "v \<in> set (remove1 w (qs_held s))" "live s v"
  shows "nj_id (wc_job w) \<noteq> nj_id (wc_job v)"
  using remove1_other [OF exclusiveD(2) [OF assms(1), unfolded held_ids_def] assms(2-5)] by simp

lemma timely_keeps_exclusive:
  assumes "queue_step c timely s s'" and "timely" and "exclusive s"
  shows "exclusive s'"
proof -
  have ok: "queue_ok s'" by (rule queue_step_ok [OF assms(1) exclusiveD(1) [OF assms(3)]])
  show ?thesis
    using assms ok
  proof (induction rule: queue_step.induct)
    case (time s t)
    let ?s = "s\<lparr>qs_now := t\<rparr>"
    have live: "live ?s w \<Longrightarrow> live s w" for w using time(1) by (simp add: live_def)
    show ?case
    proof (rule exclusiveI [OF time(4)])
      have "held_ids ?s = map (\<lambda>w. nj_id (wc_job w)) (filter (live ?s) (filter (live s) (qs_held s)))"
        using live unfolding held_ids_def filter_filter by (auto intro!: arg_cong [where f = "map _"] filter_cong)
      then show "distinct (held_ids ?s)"
        using distinct_map_filter [OF exclusiveD(2) [OF time(3), unfolded held_ids_def], of "live ?s"] by simp
      show "holds_lock (jobs (qs_db ?s)) w \<and> wc_at w \<le> qs_now ?s" if "w \<in> set (qs_held ?s)" "live ?s w" for w
        using exclusiveD(3) [OF time(3), of w] live that time(1) by auto
    qed
  next
    case (enqueued s i type sealed u otp goal key cid d')
    show ?case
    proof (rule exclusive_same_held [OF enqueued(4,5)])
      fix v assume v: "v \<in> set (qs_held s)" "holds_lock (jobs (qs_db s)) v"
      then have "nj_id (wc_job v) \<noteq> i" using enqueued(2) by auto
      then show "holds_lock (jobs (qs_db (s\<lparr>qs_db := d'\<rparr>))) v"
        using v(2) enqueued(1) by (auto simp: insert_job_Inr holds_lock_def set_create_row new_job_def)
    qed simp_all
  next
    case (adopted cid s input r d')
    show ?case
    proof (rule exclusive_same_held [OF adopted(3,4)])
      fix v assume v: "v \<in> set (qs_held s)" "holds_lock (jobs (qs_db s)) v"
      have "holds_lock (jobs d') v"
        using adopted(1) by (rule adopt_jobs) (auto simp: adopt_row_def v(2) intro!: holds_lock_keep)
      then show "holds_lock (jobs (qs_db (s\<lparr>qs_db := d'\<rparr>))) v" by simp
    qed simp_all
  next
    case (claimed s i n d1 job d')
    let ?w = "\<lparr>wc_job = job, wc_at = qs_now s\<rparr>"
    let ?s = "s\<lparr>qs_db := d', qs_held := ?w # qs_held s\<rparr>"
    have jok: "jobs_ok (jobs (qs_db s))" using exclusiveD(1) [OF claimed(5)] by (simp add: queue_ok_def)
    note h = claimed_holds [OF claimed(1,3,2) jok]
    have l: "live ?s = live s" by (simp add: live_def fun_eq_iff)
    obtain r where r: "r \<in> set (jobs (qs_db s))" "j_id r = i" "readyWhere (qs_now s) r"
      using claimed(1,2) by (rule ready_row)
    have "i \<noteq> nj_id (wc_job v)" if "v \<in> set (qs_held s)" "live s v" for v
      using live_other_row [OF claimed(5) that r(1,3)] r(2) by simp
    then have "i \<notin> set (held_ids s)" by (auto simp: held_ids_def)
    moreover have "nj_id job = i" by (rule claimed_ok(3) [OF claimed(1,3,2) jok])
    ultimately have "distinct (held_ids ?s)"
      using exclusiveD(2) [OF claimed(5)] unfolding held_ids_def l by simp
    moreover have "holds_lock (jobs d') v" if "v \<in> set (qs_held s)" "live s v" for v
      using holds_after_claim [OF claimed(5,1) that] h(1) by simp
    ultimately show ?case
      using h(2) exclusiveD(3) [OF claimed(5)] by (intro exclusiveI [OF claimed(6)]) (auto simp: l)
  next
    case (unreadable s i n d1 d')
    have jok: "jobs_ok (jobs (qs_db s))" using exclusiveD(1) [OF unreadable(5)] by (simp add: queue_ok_def)
    obtain r where r: "r \<in> set (jobs (qs_db s))" "j_id r = i" "readyWhere (qs_now s) r"
      using unreadable(1,2) by (rule ready_row)
    from unreadable_ok [OF unreadable(1,3,2) jok] obtain job m where
      d': "jobs d' = update_many (\<lambda>j. j_id j = i) (failed_row (qs_now s) job m)
          (update_many (\<lambda>j. j_id j = i \<and> readyWhere (qs_now s) j) (lock_job (qs_now s)) (jobs (qs_db s)))" .
    show ?case
    proof (rule exclusive_same_held [OF unreadable(5,6)])
      fix v assume v: "v \<in> set (qs_held s)" "live s v"
      have "i \<noteq> nj_id (wc_job v)" using live_other_row [OF unreadable(5) v r(1,3)] r(2) by simp
      then have "holds_lock (jobs d') v"
        using holds_after_claim [OF unreadable(5,1) v]
        unfolding d' jobs_claim_write [OF unreadable(1)] by - (rule holds_lock_update, auto)
      then show "holds_lock (jobs (qs_db (s\<lparr>qs_db := d'\<rparr>))) v" by simp
    qed simp_all
  next
    case (delivered w s provider messageId)
    have w: "live s w" using delivered(2,3) by (simp add: live_def)
    show ?case
    proof (rule exclusive_remove [OF delivered(4,5)])
      fix v assume v: "v \<in> set (remove1 w (qs_held s))" "live s v" "holds_lock (jobs (qs_db s)) v"
      have "holds_lock (jobs (markSucceeded (qs_now s) (qs_db s) (wc_job w) provider messageId)) v"
        unfolding jobs_finish using v(3) other_live_row [OF delivered(4,1) w v(1,2)] by (intro holds_lock_update) auto
      then show "holds_lock (jobs (qs_db (s\<lparr>qs_db := markSucceeded (qs_now s) (qs_db s) (wc_job w) provider messageId,
          qs_held := remove1 w (qs_held s)\<rparr>))) v" by simp
    qed simp_all
  next
    case (failed w s message)
    have w: "live s w" using failed(2,3) by (simp add: live_def)
    show ?case
    proof (rule exclusive_remove [OF failed(4,5)])
      fix v assume v: "v \<in> set (remove1 w (qs_held s))" "live s v" "holds_lock (jobs (qs_db s)) v"
      have "holds_lock (jobs (markFailed (qs_now s) (qs_db s) (wc_job w) message)) v"
        unfolding jobs_markFailed using v(3) other_live_row [OF failed(4,1) w v(1,2)] by (intro holds_lock_update) auto
      then show "holds_lock (jobs (qs_db (s\<lparr>qs_db := markFailed (qs_now s) (qs_db s) (wc_job w) message,
          qs_held := remove1 w (qs_held s)\<rparr>))) v" by simp
    qed simp_all
  next
    case (dropped w s)
    show ?case by (rule exclusive_remove [OF dropped(3,4)]) simp_all
  next
    case (redacted s)
    show ?case
    proof (rule exclusive_same_held [OF redacted(2,3)])
      fix v assume "holds_lock (jobs (qs_db s)) v"
      then show "holds_lock (jobs (qs_db (s\<lparr>qs_db := redactTerminalPayloads (qs_now s) (qs_db s)\<rparr>))) v"
        by (auto simp: redactTerminalPayloads_def intro!: holds_lock_keep)
    qed simp_all
  next
    case (deleted s p)
    show ?case
    proof (rule exclusive_same_held [OF deleted(2,3)])
      fix v assume "holds_lock (jobs (qs_db s)) v"
      then show "holds_lock (jobs (qs_db (s\<lparr>qs_db := (qs_db s)\<lparr>jobs := delete_many p (jobs (qs_db s))\<rparr>\<rparr>))) v"
        by (auto simp: holds_lock_def set_delete_many)
    qed simp_all
  qed
qed


text \<open>A job that is sent or dead stays so, as long as its row exists.\<close>

definition keeps_terminal :: "job_row list \<Rightarrow> job_row list \<Rightarrow> bool" where
  "keeps_terminal rows rows' \<longleftrightarrow> (\<forall>j \<in> set rows. terminal j \<longrightarrow> (\<forall>j' \<in> set rows'. j_id j' = j_id j \<longrightarrow>
     j_status j' = j_status j \<and> j_sentAt j' = j_sentAt j \<and> j_attempts j' = j_attempts j))"

lemma keeps_terminal_same: "distinct (map j_id rows) \<Longrightarrow> set rows' \<subseteq> set rows \<Longrightarrow> keeps_terminal rows rows'"
  unfolding keeps_terminal_def using row_by_id by (metis subset_iff)

lemma keeps_terminal_create:
  assumes "distinct (map j_id rows)" and "\<And>q. q \<in> set rows \<Longrightarrow> j_id q \<noteq> j_id r"
  shows "keeps_terminal rows (create_row r rows)"
  unfolding keeps_terminal_def
proof (intro ballI impI)
  fix j j' assume j: "j \<in> set rows" "j' \<in> set (create_row r rows)" "j_id j' = j_id j"
  then have "j' \<in> set rows" using assms(2) [OF j(1)] by (auto simp: set_create_row)
  then show "j_status j' = j_status j \<and> j_sentAt j' = j_sentAt j \<and> j_attempts j' = j_attempts j"
    using row_by_id [OF assms(1) _ j(1) j(3)] by simp
qed

lemma keeps_terminal_update:
  assumes "distinct (map j_id rows)" and "\<And>r. j_id (f r) = j_id r"
    and "\<And>r. r \<in> set rows \<Longrightarrow> p r \<Longrightarrow> terminal r \<Longrightarrow> j_status (f r) = j_status r \<and> j_sentAt (f r) = j_sentAt r \<and> j_attempts (f r) = j_attempts r"
  shows "keeps_terminal rows (update_many p f rows)"
  unfolding keeps_terminal_def
proof (intro ballI impI)
  fix j j' assume j: "j \<in> set rows" "terminal j" "j' \<in> set (update_many p f rows)" "j_id j' = j_id j"
  from j(3) show "j_status j' = j_status j \<and> j_sentAt j' = j_sentAt j \<and> j_attempts j' = j_attempts j"
  proof (rule in_update_cases)
    assume "j' \<in> set rows"
    then show ?thesis using row_by_id [OF assms(1) _ j(1)] j(4) by metis
  next
    fix r0 assume r0: "r0 \<in> set rows" "p r0" "j' = f r0"
    then have "r0 = j" using row_by_id [OF assms(1) _ j(1)] j(4) assms(2) by metis
    then show ?thesis using assms(3) r0 j(2) by simp
  qed
qed

text \<open>Claiming touches no terminal row, nor does recording that a claimed row cannot be read.\<close>

lemma keeps_terminal_ready:
  assumes "distinct (map j_id rows)"
  shows "keeps_terminal rows (update_many (\<lambda>j. j_id j = i \<and> readyWhere now j) (lock_job now) rows)"
  using readyWhere_not_terminal by (intro keeps_terminal_update [OF assms]) auto

lemma keeps_terminal_unreadable:
  assumes "distinct (map j_id rows)" and "r \<in> set rows" "j_id r = i" "readyWhere now r"
  shows "keeps_terminal rows (update_many (\<lambda>j. j_id j = i) (failed_row now job m)
           (update_many (\<lambda>j. j_id j = i \<and> readyWhere now j) (lock_job now) rows))"
proof -
  have "update_many (\<lambda>j. j_id j = i) (failed_row now job m) (update_many (\<lambda>j. j_id j = i \<and> readyWhere now j) (lock_job now) rows)
    = update_many (\<lambda>j. j_id j = i) (\<lambda>j. failed_row now job m (if readyWhere now j then lock_job now j else j)) rows"
    by (simp add: update_many_def)
  also have "keeps_terminal rows \<dots>"
  proof (rule keeps_terminal_update [OF assms(1)])
    fix q assume "q \<in> set rows" "j_id q = i" "terminal q"
    then show "j_status (failed_row now job m (if readyWhere now q then lock_job now q else q)) = j_status q
      \<and> j_sentAt (failed_row now job m (if readyWhere now q then lock_job now q else q)) = j_sentAt q
      \<and> j_attempts (failed_row now job m (if readyWhere now q then lock_job now q else q)) = j_attempts q"
      using row_by_id [OF assms(1) _ assms(2)] assms(3,4) readyWhere_not_terminal by metis
  qed simp
  finally show ?thesis .
qed

lemma live_row_open:
  assumes "exclusive s" and "w \<in> set (qs_held s)" "live s w" and "r \<in> set (jobs (qs_db s))" "j_id r = nj_id (wc_job w)"
  shows "\<not> terminal r"
  using exclusiveD(3) [OF assms(1-3)] assms(4,5) by (auto simp: holds_lock_def terminal_def)

lemma keeps_terminal_live:
  assumes "exclusive s" and "w \<in> set (qs_held s)" "live s w" and "\<And>r. j_id (f r) = j_id r"
    and "distinct (map j_id (jobs (qs_db s)))"
  shows "keeps_terminal (jobs (qs_db s)) (update_many (\<lambda>j. j_id j = nj_id (wc_job w)) f (jobs (qs_db s)))"
  using live_row_open [OF assms(1-3)] by (intro keeps_terminal_update assms(4,5)) auto

lemma timely_keeps_terminal:
  assumes "queue_step c timely s s'" and "timely" and "exclusive s"
  shows "keeps_terminal (jobs (qs_db s)) (jobs (qs_db s'))"
proof -
  have jok: "jobs_ok (jobs (qs_db s))" using exclusiveD(1) [OF assms(3)] by (simp add: queue_ok_def)
  note ids = jobs_okD(1) [OF jok]
  show ?thesis
    using assms ids jok
  proof (induction rule: queue_step.induct)
    case (enqueued s i type sealed u otp goal key cid d')
    then have "jobs d' = create_row (new_job i type sealed u otp goal key cid (qs_now s)) (jobs (qs_db s))"
      "\<forall>q \<in> set (jobs (qs_db s)). j_id q \<noteq> i"
      by (auto simp: insert_job_Inr job_conflict_def list_ex_iff new_job_def)
    then show ?case using keeps_terminal_create [OF enqueued(5)] by (simp add: new_job_def)
  next
    case (adopted cid s input r d')
    have "keeps_terminal (jobs (qs_db s)) (jobs d')"
      using adopted(1)
    proof (rule adopt_jobs)
      assume "d' = qs_db s"
      then show ?thesis using keeps_terminal_same [OF adopted(4)] by simp
    qed (use keeps_terminal_update [OF adopted(4)] in \<open>simp add: adopt_row_def\<close>)
    then show ?case by simp
  next
    case (claimed s i n d1 job d')
    then show ?case
      using keeps_terminal_ready jobs_claim_write [OF claimed(1)] claimed_holds(1) [OF claimed(1,3,2,7)] by simp
  next
    case (unreadable s i n d1 d')
    obtain r where r: "r \<in> set (jobs (qs_db s))" "j_id r = i" "readyWhere (qs_now s) r"
      using unreadable(1,2) by (rule ready_row)
    from unreadable_ok [OF unreadable(1,3,2,7)] obtain job m where
      "jobs d' = update_many (\<lambda>j. j_id j = i) (failed_row (qs_now s) job m)
          (update_many (\<lambda>j. j_id j = i \<and> readyWhere (qs_now s) j) (lock_job (qs_now s)) (jobs (qs_db s)))" .
    then show ?case using keeps_terminal_unreadable [OF unreadable(6) r] by simp
  next
    case (delivered w s provider messageId)
    have "live s w" using delivered(2,3) by (simp add: live_def)
    then show ?case
      using keeps_terminal_live [OF delivered(4,1) _ _ delivered(5)] by (simp add: jobs_finish)
  next
    case (failed w s message)
    have "live s w" using failed(2,3) by (simp add: live_def)
    then show ?case
      using keeps_terminal_live [OF failed(4,1) _ _ failed(5)] by (simp add: jobs_markFailed)
  next
    case (redacted s)
    then show ?case using keeps_terminal_update by (simp add: redactTerminalPayloads_def)
  next
    case (deleted s p)
    have "set (delete_many p (jobs (qs_db s))) \<subseteq> set (jobs (qs_db s))" by (auto simp: set_delete_many)
    then show ?case using keeps_terminal_same [OF deleted(3)] by simp
  qed (simp_all add: keeps_terminal_same)
qed

lemma reachable_exclusive:
  assumes "(queue_step c True)\<^sup>*\<^sup>* s s'" and "empty_queue d s"
  shows "exclusive s'"
  using assms(1)
proof (induction rule: rtranclp_induct)
  case base
  then show ?case using assms(2)
    by (simp add: empty_queue_def exclusive_def held_ids_def queue_ok_def jobs_ok_def unique_key_def)
qed (simp add: timely_keeps_exclusive)



section \<open>A worker that comes too late\<close>

text \<open>A queue with one job; its payload is stored in the clear, as older versions did.\<close>

definition sample_job :: job_row where
  "sample_job = new_job (js ''j1'') otp_requested (Json (otp_payload (js ''+234'') (js ''123456''))) (js ''u1'')
     None None (js ''k1'') (js ''c1'') 0"

definition sample_queue :: db where
  "sample_queue = one_goal_db\<lparr>jobs := [sample_job]\<rparr>"

text \<open>\<open>sample_job\<close> claimed at \<open>t\<close>, at its first attempt.\<close>

definition sample_claim :: "ms \<Rightarrow> notification_job" where
  "sample_claim t = mapJobMetadata (lock_job t sample_job) (Payload (otp_payload (js ''+234'') (js ''123456'')))"

lemma sample_payload: "decryptPayload c (j_payloadJson sample_job) = Inr (Payload (otp_payload (js ''+234'') (js ''123456'')))"
  using otp_payload_ok(1) [of "js ''+234''" "js ''123456''"]
  by (simp add: sample_job_def new_job_def decryptPayload_def otp_payload_def)

lemma sample_job_simps [simp]:
  "j_id sample_job = js ''j1''" "j_status sample_job = Pending" "j_nextRunAt sample_job = 0"
  "j_attempts sample_job = 0" "j_maxAttempts sample_job = 3" "j_sentAt sample_job = None"
  "j_lockedAt sample_job = None"
  by (simp_all add: sample_job_def new_job_def)

lemma sample_claimed:
  assumes "jobs d = [r]" and "readyWhere now r" "j_id r = js ''j1''" "decryptPayload c (j_payloadJson r) = Inr p"
  shows "claimReadyJob c d now = (Inr (Some (mapJobMetadata (lock_job now r) p)), d\<lparr>jobs := [lock_job now r]\<rparr>)"
proof -
  have "j_payloadJson (lock_job now r) = j_payloadJson r" by (simp add: lock_job_def)
  then show ?thesis
    using assms by (simp add: claimReadyJob_def claim_candidate_def find_first_by_def claim_write_def claim_read_def
      count_rows_def update_many_def find_first_def mapJob_def)
qed


text \<open>Witnesses.\<close>

definition sample_system :: queue_system where
  "sample_system = \<lparr>qs_db = one_goal_db\<lparr>jobs := []\<rparr>, qs_held = [], qs_now = 0\<rparr>"

definition sample_alert :: readiness_alert_input where
  "sample_alert = \<lparr>ri_type = js ''risk.alert'', ri_phone = js ''+234'', ri_body = js ''b'', ri_userId = js ''u1'',
     ri_goalId = js ''g1'', ri_dedupeKey = js ''k1''\<rparr>"


lemma sample_alert_queued:
  "enqueueReadinessAlert sample_crypto (js ''iv'') (js ''j1'') (js ''c1'') 0 (qs_db sample_system) sample_alert
     = (Inr True, d') \<longleftrightarrow> insert_job (qs_db sample_system) (new_job (js ''j1'') (js ''risk.alert'')
          (projr (encryptPayload sample_crypto (js ''iv'') (readiness_payload (js ''+234'') (js ''b''))))
          (js ''u1'') None (Some (js ''g1'')) (js ''k1'') (js ''c1'') 0) = Inr d'"
proof -
  obtain sealed where "encryptPayload sample_crypto (js ''iv'') (readiness_payload (js ''+234'') (js ''b'')) = Inr sealed"
    using encrypt_total [OF sample_crypto_ok] by blast
  then show ?thesis
    by (auto simp: enqueueReadinessAlert_def sample_alert_def split: sum.splits prisma_error.splits)
qed

lemma sample_insert:
  "\<exists>d'. insert_job (qs_db sample_system) (new_job i type sealed (js ''u1'') None goal key cid now) = Inr d'
     \<and> jobs d' = [new_job i type sealed (js ''u1'') None goal key cid now]"
  by (simp add: insert_job_def sample_system_def job_conflict_def job_references_ok_def user_exists_def
      one_goal_db_def sample_goals_db_def create_row_def new_job_def)

lemma readiness_alert_deduplicated_witness:
  "\<exists>d'. enqueueReadinessAlert sample_crypto (js ''iv'') (js ''j1'') (js ''c1'') 0 (qs_db sample_system) sample_alert = (Inr True, d')
     \<and> enqueueReadinessAlert sample_crypto (js ''iw'') (js ''j2'') (js ''c2'') 7 d' sample_alert = (Inr False, d')"
proof -
  obtain d' where d': "enqueueReadinessAlert sample_crypto (js ''iv'') (js ''j1'') (js ''c1'') 0 (qs_db sample_system) sample_alert = (Inr True, d')"
    unfolding sample_alert_queued using sample_insert by blast
  obtain sealed where "encryptPayload sample_crypto (js ''iw'') (readiness_payload (ri_phone sample_alert) (ri_body sample_alert)) = Inr sealed"
    using encrypt_total [OF sample_crypto_ok] by blast
  from readiness_alert_deduplicated [OF d' this refl] d' show ?thesis
    by (auto simp: sample_system_def)
qed

lemma claim_exclusive_witness:
  "\<exists>d'. claim_write sample_queue 0 (js ''j1'') = (1, d') \<and> claim_write d' 299999 (js ''j1'') = (0, d')"
proof -
  obtain d' where c: "claim_write sample_queue 0 (js ''j1'') = (1, d')"
    by (simp add: claim_write_def Let_def count_rows_def sample_queue_def readyWhere_def)
  have "distinct (map j_id (jobs sample_queue))" by (simp add: sample_queue_def)
  from claim_exclusive [OF this c, of 299999] c show ?thesis by (simp add: JOB_LOCK_TIMEOUT_MS_def)
qed

text \<open>A job is queued, locked and delivered.\<close>

definition sample_run :: "queue_system \<Rightarrow> bool" where
  "sample_run s \<longleftrightarrow> map j_status (jobs (qs_db s)) = [Sent] \<and> qs_held s = []"

lemma sample_reaches:
  "\<exists>s. (queue_step c True)\<^sup>*\<^sup>* sample_system s \<and> sample_run s"
proof -
  let ?d1 = "one_goal_db\<lparr>jobs := [sample_job]\<rparr>" and ?d2 = "one_goal_db\<lparr>jobs := [lock_job 0 sample_job]\<rparr>"
  let ?w = "\<lparr>wc_job = sample_claim 0, wc_at = 0\<rparr>"
  let ?s1 = "sample_system\<lparr>qs_db := ?d1\<rparr>" and ?s2 = "sample_system\<lparr>qs_db := ?d2, qs_held := [?w]\<rparr>"
  have "insert_job (qs_db sample_system) sample_job = Inr ?d1"
    by (simp add: insert_job_def sample_system_def job_conflict_def job_references_ok_def user_exists_def
      one_goal_db_def sample_goals_db_def create_row_def sample_job_def new_job_def)
  then have "queue_step c True sample_system ?s1"
    unfolding sample_job_def by (intro queue_step.enqueued) (auto simp: sample_system_def)
  moreover have "queue_step c True ?s1 (?s1\<lparr>qs_db := ?d2, qs_held := \<lparr>wc_job = sample_claim 0, wc_at = qs_now ?s1\<rparr> # qs_held ?s1\<rparr>)"
  proof (rule queue_step.claimed [where i = "js ''j1''" and n = 1])
    show "claim_write (qs_db ?s1) (qs_now ?s1) (js ''j1'') = (1, ?d2)"
      by (simp add: claim_write_def Let_def count_rows_def update_many_def readyWhere_def sample_system_def)
    have "decryptPayload c (j_payloadJson (lock_job 0 sample_job)) = Inr (Payload (otp_payload (js ''+234'') (js ''123456'')))"
      using sample_payload by (simp add: lock_job_def)
    then show "claim_read c ?d2 (qs_now ?s1) (js ''j1'') = (Inr (Some (sample_claim 0)), ?d2)"
      by (simp add: claim_read_def find_first_def mapJob_def sample_claim_def)
  qed simp
  then have "queue_step c True ?s1 ?s2" by (simp add: sample_system_def)
  moreover have "queue_step c True ?s2 (?s2\<lparr>qs_db := markSucceeded (qs_now ?s2) (qs_db ?s2) (wc_job ?w) None None,
      qs_held := remove1 ?w (qs_held ?s2)\<rparr>)"
    by (intro queue_step.delivered) (simp_all add: sample_system_def JOB_LOCK_TIMEOUT_MS_def)
  ultimately have "(queue_step c True)\<^sup>*\<^sup>* sample_system (?s2\<lparr>qs_db := markSucceeded (qs_now ?s2) (qs_db ?s2) (wc_job ?w) None None,
      qs_held := remove1 ?w (qs_held ?s2)\<rparr>)"
    by (meson rtranclp.rtrancl_into_rtrancl rtranclp.rtrancl_refl)
  moreover have "sample_run (?s2\<lparr>qs_db := markSucceeded (qs_now ?s2) (qs_db ?s2) (wc_job ?w) None None,
      qs_held := remove1 ?w (qs_held ?s2)\<rparr>)"
    by (simp add: sample_run_def jobs_finish sample_claim_def update_many_def succeeded_row_def)
  ultimately show ?thesis by blast
qed

lemma sample_system_empty: "empty_queue one_goal_db sample_system"
  by (simp add: empty_queue_def sample_system_def)



end
