(* ===== verification/Alerts.thy ===== *)
theory Alerts
  imports Alert_Keys Notification_Queue
begin

text \<open>
  The readiness alerts: \<open>api/src/alerts/alerts.service.ts\<close> with its request class, and the
  scheduler \<open>alerts.scheduler.ts\<close> that evaluates every customer with an enabled channel. An
  evaluation reads the dashboard, asks the rules of \<open>alert-rules.ts\<close>, hands messages to the
  queue and records in the state of the user and goal what was observed and what was sent.
\<close>

section \<open>Preferences\<close>

text \<open>Time zones: which names \<open>Intl.DateTimeFormat\<close> accepts, and their offsets.\<close>

record time_zones =
  tz_valid :: "jstring \<Rightarrow> bool"
  tz_offset :: "jstring \<Rightarrow> ms \<Rightarrow> ms"

record alert_preferences =
  ar_weeklySummaryEnabled :: bool
  ar_riskAlertsEnabled :: bool
  ar_channel :: jstring
  ar_timeZone :: jstring
  ar_weeklyDay :: int
  ar_weeklyHourLocal :: int
  ar_updatedAt :: "jstring option"

definition DEFAULT_PREFERENCES :: alert_preferences where
  "DEFAULT_PREFERENCES = \<lparr>ar_weeklySummaryEnabled = False, ar_riskAlertsEnabled = False, ar_channel = js ''sms'',
     ar_timeZone = js ''UTC'', ar_weeklyDay = 1, ar_weeklyHourLocal = 9, ar_updatedAt = None\<rparr>"

definition toPreferences :: "alert_preference_row \<Rightarrow> alert_preferences" where
  "toPreferences row = \<lparr>ar_weeklySummaryEnabled = ap_weeklySummaryEnabled row, ar_riskAlertsEnabled = ap_riskAlertsEnabled row,
     ar_channel = js ''sms'', ar_timeZone = ap_timeZone row, ar_weeklyDay = ap_weeklyDay row,
     ar_weeklyHourLocal = ap_weeklyHourLocal row, ar_updatedAt = Some (to_iso_string (ap_updatedAt row))\<rparr>"

definition preference_of :: "db \<Rightarrow> jstring \<Rightarrow> alert_preference_row option" where
  "preference_of d userId = find_first (\<lambda>p. ap_userId p = userId) (alertPreferences d)"

definition getPreferences :: "db \<Rightarrow> jstring \<Rightarrow> alert_preferences" where
  "getPreferences d userId = (case preference_of d userId of None \<Rightarrow> DEFAULT_PREFERENCES | Some row \<Rightarrow> toPreferences row)"

text \<open>
  The body of an update. \<open>ua_keys\<close> are the own keys of the object; the object the framework
  makes of a request has every field of the class, absent ones as \<open>undefined\<close>, because the
  compiler's target defines class fields.
\<close>

record update_alert_preferences_dto =
  ua_keys :: "jstring list"
  ua_weeklySummaryEnabled :: "bool field"
  ua_riskAlertsEnabled :: "bool field"
  ua_timeZone :: "jstring field"
  ua_weeklyDay :: "int field"
  ua_weeklyHourLocal :: "int field"

fun given_value :: "('a \<Rightarrow> bool) \<Rightarrow> 'a field \<Rightarrow> bool" where
  "given_value p (Value v) = p v"
| "given_value p _ = True"

definition valid_update_preferences :: "update_alert_preferences_dto \<Rightarrow> bool" where
  "valid_update_preferences dto \<longleftrightarrow>
     given_value (\<lambda>s. 1 \<le> length s \<and> length s \<le> 100) (ua_timeZone dto)
     \<and> given_value (\<lambda>n. 0 \<le> n \<and> n \<le> 6) (ua_weeklyDay dto)
     \<and> given_value (\<lambda>n. 0 \<le> n \<and> n \<le> 23) (ua_weeklyHourLocal dto)"

fun assertTimeZone :: "time_zones \<Rightarrow> jstring field \<Rightarrow> bool" where
  "assertTimeZone z Undefined = True"
| "assertTimeZone z Null = tz_valid z (js ''null'')"
| "assertTimeZone z (Value t) = tz_valid z t"

fun given_or :: "'a field \<Rightarrow> 'a \<Rightarrow> 'a" where
  "given_or (Value v) old = v"
| "given_or _ old = old"

definition has_null :: "update_alert_preferences_dto \<Rightarrow> bool" where
  "has_null dto \<longleftrightarrow> ua_weeklySummaryEnabled dto = Null \<or> ua_riskAlertsEnabled dto = Null \<or> ua_timeZone dto = Null
     \<or> ua_weeklyDay dto = Null \<or> ua_weeklyHourLocal dto = Null"

definition apply_preferences :: "update_alert_preferences_dto \<Rightarrow> ms \<Rightarrow> alert_preference_row \<Rightarrow> alert_preference_row" where
  "apply_preferences dto now row = row\<lparr>
     ap_weeklySummaryEnabled := given_or (ua_weeklySummaryEnabled dto) (ap_weeklySummaryEnabled row),
     ap_riskAlertsEnabled := given_or (ua_riskAlertsEnabled dto) (ap_riskAlertsEnabled row),
     ap_timeZone := given_or (ua_timeZone dto) (ap_timeZone row),
     ap_weeklyDay := given_or (ua_weeklyDay dto) (ap_weeklyDay row),
     ap_weeklyHourLocal := given_or (ua_weeklyHourLocal dto) (ap_weeklyHourLocal row),
     ap_updatedAt := now\<rparr>"

text \<open>The columns' defaults in \<open>schema.prisma\<close>.\<close>

definition default_preference_row :: "jstring \<Rightarrow> ms \<Rightarrow> alert_preference_row" where
  "default_preference_row userId now = \<lparr>ap_userId = userId, ap_weeklySummaryEnabled = False, ap_riskAlertsEnabled = False,
     ap_timeZone = js ''UTC'', ap_weeklyDay = 1, ap_weeklyHourLocal = 9, ap_updatedAt = now\<rparr>"

definition updatePreferences ::
  "time_zones \<Rightarrow> ms \<Rightarrow> db \<Rightarrow> jstring \<Rightarrow> update_alert_preferences_dto \<Rightarrow> alert_preferences result \<times> db"
where
  "updatePreferences z now d userId input =
     (if ua_keys input = [] then (Inl (BadRequest ''At least one preference is required''), d)
      else if \<not> assertTimeZone z (ua_timeZone input)
      then (Inl (BadRequest ''timeZone must be a valid IANA time zone''), d)
      else if has_null input then (Inl null_column, d)
      else (case preference_of d userId of
              Some row \<Rightarrow> (Inr (toPreferences (apply_preferences input now row)),
                d\<lparr>alertPreferences := update_many (\<lambda>p. ap_userId p = userId) (apply_preferences input now) (alertPreferences d)\<rparr>)
            | None \<Rightarrow>
                (let row = apply_preferences input now (default_preference_row userId now)
                 in if \<not> user_exists d userId then (Inl (prisma_error_thrown P2003), d)
                    else (Inr (toPreferences row), d\<lparr>alertPreferences := create_row row (alertPreferences d)\<rparr>))))"

text \<open>What the controller passes on.\<close>

definition alert_dto_keys :: "jstring list" where
  "alert_dto_keys = [js ''weeklySummaryEnabled'', js ''riskAlertsEnabled'', js ''timeZone'', js ''weeklyDay'', js ''weeklyHourLocal'']"

definition patch_preferences ::
  "time_zones \<Rightarrow> ms \<Rightarrow> db \<Rightarrow> jstring \<Rightarrow> update_alert_preferences_dto \<Rightarrow> alert_preferences result \<times> db"
where
  "patch_preferences z now d userId body = updatePreferences z now d userId (body\<lparr>ua_keys := alert_dto_keys\<rparr>)"

text \<open>An update without any field is not refused: it stores a row of defaults, or renews the row.\<close>

lemma empty_patch_accepted:
  assumes "user_exists d u"
  shows "\<exists>p d'. patch_preferences z now d u \<lparr>ua_keys = [], ua_weeklySummaryEnabled = Undefined, ua_riskAlertsEnabled = Undefined,
     ua_timeZone = Undefined, ua_weeklyDay = Undefined, ua_weeklyHourLocal = Undefined\<rparr> = (Inr p, d')"
  using assms by (auto simp: patch_preferences_def updatePreferences_def alert_dto_keys_def has_null_def Let_def split: option.splits)

section \<open>The messages\<close>

text \<open>\<open>toLocaleString('en-NG', \<dots>)\<close> without fraction digits: rounded, digits in groups of three.\<close>

function group_digits :: "jstring \<Rightarrow> jstring" where
  "group_digits s = (if length s \<le> 3 then s
     else group_digits (take (length s - 3) s) @ [unit_comma] @ drop (length s - 3) s)"
  by pat_completeness auto
termination by (relation "measure length") auto

declare group_digits.simps [simp del]

definition naira :: "rat \<Rightarrow> jstring" where
  "naira kobo = unit_naira # group_digits (dec \<lfloor>fl (kobo / 100) + 1 / 2\<rfloor>)"

text \<open>The decimal text of a Number that has at most one fraction digit.\<close>

definition tenths_text :: "rat \<Rightarrow> jstring" where
  "tenths_text r =
     (let n = \<lfloor>r * 10 + 1 / 2\<rfloor>
      in int_text (n div 10) @ (if n mod 10 = 0 then [] else js ''.'' @ [digit (n mod 10)]))"

definition weeklySummaryBody :: "jstring \<Rightarrow> stability_output \<Rightarrow> jstring" where
  "weeklySummaryBody goalName metrics =
     js ''Stead weekly: '' @ goalName @ js '' is '' @ tenths_text (readinessPct metrics) @ js ''% ready, status ''
     @ status_text (status metrics) @ js '', score '' @ int_text (stabilityScore metrics) @ js ''. Required monthly pace: ''
     @ naira (paceRequiredMonthlyKobo metrics) @ js ''.''"

definition riskBody :: "jstring \<Rightarrow> stability_status \<Rightarrow> int \<Rightarrow> jstring" where
  "riskBody goalName s score =
     js ''Stead alert: '' @ goalName @ js '' moved to '' @ status_text s @ js '' (score '' @ int_text score
     @ js ''). Review recent spending and your required savings pace.''"

definition recoveryBody :: "jstring \<Rightarrow> int \<Rightarrow> jstring" where
  "recoveryBody goalName score =
     js ''Stead update: '' @ goalName @ js '' has recovered to stable (score '' @ int_text score
     @ js ''). Keep up your current savings pace.''"

section \<open>Evaluating a user\<close>

record publish_random =
  pr_iv :: jstring
  pr_jobId :: jstring
  pr_correlationId :: jstring

record evaluate_random =
  er_weekly :: publish_random
  er_alert :: publish_random

definition publishReadinessAlert ::
  "crypto \<Rightarrow> publish_random \<Rightarrow> ms \<Rightarrow> db \<Rightarrow> readiness_alert_input \<Rightarrow> bool result \<times> db" where
  "publishReadinessAlert c rnd now d input =
     enqueueReadinessAlert c (pr_iv rnd) (pr_jobId rnd) (pr_correlationId rnd) now d input"

text \<open>The entries of \<open>stateUpdate\<close> beside the two observed ones.\<close>

record state_update =
  su_notifiedStatus :: "stability_status option"
  su_notifiedScore :: "int option"
  su_riskAt :: "ms option"
  su_recoveryAt :: "ms option"
  su_weeklyAt :: "ms option"
  su_weeklyKey :: "jstring option"

definition no_update :: state_update where
  "no_update = \<lparr>su_notifiedStatus = None, su_notifiedScore = None, su_riskAt = None, su_recoveryAt = None,
     su_weeklyAt = None, su_weeklyKey = None\<rparr>"

definition alert_state :: "db \<Rightarrow> jstring \<Rightarrow> jstring \<Rightarrow> alert_state_row option" where
  "alert_state d userId goalId = find_first (\<lambda>s. as_userId s = userId \<and> as_goalId s = goalId) (alertStates d)"

definition weekly_dedupe_key :: "jstring \<Rightarrow> jstring \<Rightarrow> jstring \<Rightarrow> jstring" where
  "weekly_dedupe_key userId goalId key = join colon [js ''weekly'', userId, goalId, key]"

definition weekly_step ::
  "time_zones \<Rightarrow> crypto \<Rightarrow> publish_random \<Rightarrow> ms \<Rightarrow> db \<Rightarrow> alert_preference_row \<Rightarrow> goal_summary \<Rightarrow> stability_output \<Rightarrow>
   alert_state_row option \<Rightarrow> state_update result \<times> db"
where
  "weekly_step z c rnd now d pref goal metrics state =
     (if \<not> ap_weeklySummaryEnabled pref then (Inr no_update, d)
      else if \<not> tz_valid z (ap_timeZone pref) then (Inl (ServerError ''Invalid time zone specified''), d)
      else (let schedule = weeklySchedule (tz_offset z) now (ap_timeZone pref) (ap_weeklyDay pref) (ap_weeklyHourLocal pref)
            in if wd_due schedule \<and> Option.bind state as_lastWeeklySummaryKey \<noteq> Some (wd_key schedule)
               then (case publishReadinessAlert c rnd now d
                            \<lparr>ri_type = js ''weekly.summary'', ri_phone = user_phone d (ap_userId pref),
                             ri_body = weeklySummaryBody (gs_name goal) metrics, ri_userId = ap_userId pref, ri_goalId = gs_id goal,
                             ri_dedupeKey = weekly_dedupe_key (ap_userId pref) (gs_id goal) (wd_key schedule)\<rparr> of
                       (Inl err, d') \<Rightarrow> (Inl err, d')
                     | (Inr _, d') \<Rightarrow> (Inr (no_update\<lparr>su_weeklyAt := Some now, su_weeklyKey := Some (wd_key schedule)\<rparr>), d'))
               else (Inr no_update, d)))"

definition occurrence_key ::
  "decision \<Rightarrow> jstring \<Rightarrow> jstring \<Rightarrow> alert_state_row option \<Rightarrow> stability_output \<Rightarrow> jstring"
where
  "occurrence_key alert userId goalId state metrics =
     alertOccurrenceKey alert userId goalId (Option.bind state as_lastNotifiedStatus) (Option.bind state as_lastNotifiedScore)
       (status metrics) (stabilityScore metrics) (Option.bind state as_lastRiskAlertAt) (Option.bind state as_lastRecoveryAlertAt)"

definition alert_step ::
  "crypto \<Rightarrow> publish_random \<Rightarrow> ms \<Rightarrow> db \<Rightarrow> alert_preference_row \<Rightarrow> goal_summary \<Rightarrow> stability_output \<Rightarrow>
   alert_state_row option \<Rightarrow> state_update \<Rightarrow> state_update result \<times> db"
where
  "alert_step c rnd now d pref goal metrics state upd =
     (if \<not> ap_riskAlertsEnabled pref then (Inr upd, d)
      else (case riskDecision (status metrics) (stabilityScore metrics) state now of
              None \<Rightarrow>
                (if state = None \<and> status metrics = Stable
                 then (Inr (upd\<lparr>su_notifiedStatus := Some (status metrics), su_notifiedScore := Some (stabilityScore metrics)\<rparr>), d)
                 else (Inr upd, d))
            | Some alert \<Rightarrow>
                (case publishReadinessAlert c rnd now d
                        \<lparr>ri_type = decision_type alert, ri_phone = user_phone d (ap_userId pref),
                         ri_body = (case alert of Risk \<Rightarrow> riskBody (gs_name goal) (status metrics) (stabilityScore metrics)
                                     | Recovery \<Rightarrow> recoveryBody (gs_name goal) (stabilityScore metrics)),
                         ri_userId = ap_userId pref, ri_goalId = gs_id goal,
                         ri_dedupeKey = occurrence_key alert (ap_userId pref) (gs_id goal) state metrics\<rparr> of
                   (Inl err, d') \<Rightarrow> (Inl err, d')
                 | (Inr _, d') \<Rightarrow>
                     (let upd' = upd\<lparr>su_notifiedStatus := Some (status metrics), su_notifiedScore := Some (stabilityScore metrics)\<rparr>
                      in (Inr (case alert of Risk \<Rightarrow> upd'\<lparr>su_riskAt := Some now\<rparr> | Recovery \<Rightarrow> upd'\<lparr>su_recoveryAt := Some now\<rparr>), d')))))"

text \<open>The write of the state: an update keeps what it does not name, a creation has it empty.\<close>

definition apply_update :: "stability_output \<Rightarrow> state_update \<Rightarrow> alert_state_row \<Rightarrow> alert_state_row" where
  "apply_update metrics upd s = s\<lparr>
     as_lastObservedStatus := status metrics, as_lastObservedScore := stabilityScore metrics,
     as_lastNotifiedStatus := or_else (su_notifiedStatus upd) (as_lastNotifiedStatus s),
     as_lastNotifiedScore := or_else (su_notifiedScore upd) (as_lastNotifiedScore s),
     as_lastRiskAlertAt := or_else (su_riskAt upd) (as_lastRiskAlertAt s),
     as_lastRecoveryAlertAt := or_else (su_recoveryAt upd) (as_lastRecoveryAlertAt s),
     as_lastWeeklySummaryAt := or_else (su_weeklyAt upd) (as_lastWeeklySummaryAt s),
     as_lastWeeklySummaryKey := or_else (su_weeklyKey upd) (as_lastWeeklySummaryKey s)\<rparr>"

definition created_state :: "jstring \<Rightarrow> jstring \<Rightarrow> stability_output \<Rightarrow> state_update \<Rightarrow> alert_state_row" where
  "created_state userId goalId metrics upd = \<lparr>as_userId = userId, as_goalId = goalId,
     as_lastObservedStatus = status metrics, as_lastObservedScore = stabilityScore metrics,
     as_lastNotifiedStatus = su_notifiedStatus upd, as_lastNotifiedScore = su_notifiedScore upd,
     as_lastRiskAlertAt = su_riskAt upd, as_lastRecoveryAlertAt = su_recoveryAt upd,
     as_lastWeeklySummaryAt = su_weeklyAt upd, as_lastWeeklySummaryKey = su_weeklyKey upd\<rparr>"

definition upsert_state :: "db \<Rightarrow> jstring \<Rightarrow> jstring \<Rightarrow> stability_output \<Rightarrow> state_update \<Rightarrow> unit result \<times> db" where
  "upsert_state d userId goalId metrics upd =
     (case alert_state d userId goalId of
        Some _ \<Rightarrow> (Inr (), d\<lparr>alertStates := update_many (\<lambda>s. as_userId s = userId \<and> as_goalId s = goalId)
                      (apply_update metrics upd) (alertStates d)\<rparr>)
      | None \<Rightarrow> if user_exists d userId \<and> goal_exists d goalId
                then (Inr (), d\<lparr>alertStates := create_row (created_state userId goalId metrics upd) (alertStates d)\<rparr>)
                else (Inl (prisma_error_thrown P2003), d))"

definition evaluateUser ::
  "time_zones \<Rightarrow> crypto \<Rightarrow> evaluate_random \<Rightarrow> ms \<Rightarrow> db \<Rightarrow> jstring \<Rightarrow> unit result \<times> db"
where
  "evaluateUser z c rnd now d userId =
     (case preference_of d userId of
        None \<Rightarrow> (Inr (), d)
      | Some pref \<Rightarrow>
          if \<not> ap_weeklySummaryEnabled pref \<and> \<not> ap_riskAlertsEnabled pref then (Inr (), d)
          else (case getStability d userId now of
                  NoActiveGoal _ \<Rightarrow> (Inr (), d)
                | Snapshot goal metrics _ _ \<Rightarrow>
                    (let state = alert_state d userId (gs_id goal)
                     in case weekly_step z c (er_weekly rnd) now d pref goal metrics state of
                          (Inl err, d1) \<Rightarrow> (Inl err, d1)
                        | (Inr upd, d1) \<Rightarrow>
                            (case alert_step c (er_alert rnd) now d1 pref goal metrics state upd of
                               (Inl err, d2) \<Rightarrow> (Inl err, d2)
                             | (Inr upd', d2) \<Rightarrow> upsert_state d2 userId (gs_id goal) metrics upd'))))"

section \<open>The scheduler\<close>

text \<open>One user after the other; a failure ends the run.\<close>

fun evaluate_all ::
  "time_zones \<Rightarrow> crypto \<Rightarrow> (jstring \<Rightarrow> evaluate_random) \<Rightarrow> ms \<Rightarrow> db \<Rightarrow> jstring list \<Rightarrow> unit result \<times> db"
where
  "evaluate_all z c rnds now d [] = (Inr (), d)"
| "evaluate_all z c rnds now d (u # us) =
     (case evaluateUser z c (rnds u) now d u of
        (Inl err, d') \<Rightarrow> (Inl err, d')
      | (Inr _, d') \<Rightarrow> evaluate_all z c rnds now d' us)"

definition alert_users :: "db \<Rightarrow> jstring list" where
  "alert_users d = map ap_userId (find_many (\<lambda>p. ap_weeklySummaryEnabled p \<or> ap_riskAlertsEnabled p) (alertPreferences d))"

definition scheduler_run ::
  "time_zones \<Rightarrow> crypto \<Rightarrow> (jstring \<Rightarrow> evaluate_random) \<Rightarrow> ms \<Rightarrow> db \<Rightarrow> nat result \<times> db"
where
  "scheduler_run z c rnds now d =
     (case evaluate_all z c rnds now d (alert_users d) of
        (Inl err, d') \<Rightarrow> (Inl err, d')
      | (Inr _, d') \<Rightarrow> (Inr (length (alert_users d)), d'))"

datatype scheduler_outcome = SchedulerSkipped | SchedulerSuccess | SchedulerError

text \<open>A tick that finds another one running is skipped; at the end the flag is down again.\<close>

definition scheduler_start :: "bool \<Rightarrow> bool \<times> bool" where
  "scheduler_start running = (\<not> running, True)" \<comment> \<open>whether the run begins, and the flag\<close>

definition scheduler_tick ::
  "time_zones \<Rightarrow> crypto \<Rightarrow> (jstring \<Rightarrow> evaluate_random) \<Rightarrow> ms \<Rightarrow> bool \<Rightarrow> db \<Rightarrow> scheduler_outcome \<times> bool \<times> db"
where
  "scheduler_tick z c rnds now running d =
     (case scheduler_start running of
        (False, flag) \<Rightarrow> (SchedulerSkipped, flag, d)
      | (True, _) \<Rightarrow>
          (case scheduler_run z c rnds now d of
             (Inl _, d') \<Rightarrow> (SchedulerError, False, d')
           | (Inr _, d') \<Rightarrow> (SchedulerSuccess, False, d')))"

end
