(* ===== verification/Alert_Run.thy ===== *)
theory Alert_Run
  imports Alerts
begin

text \<open>
  What the alerting promises over time. The state of a user and goal is a memory of the messages
  sent; an invariant of every history says which keys the queue has seen; and the evaluations
  refine an alarm that is raised, repeated after a day and cleared.
\<close>

section \<open>What an evaluation does to the database\<close>

definition alert_job :: "publish_random \<Rightarrow> ms \<Rightarrow> readiness_alert_input \<Rightarrow> json_text \<Rightarrow> job_row" where
  "alert_job rnd now input sealed = new_job (pr_jobId rnd) (ri_type input) sealed (ri_userId input) None (Some (ri_goalId input))
     (ri_dedupeKey input) (pr_correlationId rnd) now"

lemma publish_cases:
  assumes "publishReadinessAlert c rnd now d input = (res, d')"
  obtains (added) sealed where "res = Inr True" "user_exists d (ri_userId input)"
      "d' = d\<lparr>jobs := create_row (alert_job rnd now input sealed) (jobs d)\<rparr>"
    | (known) "res = Inr False" "d' = d"
        "\<exists>q \<in> set (jobs d). j_id q = pr_jobId rnd \<or> j_dedupeKey q = Some (ri_dedupeKey input)"
    | (failed) err where "res = Inl err" "d' = d"
proof (cases "encryptPayload c (pr_iv rnd) (readiness_payload (ri_phone input) (ri_body input))")
  case (Inl e)
  with assms have "res = Inl e" "d' = d" by (auto simp: publishReadinessAlert_def enqueueReadinessAlert_def)
  then show ?thesis by (rule failed)
next
  case (Inr sealed)
  let ?job = "alert_job rnd now input sealed"
  have e: "publishReadinessAlert c rnd now d input = (case insert_job d ?job of
      Inr d' \<Rightarrow> (Inr True, d') | Inl P2002 \<Rightarrow> (Inr False, d) | Inl P2003 \<Rightarrow> (Inl (prisma_error_thrown P2003), d))"
    using Inr by (simp add: publishReadinessAlert_def enqueueReadinessAlert_def alert_job_def)
  show ?thesis
  proof (cases "insert_job d ?job")
    case (Inr d2)
    have ok: "job_references_ok d ?job" "d2 = d\<lparr>jobs := create_row ?job (jobs d)\<rparr>"
      using Inr unfolding insert_job_Inr by blast+
    have "res = Inr True \<and> d' = d2" using e assms unfolding Inr by simp
    moreover have "user_exists d (ri_userId input)"
      using ok(1) by (simp add: job_references_ok_def alert_job_def new_job_def)
    ultimately show ?thesis using added [of sealed] ok(2) by blast
  next
    case (Inl err)
    show ?thesis
    proof (cases err)
      case P2003
      have "res = Inl (prisma_error_thrown P2003) \<and> d' = d" using e assms unfolding Inl P2003 by simp
      then show ?thesis using failed by blast
    next
      case P2002
      then have "job_conflict ?job (jobs d)" using Inl by (auto simp: insert_job_def split: if_splits)
      then have "\<exists>q \<in> set (jobs d). j_id q = pr_jobId rnd \<or> j_dedupeKey q = Some (ri_dedupeKey input)"
        by (auto simp: job_conflict_def alert_job_def new_job_def list_ex_iff)
      moreover have "res = Inr False \<and> d' = d" using e assms unfolding Inl P2002 by simp
      ultimately show ?thesis using known by blast
    qed
  qed
qed

definition job_keys :: "db \<Rightarrow> jstring set" where
  "job_keys d = {k. \<exists>j \<in> set (jobs d). j_dedupeKey j = Some k}"

lemma job_keys_create: "job_keys (d\<lparr>jobs := create_row (alert_job rnd now input sealed) (jobs d)\<rparr>) = insert (ri_dedupeKey input) (job_keys d)"
  by (auto simp: job_keys_def create_row_def alert_job_def new_job_def)

lemma publish_keeps:
  assumes "publishReadinessAlert c rnd now d input = (res, d')"
  shows "alertStates d' = alertStates d" "goals d' = goals d" "users d' = users d"
    "job_keys d' \<subseteq> insert (ri_dedupeKey input) (job_keys d)"
  using assms by (rule publish_cases; simp add: job_keys_create subset_insertI)+

lemma occurrence_prefix: "take 5 (alertOccurrenceKey k u g ps psc cs csc r c) = js ''risk.''"
  by (cases k) (simp_all add: occurrence_key_text js_def)

lemma weekly_prefix: "take 5 (weekly_dedupe_key u g k) \<noteq> js ''risk.''"
  by (simp add: weekly_dedupe_key_def js_def)

lemma weekly_step_cases:
  assumes "weekly_step z c rnd now d pref goal metrics state = (res, d')"
  obtains (quiet) "d' = d" | (sent) input r key where "publishReadinessAlert c rnd now d input = (r, d')"
    "ri_dedupeKey input = weekly_dedupe_key (ap_userId pref) (gs_id goal) key" "ri_type input = js ''weekly.summary''"
      "Option.bind state as_lastWeeklySummaryKey \<noteq> Some key"
      "key = wd_key (weeklySchedule (tz_offset z) now (ap_timeZone pref) (ap_weeklyDay pref) (ap_weeklyHourLocal pref))"
proof -
  define key where "key = wd_key (weeklySchedule (tz_offset z) now (ap_timeZone pref) (ap_weeklyDay pref) (ap_weeklyHourLocal pref))"
  define input where "input = \<lparr>ri_type = js ''weekly.summary'', ri_phone = user_phone d (ap_userId pref),
    ri_body = weeklySummaryBody (gs_name goal) metrics, ri_userId = ap_userId pref, ri_goalId = gs_id goal,
    ri_dedupeKey = weekly_dedupe_key (ap_userId pref) (gs_id goal) key\<rparr>"
  have "d' = d \<or> (\<exists>r. publishReadinessAlert c rnd now d input = (r, d') \<and> Option.bind state as_lastWeeklySummaryKey \<noteq> Some key)"
    using assms by (auto simp: weekly_step_def Let_def key_def input_def split: if_splits sum.splits prod.splits)
  moreover have "ri_dedupeKey input = weekly_dedupe_key (ap_userId pref) (gs_id goal) key" "ri_type input = js ''weekly.summary''"
    by (simp_all add: input_def)
  ultimately show ?thesis using quiet sent key_def by blast
qed

lemma weekly_step_keeps:
  assumes "weekly_step z c rnd now d pref goal metrics state = (res, d')"
  shows "alertStates d' = alertStates d" "goals d' = goals d" "users d' = users d"
    "\<forall>k \<in> job_keys d' - job_keys d. take 5 k \<noteq> js ''risk.''"
proof -
  show "alertStates d' = alertStates d" "goals d' = goals d" "users d' = users d"
    using assms by (cases rule: weekly_step_cases; simp add: publish_keeps)+
  show "\<forall>k \<in> job_keys d' - job_keys d. take 5 k \<noteq> js ''risk.''"
    using assms
  proof (cases rule: weekly_step_cases)
    case (sent input r key)
    then show ?thesis using publish_keeps(4) [OF sent(1)] weekly_prefix by auto
  qed simp
qed

text \<open>A run of the alerting: evaluations at increasing instants, and whatever else happens to the
  database between them that neither writes alert states nor queues alerts.\<close>

inductive alerts_step :: "time_zones \<Rightarrow> crypto \<Rightarrow> ms \<times> db \<Rightarrow> ms \<times> db \<Rightarrow> bool" for z c where
  evaluated: "evaluateUser z c rnd now d userId = (res, d') \<Longrightarrow> t < now \<Longrightarrow> clock_sane now \<Longrightarrow> plain userId \<Longrightarrow>
     \<forall>g \<in> set (goals d). plain (g_id g) \<Longrightarrow> alerts_step z c (t, d) (now, d')"
| other: "alertStates d' = alertStates d \<Longrightarrow> \<forall>k \<in> job_keys d' - job_keys d. take 5 k \<noteq> js ''risk.'' \<Longrightarrow> t \<le> t' \<Longrightarrow>
     alerts_step z c (t, d) (t', d')"

section \<open>What is remembered of the messages sent\<close>

record alert_memory =
  am_status :: "stability_status option"
  am_score :: "int option"
  am_riskAt :: "ms option"
  am_recoveryAt :: "ms option"

definition memory_of :: "alert_state_row option \<Rightarrow> alert_memory" where
  "memory_of s = \<lparr>am_status = Option.bind s as_lastNotifiedStatus, am_score = Option.bind s as_lastNotifiedScore,
     am_riskAt = Option.bind s as_lastRiskAlertAt, am_recoveryAt = Option.bind s as_lastRecoveryAlertAt\<rparr>"

definition alert_memory :: "db \<Rightarrow> jstring \<Rightarrow> jstring \<Rightarrow> alert_memory" where
  "alert_memory d u g = memory_of (alert_state d u g)"

lemma memory_of_sel [simp]:
  "am_status (memory_of s) = Option.bind s as_lastNotifiedStatus" "am_score (memory_of s) = Option.bind s as_lastNotifiedScore"
  "am_riskAt (memory_of s) = Option.bind s as_lastRiskAlertAt" "am_recoveryAt (memory_of s) = Option.bind s as_lastRecoveryAlertAt"
  by (simp_all add: memory_of_def)

definition sent_memory :: "decision \<Rightarrow> ms \<Rightarrow> stability_output \<Rightarrow> alert_memory \<Rightarrow> alert_memory" where
  "sent_memory k now metrics m =
     (let m' = m\<lparr>am_status := Some (status metrics), am_score := Some (stabilityScore metrics)\<rparr>
      in case k of Risk \<Rightarrow> m'\<lparr>am_riskAt := Some now\<rparr> | Recovery \<Rightarrow> m'\<lparr>am_recoveryAt := Some now\<rparr>)"

definition update_memory :: "state_update \<Rightarrow> alert_memory \<Rightarrow> alert_memory" where
  "update_memory upd m = \<lparr>am_status = or_else (su_notifiedStatus upd) (am_status m), am_score = or_else (su_notifiedScore upd) (am_score m),
     am_riskAt = or_else (su_riskAt upd) (am_riskAt m), am_recoveryAt = or_else (su_recoveryAt upd) (am_recoveryAt m)\<rparr>"

lemma alert_state_Some: "alert_state d u g = Some s \<Longrightarrow> as_userId s = u \<and> as_goalId s = g"
  unfolding alert_state_def by (drule find_first_Some) simp

lemma upsert_memory:
  assumes "upsert_state d u g metrics upd = (Inr (), d')"
  shows "alert_memory d' u' g' = (if u' = u \<and> g' = g then update_memory upd (alert_memory d u g) else alert_memory d u' g')"
proof (cases "alert_state d u g")
  case None
  then have d': "alertStates d' = create_row (created_state u g metrics upd) (alertStates d)"
    using assms by (auto simp: upsert_state_def split: if_splits)
  have "alert_state d' u g = Some (created_state u g metrics upd)"
    using None by (simp add: alert_state_def d' create_row_def find_first_def find_append_None created_state_def)
  moreover have "alert_state d' u' g' = alert_state d u' g'" if "\<not> (u' = u \<and> g' = g)"
    using that by (auto simp: alert_state_def d' create_row_def find_first_def created_state_def intro!: find_append_other)
  ultimately show ?thesis
    using None by (auto simp: alert_memory_def memory_of_def update_memory_def created_state_def or_else_def split: option.splits)
next
  case (Some s)
  then have d': "alertStates d' = update_many (\<lambda>s. as_userId s = u \<and> as_goalId s = g) (apply_update metrics upd) (alertStates d)"
    using assms by (auto simp: upsert_state_def)
  have "alert_state d' u' g' = map_option (\<lambda>s. if as_userId s = u \<and> as_goalId s = g then apply_update metrics upd s else s) (alert_state d u' g')"
    unfolding alert_state_def d' by (rule find_first_update) (simp add: apply_update_def)
  moreover have "alert_state d u' g' \<noteq> Some r" if "\<not> (u' = u \<and> g' = g)" "as_userId r = u" "as_goalId r = g" for r
    using that alert_state_Some by blast
  ultimately have "alert_state d' u' g' = (if u' = u \<and> g' = g then Some (apply_update metrics upd s) else alert_state d u' g')"
    using Some alert_state_Some [OF Some] by (cases "alert_state d u' g'") auto
  moreover have "memory_of (Some (apply_update metrics upd s)) = update_memory upd (memory_of (Some s))"
    by (simp add: memory_of_def update_memory_def apply_update_def or_else_def split: option.split)
  ultimately show ?thesis using Some by (simp add: alert_memory_def)
qed

lemma upsert_keeps:
  assumes "upsert_state d u g metrics upd = (res, d')"
  shows "jobs d' = jobs d" "goals d' = goals d" "users d' = users d" "res \<noteq> Inr () \<Longrightarrow> d' = d \<and> \<not> (user_exists d u \<and> goal_exists d g)"
  using assms by (auto simp: upsert_state_def split: option.splits if_splits)

lemma weekly_update_memory:
  "weekly_step z c rnd now d pref goal metrics state = (Inr upd, d') \<Longrightarrow> update_memory upd m = m"
  by (auto simp: weekly_step_def Let_def no_update_def update_memory_def or_else_def split: if_splits sum.splits prod.splits)

lemma alert_step_cases:
  assumes "alert_step c rnd now d pref goal metrics state upd = (res, d')" and "\<And>m. update_memory upd m = m"
  obtains (failed) err where "res = Inl err" "d' = d"
    | (quiet) upd' where "res = Inr upd'" "d' = d" "update_memory upd' (memory_of state) = memory_of state"
    | (baseline) upd' where "res = Inr upd'" "d' = d" "state = None" "status metrics = Stable"
        "update_memory upd' (memory_of state)
           = (memory_of state)\<lparr>am_status := Some Stable, am_score := Some (stabilityScore metrics)\<rparr>"
    | (sent) upd' k input b where "res = Inr upd'" "riskDecision (status metrics) (stabilityScore metrics) state now = Some k"
        "ap_riskAlertsEnabled pref" "publishReadinessAlert c rnd now d input = (Inr b, d')" "ri_type input = decision_type k"
        "ri_userId input = ap_userId pref" "ri_goalId input = gs_id goal"
        "ri_dedupeKey input = occurrence_key k (ap_userId pref) (gs_id goal) state metrics"
        "update_memory upd' (memory_of state) = sent_memory k now metrics (memory_of state)"
proof (cases "ap_riskAlertsEnabled pref")
  case False
  then have "res = Inr upd \<and> d' = d" using assms(1) by (simp add: alert_step_def)
  then show ?thesis using quiet assms(2) by blast
next
  case enabled: True
  show ?thesis
  proof (cases "riskDecision (status metrics) (stabilityScore metrics) state now")
    case None
    show ?thesis
    proof (cases "state = None \<and> status metrics = Stable")
      case True
      define upd' where "upd' = upd\<lparr>su_notifiedStatus := Some (status metrics), su_notifiedScore := Some (stabilityScore metrics)\<rparr>"
      have "res = Inr upd' \<and> d' = d" using assms(1) enabled None True by (simp add: alert_step_def upd'_def)
      moreover have "update_memory upd' (memory_of state)
          = (memory_of state)\<lparr>am_status := Some Stable, am_score := Some (stabilityScore metrics)\<rparr>"
        using assms(2) [of "memory_of state"] True by (simp add: upd'_def update_memory_def or_else_def memory_of_def)
      ultimately show ?thesis using True baseline by blast
    next
      case False
      then have "res = Inr upd \<and> d' = d" using assms(1) enabled None by (auto simp: alert_step_def)
      then show ?thesis using quiet assms(2) by blast
    qed
  next
    case (Some k)
    define input where "input = \<lparr>ri_type = decision_type k, ri_phone = user_phone d (ap_userId pref),
      ri_body = (case k of Risk \<Rightarrow> riskBody (gs_name goal) (status metrics) (stabilityScore metrics)
                  | Recovery \<Rightarrow> recoveryBody (gs_name goal) (stabilityScore metrics)),
      ri_userId = ap_userId pref, ri_goalId = gs_id goal,
      ri_dedupeKey = occurrence_key k (ap_userId pref) (gs_id goal) state metrics\<rparr>"
    define upd0 where "upd0 = upd\<lparr>su_notifiedStatus := Some (status metrics), su_notifiedScore := Some (stabilityScore metrics)\<rparr>"
    define upd' where "upd' = (case k of Risk \<Rightarrow> upd0\<lparr>su_riskAt := Some now\<rparr> | Recovery \<Rightarrow> upd0\<lparr>su_recoveryAt := Some now\<rparr>)"
    obtain r d1 where p: "publishReadinessAlert c rnd now d input = (r, d1)" by fastforce
    have e: "alert_step c rnd now d pref goal metrics state upd = (case r of Inl err \<Rightarrow> Inl err | Inr _ \<Rightarrow> Inr upd', d1)"
      using enabled Some p [unfolded input_def] by (cases r; cases k) (simp_all add: alert_step_def upd'_def upd0_def Let_def)
    have m: "update_memory upd' (memory_of state) = sent_memory k now metrics (memory_of state)"
      using assms(2) [of "memory_of state"]
      by (cases k) (auto simp: upd'_def upd0_def sent_memory_def update_memory_def or_else_def memory_of_def Let_def)
    show ?thesis
    proof (cases r)
      case (Inl err)
      have "d1 = d" using p Inl by (cases rule: publish_cases) auto
      then show ?thesis using Inl e assms(1) failed by simp
    next
      case (Inr b)
      have "res = Inr upd'" "d' = d1" using e assms(1) Inr by simp_all
      then show ?thesis
        using sent [of upd' k input b] Some enabled p m Inr by (simp add: input_def)
    qed
  qed
qed

text \<open>The stages of an evaluation that finds an enabled channel and an active goal.\<close>

lemma evaluate_cases:
  assumes "evaluateUser z c rnd now d u = (res, d')"
  obtains (quiet) "alertStates d' = alertStates d" "goals d' = goals d" "\<forall>k \<in> job_keys d' - job_keys d. take 5 k \<noteq> js ''risk.''" "d' = d \<or> res \<noteq> Inr ()"
    | (evaluated) pref goal metrics saved bal upd d1 upd' d2 where
        "preference_of d u = Some pref" "getStability d u now = Snapshot goal metrics saved bal"
        "weekly_step z c (er_weekly rnd) now d pref goal metrics (alert_state d u (gs_id goal)) = (Inr upd, d1)"
        "alert_step c (er_alert rnd) now d1 pref goal metrics (alert_state d u (gs_id goal)) upd = (Inr upd', d2)"
        "upsert_state d2 u (gs_id goal) metrics upd' = (res, d')"
proof (cases "preference_of d u")
  case None
  then show ?thesis using assms quiet by (simp add: evaluateUser_def)
next
  case pref: (Some pref)
  show ?thesis
  proof (cases "\<not> ap_weeklySummaryEnabled pref \<and> \<not> ap_riskAlertsEnabled pref")
    case True
    then show ?thesis using assms quiet pref by (simp add: evaluateUser_def)
  next
    case on: False
    show ?thesis
    proof (cases "getStability d u now")
      case (NoActiveGoal m)
      then show ?thesis using assms quiet pref on by (auto simp: evaluateUser_def)
    next
      case snap: (Snapshot goal metrics saved bal)
      let ?st = "alert_state d u (gs_id goal)"
      obtain r1 d1 where w: "weekly_step z c (er_weekly rnd) now d pref goal metrics ?st = (r1, d1)" by fastforce
      note kept = weekly_step_keeps [OF w]
      show ?thesis
      proof (cases r1)
        case (Inl err)
        then have "res = Inl err" "d' = d1" using assms pref on snap w by (auto simp: evaluateUser_def)
        then show ?thesis using quiet kept by simp
      next
        case (Inr upd)
        obtain r2 d2 where a: "alert_step c (er_alert rnd) now d1 pref goal metrics ?st upd = (r2, d2)" by fastforce
        show ?thesis
        proof (cases r2)
          case r2: (Inl err)
          have "d2 = d1" using a weekly_update_memory [OF w [unfolded Inr]] by (cases rule: alert_step_cases) (simp_all add: r2)
          moreover have "res = Inl err" "d' = d2" using assms pref on snap w Inr a r2 by (auto simp: evaluateUser_def)
          ultimately show ?thesis using quiet kept by simp
        next
          case r2: (Inr upd')
          have "upsert_state d2 u (gs_id goal) metrics upd' = (res, d')"
            using assms pref on snap w Inr a r2 by (auto simp: evaluateUser_def)
          then show ?thesis using evaluated [OF pref snap w [unfolded Inr] a [unfolded r2]] by blast
        qed
      qed
    qed
  qed
qed

section \<open>No two alerts share a key\<close>

definition alarmed :: "alert_memory \<Rightarrow> bool" where
  "alarmed m \<longleftrightarrow> am_status m = Some Warning \<or> am_status m = Some Critical"

definition memory_ok :: "ms \<Rightarrow> alert_memory \<Rightarrow> bool" where
  "memory_ok T m \<longleftrightarrow> am_status m = map_option score_status (am_score m)
     \<and> (\<forall>t. am_riskAt m = Some t \<or> am_recoveryAt m = Some t \<longrightarrow> t \<le> T \<and> clock_sane t)
     \<and> (am_recoveryAt m \<noteq> None \<longrightarrow> am_score m \<noteq> None) \<and> (alarmed m \<longrightarrow> am_riskAt m \<noteq> None)"

text \<open>What a key that was used says of the memory: its anchor lies in the past, and it is not the
  key of any alert that is still to come.\<close>

definition used_ok :: "ms \<Rightarrow> alert_memory \<Rightarrow> decision \<Rightarrow> ms option \<Rightarrow> int option \<Rightarrow> int \<Rightarrow> bool" where
  "used_ok T m k a psc csc \<longleftrightarrow> (\<forall>t. a = Some t \<longrightarrow> t \<le> T) \<and>
     (case k of
        Risk \<Rightarrow> (case am_recoveryAt m of
            Some t0 \<Rightarrow> a = Some t0 \<longrightarrow> (\<exists>s x. am_score m = Some s \<and> psc = Some x \<and> s \<le> csc \<and> csc < x)
          | None \<Rightarrow> (\<exists>t. am_riskAt m = Some t \<and> (\<forall>t'. a = Some t' \<longrightarrow> t' < t)))
      | Recovery \<Rightarrow> alarmed m \<longrightarrow> a \<noteq> am_riskAt m)"

definition next_anchor :: "decision \<Rightarrow> alert_memory \<Rightarrow> ms option" where
  "next_anchor k m = anchor_of k (am_riskAt m) (am_recoveryAt m)"

lemma decision_memory:
  assumes "riskDecision (score_status score) score state now = Some k"
  shows "k = Risk \<Longrightarrow> score_status score \<noteq> Stable"
    and "k = Risk \<Longrightarrow> memory_ok T (memory_of state) \<Longrightarrow> am_score (memory_of state) = Some s \<Longrightarrow> score < s"
    and "k = Recovery \<Longrightarrow> alarmed (memory_of state)"
    and "k = Recovery \<Longrightarrow> score_status score = Stable"
proof -
  show "k = Risk \<Longrightarrow> score_status score \<noteq> Stable" using assms riskDecision_Risk by blast
  show "score < s" if "k = Risk" and ok: "memory_ok T (memory_of state)" and s: "am_score (memory_of state) = Some s"
  proof -
    obtain b where b: "state = Some b" "as_lastNotifiedScore b = Some s" using s by (cases state) auto
    have "as_lastNotifiedStatus b = Some (score_status s)" using ok b by (simp add: memory_ok_def)
    then show ?thesis using riskDecision_Risk_lower [of score b now s] assms that(1) b by simp
  qed
  assume "k = Recovery"
  with assms have r: "score_status score = Stable" "\<exists>p. Option.bind state as_lastNotifiedStatus = Some p \<and> p \<noteq> Stable"
    by (simp_all add: riskDecision_Recovery)
  then show "score_status score = Stable" "alarmed (memory_of state)"
    unfolding alarmed_def memory_of_sel by (blast, metis stability_status.exhaust)
qed

text \<open>The key of the alert that is due now was not used.\<close>

lemma used_not_next:
  assumes "riskDecision (score_status score) score state now = Some k" and "memory_ok T (memory_of state)"
  shows "\<not> used_ok T (memory_of state) k (next_anchor k (memory_of state)) (am_score (memory_of state)) score"
proof (cases k)
  case Risk
  then show ?thesis using decision_memory(2) [OF assms(1) Risk assms(2)]
    by (cases "am_recoveryAt (memory_of state)")
      (auto simp: used_ok_def next_anchor_def anchor_of_def or_else_def)
next
  case Recovery
  then have "alarmed (memory_of state)" using decision_memory(3) [OF assms(1)] by simp
  moreover from this obtain t where "am_riskAt (memory_of state) = Some t" using assms(2) by (auto simp: memory_ok_def)
  ultimately show ?thesis using Recovery by (simp add: used_ok_def next_anchor_def anchor_of_def or_else_def)
qed

text \<open>Sending the alert keeps what was used apart from what is to come, and so does its own key.\<close>

lemma sent_used:
  assumes "riskDecision (status metrics) (stabilityScore metrics) state now = Some k"
    and st: "status metrics = score_status (stabilityScore metrics)"
    and ok: "memory_ok T (memory_of state)" and late: "T < now" and sane: "clock_sane now"
  defines "m' \<equiv> sent_memory k now metrics (memory_of state)"
  shows "memory_ok now m'"
    and "used_ok T (memory_of state) k' a psc csc \<Longrightarrow> used_ok now m' k' a psc csc"
    and "used_ok now m' k (next_anchor k (memory_of state)) (am_score (memory_of state)) (stabilityScore metrics)"
proof -
  let ?m = "memory_of state" and ?n = "stabilityScore metrics"
  note d = decision_memory [OF assms(1) [unfolded st]]
  have past: "t < now" if "am_riskAt ?m = Some t \<or> am_recoveryAt ?m = Some t" for t
    using ok that late unfolding memory_ok_def by (blast intro: le_less_trans)
  have m': "am_status m' = Some (score_status ?n)" "am_score m' = Some ?n"
    "am_riskAt m' = (if k = Risk then Some now else am_riskAt ?m)"
    "am_recoveryAt m' = (if k = Recovery then Some now else am_recoveryAt ?m)"
    unfolding m'_def by (cases k; simp add: sent_memory_def Let_def st)+
  have alarm: "alarmed m' \<Longrightarrow> k = Risk" using d(4) m'(1) by (cases k) (auto simp: alarmed_def)
  show "memory_ok now m'"
    unfolding memory_ok_def using ok past sane late alarm by (auto simp: m' memory_ok_def)
  have anchor: "t < now" if "next_anchor k ?m = Some t" for t
    using that past by (cases k) (auto simp: next_anchor_def anchor_of_def or_else_def split: option.splits)
  show "used_ok now m' k (next_anchor k ?m) (am_score ?m) ?n"
  proof (cases k)
    case Risk
    show ?thesis
    proof (cases "am_recoveryAt ?m")
      case None
      then show ?thesis using anchor Risk by (auto simp: used_ok_def m' less_imp_le)
    next
      case (Some t0)
      then obtain s where "am_score ?m = Some s" using ok by (auto simp: memory_ok_def)
      then show ?thesis using anchor Risk Some d(2) [OF Risk ok] by (auto simp: used_ok_def m' less_imp_le)
    qed
  next
    case Recovery
    then show ?thesis using anchor alarm by (auto simp: used_ok_def less_imp_le)
  qed
  assume u: "used_ok T ?m k' a psc csc"
  then have a: "t < now" if "a = Some t" for t using that late by (auto simp: used_ok_def)
  show "used_ok now m' k' a psc csc"
  proof (cases k')
    case Recovery
    then show ?thesis using a alarm by (auto simp: used_ok_def m' less_imp_le)
  next
    case Risk
    show ?thesis
    proof (cases k)
      case r: Risk
      show ?thesis
      proof (cases "am_recoveryAt ?m")
        case None
        then show ?thesis using a Risk r by (auto simp: used_ok_def m' less_imp_le)
      next
        case (Some t0)
        have "?n \<le> csc \<and> (\<exists>x. psc = Some x \<and> csc < x)" if "a = Some t0"
          using u that Some Risk d(2) [OF r ok] unfolding used_ok_def by (fastforce simp del: memory_of_sel)
        then show ?thesis using a Risk r Some by (auto simp: used_ok_def m' less_imp_le)
      qed
    next
      case Recovery
      then show ?thesis using a Risk by (auto simp: used_ok_def m' less_imp_le)
    qed
  qed
qed

definition keys_used_ok :: "ms \<Rightarrow> db \<Rightarrow> jstring \<Rightarrow> jstring \<Rightarrow> alert_memory \<Rightarrow> bool" where
  "keys_used_ok T d u g m \<longleftrightarrow>
     (\<forall>k ps psc cs csc r c. (\<forall>t. anchor_of k r c = Some t \<longrightarrow> clock_sane t) \<longrightarrow>
        alertOccurrenceKey k u g ps psc cs csc r c \<in> job_keys d \<longrightarrow> used_ok T m k (anchor_of k r c) psc csc)"

definition alerts_inv :: "ms \<Rightarrow> db \<Rightarrow> bool" where
  "alerts_inv T d \<longleftrightarrow> (\<forall>u g. memory_ok T (alert_memory d u g))
     \<and> (\<forall>u g. plain u \<longrightarrow> plain g \<longrightarrow> keys_used_ok T d u g (alert_memory d u g))"

lemma used_ok_later: "used_ok T m k a psc csc \<Longrightarrow> T \<le> T' \<Longrightarrow> used_ok T' m k a psc csc"
  unfolding used_ok_def by (blast intro: order_trans)

lemma memory_ok_later: "memory_ok T m \<Longrightarrow> T \<le> T' \<Longrightarrow> memory_ok T' m"
  unfolding memory_ok_def by (blast intro: order_trans)

lemma keys_used_ok_same:
  assumes "keys_used_ok T d u g m" and "T \<le> T'" and "\<forall>k \<in> job_keys d' - job_keys d. take 5 k \<noteq> js ''risk.''"
  shows "keys_used_ok T' d' u g m"
  unfolding keys_used_ok_def
proof (intro allI impI)
  fix k ps psc cs csc r c
  assume a: "\<forall>t. anchor_of k r c = Some t \<longrightarrow> clock_sane t" "alertOccurrenceKey k u g ps psc cs csc r c \<in> job_keys d'"
  then have "alertOccurrenceKey k u g ps psc cs csc r c \<in> job_keys d"
    using assms(3) occurrence_prefix by blast
  then show "used_ok T' m k (anchor_of k r c) psc csc"
    using assms(1) a(1) used_ok_later [OF _ assms(2)] unfolding keys_used_ok_def by blast
qed

lemma alerts_inv_same:
  assumes "alerts_inv T d" and "T \<le> T'" and "alertStates d' = alertStates d"
    and "\<forall>k \<in> job_keys d' - job_keys d. take 5 k \<noteq> js ''risk.''"
  shows "alerts_inv T' d'"
proof -
  have "alert_memory d' u g = alert_memory d u g" for u g by (simp add: alert_memory_def alert_state_def assms(3))
  moreover have "memory_ok T' (alert_memory d u g)" for u g
    using assms(1,2) memory_ok_later unfolding alerts_inv_def by blast
  moreover have "keys_used_ok T' d' u g (alert_memory d u g)" if "plain u" "plain g" for u g
    by (rule keys_used_ok_same [OF _ assms(2,4)]) (use assms(1) that in \<open>simp add: alerts_inv_def\<close>)
  ultimately show ?thesis unfolding alerts_inv_def by simp
qed

lemma memory_ok_baseline:
  "memory_ok now ((memory_of None)\<lparr>am_status := Some Stable, am_score := Some n\<rparr>) \<longleftrightarrow> score_status n = Stable"
  by (auto simp: memory_ok_def memory_of_def alarmed_def)

lemma used_ok_baseline:
  "used_ok T (memory_of None) k a psc csc \<Longrightarrow> T \<le> now \<Longrightarrow>
   used_ok now ((memory_of None)\<lparr>am_status := Some Stable, am_score := Some n\<rparr>) k a psc csc"
  by (auto simp: used_ok_def alarmed_def split: decision.splits)

lemma getStability_goal:
  assumes "getStability d u now = Snapshot goal metrics saved bal"
  shows "status metrics = score_status (stabilityScore metrics)" "\<exists>g \<in> set (goals d). g_id g = gs_id goal"
    "goal_exists d (gs_id goal)"
proof -
  obtain g where g: "active_goal d u = Some g" using assms by (cases "active_goal d u") (simp_all add: getStability_def)
  show "status metrics = score_status (stabilityScore metrics)"
    using assms g by (auto simp: getStability_def Let_def computeStability_sel(7))
  have "g \<in> set (goals d)" using find_first_by_Some(1) g unfolding active_goal_def by fast
  moreover have "g_id g = gs_id goal" using assms g by (auto simp: getStability_def Let_def)
  ultimately show "\<exists>g \<in> set (goals d). g_id g = gs_id goal" "goal_exists d (gs_id goal)"
    by (auto simp: goal_exists_def list_ex_iff)
qed

text \<open>The memory of a user and goal after an evaluation that went through, and the keys.\<close>

lemma alerts_inv_upsert:
  assumes inv: "alerts_inv T d" and up: "upsert_state d2 u g metrics upd = (Inr (), d')"
    and states: "alertStates d2 = alertStates d" and late: "T < now"
    and mem: "memory_ok now (update_memory upd (alert_memory d u g))"
    and here: "plain u \<Longrightarrow> plain g \<Longrightarrow> keys_used_ok now d2 u g (update_memory upd (alert_memory d u g))"
    and others: "\<And>u' g'. plain u' \<Longrightarrow> plain g' \<Longrightarrow> \<not> (u' = u \<and> g' = g) \<Longrightarrow> keys_used_ok now d2 u' g' (alert_memory d u' g')"
  shows "alerts_inv now d'"
proof -
  have "alert_memory d2 u' g' = alert_memory d u' g'" for u' g' by (simp add: alert_memory_def alert_state_def states)
  note m = upsert_memory [OF up, unfolded this]
  have "keys_used_ok now d' u' g' n \<longleftrightarrow> keys_used_ok now d2 u' g' n" for u' g' n
    by (simp add: keys_used_ok_def job_keys_def upsert_keeps(1) [OF up])
  moreover have "memory_ok now (alert_memory d u' g')" for u' g'
    using inv late memory_ok_later [of T _ now] unfolding alerts_inv_def by simp
  ultimately show ?thesis
    using mem here others unfolding alerts_inv_def m by simp
qed

lemma preference_user: "preference_of d u = Some pref \<Longrightarrow> ap_userId pref = u"
  unfolding preference_of_def by (drule find_first_Some) simp

lemma anchor_sane:
  assumes "memory_ok T m"
  shows "next_anchor k m = Some t \<Longrightarrow> clock_sane t"
  using assms by (cases k) (auto simp: next_anchor_def anchor_of_def or_else_def memory_ok_def split: option.splits)

lemma occurrence_key_memory:
  "occurrence_key k u g state metrics = alertOccurrenceKey k u g (am_status (memory_of state)) (am_score (memory_of state))
     (status metrics) (stabilityScore metrics) (am_riskAt (memory_of state)) (am_recoveryAt (memory_of state))"
  by (simp add: occurrence_key_def)

text \<open>The key of an alert that was just sent, among the keys.\<close>

lemma keys_after_sent:
  assumes keys: "job_keys d2 \<subseteq> insert (occurrence_key k u g state metrics) (job_keys d1)"
    and d1: "\<forall>k \<in> job_keys d1 - job_keys d. take 5 k \<noteq> js ''risk.''"
    and ok: "memory_ok T (memory_of state)" and plain: "plain u" "plain g" "plain u'" "plain g'"
    and used: "keys_used_ok T d u' g' m"
    and old: "\<And>k' a psc csc. used_ok T m k' a psc csc \<Longrightarrow> used_ok now m' k' a psc csc"
    and new: "u' = u \<and> g' = g \<Longrightarrow> used_ok now m' k (next_anchor k (memory_of state)) (am_score (memory_of state)) (stabilityScore metrics)"
  shows "keys_used_ok now d2 u' g' m'"
  unfolding keys_used_ok_def
proof (intro allI impI)
  fix k' ps psc cs csc r c
  assume a: "\<forall>t. anchor_of k' r c = Some t \<longrightarrow> clock_sane t"
    and "alertOccurrenceKey k' u' g' ps psc cs csc r c \<in> job_keys d2" (is "?key \<in> _")
  then have "?key = occurrence_key k u g state metrics \<or> ?key \<in> job_keys d1" using keys by blast
  moreover have "?key \<in> job_keys d" if "?key \<in> job_keys d1" using that d1 occurrence_prefix by blast
  ultimately consider (old) "?key \<in> job_keys d" | (new) "occurrence_key k u g state metrics = ?key" by fastforce
  then show "used_ok now m' k' (anchor_of k' r c) psc csc"
  proof cases
    case old
    then show ?thesis using used a assms(9) unfolding keys_used_ok_def by blast
  next
    case new
    have "k = k' \<and> u = u' \<and> g = g' \<and> next_anchor k (memory_of state) = anchor_of k' r c
        \<and> am_score (memory_of state) = psc \<and> stabilityScore metrics = csc"
      unfolding next_anchor_def
      by (rule occurrence_key_inject [OF plain _ _ new [unfolded occurrence_key_memory]])
        (use anchor_sane [OF ok, unfolded next_anchor_def] a in blast)+
    then have e: "k' = k" "u' = u" "g' = g" "anchor_of k' r c = next_anchor k (memory_of state)" "psc = am_score (memory_of state)"
        "csc = stabilityScore metrics"
      by (blast intro: sym)+
    show ?thesis unfolding e(4-6) using assms(10) [OF conjI [OF e(2,3)]] by (simp only: e(1))
  qed
qed

lemma evaluate_inv:
  assumes inv: "alerts_inv T d" and eval: "evaluateUser z c rnd now d u = (res, d')" and late: "T < now" and sane: "clock_sane now"
    and plain: "plain u" "\<forall>g \<in> set (goals d). plain (g_id g)"
  shows "alerts_inv now d'"
  using eval
proof (cases rule: evaluate_cases)
  case quiet
  then show ?thesis using alerts_inv_same [OF inv less_imp_le [OF late]] by blast
next
  case (evaluated pref goal metrics saved bal upd d1 upd' d2)
  let ?g = "gs_id goal" and ?st = "alert_state d u (gs_id goal)"
  note stab = getStability_goal [OF evaluated(2)]
  note w = weekly_step_keeps [OF evaluated(3)] and up = upsert_keeps [OF evaluated(5)]
  have g: "plain ?g" using stab(2) plain(2) by auto
  have mem: "memory_of ?st = alert_memory d u ?g" by (simp add: alert_memory_def)
  have ok: "memory_ok T (memory_of ?st)" using inv by (simp add: mem alerts_inv_def)
  have used: "keys_used_ok T d u' g' (alert_memory d u' g')" if "plain u'" "plain g'" for u' g'
    using inv that by (simp add: alerts_inv_def)
  have unchanged: ?thesis if "d2 = d1" "res \<noteq> Inr ()"
    using alerts_inv_same [OF inv less_imp_le [OF late] w(1,4)] up(4) [OF that(2)] that(1) by simp
  have others: "keys_used_ok now d2 u' g' (alert_memory d u' g')" if "d2 = d1" "plain u'" "plain g'" for u' g'
    using keys_used_ok_same [OF used [OF that(2,3)] less_imp_le [OF late] w(4)] that(1) by simp
  have unit: "res = Inr ()" if "\<not> res \<noteq> Inr ()" using that by simp
  from evaluated(4) weekly_update_memory [OF evaluated(3)] show ?thesis
  proof (cases rule: alert_step_cases)
    case (quiet upd'')
    show ?thesis
    proof (cases "res = Inr ()")
      case True
      show ?thesis
        by (rule alerts_inv_upsert [OF inv evaluated(5) [unfolded True] _ late])
          (use quiet w(1) mem ok others [OF quiet(2)] memory_ok_later [OF ok less_imp_le [OF late]] in simp_all)
    qed (use unchanged quiet(2) in blast)
  next
    case (baseline upd'')
    show ?thesis
    proof (cases "res = Inr ()")
      case True
      have base: "update_memory upd' (alert_memory d u ?g) = (memory_of None)\<lparr>am_status := Some Stable, am_score := Some (stabilityScore metrics)\<rparr>"
        using baseline(1,3,5) mem by simp
      have "keys_used_ok now d2 u ?g ((memory_of None)\<lparr>am_status := Some Stable, am_score := Some (stabilityScore metrics)\<rparr>)"
        using others [OF baseline(2) plain(1) g] used_ok_baseline [OF _ order_refl] mem baseline(3)
        unfolding keys_used_ok_def by simp
      then show ?thesis
        by (intro alerts_inv_upsert [OF inv evaluated(5) [unfolded True] _ late])
          (use baseline(2,4) w(1) others [OF baseline(2)] stab(1) in \<open>simp_all add: base memory_ok_baseline\<close>)
    qed (use unchanged baseline(2) in blast)
  next
    case (sent upd'' k input b)
    have u: "ap_userId pref = u" by (rule preference_user [OF evaluated(1)])
    note p = publish_keeps [OF sent(4)]
    note s = sent_used [OF sent(2) stab(1) ok late sane]
    have keys: "job_keys d2 \<subseteq> insert (occurrence_key k u ?g ?st metrics) (job_keys d1)"
      using p(4) by (simp add: sent(8) u)
    show ?thesis
    proof (cases "res = Inr ()")
      case True
      show ?thesis
      proof (rule alerts_inv_upsert [OF inv evaluated(5) [unfolded True] _ late])
        show "alertStates d2 = alertStates d" by (simp add: p w)
        show "memory_ok now (update_memory upd' (alert_memory d u ?g))" using s(1) sent(1,9) mem by simp
        show "keys_used_ok now d2 u ?g (update_memory upd' (alert_memory d u ?g))"
          using keys_after_sent [OF keys w(4) ok plain(1) g plain(1) g used [OF plain(1) g], of now "sent_memory k now metrics (memory_of ?st)"]
            s(2,3) sent(1,9) mem by simp
        show "keys_used_ok now d2 u' g' (alert_memory d u' g')" if "plain u'" "plain g'" "\<not> (u' = u \<and> g' = ?g)" for u' g'
          using keys_after_sent [OF keys w(4) ok plain(1) g that(1,2) used [OF that(1,2)], of now "alert_memory d u' g'"]
            that(3) used_ok_later [OF _ less_imp_le [OF late]] by blast
      qed
    next
      case False
      then have no_user: "\<not> user_exists d1 u" using up(4) stab(3) by (simp add: p w goal_exists_def user_exists_def)
      have "d2 = d1" using sent(4) no_user by (cases rule: publish_cases) (simp_all add: sent(6) u)
      then show ?thesis using unchanged False by blast
    qed
  qed (use evaluated in simp)
qed

lemma alerts_run_inv:
  assumes "(alerts_step z c)\<^sup>*\<^sup>* (T0, d0) (T, d)" and "alertStates d0 = []" and "\<forall>k \<in> job_keys d0. take 5 k \<noteq> js ''risk.''"
  shows "alerts_inv T d"
  using assms(1)
proof (induction "(T, d)" arbitrary: T d rule: rtranclp_induct)
  case base
  then show ?case
    using assms(2,3) occurrence_prefix
    by (auto simp: alerts_inv_def keys_used_ok_def alert_memory_def alert_state_def find_first_def memory_of_def memory_ok_def alarmed_def)
next
  case (step y)
  obtain t e where y: "y = (t, e)" by fastforce
  from step(2) [unfolded y] show ?case
  proof cases
    case (evaluated rnd userId res)
    then show ?thesis using evaluate_inv [OF step(3) [OF y]] by blast
  next
    case other
    then show ?thesis using alerts_inv_same [OF step(3) [OF y]] by blast
  qed
qed

section \<open>The alerts follow an alarm\<close>

text \<open>
  What a customer may rely on, for one goal: the alarm is off, or on since the last risk alert.
  A risk alert turns it on, or repeats it when a day has passed; a recovery message turns it off;
  without a message it stays as it is.
\<close>

datatype alarm = Calm | Alarmed ms

inductive alarm_step :: "ms \<Rightarrow> decision option \<Rightarrow> alarm \<Rightarrow> alarm \<Rightarrow> bool" for now where
  stay: "alarm_step now None a a"
| raise: "alarm_step now (Some Risk) Calm (Alarmed now)"
| repeat: "t + RISK_COOLDOWN_MS \<le> now \<Longrightarrow> alarm_step now (Some Risk) (Alarmed t) (Alarmed now)"
| clear: "alarm_step now (Some Recovery) (Alarmed t) Calm"

inductive_simps alarm_step_quiet: "alarm_step now None a b"
inductive_simps alarm_step_risk: "alarm_step now (Some Risk) a b"
inductive_simps alarm_step_recovery: "alarm_step now (Some Recovery) a b"

definition alarm_of :: "alert_memory \<Rightarrow> alarm" where
  "alarm_of m = (if alarmed m then Alarmed (case am_riskAt m of None \<Rightarrow> 0 | Some t \<Rightarrow> t) else Calm)"

text \<open>The alerts that a step has queued for a user and goal.\<close>

definition queued_alerts :: "db \<Rightarrow> db \<Rightarrow> jstring \<Rightarrow> jstring \<Rightarrow> jstring list" where
  "queued_alerts d d' u g = map j_type (filter (\<lambda>j. j_id j \<notin> j_id ` set (jobs d) \<and> j_userId j = Some u \<and> j_goalId j = Some g
     \<and> j_type j \<in> {decision_type Risk, decision_type Recovery}) (jobs d'))"

lemma queued_alerts_append:
  "jobs d' = jobs d @ new \<Longrightarrow> queued_alerts d d' u g = map j_type (filter (\<lambda>j. j_id j \<notin> j_id ` set (jobs d)
     \<and> j_userId j = Some u \<and> j_goalId j = Some g \<and> j_type j \<in> {decision_type Risk, decision_type Recovery}) new)"
  unfolding queued_alerts_def by (simp add: filter_empty_conv)

lemma alert_job_fields [simp]:
  "j_id (alert_job rnd now input sealed) = pr_jobId rnd" "j_type (alert_job rnd now input sealed) = ri_type input"
  "j_userId (alert_job rnd now input sealed) = Some (ri_userId input)" "j_goalId (alert_job rnd now input sealed) = Some (ri_goalId input)"
  "j_dedupeKey (alert_job rnd now input sealed) = Some (ri_dedupeKey input)" "j_status (alert_job rnd now input sealed) = Pending"
  by (simp_all add: alert_job_def new_job_def)

lemma weekly_jobs:
  assumes "weekly_step z c rnd now d pref goal metrics state = (res, d')"
  obtains new where "jobs d' = jobs d @ new" "\<forall>j \<in> set new. j_type j = js ''weekly.summary'' \<and> j_id j = pr_jobId rnd"
  using assms
proof (cases rule: weekly_step_cases)
  case quiet
  then show ?thesis using that [of "[]"] by simp
next
  case (sent input r key)
  from sent(1) show ?thesis
  proof (cases rule: publish_cases)
    case (added sealed)
    then show ?thesis using that [of "[alert_job rnd now input sealed]"] sent(3) by (simp add: create_row_def)
  qed (use that [of "[]"] in simp_all)
qed

lemma alarm_of_sent:
  assumes "riskDecision (status metrics) (stabilityScore metrics) state now = Some k"
    and "status metrics = score_status (stabilityScore metrics)" and ok: "memory_ok T (memory_of state)"
  shows "alarm_step now (Some k) (alarm_of (memory_of state)) (alarm_of (sent_memory k now metrics (memory_of state)))"
proof (cases k)
  case Risk
  have ns: "status metrics \<noteq> Stable" and cool: "case Option.bind state as_lastRiskAlertAt of None \<Rightarrow> True | Some t \<Rightarrow> t + RISK_COOLDOWN_MS \<le> now"
    using riskDecision_Risk [of "status metrics" "stabilityScore metrics" state now] assms(1) Risk by simp_all
  have "alarmed (sent_memory k now metrics (memory_of state))"
    using ns Risk by (cases "status metrics") (simp_all add: alarmed_def sent_memory_def Let_def)
  then have on: "alarm_of (sent_memory k now metrics (memory_of state)) = Alarmed now"
    using Risk by (simp add: alarm_of_def sent_memory_def Let_def)
  show ?thesis
  proof (cases "alarmed (memory_of state)")
    case True
    then obtain t where "am_riskAt (memory_of state) = Some t" using ok by (auto simp: memory_ok_def)
    then show ?thesis using on True cool Risk by (simp add: alarm_of_def alarm_step_risk)
  next
    case False
    then show ?thesis using on Risk by (simp add: alarm_of_def alarm_step_risk)
  qed
next
  case Recovery
  then have "alarmed (memory_of state)" "status metrics = Stable"
    using decision_memory(3,4) [OF assms(1) [unfolded assms(2)]] assms(2) by simp_all
  then show ?thesis using Recovery by (simp add: alarm_step_recovery alarm_of_def alarmed_def sent_memory_def Let_def)
qed

text \<open>The alert that is due reaches the queue: its key was never used.\<close>

lemma due_alert_queued:
  assumes inv: "alerts_inv T d" and "plain u" "plain g"
    and d1: "\<forall>k \<in> job_keys d1 - job_keys d. take 5 k \<noteq> js ''risk.''" and fresh: "pr_jobId rnd \<notin> j_id ` set (jobs d1)"
    and dec: "riskDecision (status metrics) (stabilityScore metrics) (alert_state d u g) now = Some k"
    and st: "status metrics = score_status (stabilityScore metrics)"
    and p: "publishReadinessAlert c rnd now d1 input = (Inr b, d2)"
    and key: "ri_dedupeKey input = occurrence_key k u g (alert_state d u g) metrics"
  obtains sealed where "jobs d2 = jobs d1 @ [alert_job rnd now input sealed]"
proof -
  let ?m = "memory_of (alert_state d u g)"
  have ok: "memory_ok T ?m" and used: "keys_used_ok T d u g ?m"
    using inv assms(2,3) by (simp_all add: alerts_inv_def alert_memory_def)
  have "ri_dedupeKey input \<notin> job_keys d"
    using used used_not_next [OF dec [unfolded st] ok] anchor_sane [OF ok, of k]
    unfolding key occurrence_key_memory keys_used_ok_def next_anchor_def by blast
  moreover have "take 5 (ri_dedupeKey input) = js ''risk.''" by (simp add: key occurrence_key_memory occurrence_prefix)
  ultimately have "ri_dedupeKey input \<notin> job_keys d1" using d1 by blast
  then have none: "\<not> (\<exists>q \<in> set (jobs d1). j_id q = pr_jobId rnd \<or> j_dedupeKey q = Some (ri_dedupeKey input))"
    using fresh by (force simp: job_keys_def)
  from p show ?thesis
  proof (cases rule: publish_cases)
    case (added sealed)
    then show ?thesis using that by (simp add: create_row_def)
  qed (use none in blast)+
qed

text \<open>What an evaluation that succeeds does to the alarms: nothing, or the message of one.\<close>

lemma evaluation_outcome:
  assumes inv: "alerts_inv T d" and "evaluateUser z c rnd now d u = (Inr (), d')"
    and "plain u" and "\<forall>g \<in> set (goals d). plain (g_id g)" and "T < now" and "clock_sane now"
    and "pr_jobId (er_weekly rnd) \<noteq> pr_jobId (er_alert rnd)" and "pr_jobId (er_alert rnd) \<notin> j_id ` set (jobs d)"
  obtains (silent) "\<And>u' g'. alarm_of (alert_memory d' u' g') = alarm_of (alert_memory d u' g')" "\<And>u' g'. queued_alerts d d' u' g' = []"
  | (message) k g where "alarm_step now (Some k) (alarm_of (alert_memory d u g)) (alarm_of (alert_memory d' u g))"
      "\<And>u' g'. queued_alerts d d' u' g' = (if u' = u \<and> g' = g then [decision_type k] else [])"
      "\<And>u' g'. \<not> (u' = u \<and> g' = g) \<Longrightarrow> alert_memory d' u' g' = alert_memory d u' g'"
  using assms(2)
proof (cases rule: evaluate_cases)
  case quiet
  then show ?thesis by (intro silent) (auto simp: queued_alerts_def filter_empty_conv)
next
  case (evaluated pref goal metrics saved bal upd d1 upd' d2)
  let ?g = "gs_id goal" and ?st = "alert_state d u (gs_id goal)"
  note stab = getStability_goal [OF evaluated(2)]
  note w = weekly_step_keeps [OF evaluated(3)] and up = upsert_keeps [OF evaluated(5)]
  have g: "plain ?g" using stab(2) assms(4) by auto
  have mem: "memory_of ?st = alert_memory d u ?g" by (simp add: alert_memory_def)
  have ok: "memory_ok T (memory_of ?st)" using inv by (simp add: mem alerts_inv_def)
  obtain new where new: "jobs d1 = jobs d @ new" "\<forall>j \<in> set new. j_type j = js ''weekly.summary'' \<and> j_id j = pr_jobId (er_weekly rnd)"
    using weekly_jobs [OF evaluated(3)] by blast
  have weekly: "filter (\<lambda>j. j_id j \<notin> j_id ` set (jobs d) \<and> j_userId j = Some u' \<and> j_goalId j = Some g'
      \<and> j_type j \<in> {decision_type Risk, decision_type Recovery}) new = []" for u' g'
    using new(2) by (simp add: filter_empty_conv)
  have after: "alert_memory d' u' g' = (if u' = u \<and> g' = ?g then update_memory upd' (alert_memory d u ?g) else alert_memory d u' g')"
    if "alertStates d2 = alertStates d" for u' g'
    using upsert_memory [OF evaluated(5), of u' g'] that by (simp add: alert_memory_def alert_state_def)
  have unsent: "queued_alerts d d' u' g' = []" if "d2 = d1" for u' g'
    using queued_alerts_append [of d' d new u' g'] weekly new(1) that by (simp add: up(1))
  from evaluated(4) weekly_update_memory [OF evaluated(3)] show ?thesis
  proof (cases rule: alert_step_cases)
    case (quiet upd'')
    then show ?thesis using after w(1) mem unsent by (intro silent) simp_all
  next
    case (baseline upd'')
    have "alert_memory d u ?g = memory_of None" using mem baseline(3) by simp
    moreover have "alert_memory d' u' g' = (if u' = u \<and> g' = ?g then update_memory upd' (memory_of ?st) else alert_memory d u' g')" for u' g'
      using after w(1) baseline(2) mem by simp
    ultimately have "alarm_of (alert_memory d' u' g') = alarm_of (alert_memory d u' g')" for u' g'
      using baseline(1,5) by (simp add: alarm_of_def alarmed_def)
    then show ?thesis using unsent baseline(2) by (intro silent) simp_all
  next
    case (sent upd'' k input b)
    have u: "ap_userId pref = u" by (rule preference_user [OF evaluated(1)])
    have "pr_jobId (er_alert rnd) \<notin> j_id ` set (jobs d1)" using new assms(7,8) by auto
    from due_alert_queued [OF inv assms(3) g w(4) this sent(2) stab(1) sent(4)] obtain sealed where
      jobs: "jobs d2 = jobs d1 @ [alert_job (er_alert rnd) now input sealed]" using sent(8) u by auto
    have q: "queued_alerts d d' u' g' = (if u' = u \<and> g' = ?g then [decision_type k] else [])" for u' g'
      using queued_alerts_append [of d' d "new @ [alert_job (er_alert rnd) now input sealed]" u' g'] weekly new(1) jobs assms(8) sent(5-7) u
      by (cases k) (auto simp: up(1))
    have memory: "alert_memory d' u' g' = (if u' = u \<and> g' = ?g then sent_memory k now metrics (memory_of ?st) else alert_memory d u' g')" for u' g'
      using after publish_keeps(1) [OF sent(4)] w(1) sent(1,9) mem by simp
    show ?thesis
      using alarm_of_sent [OF sent(2) stab(1) ok] q memory mem by (intro message [of k ?g]) (auto simp: assms(5,6))
  qed simp
qed

text \<open>
  C15. The alerts of a customer follow the alarm, in every history of evaluations at increasing
  instants and of anything else that does not touch alert states: each evaluation that succeeds
  makes one step of the alarm of its goal and leaves every other alarm alone, and the alerts it
  has put into the queue are exactly the message of that step -- none is lost to the
  deduplication by key, none is sent twice, and two risk alerts are a day apart.
\<close>

theorem alerts_refine_alarm:
  assumes "(alerts_step z c)\<^sup>*\<^sup>* (T0, d0) (T, d)" and "alertStates d0 = []" and "\<forall>k \<in> job_keys d0. take 5 k \<noteq> js ''risk.''"
    and "evaluateUser z c rnd now d u = (Inr (), d')" and "T < now" and "clock_sane now"
    and "plain u" and "\<forall>g \<in> set (goals d). plain (g_id g)"
    and "pr_jobId (er_weekly rnd) \<noteq> pr_jobId (er_alert rnd)" and "pr_jobId (er_alert rnd) \<notin> j_id ` set (jobs d)"
  shows "\<exists>m. alarm_step now m (alarm_of (alert_memory d u' g')) (alarm_of (alert_memory d' u' g'))
     \<and> queued_alerts d d' u' g' = (case m of None \<Rightarrow> [] | Some k \<Rightarrow> [decision_type k])"
  using alerts_run_inv [OF assms(1-3)] assms(4,7,8,5,6,9,10)
proof (cases rule: evaluation_outcome)
  case silent
  then show ?thesis by (auto intro: alarm_step.stay intro!: exI [of _ None])
next
  case (message k g)
  show ?thesis
  proof (cases "u' = u \<and> g' = g")
    case True
    with message(1,2) show ?thesis by (intro exI [of _ "Some k"]) simp
  next
    case False
    with message(2,3) show ?thesis by (intro exI [of _ None]) (auto intro: alarm_step.stay)
  qed
qed

section \<open>One weekly summary a week\<close>

lemma upsert_weekly_key:
  assumes "upsert_state d u g metrics upd = (Inr (), d')"
  shows "Option.bind (alert_state d' u g) as_lastWeeklySummaryKey
     = or_else (su_weeklyKey upd) (Option.bind (alert_state d u g) as_lastWeeklySummaryKey)"
proof (cases "alert_state d u g")
  case None
  then have d': "alertStates d' = create_row (created_state u g metrics upd) (alertStates d)"
    using assms by (auto simp: upsert_state_def split: if_splits)
  have "alert_state d' u g = Some (created_state u g metrics upd)"
    using None by (simp add: alert_state_def d' create_row_def find_first_def find_append_None created_state_def)
  then show ?thesis using None by (simp add: created_state_def or_else_def split: option.split)
next
  case (Some s)
  then have d': "alertStates d' = update_many (\<lambda>s. as_userId s = u \<and> as_goalId s = g) (apply_update metrics upd) (alertStates d)"
    using assms by (auto simp: upsert_state_def)
  have "alert_state d' u g = map_option (\<lambda>s. if as_userId s = u \<and> as_goalId s = g then apply_update metrics upd s else s) (alert_state d u g)"
    unfolding alert_state_def d' by (rule find_first_update) (simp add: apply_update_def)
  then show ?thesis using Some alert_state_Some [OF Some] by (simp add: apply_update_def)
qed

lemma weekly_step_records:
  assumes "weekly_step z c rnd now d pref goal metrics state = (Inr upd, d')" and "ap_weeklySummaryEnabled pref"
    and "wd_due (weeklySchedule (tz_offset z) now (ap_timeZone pref) (ap_weeklyDay pref) (ap_weeklyHourLocal pref))"
  shows "or_else (su_weeklyKey upd) (Option.bind state as_lastWeeklySummaryKey)
     = Some (wd_key (weeklySchedule (tz_offset z) now (ap_timeZone pref) (ap_weeklyDay pref) (ap_weeklyHourLocal pref)))"
  using assms by (auto simp: weekly_step_def Let_def no_update_def or_else_def split: if_splits sum.splits prod.splits)

lemma alert_step_weekly_key:
  "alert_step c rnd now d pref goal metrics state upd = (Inr upd', d') \<Longrightarrow> su_weeklyKey upd' = su_weeklyKey upd"
  by (auto simp: alert_step_def Let_def split: if_splits option.splits sum.splits prod.splits decision.splits)

lemma alert_step_keeps:
  assumes "alert_step c rnd now d pref goal metrics state upd = (res, d')" and "\<And>m. update_memory upd m = m"
  shows "alertStates d' = alertStates d"
  using assms by (cases rule: alert_step_cases) (simp_all add: publish_keeps)

lemma alert_step_jobs:
  assumes "alert_step c rnd now d pref goal metrics state upd = (res, d')" and "\<And>m. update_memory upd m = m" and "j \<in> set (jobs d')"
  shows "j \<in> set (jobs d) \<or> j_type j \<noteq> js ''weekly.summary''"
  using assms(1,2)
proof (cases rule: alert_step_cases)
  case (sent upd'' k input b)
  from sent(4) show ?thesis
  proof (cases rule: publish_cases)
    case (added sealed)
    then show ?thesis using assms(3) sent(5) by (cases k) (auto simp: create_row_def)
  qed (use assms(3) in simp_all)
qed (use assms(3) in simp_all)

text \<open>The first evaluation of a week records its key.\<close>

lemma weekly_key_recorded:
  assumes "evaluateUser z c rnd now d u = (Inr (), d1)" and "preference_of d u = Some pref" and "ap_weeklySummaryEnabled pref"
    and "getStability d u now = Snapshot goal metrics saved bal"
    and "wd_due (weeklySchedule (tz_offset z) now (ap_timeZone pref) (ap_weeklyDay pref) (ap_weeklyHourLocal pref))"
  shows "Option.bind (alert_state d1 u (gs_id goal)) as_lastWeeklySummaryKey
      = Some (wd_key (weeklySchedule (tz_offset z) now (ap_timeZone pref) (ap_weeklyDay pref) (ap_weeklyHourLocal pref)))"
proof -
  let ?st = "alert_state d u (gs_id goal)"
  obtain r1 e1 where w: "weekly_step z c (er_weekly rnd) now d pref goal metrics ?st = (r1, e1)" by fastforce
  obtain upd where upd: "r1 = Inr upd" using assms(1-4) w by (cases r1) (auto simp: evaluateUser_def)
  obtain r2 e2 where a: "alert_step c (er_alert rnd) now e1 pref goal metrics ?st upd = (r2, e2)" by fastforce
  obtain upd' where upd': "r2 = Inr upd'" using assms(1-4) w upd a by (cases r2) (auto simp: evaluateUser_def)
  have up: "upsert_state e2 u (gs_id goal) metrics upd' = (Inr (), d1)"
    using assms(1-4) w upd a upd' by (auto simp: evaluateUser_def)
  have "alertStates e2 = alertStates d"
    using alert_step_keeps [OF a weekly_update_memory [OF w [unfolded upd]]] weekly_step_keeps(1) [OF w] by simp
  then have "alert_state e2 u (gs_id goal) = ?st" by (simp add: alert_state_def)
  then show ?thesis
    using upsert_weekly_key [OF up] alert_step_weekly_key [OF a [unfolded upd']] weekly_step_records [OF w [unfolded upd] assms(3,5)]
    by simp
qed

text \<open>While the key recorded is that of the week, an evaluation queues no summary.\<close>

lemma recorded_week_silent:
  assumes "evaluateUser z c rnd now d u = (res, d')" and "preference_of d u = Some pref"
    and "getStability d u now = Snapshot goal metrics saved bal"
    and key: "Option.bind (alert_state d u (gs_id goal)) as_lastWeeklySummaryKey
      = Some (wd_key (weeklySchedule (tz_offset z) now (ap_timeZone pref) (ap_weeklyDay pref) (ap_weeklyHourLocal pref)))"
    and "j \<in> set (jobs d')" and "j_type j = js ''weekly.summary''"
  shows "j \<in> set (jobs d)"
proof (cases "\<not> ap_weeklySummaryEnabled pref \<and> \<not> ap_riskAlertsEnabled pref")
  case True
  then show ?thesis using assms(1,2,5) by (simp add: evaluateUser_def)
next
  case on: False
  let ?st = "alert_state d u (gs_id goal)"
  obtain q1 f1 where w: "weekly_step z c (er_weekly rnd) now d pref goal metrics ?st = (q1, f1)" by fastforce
  then have f1: "f1 = d" by (cases rule: weekly_step_cases) (use key in auto)
  show ?thesis
  proof (cases q1)
    case (Inl err)
    then show ?thesis using assms(1-3,5) w on f1 by (auto simp: evaluateUser_def)
  next
    case (Inr up1)
    obtain q2 f2 where a: "alert_step c (er_alert rnd) now d pref goal metrics ?st up1 = (q2, f2)" by fastforce
    have "jobs d' = jobs f2"
      using assms(1-3) w on f1 Inr a by (cases q2) (auto simp: evaluateUser_def dest: upsert_keeps(1))
    then show ?thesis
      using alert_step_jobs [OF a weekly_update_memory [OF w [unfolded Inr]]] assms(5,6) by auto
  qed
qed


section \<open>At a concrete input\<close>

definition sample_preference :: alert_preference_row where
  "sample_preference = \<lparr>ap_userId = js ''u1'', ap_weeklySummaryEnabled = False, ap_riskAlertsEnabled = True,
     ap_timeZone = js ''Africa/Lagos'', ap_weeklyDay = 1, ap_weeklyHourLocal = 9, ap_updatedAt = 0\<rparr>"

definition sample_alerts_db :: "alert_preference_row \<Rightarrow> db" where
  "sample_alerts_db p = one_goal_db\<lparr>alertPreferences := [p]\<rparr>"

lemma sample_stability:
  assumes "goals d = [sample_goal]" and "transactions d = []"
  obtains goal metrics saved bal where "getStability d (js ''u1'') now = Snapshot goal metrics saved bal"
     "gs_id goal = js ''g1''" "stabilityScore metrics = 0" "status metrics = Critical"
proof -
  have g: "active_goal d (js ''u1'') = Some sample_goal"
    by (simp add: active_goal_def assms find_first_by_def sample_goal_def new_goal_def)
  have fl: "fl 50000000 = 50000000" by (rule fl_numeral) simp
  have zero: "stability_score 0 0 0 0 = 0" using math_round_of_int [of 0] by (simp add: stability_score_def)
  have "fl (- 50000000) = - 50000000" using fl fl_minus [of 50000000] by simp
  then have "\<exists>goal metrics saved bal. getStability d (js ''u1'') now = Snapshot goal metrics saved bal
     \<and> gs_id goal = js ''g1'' \<and> stabilityScore metrics = 0 \<and> status metrics = Critical"
    by (simp add: getStability_def g Let_def estimated_balance_def goal_saved_def computeStability_sel assms(2) find_many_def)
      (simp add: sample_goal_def new_goal_def income_number_def income_support_ratio_def readiness_ratio_def js_clamp_def to_number_def
        fl remaining_obligation_def safe_to_spend_def coverage_ratio_def buffer_ratio_def zero score_status_def)
  then show ?thesis using that by blast
qed

lemma sample_alerts_db_fields:
  "goals (sample_alerts_db p) = [sample_goal]" "transactions (sample_alerts_db p) = []" "jobs (sample_alerts_db p) = []"
  "alertStates (sample_alerts_db p) = []" "alertPreferences (sample_alerts_db p) = [p]"
  "user_exists (sample_alerts_db p) (js ''u1'')" "g_id sample_goal = js ''g1''"
  by (simp_all add: sample_alerts_db_def one_goal_db_def sample_goals_db_def empty_db_def user_exists_def sample_goal_def new_goal_def)

lemma sample_alert_published:
  assumes "jobs d = []" and "user_exists d (ri_userId input)"
  shows "\<exists>sealed. publishReadinessAlert sample_crypto rnd now d input = (Inr True, d\<lparr>jobs := [alert_job rnd now input sealed]\<rparr>)"
proof -
  obtain r d' where p: "publishReadinessAlert sample_crypto rnd now d input = (r, d')" by fastforce
  obtain sealed where "encryptPayload sample_crypto (pr_iv rnd) (readiness_payload (ri_phone input) (ri_body input)) = Inr sealed"
    using encrypt_total [OF sample_crypto_ok] by blast
  then show ?thesis using assms
    by (auto simp: publishReadinessAlert_def enqueueReadinessAlert_def alert_job_def insert_job_def job_conflict_def
        job_references_ok_def new_job_def create_row_def)
qed

definition sample_zones :: time_zones where
  "sample_zones = \<lparr>tz_valid = (\<lambda>_. True), tz_offset = (\<lambda>_ _. 3600000)\<rparr>"

definition sample_evaluate :: evaluate_random where
  "sample_evaluate = \<lparr>er_weekly = \<lparr>pr_iv = js ''iv'', pr_jobId = js ''j1'', pr_correlationId = js ''c1''\<rparr>,
     er_alert = \<lparr>pr_iv = js ''iw'', pr_jobId = js ''j2'', pr_correlationId = js ''c2''\<rparr>\<rparr>"

lemma upsert_succeeds:
  assumes "user_exists d u" and "goal_exists d g"
  obtains d' where "upsert_state d u g metrics upd = (Inr (), d')" "goals d' = goals d" "transactions d' = transactions d"
    "alertPreferences d' = alertPreferences d"
  using assms by (cases "alert_state d u g") (auto simp: upsert_state_def)

lemma sample_evaluated:
  assumes "ap_userId p = js ''u1''" and "ap_weeklySummaryEnabled p \<noteq> ap_riskAlertsEnabled p"
    and "ap_weeklySummaryEnabled p \<Longrightarrow> wd_due (weeklySchedule (tz_offset sample_zones) now (ap_timeZone p) (ap_weeklyDay p) (ap_weeklyHourLocal p))"
  obtains d' where "evaluateUser sample_zones sample_crypto sample_evaluate now (sample_alerts_db p) (js ''u1'') = (Inr (), d')"
    "goals d' = [sample_goal]" "transactions d' = []" "alertPreferences d' = [p]"
proof -
  let ?d = "sample_alerts_db p"
  obtain goal metrics saved bal where s: "getStability ?d (js ''u1'') now = Snapshot goal metrics saved bal" "gs_id goal = js ''g1''"
      "stabilityScore metrics = 0" "status metrics = Critical"
    by (rule sample_stability [of ?d]) (simp_all add: sample_alerts_db_fields)
  have none: "alert_state ?d (js ''u1'') (js ''g1'') = None" by (simp add: alert_state_def find_first_def sample_alerts_db_fields)
  have p: "preference_of ?d (js ''u1'') = Some p" by (simp add: preference_of_def find_first_def sample_alerts_db_fields assms(1))
  have pub: "\<exists>sealed. publishReadinessAlert sample_crypto rnd now ?d input = (Inr True, ?d\<lparr>jobs := [alert_job rnd now input sealed]\<rparr>)"
    if "ri_userId input = js ''u1''" for rnd input
    by (rule sample_alert_published) (simp_all add: sample_alerts_db_fields that)
  have "\<exists>upd rows. (case weekly_step sample_zones sample_crypto (er_weekly sample_evaluate) now ?d p goal metrics None of
      (Inl err, d1) \<Rightarrow> (Inl err, d1)
    | (Inr upd, d1) \<Rightarrow> alert_step sample_crypto (er_alert sample_evaluate) now d1 p goal metrics None upd) = (Inr upd, ?d\<lparr>jobs := rows\<rparr>)"
  proof (cases "ap_weeklySummaryEnabled p")
    case True
    define input where "input = \<lparr>ri_type = js ''weekly.summary'', ri_phone = user_phone ?d (ap_userId p), ri_body = weeklySummaryBody (gs_name goal) metrics,
        ri_userId = ap_userId p, ri_goalId = gs_id goal, ri_dedupeKey = weekly_dedupe_key (ap_userId p) (gs_id goal)
          (wd_key (weeklySchedule (tz_offset sample_zones) now (ap_timeZone p) (ap_weeklyDay p) (ap_weeklyHourLocal p)))\<rparr>"
    obtain sealed where "publishReadinessAlert sample_crypto (er_weekly sample_evaluate) now ?d input
        = (Inr True, ?d\<lparr>jobs := [alert_job (er_weekly sample_evaluate) now input sealed]\<rparr>)"
      using pub [of input "er_weekly sample_evaluate"] assms(1) by (auto simp: input_def)
    moreover have "tz_valid sample_zones t" for t by (simp add: sample_zones_def)
    ultimately have "weekly_step sample_zones sample_crypto (er_weekly sample_evaluate) now ?d p goal metrics None
      = (Inr (no_update\<lparr>su_weeklyAt := Some now, su_weeklyKey := Some (wd_key (weeklySchedule (tz_offset sample_zones) now
          (ap_timeZone p) (ap_weeklyDay p) (ap_weeklyHourLocal p)))\<rparr>), ?d\<lparr>jobs := [alert_job (er_weekly sample_evaluate) now input sealed]\<rparr>)"
      unfolding input_def using True assms(3) by (simp add: weekly_step_def Let_def)
    then show ?thesis using True assms(2) by (auto simp: alert_step_def)
  next
    case False
    define input where "input = \<lparr>ri_type = decision_type Risk, ri_phone = user_phone ?d (ap_userId p), ri_body = riskBody (gs_name goal) Critical 0,
        ri_userId = ap_userId p, ri_goalId = gs_id goal, ri_dedupeKey = occurrence_key Risk (ap_userId p) (gs_id goal) None metrics\<rparr>"
    obtain sealed where "publishReadinessAlert sample_crypto (er_alert sample_evaluate) now ?d input
        = (Inr True, ?d\<lparr>jobs := [alert_job (er_alert sample_evaluate) now input sealed]\<rparr>)"
      using pub [of input "er_alert sample_evaluate"] assms(1) by (auto simp: input_def)
    moreover have "riskDecision Critical 0 None now = Some Risk" by (simp add: riskDecision_def)
    ultimately show ?thesis
      unfolding input_def using False assms(2) by (auto simp: weekly_step_def alert_step_def s(3,4) Let_def)
  qed
  then obtain upd rows upd1 d1 where st: "weekly_step sample_zones sample_crypto (er_weekly sample_evaluate) now ?d p goal metrics None = (Inr upd1, d1)"
      "alert_step sample_crypto (er_alert sample_evaluate) now d1 p goal metrics None upd1 = (Inr upd, ?d\<lparr>jobs := rows\<rparr>)"
    by (auto split: prod.splits sum.splits)
  obtain d' where "upsert_state (?d\<lparr>jobs := rows\<rparr>) (js ''u1'') (js ''g1'') metrics upd = (Inr (), d')" "goals d' = [sample_goal]"
      "transactions d' = []" "alertPreferences d' = [p]"
    by (rule upsert_succeeds [where d = "?d\<lparr>jobs := rows\<rparr>" and u = "js ''u1''" and g = "js ''g1''"])
      (use sample_alerts_db_fields in \<open>simp_all add: user_exists_def goal_exists_def\<close>)
  then show ?thesis using that p s st assms(2) none by (auto simp: evaluateUser_def Let_def)
qed

theorem alerts_refine_alarm_witness:
  "\<exists>d' m. evaluateUser sample_zones sample_crypto sample_evaluate 5 (sample_alerts_db sample_preference) (js ''u1'') = (Inr (), d')
     \<and> alarm_step 5 m Calm (alarm_of (alert_memory d' (js ''u1'') (js ''g1'')))
     \<and> queued_alerts (sample_alerts_db sample_preference) d' (js ''u1'') (js ''g1'') = (case m of None \<Rightarrow> [] | Some k \<Rightarrow> [decision_type k])"
proof -
  let ?d = "sample_alerts_db sample_preference"
  obtain d' where e: "evaluateUser sample_zones sample_crypto sample_evaluate 5 ?d (js ''u1'') = (Inr (), d')"
    by (rule sample_evaluated [of sample_preference]) (simp_all add: sample_preference_def)
  have ids: "pr_jobId (er_weekly sample_evaluate) \<noteq> pr_jobId (er_alert sample_evaluate)" "pr_jobId (er_alert sample_evaluate) \<notin> j_id ` set (jobs ?d)"
    by (simp_all add: sample_evaluate_def sample_alerts_db_fields)
  have sane: "clock_sane 5" by code_simp
  have plain: "plain (js ''u1'')" "\<forall>g \<in> set (goals ?d). plain (g_id g)" by (simp_all add: plain_js sample_alerts_db_fields)
  have "\<forall>k \<in> job_keys ?d. take 5 k \<noteq> js ''risk.''" by (simp add: job_keys_def sample_alerts_db_fields)
  from alerts_refine_alarm [where T0 = 0 and T = 0 and u' = "js ''u1''" and g' = "js ''g1''",
      OF rtranclp.rtrancl_refl sample_alerts_db_fields(4) this e _ sane plain ids]
  show ?thesis using e by (auto simp: alert_memory_def alert_state_def find_first_def sample_alerts_db_fields alarm_of_def alarmed_def)
qed

definition sample_weekly :: alert_preference_row where
  "sample_weekly = sample_preference\<lparr>ap_weeklySummaryEnabled := True, ap_riskAlertsEnabled := False\<rparr>"


end
