(* ===== verification/Sms.thy ===== *)
theory Sms
  imports Notification_Queue
begin

text \<open>
  Sending text messages: \<open>api/src/sms/sms.service.ts\<close> and the clients of the two providers,
  \<open>twilio.client.ts\<close> and \<open>termii.client.ts\<close>. The network is a parameter: what a request is
  answered with. So are \<open>JSON.parse\<close> of an answer and \<open>toLowerCase\<close>. The environment and the
  validated configuration are functions from names to values. The encodings of the request
  bodies -- \<open>querystring.stringify\<close> and \<open>JSON.stringify\<close> of strings -- are written out.
\<close>

section \<open>Encoding a form and a JSON object of strings\<close>

definition hex_upper :: "int \<Rightarrow> code_unit" where
  "hex_upper n = word_of_int (if n < 10 then 48 + n else 55 + n)"

definition hex_lower :: "int \<Rightarrow> code_unit" where
  "hex_lower n = word_of_int (if n < 10 then 48 + n else 87 + n)"

text \<open>One byte as \<open>%XX\<close>.\<close>

definition percent :: "int \<Rightarrow> jstring" where
  "percent b = [37, hex_upper (b div 16 mod 16), hex_upper (b mod 16)]"

text \<open>The characters \<open>querystring.escape\<close> keeps: letters, digits and \<open>- _ . ! ~ * ' ( )\<close>.\<close>

definition form_safe :: "int \<Rightarrow> bool" where
  "form_safe c \<longleftrightarrow> c = 33 \<or> 39 \<le> c \<and> c \<le> 42 \<or> c = 45 \<or> c = 46 \<or> 48 \<le> c \<and> c \<le> 57
     \<or> 65 \<le> c \<and> c \<le> 90 \<or> c = 95 \<or> 97 \<le> c \<and> c \<le> 122 \<or> c = 126"

definition surrogate :: "int \<Rightarrow> bool" where
  "surrogate c \<longleftrightarrow> 0xD800 \<le> c \<and> c < 0xE000"

definition utf8 :: "int \<Rightarrow> int list" where
  "utf8 c =
     (if c < 0x80 then [c]
      else if c < 0x800 then [0xC0 + c div 64, 0x80 + c mod 64]
      else if c < 0x10000 then [0xE0 + c div 4096, 0x80 + c div 64 mod 64, 0x80 + c mod 64]
      else [0xF0 + c div 262144, 0x80 + c div 4096 mod 64, 0x80 + c div 64 mod 64, 0x80 + c mod 64])"

definition pair_code :: "int \<Rightarrow> int \<Rightarrow> int" where
  "pair_code c c2 = 0x10000 + (c mod 1024) * 1024 + c2 mod 1024"

text \<open>A trailing surrogate without its partner is the exception \<open>URI malformed\<close>.\<close>

fun form_escape :: "jstring \<Rightarrow> jstring option" where
  "form_escape [] = Some []"
| "form_escape (u # us) =
     (let c = uint u in
      if surrogate c then
        (case us of [] \<Rightarrow> None
         | u2 # rest \<Rightarrow> map_option (\<lambda>t. concat (map percent (utf8 (pair_code c (uint u2)))) @ t) (form_escape rest))
      else map_option (\<lambda>t. (if form_safe c then [u] else concat (map percent (utf8 c))) @ t) (form_escape us))"

text \<open>The keys are plain ASCII names.\<close>

fun querystring_stringify :: "(jstring \<times> jstring) list \<Rightarrow> jstring option" where
  "querystring_stringify [] = Some []"
| "querystring_stringify [(k, v)] = map_option (\<lambda>t. k @ js ''='' @ t) (form_escape v)"
| "querystring_stringify ((k, v) # p # ps) =
     (case form_escape v of
        None \<Rightarrow> None
      | Some t \<Rightarrow> map_option (\<lambda>r. k @ js ''='' @ t @ js ''&'' @ r) (querystring_stringify (p # ps)))"

definition hex4 :: "int \<Rightarrow> jstring" where
  "hex4 c = js [CHR 0x5C, CHR ''u''] @ map hex_lower [c div 4096 mod 16, c div 256 mod 16, c div 16 mod 16, c mod 16]"

definition json_escape :: "int \<Rightarrow> jstring" where
  "json_escape c =
     (if c = 34 then [92, 34] else if c = 92 then [92, 92] else if c = 8 then [92, 98]
      else if c = 12 then [92, 102] else if c = 10 then [92, 110] else if c = 13 then [92, 114]
      else if c = 9 then [92, 116] else if c < 32 then hex4 c else [word_of_int c])"

text \<open>A surrogate that is not part of a pair is escaped.\<close>

fun json_chars :: "jstring \<Rightarrow> jstring" where
  "json_chars [] = []"
| "json_chars [u] = (if surrogate (uint u) then hex4 (uint u) else json_escape (uint u))"
| "json_chars (u # v # us) =
     (if 0xD800 \<le> uint u \<and> uint u < 0xDC00 \<and> 0xDC00 \<le> uint v \<and> uint v < 0xE000 then [u, v] @ json_chars us
      else (if surrogate (uint u) then hex4 (uint u) else json_escape (uint u)) @ json_chars (v # us))"

definition json_quote :: "jstring \<Rightarrow> jstring" where
  "json_quote s = [34] @ json_chars s @ [34]"

definition json_of_strings :: "(jstring \<times> jstring) list \<Rightarrow> jstring" where
  "json_of_strings ps =
     js ''{'' @ join (js '','') (map (\<lambda>(k, v). json_quote k @ js '':'' @ json_quote v) ps) @ js ''}''"

text \<open>\<open>Buffer.byteLength\<close> of a string: the length of its UTF-8 encoding.\<close>

fun byte_length :: "jstring \<Rightarrow> nat" where
  "byte_length [] = 0"
| "byte_length [u] = (if surrogate (uint u) then 3 else length (utf8 (uint u)))"
| "byte_length (u # v # us) =
     (if 0xD800 \<le> uint u \<and> uint u < 0xDC00 \<and> 0xDC00 \<le> uint v \<and> uint v < 0xE000 then 4 + byte_length us
      else (if surrogate (uint u) then 3 else length (utf8 (uint u))) + byte_length (v # us))"

section \<open>Requests to a provider\<close>

record https_request =
  rq_method :: jstring
  rq_hostname :: jstring
  rq_path :: jstring
  rq_auth :: "jstring option"
  rq_contentType :: jstring
  rq_contentLength :: nat
  rq_data :: jstring

text \<open>A request ends in an \<open>error\<close> event with a message, or in a status and the chunks of its body.\<close>

datatype https_answer = RequestError jstring | Response "int option" "jstring list"

record sms_env =
  process_env :: "jstring \<Rightarrow> jstring option"
  config_get :: "jstring \<Rightarrow> jstring option"
  to_lower :: "jstring \<Rightarrow> jstring"
  json_parse :: "jstring \<Rightarrow> json_text"
  https :: "https_request \<Rightarrow> https_answer"

text \<open>What a client throws: a message, and the provider's answer when there was one.\<close>

record client_error =
  ce_message :: jstring
  ce_response :: "json option"

definition client_error_of :: "jstring \<Rightarrow> client_error" where
  "client_error_of m = \<lparr>ce_message = m, ce_response = None\<rparr>"

text \<open>The body of the answer: parsed, or the raw string when it is not JSON.\<close>

definition parsed_body :: "sms_env \<Rightarrow> jstring \<Rightarrow> json" where
  "parsed_body e raw =
     (if raw = [] then JObject [] else (case json_parse e raw of Json v \<Rightarrow> v | NotJson _ \<Rightarrow> JString raw))"

definition response_result :: "sms_env \<Rightarrow> jstring \<Rightarrow> int option \<Rightarrow> jstring list \<Rightarrow> client_error + json" where
  "response_result e name code chunks =
     (let parsed = parsed_body e (concat chunks)
      in (case code of
            Some n \<Rightarrow> if 400 \<le> n then Inl \<lparr>ce_message = name @ js '' API error '' @ int_text n, ce_response = Some parsed\<rparr>
                         else Inr parsed
          | None \<Rightarrow> Inr parsed))"

definition postForm :: "sms_env \<Rightarrow> https_request \<Rightarrow> client_error + json" where
  "postForm e req =
     (case https e req of
        RequestError m \<Rightarrow> Inl (client_error_of m)
      | Response code chunks \<Rightarrow> response_result e (js ''Twilio'') code chunks)"

definition postJson :: "sms_env \<Rightarrow> https_request \<Rightarrow> client_error + json" where
  "postJson e req =
     (case https e req of
        RequestError m \<Rightarrow> Inl (client_error_of m)
      | Response code chunks \<Rightarrow> response_result e (js ''Termii'') code chunks)"

definition given :: "jstring \<Rightarrow> jstring option \<Rightarrow> (jstring \<times> jstring) list" where
  "given k v = (if truthy v then [(k, the v)] else [])"

record twilio_payload =
  tp_to :: jstring
  tp_body :: jstring
  tp_from :: "jstring option"
  tp_messagingServiceSid :: "jstring option"

definition twilio_sendMessage :: "sms_env \<Rightarrow> twilio_payload \<Rightarrow> client_error + json" where
  "twilio_sendMessage e payload =
     (let accountSid = process_env e (js ''TWILIO_ACCOUNT_SID''); authToken = process_env e (js ''TWILIO_AUTH_TOKEN'')
      in if \<not> truthy accountSid then Inl (client_error_of (js ''TWILIO_ACCOUNT_SID is not set''))
         else if \<not> truthy authToken then Inl (client_error_of (js ''TWILIO_AUTH_TOKEN is not set''))
         else (case querystring_stringify ([(js ''To'', tp_to payload), (js ''Body'', tp_body payload)]
                      @ given (js ''From'') (tp_from payload) @ given (js ''MessagingServiceSid'') (tp_messagingServiceSid payload)) of
                 None \<Rightarrow> Inl (client_error_of (js ''URI malformed''))
               | Some postData \<Rightarrow>
                   postForm e \<lparr>rq_method = js ''POST'', rq_hostname = js ''api.twilio.com'',
                     rq_path = js ''/2010-04-01/Accounts/'' @ the accountSid @ js ''/Messages.json'',
                     rq_auth = Some (the accountSid @ js '':'' @ the authToken),
                     rq_contentType = js ''application/x-www-form-urlencoded'',
                     rq_contentLength = byte_length postData, rq_data = postData\<rparr>))"

record termii_payload =
  mp_to :: jstring
  mp_from :: jstring
  mp_sms :: jstring
  mp_channel :: "jstring option"

definition or_default :: "jstring option \<Rightarrow> jstring \<Rightarrow> jstring" where
  "or_default v d = (if truthy v then the v else d)"

definition termii_sendMessage :: "sms_env \<Rightarrow> termii_payload \<Rightarrow> client_error + json" where
  "termii_sendMessage e payload =
     (let apiKey = process_env e (js ''TERMII_API_KEY'')
      in if \<not> truthy apiKey then Inl (client_error_of (js ''TERMII_API_KEY is not set''))
         else (let body = json_of_strings [(js ''to'', mp_to payload), (js ''from'', mp_from payload),
                     (js ''sms'', mp_sms payload), (js ''type'', js ''plain''),
                     (js ''channel'', or_default (mp_channel payload) (js ''generic'')), (js ''api_key'', the apiKey)]
               in postJson e \<lparr>rq_method = js ''POST'', rq_hostname = js ''api.ng.termii.com'', rq_path = js ''/api/sms/send'',
                    rq_auth = None, rq_contentType = js ''application/json'',
                    rq_contentLength = byte_length body, rq_data = body\<rparr>))"

definition dev_sendMessage :: json where
  "dev_sendMessage = JObject [(js ''dev'', JBool True), (js ''accepted'', JBool True)]"

section \<open>The service\<close>

datatype sms_provider = Twilio | Termii | Dev

definition provider_name :: "sms_provider \<Rightarrow> jstring" where
  "provider_name p = (case p of Twilio \<Rightarrow> js ''twilio'' | Termii \<Rightarrow> js ''termii'' | Dev \<Rightarrow> js ''dev'')"

definition getProviderName :: "sms_env \<Rightarrow> sms_provider" where
  "getProviderName e =
     (let provider = trim (to_lower e (or_default (config_get e (js ''SMS_PROVIDER'')) (js ''twilio'')))
      in if provider = js ''dev'' then Dev else if provider = js ''termii'' then Termii else Twilio)"

definition hasValue :: "sms_env \<Rightarrow> jstring \<Rightarrow> bool" where
  "hasValue e key = (case config_get e key of None \<Rightarrow> False | Some v \<Rightarrow> 0 < length (trim v))"

text \<open>The exceptions: a bad request, or a bad gateway with the details of the provider's error.\<close>

datatype sms_error = SmsBadRequest jstring | SmsBadGateway jstring json

definition sms_error_message :: "sms_error \<Rightarrow> jstring" where
  "sms_error_message err = (case err of SmsBadRequest m \<Rightarrow> m | SmsBadGateway m _ \<Rightarrow> m)"

definition extractErrorDetails :: "client_error \<Rightarrow> json" where
  "extractErrorDetails err =
     (case ce_response err of
        None \<Rightarrow> JString (ce_message err)
      | Some JNull \<Rightarrow> JString (ce_message err)
      | Some v \<Rightarrow> v)"

datatype sms_kind = KindOtp | KindNotification

definition kind_text :: "sms_kind \<Rightarrow> jstring" where
  "kind_text k = (case k of KindOtp \<Rightarrow> js ''OTP'' | KindNotification \<Rightarrow> js ''notification'')"

record sms_sent =
  ss_provider :: jstring
  ss_response :: json

definition failed_via :: "sms_kind \<Rightarrow> jstring \<Rightarrow> client_error \<Rightarrow> sms_error" where
  "failed_via k name err = SmsBadGateway (js ''Failed to send '' @ kind_text k @ js '' via '' @ name) (extractErrorDetails err)"

definition sendMessageInternal :: "sms_env \<Rightarrow> jstring \<Rightarrow> jstring \<Rightarrow> sms_kind \<Rightarrow> sms_error + sms_sent" where
  "sendMessageInternal e phone body kind =
     (case getProviderName e of
        Dev \<Rightarrow> Inr \<lparr>ss_provider = js ''dev'', ss_response = dev_sendMessage\<rparr>
      | Twilio \<Rightarrow>
          (let from = process_env e (js ''TWILIO_FROM''); messagingServiceSid = process_env e (js ''TWILIO_MESSAGING_SERVICE_SID'')
           in if \<not> truthy from \<and> \<not> truthy messagingServiceSid
              then Inl (SmsBadRequest (js ''Set TWILIO_FROM or TWILIO_MESSAGING_SERVICE_SID''))
              else (case twilio_sendMessage e \<lparr>tp_to = phone, tp_body = body, tp_from = from,
                           tp_messagingServiceSid = messagingServiceSid\<rparr> of
                      Inr response \<Rightarrow> Inr \<lparr>ss_provider = js ''twilio'', ss_response = response\<rparr>
                    | Inl err \<Rightarrow> Inl (failed_via kind (js ''Twilio'') err)))
      | Termii \<Rightarrow>
          (let senderId = process_env e (js ''TERMII_SENDER_ID'');
               channel = or_default (process_env e (js ''TERMII_CHANNEL'')) (js ''generic'')
           in if \<not> truthy senderId then Inl (SmsBadRequest (js ''Set TERMII_SENDER_ID''))
              else (case termii_sendMessage e \<lparr>mp_to = phone, mp_from = the senderId, mp_sms = body, mp_channel = Some channel\<rparr> of
                      Inr response \<Rightarrow> Inr \<lparr>ss_provider = js ''termii'', ss_response = response\<rparr>
                    | Inl err \<Rightarrow> Inl (failed_via kind (js ''Termii'') err))))"

definition otp_text :: "jstring \<Rightarrow> jstring" where
  "otp_text otp = js ''Your Stead OTP is '' @ otp @ js ''. It expires in 10 minutes.''"

definition sendOtp :: "sms_env \<Rightarrow> jstring \<Rightarrow> jstring \<Rightarrow> sms_error + sms_sent" where
  "sendOtp e phone otp = sendMessageInternal e phone (otp_text otp) KindOtp"

definition sendMessage :: "sms_env \<Rightarrow> jstring \<Rightarrow> jstring \<Rightarrow> sms_error + sms_sent" where
  "sendMessage e phone body = sendMessageInternal e phone body KindNotification"

definition assertProviderConfiguration :: "sms_env \<Rightarrow> string + unit" where
  "assertProviderConfiguration e =
     (case getProviderName e of
        Dev \<Rightarrow> Inr ()
      | Twilio \<Rightarrow>
          (if \<not> hasValue e (js ''TWILIO_ACCOUNT_SID'') then Inl ''TWILIO_ACCOUNT_SID is required when SMS_PROVIDER=twilio''
           else if \<not> hasValue e (js ''TWILIO_AUTH_TOKEN'') then Inl ''TWILIO_AUTH_TOKEN is required when SMS_PROVIDER=twilio''
           else if \<not> hasValue e (js ''TWILIO_FROM'') \<and> \<not> hasValue e (js ''TWILIO_MESSAGING_SERVICE_SID'')
           then Inl ''Set TWILIO_FROM or TWILIO_MESSAGING_SERVICE_SID when SMS_PROVIDER=twilio''
           else Inr ())
      | Termii \<Rightarrow>
          (if \<not> hasValue e (js ''TERMII_API_KEY'') then Inl ''TERMII_API_KEY is required when SMS_PROVIDER=termii''
           else if \<not> hasValue e (js ''TERMII_SENDER_ID'') then Inl ''TERMII_SENDER_ID is required when SMS_PROVIDER=termii''
           else Inr ()))"

datatype provider_inspection =
    DevInspection bool
  | TwilioInspection bool bool bool bool \<comment> \<open>account, token, from, messaging service\<close>
  | TermiiInspection bool bool jstring \<comment> \<open>key, sender, channel\<close>

definition getProviderInspection :: "sms_env \<Rightarrow> provider_inspection" where
  "getProviderInspection e =
     (case getProviderName e of
        Dev \<Rightarrow> DevInspection (config_get e (js ''DEV_EXPOSE_OTP'') = Some (js ''true''))
      | Twilio \<Rightarrow> TwilioInspection (hasValue e (js ''TWILIO_ACCOUNT_SID'')) (hasValue e (js ''TWILIO_AUTH_TOKEN''))
          (hasValue e (js ''TWILIO_FROM'')) (hasValue e (js ''TWILIO_MESSAGING_SERVICE_SID''))
      | Termii \<Rightarrow> TermiiInspection (hasValue e (js ''TERMII_API_KEY'')) (hasValue e (js ''TERMII_SENDER_ID''))
          (or_default (config_get e (js ''TERMII_CHANNEL'')) (js ''generic'')))"

section \<open>The check at start-up is enough\<close>

lemma hasValue_truthy: "hasValue e k \<Longrightarrow> truthy (config_get e k)"
  by (cases "config_get e k") (auto simp: hasValue_def truthy_def)

text \<open>What an answer of the network makes of a request that failed.\<close>

definition refused :: "sms_env \<Rightarrow> client_error \<Rightarrow> bool" where
  "refused e err \<longleftrightarrow> (\<exists>rq. case https e rq of
     RequestError m \<Rightarrow> err = client_error_of m
   | Response code chunks \<Rightarrow> (\<exists>n. code = Some n \<and> 400 \<le> n \<and> ce_response err = Some (parsed_body e (concat chunks))))"

lemma post_refused: "postForm e rq = Inl err \<Longrightarrow> refused e err" "postJson e rq = Inl err \<Longrightarrow> refused e err"
  unfolding refused_def by (rule exI [of _ rq]; auto simp: postForm_def postJson_def response_result_def Let_def
      split: https_answer.splits option.splits if_splits)+

lemma form_of_fields:
  "querystring_stringify ps = None \<Longrightarrow> \<exists>p \<in> set ps. form_escape (snd p) = None"
  by (induction ps rule: querystring_stringify.induct) (auto split: option.splits)

text \<open>
  When the configuration passed the check at start-up -- and the environment still is the
  configuration that was checked -- a message fails only because the provider or the network
  refused a request, or because a text of the request has an unpaired surrogate: never with a
  bad request for a missing setting, and never for missing credentials.
\<close>

lemma startup_check_suffices:
  assumes "assertProviderConfiguration e = Inr ()" and "process_env e = config_get e"
    and "sendMessageInternal e phone body kind = Inl err"
  shows "\<exists>name cause. err = failed_via kind name cause \<and>
    (refused e cause \<or> cause = client_error_of (js ''URI malformed'')
       \<and> (\<exists>t. form_escape t = None \<and> (t = phone \<or> t = body \<or> Some t = process_env e (js ''TWILIO_FROM'')
             \<or> Some t = process_env e (js ''TWILIO_MESSAGING_SERVICE_SID''))))"
proof (cases "getProviderName e")
  case Dev
  then show ?thesis using assms(3) by (simp add: sendMessageInternal_def)
next
  case Termii
  have "truthy (process_env e (js ''TERMII_API_KEY''))" "truthy (process_env e (js ''TERMII_SENDER_ID''))"
    using assms(1) Termii hasValue_truthy unfolding assms(2) by (auto simp: assertProviderConfiguration_def split: if_splits)
  then obtain cause where "err = failed_via kind (js ''Termii'') cause" "refused e cause"
    using assms(3) Termii post_refused(2)
    by (auto simp: sendMessageInternal_def termii_sendMessage_def Let_def split: sum.splits)
  then show ?thesis by blast
next
  case Twilio
  let ?from = "process_env e (js ''TWILIO_FROM'')" and ?service = "process_env e (js ''TWILIO_MESSAGING_SERVICE_SID'')"
  have "truthy (process_env e (js ''TWILIO_ACCOUNT_SID''))" "truthy (process_env e (js ''TWILIO_AUTH_TOKEN''))"
    "truthy ?from \<or> truthy ?service"
    using assms(1) Twilio hasValue_truthy unfolding assms(2) by (auto simp: assertProviderConfiguration_def split: if_splits)
  then obtain cause where c: "err = failed_via kind (js ''Twilio'') cause"
    "twilio_sendMessage e \<lparr>tp_to = phone, tp_body = body, tp_from = ?from, tp_messagingServiceSid = ?service\<rparr> = Inl cause"
    using assms(3) Twilio by (auto simp: sendMessageInternal_def Let_def split: sum.splits)
  show ?thesis
  proof (cases "querystring_stringify ([(js ''To'', phone), (js ''Body'', body)]
      @ given (js ''From'') ?from @ given (js ''MessagingServiceSid'') ?service)")
    case None
    from form_of_fields [OF None] obtain t where "form_escape t = None" "t = phone \<or> t = body \<or> Some t = ?from \<or> Some t = ?service"
      by (auto simp: given_def truthy_def split: if_splits)
    moreover have "cause = client_error_of (js ''URI malformed'')"
      using c(2) None \<open>truthy (process_env e (js ''TWILIO_ACCOUNT_SID''))\<close> \<open>truthy (process_env e (js ''TWILIO_AUTH_TOKEN''))\<close>
      by (simp add: twilio_sendMessage_def Let_def)
    ultimately show ?thesis using c(1) by blast
  next
    case (Some postData)
    then have "refused e cause"
      using c(2) \<open>truthy (process_env e (js ''TWILIO_ACCOUNT_SID''))\<close> \<open>truthy (process_env e (js ''TWILIO_AUTH_TOKEN''))\<close> post_refused(1)
      by (auto simp: twilio_sendMessage_def Let_def)
    then show ?thesis using c(1) by blast
  qed
qed

text \<open>An environment in which the network is down.\<close>

definition sample_sms :: sms_env where
  "sample_sms = \<lparr>process_env = (\<lambda>k. Some (js ''x'')), config_get = (\<lambda>k. Some (js ''x'')), to_lower = (\<lambda>s. s),
     json_parse = NotJson, https = (\<lambda>rq. RequestError (js ''ECONNRESET''))\<rparr>"

lemma no_network_no_message:
  assumes "\<And>rq. https e rq = RequestError m" and "getProviderName e \<noteq> Dev"
  shows "\<exists>err. sendMessageInternal e phone body kind = Inl err"
proof -
  have "twilio_sendMessage e p \<noteq> Inr r" "termii_sendMessage e q \<noteq> Inr r" for p q r
    by (auto simp: twilio_sendMessage_def termii_sendMessage_def postForm_def postJson_def assms(1) Let_def split: option.splits)
  then show ?thesis
    using assms(2) by (cases "getProviderName e") (auto simp: sendMessageInternal_def Let_def split: sum.splits)
qed

lemma startup_check_suffices_witness:
  "\<exists>err name cause. sendMessageInternal sample_sms (js ''+234'') (js ''hi'') KindNotification = Inl err
     \<and> err = failed_via KindNotification name cause \<and> refused sample_sms cause"
proof -
  have trim: "trim (js ''x'') = js ''x''" by code_simp
  have chars: "form_escape (js ''+234'') \<noteq> None" "form_escape (js ''hi'') \<noteq> None" "form_escape (js ''x'') \<noteq> None"
    by code_simp+
  have ok: "assertProviderConfiguration sample_sms = Inr ()" "process_env sample_sms = config_get sample_sms"
    by (simp_all add: assertProviderConfiguration_def getProviderName_def sample_sms_def hasValue_def or_default_def
        truthy_def trim Let_def)
  have "getProviderName sample_sms \<noteq> Dev"
    by (simp add: getProviderName_def sample_sms_def or_default_def truthy_def trim Let_def)
  then obtain err where "sendMessageInternal sample_sms (js ''+234'') (js ''hi'') KindNotification = Inl err"
    using no_network_no_message [of sample_sms "js ''ECONNRESET''" "js ''+234''" "js ''hi''" KindNotification]
    by (fastforce simp: sample_sms_def)
  with startup_check_suffices [OF ok this] chars show ?thesis
    by (auto simp: sample_sms_def)
qed

end
