(* ===== verification/Notification_Consumer.thy ===== *)
theory Notification_Consumer
  imports Sms
begin

text \<open>
  Delivering the jobs of the queue, \<open>api/src/notifications/notification-consumer.service.ts\<close>: a
  timer ticks; a tick claims one job, sends it and records the outcome, and a tick that finds
  the previous one still running is skipped. Also the publisher in front of the queue and the
  operator's view of it, \<open>notifications.service.ts\<close>.
\<close>

section \<open>One job\<close>

definition extractProviderMessageId :: "json \<Rightarrow> jstring option" where
  "extractProviderMessageId response =
     (case json_string response (js ''sid'') of
        Some s \<Rightarrow> Some s
      | None \<Rightarrow> json_string response (js ''message_id''))"

text \<open>A text of the payload; \<open>undefined\<close> in a template is written out.\<close>

definition payload_text :: "json \<Rightarrow> jstring \<Rightarrow> jstring" where
  "payload_text v k = (case json_string v k of None \<Rightarrow> js ''undefined'' | Some s \<Rightarrow> s)"

definition delivered :: "sms_error + sms_sent \<Rightarrow> jstring + (jstring option \<times> jstring option)" where
  "delivered r = (case r of
     Inl err \<Rightarrow> Inl (sms_error_message err)
   | Inr sent \<Rightarrow> Inr (Some (ss_provider sent), extractProviderMessageId (ss_response sent)))"

definition processJob :: "sms_env \<Rightarrow> notification_job \<Rightarrow> jstring + (jstring option \<times> jstring option)" where
  "processJob e job =
     (if nj_type job = otp_requested then
        (case nj_payload job of
           Redacted \<Rightarrow> Inl (js ''OTP notification payload has been redacted'')
         | Payload v \<Rightarrow> delivered (sendOtp e (payload_phone (Payload v)) (payload_text v (js ''otp''))))
      else if nj_type job = js ''weekly.summary'' \<or> nj_type job = js ''risk.alert'' \<or> nj_type job = js ''risk.recovery'' then
        (case nj_payload job of
           Redacted \<Rightarrow> Inl (js ''Readiness notification payload has been redacted'')
         | Payload v \<Rightarrow> delivered (sendMessage e (payload_phone (Payload v)) (payload_text v (js ''body''))))
      else Inl (js ''Unsupported notification job type''))"

datatype job_outcome = JobSent | JobCancelled | JobRetry | JobDead

text \<open>Sending takes time: the outcome is recorded at \<open>later\<close>.\<close>

definition processClaimedJob ::
  "sms_env \<Rightarrow> queue_memory \<Rightarrow> ms \<Rightarrow> db \<Rightarrow> notification_job \<Rightarrow> db \<times> job_outcome \<times> jstring"
where
  "processClaimedJob e m later d job =
     (if \<not> canDeliver d m job then (d, JobCancelled, js ''none'')
      else (case processJob e job of
              Inr (provider, messageId) \<Rightarrow>
                (markSucceeded later d job provider messageId, JobSent,
                 case provider of None \<Rightarrow> js ''unknown'' | Some p \<Rightarrow> p)
            | Inl message \<Rightarrow>
                (markFailed later d job (Some message),
                 if nj_attempts job + 1 \<ge> nj_maxAttempts job then JobDead else JobRetry, js ''none'')))"

section \<open>Polling\<close>

datatype poll_outcome = PollSkipped | PollEmpty | PollProcessed | PollError

record consumer =
  co_db :: db
  co_memory :: queue_memory
  isProcessing :: bool

text \<open>The part of a tick before it waits for the claim, and the rest of it.\<close>

definition tick_start :: "consumer \<Rightarrow> poll_outcome option \<times> consumer" where
  "tick_start s = (if isProcessing s then (Some PollSkipped, s) else (None, s\<lparr>isProcessing := True\<rparr>))"

definition tick_run :: "crypto \<Rightarrow> sms_env \<Rightarrow> ms \<Rightarrow> ms \<Rightarrow> consumer \<Rightarrow> poll_outcome \<times> consumer" where
  "tick_run c e now later s =
     (case claimReadyJob c (co_db s) now of
        (Inl err, d) \<Rightarrow> (PollError, s\<lparr>co_db := d, isProcessing := False\<rparr>)
      | (Inr None, d) \<Rightarrow> (PollEmpty, s\<lparr>co_db := d, isProcessing := False\<rparr>)
      | (Inr (Some job), d) \<Rightarrow>
          (PollProcessed, s\<lparr>co_db := fst (processClaimedJob e (co_memory s) later d job), isProcessing := False\<rparr>))"

definition tick :: "crypto \<Rightarrow> sms_env \<Rightarrow> ms \<Rightarrow> ms \<Rightarrow> consumer \<Rightarrow> poll_outcome \<times> consumer" where
  "tick c e now later s =
     (case tick_start s of
        (Some skipped, s') \<Rightarrow> (skipped, s')
      | (None, s') \<Rightarrow> tick_run c e now later s')"

definition onModuleInit :: "ms \<Rightarrow> consumer \<Rightarrow> consumer" where
  "onModuleInit now s = s\<lparr>co_db := redactTerminalPayloads now (co_db s)\<rparr>"

section \<open>The operator's view\<close>

definition maskPhone :: "jstring \<Rightarrow> jstring" where
  "maskPhone phone = (if length phone \<le> 4 then phone
     else take 4 phone @ js ''***'' @ drop (length phone - 2) phone)"

record inspected_job =
  ij_id :: jstring
  ij_type :: jstring
  ij_status :: job_status
  ij_attempts :: nat
  ij_maxAttempts :: nat
  ij_nextRunAt :: ms
  ij_lockedAt :: "ms option"
  ij_sentAt :: "ms option"
  ij_failedAt :: "ms option"
  ij_lastError :: "jstring option"
  ij_provider :: "jstring option"
  ij_providerMessageId :: "jstring option"
  ij_createdAt :: ms
  ij_updatedAt :: ms
  ij_phone :: jstring

definition inspect_job :: "notification_job \<Rightarrow> inspected_job" where
  "inspect_job job =
     \<lparr>ij_id = nj_id job, ij_type = nj_type job, ij_status = nj_status job, ij_attempts = nj_attempts job,
      ij_maxAttempts = nj_maxAttempts job, ij_nextRunAt = nj_nextRunAt job, ij_lockedAt = nj_lockedAt job,
      ij_sentAt = nj_sentAt job, ij_failedAt = nj_failedAt job, ij_lastError = nj_lastError job,
      ij_provider = nj_provider job, ij_providerMessageId = nj_providerMessageId job,
      ij_createdAt = nj_createdAt job, ij_updatedAt = nj_updatedAt job,
      ij_phone = (case nj_payload job of Redacted \<Rightarrow> payload_phone Redacted
                  | Payload v \<Rightarrow> maskPhone (payload_phone (Payload v)))\<rparr>"

record inspection =
  in_provider :: provider_inspection
  in_summary :: "job_status \<Rightarrow> nat"
  in_health :: operational_health
  in_recent :: "inspected_job list"

definition getInspection :: "crypto \<Rightarrow> sms_env \<Rightarrow> db \<Rightarrow> ms \<Rightarrow> int \<Rightarrow> inspection" where
  "getInspection c e d now limit =
     (let boundedLimit = min (max limit 1) 50
      in \<lparr>in_provider = getProviderInspection e,
          in_summary = (\<lambda>s. case getStatusSummary d s of None \<Rightarrow> 0 | Some n \<Rightarrow> n),
          in_health = getOperationalHealth d now,
          in_recent = map inspect_job (listRecentJobs c d (nat boundedLimit))\<rparr>)"

section \<open>Every job is delivered or given up\<close>

text \<open>The attempts that the jobs of the queue have left.\<close>

definition attempts_left :: "job_row \<Rightarrow> nat" where
  "attempts_left j = (if terminal j then 0 else j_maxAttempts j - j_attempts j)"

definition queue_work :: "db \<Rightarrow> nat" where
  "queue_work d = sum_list (map attempts_left (jobs d))"

definition drained :: "db \<Rightarrow> bool" where
  "drained d \<longleftrightarrow> list_all (\<lambda>j. j_status j = Sent \<or> j_status j = DeadLetter) (jobs d)"

text \<open>
  A run of the consumer: the times of its ticks, when each recorded its outcome, and what the
  network and the provider did at the time.
\<close>

fun run_ticks :: "crypto \<Rightarrow> (ms \<times> ms \<times> sms_env) list \<Rightarrow> consumer \<Rightarrow> consumer" where
  "run_ticks c [] s = s"
| "run_ticks c ((now, later, e) # ts) s = run_ticks c ts (snd (tick c e now later s))"

text \<open>Ticks at which a retry of the previous attempt is due: the longest back-off is 30 seconds.\<close>

fun spaced :: "ms \<Rightarrow> (ms \<times> ms \<times> sms_env) list \<Rightarrow> bool" where
  "spaced due [] = True"
| "spaced due ((now, later, e) # ts) = (due \<le> now \<and> now \<le> later \<and> spaced (later + 30000) ts)"

definition all_due :: "ms \<Rightarrow> db \<Rightarrow> bool" where
  "all_due now d \<longleftrightarrow> (\<forall>j \<in> set (jobs d). terminal j \<or> readyWhere now j)"

text \<open>
  The delay before a retry grows with the attempts and stays between two seconds and half
  a minute.
\<close>

lemma backoff_bounds:
  "2000 \<le> backoffMs (attempt + 1) \<and> backoffMs attempt \<le> backoffMs (attempt + 1) \<and> backoffMs attempt \<le> 30000"
proof -
  have one: "(1 :: int) \<le> 2 ^ attempt" by simp
  then have "(1000 :: int) * 2 ^ attempt \<le> 1000 * 2 ^ (attempt + 1)" by simp
  then show ?thesis using one unfolding backoffMs_def by (simp add: min_def)
qed

text \<open>What one attempt makes of the row it is for.\<close>

definition attempt_ok :: "ms \<Rightarrow> job_row \<Rightarrow> (job_row \<Rightarrow> job_row) \<Rightarrow> bool" where
  "attempt_ok later cand G \<longleftrightarrow>
     (\<forall>r. j_id (G r) = j_id r \<and> j_dedupeKey (G r) = j_dedupeKey r \<and> j_otpCodeId (G r) = j_otpCodeId r)
     \<and> job_ok (G cand) \<and> attempts_left (G cand) < attempts_left cand
     \<and> (terminal (G cand) \<or> j_status (G cand) = Pending \<and> j_nextRunAt (G cand) \<le> later + 30000)"

lemma lock_keeps [simp]: "j_attempts (lock_job now r) = j_attempts r"
  by (simp add: lock_job_def)

lemma succeeded_attempt_ok:
  assumes "job_ok cand" "\<not> terminal cand"
  shows "attempt_ok later cand (\<lambda>r. succeeded_row t pr mi (lock_job now r))"
proof -
  have "job_ok (succeeded_row t pr mi (lock_job now cand))" using assms by (simp add: job_ok_changes)
  moreover have "terminal (succeeded_row t pr mi (lock_job now cand))" by (simp add: terminal_def succeeded_row_def)
  moreover have "0 < attempts_left cand" using assms by (simp add: attempts_left_def job_ok_def)
  ultimately show ?thesis by (simp add: attempt_ok_def attempts_left_def)
qed

lemma failed_attempt_ok:
  assumes "job_ok cand" "\<not> terminal cand" "nj_attempts job = j_attempts cand" "nj_maxAttempts job = j_maxAttempts cand" "t \<le> later"
  shows "attempt_ok later cand (\<lambda>r. failed_row t job m (lock_job now r))"
proof -
  have "j_attempts cand < j_maxAttempts cand" using assms by (simp add: job_ok_def)
  then have "job_ok (failed_row t job m (lock_job now cand))" using assms by (intro job_ok_changes(3)) simp_all
  moreover have "backoffMs n \<le> 30000" for n by (simp add: backoffMs_def)
  then have "terminal (failed_row t job m (lock_job now cand)) \<or> j_status (failed_row t job m (lock_job now cand)) = Pending
      \<and> j_nextRunAt (failed_row t job m (lock_job now cand)) \<le> later + 30000"
    using assms(5) by (auto simp: failed_row_def Let_def terminal_def intro: add_mono)
  moreover have "attempts_left (failed_row t job m (lock_job now cand)) < attempts_left cand"
    using assms \<open>j_attempts cand < j_maxAttempts cand\<close>
    by (auto simp: attempts_left_def failed_row_def Let_def lock_job_def)
  ultimately show ?thesis by (simp add: attempt_ok_def)
qed

lemma update_after_lock:
  assumes "distinct (map j_id rows)" and "cand \<in> set rows" "readyWhere now cand" "j_id cand = i"
  shows "update_many (\<lambda>j. j_id j = i) F (update_many (\<lambda>j. j_id j = i \<and> readyWhere now j) (lock_job now) rows)
    = update_many (\<lambda>j. j_id j = i) (\<lambda>r. F (lock_job now r)) rows"
proof -
  have "readyWhere now r" if "r \<in> set rows" "j_id r = i" for r
    using row_by_id [OF assms(1) that(1) assms(2)] that(2) assms(3,4) by simp
  then show ?thesis by (simp add: update_many_def)
qed

text \<open>A tick at a time when something is due makes one attempt.\<close>

lemma claim_attempts:
  assumes ok: "jobs_ok (jobs d)" and due: "all_due now d" and open_job: "\<not> drained d"
  obtains cand locked p where "cand \<in> set (jobs d)" "readyWhere now cand"
    "locked = lock_job now cand" "claimReadyJob c d now = (Inr (Some (mapJobMetadata locked p)),
       d\<lparr>jobs := update_many (\<lambda>j. j_id j = j_id cand \<and> readyWhere now j) (lock_job now) (jobs d)\<rparr>)"
  | cand m where "cand \<in> set (jobs d)" "readyWhere now cand" "fst (claimReadyJob c d now) = Inr None"
    "jobs (snd (claimReadyJob c d now)) = update_many (\<lambda>j. j_id j = j_id cand)
       (\<lambda>r. failed_row now (mapUndecryptableJob (lock_job now cand)) m (lock_job now r)) (jobs d)"
proof -
  note ids = jobs_okD(1) [OF ok]
  obtain j where "j \<in> set (jobs d)" "\<not> terminal j" using open_job by (auto simp: drained_def terminal_def list_all_iff)
  then have "readyWhere now j" using due by (auto simp: all_due_def)
  with \<open>j \<in> set (jobs d)\<close> obtain cand where cand: "claim_candidate d now = Some cand"
    unfolding claim_candidate_def using find_first_by_None [of j_createdAt "readyWhere now" "jobs d"]
    by (cases "find_first_by j_createdAt (readyWhere now) (jobs d)") auto
  have c: "cand \<in> set (jobs d)" "readyWhere now cand"
    by (rule find_first_by_Some(1,2) [OF cand [unfolded claim_candidate_def]])+
  let ?lock = "update_many (\<lambda>j. j_id j = j_id cand \<and> readyWhere now j) (lock_job now) (jobs d)"
  obtain n where w: "claim_write d now (j_id cand) = (n, d\<lparr>jobs := ?lock\<rparr>)" "n \<noteq> 0"
  proof
    show "claim_write d now (j_id cand) = (count_rows (\<lambda>j. j_id j = j_id cand \<and> readyWhere now j) (jobs d), d\<lparr>jobs := ?lock\<rparr>)"
      by (simp add: claim_write_def Let_def)
    show "count_rows (\<lambda>j. j_id j = j_id cand \<and> readyWhere now j) (jobs d) \<noteq> 0"
      using c by (auto simp: count_rows_0)
  qed
  have "lock_job now cand \<in> set ?lock" using c by (auto simp: in_set_update_many)
  then obtain locked where found: "find_first (\<lambda>j. j_id j = j_id cand) ?lock = Some locked"
    using find_first_None [of "\<lambda>j. j_id j = j_id cand" ?lock] by (cases "find_first (\<lambda>j. j_id j = j_id cand) ?lock") auto
  then have "locked \<in> set ?lock" "j_id locked = j_id cand" using find_first_Some by fastforce+
  moreover have "distinct (map j_id ?lock)" using ids by (subst map_update_many) auto
  ultimately have l: "locked = lock_job now cand"
    using row_by_id [of j_id ?lock locked "lock_job now cand"] \<open>lock_job now cand \<in> set ?lock\<close> by simp
  show ?thesis
  proof (cases "mapJob c locked")
    case (Inr job)
    then obtain p where "job = mapJobMetadata locked p" by (auto simp: mapJob_def split: sum.splits)
    then show ?thesis
      using that(1) [OF c l] cand w found Inr by (simp add: claimReadyJob_def claim_read_def)
  next
    case (Inl err)
    then have "claimReadyJob c d now = (Inr None, markFailed now (d\<lparr>jobs := ?lock\<rparr>) (mapUndecryptableJob locked)
        (Some (case err of ServerError s \<Rightarrow> js s | _ \<Rightarrow> [])))"
      using cand w found by (simp add: claimReadyJob_def claim_read_def)
    then show ?thesis
      using that(2) [OF c] update_after_lock [OF ids c refl] l
      by (simp add: jobs_markFailed mapUndecryptableJob_def)
  qed
qed


lemma tick_when_free:
  "\<not> isProcessing s \<Longrightarrow> tick c e now later s = tick_run c e now later (s\<lparr>isProcessing := True\<rparr>)"
  by (simp add: tick_def tick_start_def)

lemma tick_run_keeps:
  "co_memory (snd (tick_run c e now later s)) = co_memory s" "\<not> isProcessing (snd (tick_run c e now later s))"
  by (simp_all add: tick_run_def split: prod.splits sum.splits option.splits)

lemma can_deliver_existing:
  "r \<in> set (jobs d) \<Longrightarrow> nj_id job = j_id r \<Longrightarrow> canDeliver d empty_memory job"
  by (auto simp: canDeliver_def empty_memory_def find_first_None split: option.splits)

lemma outcome_of_attempt:
  assumes "canDeliver d m job"
  obtains pr mi where "fst (processClaimedJob e m later d job) = markSucceeded later d job pr mi"
  | msg where "fst (processClaimedJob e m later d job) = markFailed later d job (Some msg)"
  using assms by (cases "processJob e job") (auto simp: processClaimedJob_def)

lemma tick_attempts:
  assumes ok: "jobs_ok (jobs (co_db s))" and due: "all_due now (co_db s)" and "\<not> drained (co_db s)"
    and s: "co_memory s = empty_memory" "\<not> isProcessing s" and le: "now \<le> later"
  obtains cand G where "cand \<in> set (jobs (co_db s))" "readyWhere now cand" "attempt_ok later cand G"
    "jobs (co_db (snd (tick c e now later s))) = update_many (\<lambda>j. j_id j = j_id cand) G (jobs (co_db s))"
  using ok due assms(3)
proof (rule claim_attempts [where c = c])
  fix cand locked :: job_row and p
  let ?job = "mapJobMetadata locked p"
  let ?d = "(co_db s)\<lparr>jobs := update_many (\<lambda>j. j_id j = j_id cand \<and> readyWhere now j) (lock_job now) (jobs (co_db s))\<rparr>"
  assume c: "cand \<in> set (jobs (co_db s))" "readyWhere now cand" and l: "locked = lock_job now cand"
    and claim: "claimReadyJob c (co_db s) now = (Inr (Some ?job), ?d)"
  have good: "job_ok cand" "\<not> terminal cand"
    using jobs_okD(2) [OF ok c(1)] readyWhere_not_terminal [OF c(2)] by blast+
  note lock = update_after_lock [OF jobs_okD(1) [OF ok] c refl]
  have "lock_job now cand \<in> set (jobs ?d)" using c by (auto simp: in_set_update_many)
  then have can: "canDeliver ?d empty_memory ?job" by (rule can_deliver_existing) (simp add: l)
  have tick: "co_db (snd (tick c e now later s)) = fst (processClaimedJob e empty_memory later ?d ?job)"
    using claim s by (simp add: tick_when_free tick_run_def)
  from can show thesis
  proof (rule outcome_of_attempt [where e = e and later = later])
    fix pr mi assume "fst (processClaimedJob e empty_memory later ?d ?job) = markSucceeded later ?d ?job pr mi"
    then have "jobs (co_db (snd (tick c e now later s)))
        = update_many (\<lambda>j. j_id j = j_id cand) (\<lambda>r. succeeded_row later pr mi (lock_job now r)) (jobs (co_db s))"
      unfolding tick by (simp add: jobs_finish l lock)
    with c succeeded_attempt_ok [OF good] show thesis by (rule that)
  next
    fix m assume "fst (processClaimedJob e empty_memory later ?d ?job) = markFailed later ?d ?job (Some m)"
    then have "jobs (co_db (snd (tick c e now later s)))
        = update_many (\<lambda>j. j_id j = j_id cand) (\<lambda>r. failed_row later ?job m (lock_job now r)) (jobs (co_db s))"
      unfolding tick by (simp add: jobs_markFailed l lock)
    moreover have "attempt_ok later cand (\<lambda>r. failed_row later ?job m (lock_job now r))"
      by (rule failed_attempt_ok [OF good]) (simp_all add: l)
    ultimately show thesis using that [OF c] by blast
  qed
next
  fix cand :: job_row and m
  let ?job = "mapUndecryptableJob (lock_job now cand)"
  assume c: "cand \<in> set (jobs (co_db s))" "readyWhere now cand"
    and claim: "fst (claimReadyJob c (co_db s) now) = Inr None"
      "jobs (snd (claimReadyJob c (co_db s) now)) = update_many (\<lambda>j. j_id j = j_id cand)
         (\<lambda>r. failed_row now ?job m (lock_job now r)) (jobs (co_db s))"
  have "attempt_ok later cand (\<lambda>r. failed_row now ?job m (lock_job now r))"
    using jobs_okD(2) [OF ok c(1)] readyWhere_not_terminal [OF c(2)] le
    by (intro failed_attempt_ok) (simp_all add: mapUndecryptableJob_def)
  moreover have "co_db (snd (tick c e now later s)) = snd (claimReadyJob c (co_db s) now)"
    using claim(1) s by (cases "claimReadyJob c (co_db s) now") (simp add: tick_when_free tick_run_def)
  ultimately show thesis using that [OF c] claim(2) by simp
qed

lemma sum_update_le:
  "(\<And>r. r \<in> set rows \<Longrightarrow> p r \<Longrightarrow> f (G r) < (f r :: nat)) \<Longrightarrow>
   sum_list (map f (update_many p G rows)) \<le> sum_list (map f rows)"
  by (induction rows) (auto simp: update_many_def intro: add_mono less_imp_le)

lemma sum_update_less:
  assumes "\<And>r. r \<in> set rows \<Longrightarrow> p r \<Longrightarrow> f (G r) < (f r :: nat)" and "r \<in> set rows" "p r"
  shows "sum_list (map f (update_many p G rows)) < sum_list (map f rows)"
proof -
  obtain as bs where rows: "rows = as @ r # bs" using assms(2) by (auto dest: split_list)
  have "sum_list (map f (update_many p G as)) \<le> sum_list (map f as)"
    "sum_list (map f (update_many p G bs)) \<le> sum_list (map f bs)"
    using assms(1) by (intro sum_update_le; simp add: rows)+
  moreover have "f (G r) < f r" using assms by blast
  ultimately show ?thesis using assms(3) by (simp add: rows update_many_def)
qed

lemma tick_progress:
  fixes s :: consumer and c :: crypto and e :: sms_env and later now :: ms
  assumes ok: "jobs_ok (jobs (co_db s))" and due: "all_due now (co_db s)" and "\<not> drained (co_db s)"
    and s: "co_memory s = empty_memory" "\<not> isProcessing s" and le: "now \<le> later"
  defines "s' \<equiv> snd (tick c e now later s)"
  shows "jobs_ok (jobs (co_db s'))" and "queue_work (co_db s') < queue_work (co_db s)"
    and "later + 30000 \<le> next_tick \<Longrightarrow> all_due next_tick (co_db s')"
proof -
  obtain cand G where c: "cand \<in> set (jobs (co_db s))" and G: "attempt_ok later cand G"
    and jobs': "jobs (co_db s') = update_many (\<lambda>j. j_id j = j_id cand) G (jobs (co_db s))"
    unfolding s'_def using tick_attempts [OF assms(1-6)] by metis
  have only: "r = cand" if "r \<in> set (jobs (co_db s))" "j_id r = j_id cand" for r
    using row_by_id [OF jobs_okD(1) [OF ok] that(1) c that(2)] .
  show "jobs_ok (jobs (co_db s'))"
    unfolding jobs' using G only by (intro jobs_ok_update [OF ok]) (auto simp: attempt_ok_def)
  show "queue_work (co_db s') < queue_work (co_db s)"
    unfolding queue_work_def jobs' using G only c by (intro sum_update_less [of _ _ _ _ cand]) (auto simp: attempt_ok_def)
  show "all_due next_tick (co_db s')" if "later + 30000 \<le> next_tick"
    unfolding all_due_def jobs'
  proof (intro ballI)
    fix j assume "j \<in> set (update_many (\<lambda>j. j_id j = j_id cand) G (jobs (co_db s)))"
    then show "terminal j \<or> readyWhere next_tick j"
    proof (rule in_update_cases)
      assume "j \<in> set (jobs (co_db s))"
      then have "terminal j \<or> readyWhere now j" using due by (auto simp: all_due_def)
      then show ?thesis using that le by (auto simp: readyWhere_def stale_lock_def split: option.splits)
    next
      fix r assume "r \<in> set (jobs (co_db s))" "j_id r = j_id cand" "j = G r"
      then have "j = G cand" using only by blast
      then show ?thesis using G that by (auto simp: attempt_ok_def readyWhere_def)
    qed
  qed
qed

lemma drained_tick:
  assumes "drained (co_db s)" and "\<not> isProcessing s"
  shows "co_db (snd (tick c e now later s)) = co_db s"
proof -
  have "\<not> readyWhere now j" if "j \<in> set (jobs (co_db s))" for j
    using assms(1) that readyWhere_not_terminal by (auto simp: drained_def list_all_iff terminal_def)
  then have "claim_candidate (co_db s) now = None"
    by (simp add: claim_candidate_def find_first_by_None)
  then show ?thesis using assms(2) by (simp add: tick_when_free tick_run_def claimReadyJob_def)
qed

lemma drained_run: "drained (co_db v) \<Longrightarrow> \<not> isProcessing v \<Longrightarrow> drained (co_db (run_ticks c us v))"
proof (induction us arbitrary: v)
  case (Cons u us)
  obtain n l e where "u = (n, l, e)" by (cases u)
  moreover have "\<not> isProcessing (snd (tick c e n l v))"
    using Cons.prems(2) by (simp add: tick_when_free tick_run_keeps)
  ultimately show ?case using Cons drained_tick [OF Cons.prems] by simp
qed simp

lemma no_work_drained:
  assumes "jobs_ok (jobs d)" and "queue_work d = 0"
  shows "drained d"
proof -
  have "terminal j" if j: "j \<in> set (jobs d)" for j
  proof (rule ccontr)
    assume "\<not> terminal j"
    then have "0 < attempts_left j" using jobs_okD(2) [OF assms(1) j] by (simp add: attempts_left_def job_ok_def)
    moreover have "attempts_left j = 0" using assms(2) j by (simp add: queue_work_def)
    ultimately show False by simp
  qed
  then show ?thesis by (auto simp: drained_def list_all_iff terminal_def)
qed



definition sample_consumer :: consumer where
  "sample_consumer = \<lparr>co_db = sample_queue, co_memory = empty_memory, isProcessing = False\<rparr>"


section \<open>Accounts that are being deleted receive nothing\<close>

text \<open>
  C35. Once the deletion of an account has begun, no job of the account is delivered: a worker
  that claimed one before or claims one later -- its own jobs, new ones included, and older
  ones without a user that name its phone -- cancels it without sending and without a write.
\<close>

theorem deletion_blocks_delivery:
  assumes "beginAccountDeletion c d userId phone m = (ids, m')" and "userId \<noteq> []"
    and "r \<in> set (jobs d) \<and> account_job c userId phone r \<and> (j_userId r = Some userId \<or> j_userId r = None) \<and> nj_id job = j_id r
         \<or> nj_userId job = Some userId"
  shows "processClaimedJob e m' later d' job = (d', JobCancelled, js ''none'')"
proof -
  have "nj_id job \<in> deletingNotificationIds m' \<or> nj_userId job = Some userId \<and> userId \<in> deletingAccountIds m'"
    using assms(1,3) by (auto simp: beginAccountDeletion_def startAccountDeletion_def Let_def find_many_def)
  then have "\<not> canDeliver d' m' job" using assms(2) by (auto simp: canDeliver_def)
  then show ?thesis by (simp add: processClaimedJob_def)
qed

theorem deletion_blocks_delivery_witness:
  "\<exists>m'. beginAccountDeletion sample_crypto sample_queue (js ''u1'') (js ''+234'') empty_memory = ([js ''j1''], m')
     \<and> processClaimedJob sample_sms m' 9 sample_queue (sample_claim 0) = (sample_queue, JobCancelled, js ''none'')"
proof -
  have "j_userId sample_job = Some (js ''u1'')" by (simp add: sample_job_def new_job_def)
  then obtain m' where "beginAccountDeletion sample_crypto sample_queue (js ''u1'') (js ''+234'') empty_memory = ([js ''j1''], m')"
    by (simp add: beginAccountDeletion_def Let_def sample_queue_def find_many_def account_job_def)
  moreover from deletion_blocks_delivery [OF this, where job = "sample_claim 0"]
  have "processClaimedJob sample_sms m' 9 sample_queue (sample_claim 0) = (sample_queue, JobCancelled, js ''none'')"
    by (simp add: sample_claim_def sample_job_def new_job_def lock_job_def)
  ultimately show ?thesis by blast
qed

text \<open>
  A deletion that is called off leaves no trace in the memory of the process: restoring the
  account undoes what its beginning did, when the account was not already being deleted.
\<close>

lemma restore_undoes_deletion:
  assumes "beginAccountDeletion c d userId phone m = (ids, m')"
    and "userId \<notin> deletingAccountIds m" "phone \<notin> discoveringAccountPhones m"
    and "deletingNotificationIdsByAccount m userId = None" "set ids \<inter> deletingNotificationIds m = {}"
  shows "restoreForAccount userId m' = m"
proof -
  have m': "m' = m\<lparr>deletingAccountIds := insert userId (deletingAccountIds m),
      deletingNotificationIdsByAccount := (deletingNotificationIdsByAccount m)(userId \<mapsto> ids),
      deletingNotificationIds := deletingNotificationIds m \<union> set ids\<rparr>"
    using assms(1,3) by (auto simp: beginAccountDeletion_def startAccountDeletion_def Let_def)
  have "(deletingNotificationIdsByAccount m)(userId := None) = deletingNotificationIdsByAccount m"
    using assms(4) by (auto simp: fun_eq_iff)
  moreover have "deletingNotificationIds m \<union> set ids - set ids = deletingNotificationIds m"
    using assms(5) by blast
  moreover have "insert userId (deletingAccountIds m) - {userId} = deletingAccountIds m" using assms(2) by blast
  ultimately show ?thesis
    by (simp add: restoreForAccount_def clearAccountDeletionBlock_def m')
qed

lemma restore_undoes_deletion_witness:
  "restoreForAccount (js ''u1'') (snd (beginAccountDeletion sample_crypto sample_queue (js ''u1'') (js ''+234'') empty_memory)) = empty_memory"
proof -
  obtain ids m' where d: "beginAccountDeletion sample_crypto sample_queue (js ''u1'') (js ''+234'') empty_memory = (ids, m')"
    by (cases "beginAccountDeletion sample_crypto sample_queue (js ''u1'') (js ''+234'') empty_memory")
  from restore_undoes_deletion [OF d] d show ?thesis by (simp add: empty_memory_def)
qed

end
