(* ===== verification/Auth_Util.thy ===== *)
theory Auth_Util
  imports Notification_Consumer
begin

text \<open>
  What the sign-in of \<open>api/src/auth\<close> is built from: identifiers and durations
  (\<open>device-identity.util.ts\<close>, \<open>refresh-token.util.ts\<close>), phone numbers and countries
  (\<open>phone.util.ts\<close>, \<open>countries.service.ts\<close>), the requests' validation, the two guards in front
  of the other handlers, and the encryption that lets a verification be replayed
  (\<open>otp-verification-idempotency.ts\<close>). Digests, ciphers, \<open>bcrypt\<close>, \<open>libphonenumber\<close> and tokens
  are fields of one record, with the configuration.
\<close>

section \<open>The environment\<close>

datatype raw_number = RawNumber rat | RawString jstring

record phone_number =
  pn_number :: jstring
  pn_country :: "jstring option"
  pn_valid :: bool

record jwt_claims =
  jc_sub :: "jstring option"
  jc_phone :: "jstring option"

text \<open>What verifying a token gives: its claims, none when the payload is not an object, or an error.\<close>

datatype jwt_check = JwtClaims "jwt_claims option" | JwtExpired | JwtInvalid

record auth_env =
  config_text :: "jstring \<Rightarrow> jstring option"
  config_number :: "jstring \<Rightarrow> int option"
  config_raw :: "jstring \<Rightarrow> raw_number option"
  env_text :: "jstring \<Rightarrow> jstring option"
  number_of_text :: "jstring \<Rightarrow> rat option" \<comment> \<open>\<open>Number(s)\<close> when finite\<close>
  lower_case :: "jstring \<Rightarrow> jstring"
  upper_case :: "jstring \<Rightarrow> jstring"
  sha256_hex :: "jstring \<Rightarrow> jstring"
  hmac_hex :: "jstring \<Rightarrow> jstring \<Rightarrow> jstring"
  hmac_key :: "jstring \<Rightarrow> jstring \<Rightarrow> jstring"
  hmac_json :: "jstring \<Rightarrow> json \<Rightarrow> jstring"
  bcrypt_hash :: "jstring \<Rightarrow> jstring \<Rightarrow> jstring"
  bcrypt_compare :: "jstring \<Rightarrow> jstring \<Rightarrow> bool"
  aead_seal :: "jstring \<Rightarrow> jstring \<Rightarrow> jstring \<Rightarrow> json_text \<Rightarrow> jstring \<times> jstring"
  aead_open :: "jstring \<Rightarrow> jstring \<Rightarrow> jstring \<Rightarrow> jstring \<Rightarrow> jstring \<Rightarrow> json_text option"
  sign_jwt :: "jstring \<Rightarrow> jstring \<Rightarrow> int \<Rightarrow> jstring result"
  verify_jwt :: "jstring \<Rightarrow> jstring \<Rightarrow> jwt_check"
  parse_phone :: "jstring \<Rightarrow> jstring option \<Rightarrow> phone_number option"

section \<open>Identifiers\<close>

definition is_hex :: "code_unit \<Rightarrow> bool" where
  "is_hex c \<longleftrightarrow> is_digit c \<or> (97 \<le> c \<and> c \<le> 102) \<or> (65 \<le> c \<and> c \<le> 70)"

definition is_dash :: "code_unit \<Rightarrow> bool" where "is_dash c \<longleftrightarrow> c = 45"

definition is_four :: "code_unit \<Rightarrow> bool" where "is_four c \<longleftrightarrow> c = 52"

definition is_variant :: "code_unit \<Rightarrow> bool" where
  "is_variant c \<longleftrightarrow> c \<in> {56, 57, 65, 66, 97, 98}"

definition uuid_v4_shape :: "(code_unit \<Rightarrow> bool) list" where
  "uuid_v4_shape = replicate 8 is_hex @ [is_dash] @ replicate 4 is_hex @ [is_dash, is_four] @ replicate 3 is_hex
     @ [is_dash, is_variant] @ replicate 3 is_hex @ [is_dash] @ replicate 12 is_hex"

definition is_uuid_v4 :: "jstring \<Rightarrow> bool" where
  "is_uuid_v4 s = list_all2 (\<lambda>p c. p c) uuid_v4_shape s"

definition ascii_lower :: "jstring \<Rightarrow> jstring" where
  "ascii_lower s = map ascii_lower_unit s"

text \<open>No device identifier is no hash; an identifier that fits the pattern is plain ASCII.\<close>

definition hashDeviceIdentifier :: "auth_env \<Rightarrow> jstring option \<Rightarrow> jstring option \<Rightarrow> jstring option result" where
  "hashDeviceIdentifier e deviceId sec =
     (if \<not> truthy deviceId then Inr None
      else if \<not> is_uuid_v4 (the deviceId) then Inl (BadRequest ''X-Stead-Device-Id must be a valid UUIDv4 identifier'')
      else if \<not> truthy sec then Inl (ServerError ''Auth device identifier secret is not configured'')
      else Inr (Some (hmac_hex e (the sec) (ascii_lower (the deviceId)))))"

definition getDeviceReference :: "jstring option \<Rightarrow> jstring option" where
  "getDeviceReference h = (if truthy h then Some (js ''device_'' @ take 16 (the h)) else None)"

section \<open>Durations\<close>

definition duration_unit_ms :: "code_unit \<Rightarrow> int option" where
  "duration_unit_ms c =
     (let u = ascii_lower_unit c in
      if u = unit_of (CHR ''s'') then Some 1000 else if u = unit_of (CHR ''m'') then Some 60000
      else if u = unit_of (CHR ''h'') then Some 3600000 else if u = unit_of (CHR ''d'') then Some 86400000 else None)"

text \<open>Exact up to \<open>2\<^sup>5\<^sup>3\<close> milliseconds, where a number of the source would be rounded.\<close>

definition parseDurationToMs :: "jstring \<Rightarrow> int result" where
  "parseDurationToMs value =
     (let t = trim value; digits = butlast t
      in if t = [] \<or> digits = [] \<or> \<not> list_all is_digit digits then Inl (ServerError ''Unsupported duration'')
         else (case duration_unit_ms (last t) of
                 None \<Rightarrow> Inl (ServerError ''Unsupported duration'')
               | Some factor \<Rightarrow> Inr (digits_value digits * factor)))"

definition parseDurationToSeconds :: "jstring \<Rightarrow> int result" where
  "parseDurationToSeconds value = (case parseDurationToMs value of Inl e \<Rightarrow> Inl e | Inr ms \<Rightarrow> Inr (ms div 1000))"

definition hashRefreshToken :: "auth_env \<Rightarrow> jstring \<Rightarrow> jstring" where
  "hashRefreshToken e token = sha256_hex e token"

section \<open>Countries and phone numbers\<close>

record auth_country =
  co_iso :: jstring
  co_label :: jstring
  co_dialCode :: jstring
  co_currencyCode :: jstring
  co_phoneExample :: jstring
  co_authEnabled :: bool
  co_marketEnabled :: bool
  co_defaultCountry :: bool

definition toAuthCountryDto :: "country_row \<Rightarrow> auth_country" where
  "toAuthCountryDto c = \<lparr>co_iso = c_isoCode c, co_label = c_name c, co_dialCode = c_dialCode c,
     co_currencyCode = c_currencyCode c, co_phoneExample = c_phoneExample c, co_authEnabled = c_authEnabled c,
     co_marketEnabled = c_marketEnabled c, co_defaultCountry = c_defaultCountry c\<rparr>"

text \<open>\<open>rank\<close> is the database's order of names.\<close>

definition listAuthCountries :: "(jstring \<Rightarrow> int) \<Rightarrow> db \<Rightarrow> auth_country list" where
  "listAuthCountries rank d =
     map toAuthCountryDto (find_many_by c_sortOrder c_authEnabled (sort_key (\<lambda>c. rank (c_name c)) (countries d)))"

definition requireAuthCountry :: "auth_env \<Rightarrow> db \<Rightarrow> jstring \<Rightarrow> auth_country result" where
  "requireAuthCountry e d isoCode =
     (case find_first (\<lambda>c. c_isoCode c = upper_case e isoCode \<and> c_authEnabled c) (countries d) of
        None \<Rightarrow> Inl (BadRequest ''countryIso must be supported'')
      | Some country \<Rightarrow> Inr (toAuthCountryDto country))"

definition phone_noise :: "code_unit \<Rightarrow> bool" where
  "phone_noise c \<longleftrightarrow> is_space c \<or> c = 45 \<or> c = 40 \<or> c = 41 \<or> c = 46"

definition normalizePhoneNumber :: "auth_env \<Rightarrow> jstring \<Rightarrow> jstring \<Rightarrow> jstring result" where
  "normalizePhoneNumber e phone countryIso =
     (let compact = filter (\<lambda>c. \<not> phone_noise c) phone;
          candidate = (if take 2 compact = js ''00'' then js ''+'' @ drop 2 compact else compact);
          parsed = (if take 1 candidate = js ''+'' then parse_phone e candidate None
                    else parse_phone e candidate (Some countryIso))
      in (case parsed of
            None \<Rightarrow> Inl (BadRequest ''phone must look like +2348012345678'')
          | Some p \<Rightarrow> if \<not> pn_valid p then Inl (BadRequest ''phone must look like +2348012345678'')
                       else if pn_country p \<noteq> Some countryIso then Inl (BadRequest ''phone must match the selected country'')
                       else Inr (pn_number p)))"

section \<open>The validation of requests\<close>

record request_otp_dto =
  ro_countryIso :: jstring
  ro_phone :: jstring

record verify_otp_dto =
  vo_countryIso :: jstring
  vo_phone :: jstring
  vo_otp :: jstring

record refresh_session_dto =
  rs_refreshToken :: jstring

record logout_session_dto =
  lo_refreshToken :: "jstring option"
  lo_allDevices :: "bool option"

definition valid_country_iso :: "jstring \<Rightarrow> bool" where
  "valid_country_iso s \<longleftrightarrow> length s = 2 \<and> list_all (\<lambda>c. 65 \<le> c \<and> c \<le> 90) s"

definition valid_phone_text :: "jstring \<Rightarrow> bool" where
  "valid_phone_text s \<longleftrightarrow>
     digits_between 6 15 (if take 1 s = js ''+'' then drop 1 s else s)
     \<or> take 1 s = js ''0'' \<and> digits_between 6 14 (drop 1 s)
     \<or> take 2 s = js ''00'' \<and> digits_between 6 15 (drop 2 s)"

definition valid_request_otp :: "request_otp_dto \<Rightarrow> bool" where
  "valid_request_otp dto \<longleftrightarrow> valid_country_iso (ro_countryIso dto) \<and> valid_phone_text (ro_phone dto)"

definition valid_verify_otp :: "verify_otp_dto \<Rightarrow> bool" where
  "valid_verify_otp dto \<longleftrightarrow> valid_country_iso (vo_countryIso dto) \<and> valid_phone_text (vo_phone dto)
     \<and> digits_between 6 6 (vo_otp dto)"

definition valid_refresh_session :: "refresh_session_dto \<Rightarrow> bool" where
  "valid_refresh_session dto \<longleftrightarrow> 1 \<le> length (rs_refreshToken dto)"

definition valid_logout_session :: "logout_session_dto \<Rightarrow> bool" where
  "valid_logout_session dto \<longleftrightarrow> (case lo_refreshToken dto of None \<Rightarrow> True | Some t \<Rightarrow> 1 \<le> length t)"

section \<open>The guards\<close>

record jwt_user =
  ju_userId :: jstring
  ju_phone :: jstring

definition bearer_prefix :: jstring where "bearer_prefix = js ''Bearer ''"

definition bearer_token :: "jstring option \<Rightarrow> jstring option" where
  "bearer_token header =
     (if truthy header \<and> take 7 (the header) = bearer_prefix then Some (drop 7 (the header)) else None)"

definition jwt_canActivate :: "auth_env \<Rightarrow> jstring option \<Rightarrow> jwt_user result" where
  "jwt_canActivate e authHeader =
     (case bearer_token authHeader of
        None \<Rightarrow> Inl (Unauthorized ''Missing bearer token'')
      | Some token \<Rightarrow>
          (let sec = config_text e (js ''JWT_SECRET'') in
           if \<not> truthy sec then Inl (Unauthorized ''Invalid token'')
           else (case verify_jwt e token (the sec) of
                   JwtClaims None \<Rightarrow> Inl (Unauthorized ''Invalid token payload'')
                 | JwtClaims (Some p) \<Rightarrow>
                     if \<not> truthy (jc_sub p) \<or> \<not> truthy (jc_phone p) then Inl (Unauthorized ''Invalid token payload'')
                     else Inr \<lparr>ju_userId = the (jc_sub p), ju_phone = the (jc_phone p)\<rparr>
                 | JwtExpired \<Rightarrow> Inl (Unauthorized ''Session expired'')
                 | JwtInvalid \<Rightarrow> Inl (Unauthorized ''Invalid token''))))"

fun split_units :: "code_unit \<Rightarrow> jstring \<Rightarrow> jstring list" where
  "split_units c [] = [[]]"
| "split_units c (x # xs) =
     (if x = c then [] # split_units c xs
      else (case split_units c xs of [] \<Rightarrow> [[x]] | y # ys \<Rightarrow> (x # y) # ys))"

definition operatorUserIds :: "auth_env \<Rightarrow> jstring set" where
  "operatorUserIds e =
     set (filter (\<lambda>i. i \<noteq> []) (map trim (split_units unit_comma
       (case config_text e (js ''AUTH_INSPECTION_OPERATOR_USER_IDS'') of None \<Rightarrow> [] | Some s \<Rightarrow> s))))"

definition operator_canActivate :: "auth_env \<Rightarrow> jwt_user option \<Rightarrow> unit result" where
  "operator_canActivate e user =
     (case user of
        None \<Rightarrow> Inl (Forbidden ''Operator access required'')
      | Some u \<Rightarrow> if ju_userId u \<in> operatorUserIds e then Inr () else Inl (Forbidden ''Operator access required''))"

section \<open>Replaying a verification\<close>

record session =
  se_token :: jstring
  se_refreshToken :: jstring
  se_expiresIn :: int

definition deriveKey :: "auth_env \<Rightarrow> jstring \<Rightarrow> jstring \<Rightarrow> jstring" where
  "deriveKey e sec purpose = hmac_key e sec (js ''stead:otp-verification:'' @ purpose @ js '':v1'')"

definition associatedData :: "jstring \<Rightarrow> jstring \<Rightarrow> jstring" where
  "associatedData keyHash requestHash = keyHash @ js '':'' @ requestHash"

definition hashOtpVerificationKey :: "auth_env \<Rightarrow> jstring \<Rightarrow> jstring" where
  "hashOtpVerificationKey e idempotencyKey = sha256_hex e idempotencyKey"

definition hashOtpVerificationRequest :: "auth_env \<Rightarrow> jstring \<Rightarrow> jstring option \<Rightarrow> jstring" where
  "hashOtpVerificationRequest e sec deviceHash =
     hmac_json e (deriveKey e sec (js ''request-fingerprint''))
       (JArray [case deviceHash of None \<Rightarrow> JNull | Some h \<Rightarrow> JString h])"

definition hex_value :: "code_unit \<Rightarrow> int" where
  "hex_value c = (if is_digit c then uint c - 48 else if 97 \<le> c then uint c - 87 else uint c - 55)"

text \<open>\<open>Buffer.from(s, 'hex')\<close> stops at the first pair that is not one.\<close>

fun hex_bytes :: "jstring \<Rightarrow> int list" where
  "hex_bytes (a # b # s) = (if is_hex a \<and> is_hex b then (16 * hex_value a + hex_value b) # hex_bytes s else [])"
| "hex_bytes _ = []"

definition otpVerificationRequestMatches :: "jstring \<Rightarrow> jstring \<Rightarrow> bool" where
  "otpVerificationRequestMatches storedHash candidateHash \<longleftrightarrow> hex_bytes storedHash = hex_bytes candidateHash"

definition session_json :: "session \<Rightarrow> json" where
  "session_json r = JObject [(js ''token'', JString (se_token r)), (js ''refreshToken'', JString (se_refreshToken r)),
     (js ''expiresIn'', JNumber (of_int (se_expiresIn r)))]"

definition encryptOtpVerificationResponse ::
  "auth_env \<Rightarrow> jstring \<Rightarrow> jstring \<Rightarrow> jstring \<Rightarrow> jstring \<Rightarrow> session \<Rightarrow> json_text"
where
  "encryptOtpVerificationResponse e iv sec keyHash requestHash response =
     (case aead_seal e (deriveKey e sec (js ''response-encryption'')) iv (associatedData keyHash requestHash)
             (Json (session_json response)) of
        (ciphertext, tag) \<Rightarrow>
          Json (JObject [(js ''v'', JNumber 1), (js ''iv'', JString iv), (js ''tag'', JString tag),
                         (js ''ciphertext'', JString ciphertext)]))"

definition unable_to_replay :: http_error where
  "unable_to_replay = ServerError ''Unable to decrypt OTP verification response''"

definition safe_integer :: "rat \<Rightarrow> bool" where
  "safe_integer r \<longleftrightarrow> of_int \<lfloor>r\<rfloor> = r \<and> \<bar>r\<bar> \<le> 9007199254740991"

definition session_of_json :: "json \<Rightarrow> session option" where
  "session_of_json v =
     (case (json_string v (js ''token''), json_string v (js ''refreshToken''), json_get v (js ''expiresIn'')) of
        (Some t, Some r, Some (JNumber n)) \<Rightarrow>
          if safe_integer n \<and> 0 < n then Some \<lparr>se_token = t, se_refreshToken = r, se_expiresIn = \<lfloor>n\<rfloor>\<rparr> else None
      | _ \<Rightarrow> None)"

definition decryptOtpVerificationResponse ::
  "auth_env \<Rightarrow> jstring \<Rightarrow> jstring \<Rightarrow> jstring \<Rightarrow> json_text \<Rightarrow> session result"
where
  "decryptOtpVerificationResponse e sec keyHash requestHash value =
     (case value of
        NotJson _ \<Rightarrow> Inl unable_to_replay
      | Json envelope \<Rightarrow>
          (case (json_get envelope (js ''v''), json_string envelope (js ''iv''), json_string envelope (js ''tag''),
                 json_string envelope (js ''ciphertext'')) of
             (Some (JNumber v), Some iv, Some tag, Some ciphertext) \<Rightarrow>
               if v \<noteq> 1 then Inl unable_to_replay
               else (case aead_open e (deriveKey e sec (js ''response-encryption'')) iv
                            (associatedData keyHash requestHash) tag ciphertext of
                       Some (Json plain) \<Rightarrow>
                         (case session_of_json plain of None \<Rightarrow> Inl unable_to_replay | Some r \<Rightarrow> Inr r)
                     | _ \<Rightarrow> Inl unable_to_replay)
           | _ \<Rightarrow> Inl unable_to_replay))"

text \<open>The cipher opens what it sealed.\<close>

definition aead_ok :: "auth_env \<Rightarrow> bool" where
  "aead_ok e \<longleftrightarrow> (\<forall>k iv a t. case aead_seal e k iv a t of (ct, tag) \<Rightarrow> aead_open e k iv a tag ct = Some t)"

lemma decrypt_encrypt_response:
  assumes "aead_ok e" and "0 < se_expiresIn r" "se_expiresIn r \<le> 9007199254740991"
  shows "decryptOtpVerificationResponse e sec kh rh (encryptOtpVerificationResponse e iv sec kh rh r) = Inr r"
proof -
  let ?k = "deriveKey e sec (js ''response-encryption'')" and ?a = "associatedData kh rh" and ?t = "Json (session_json r)"
  obtain ct tag where s: "aead_seal e ?k iv ?a ?t = (ct, tag)" by (cases "aead_seal e ?k iv ?a ?t")
  then have "aead_open e ?k iv ?a tag ct = Some ?t"
    using assms(1) [unfolded aead_ok_def, rule_format, of ?k iv ?a ?t] by simp
  moreover have "session_of_json (session_json r) = Some r"
    using assms(2,3) by (simp add: session_of_json_def session_json_def json_string_def safe_integer_def)
  ultimately show ?thesis
    using s by (simp add: decryptOtpVerificationResponse_def encryptOtpVerificationResponse_def json_string_def)
qed

end
