(* ===== verification/Auth_Telemetry.thy ===== *)
theory Auth_Telemetry
  imports Auth_Util
begin

text \<open>
  The record of sign-in events, \<open>api/src/auth/auth-telemetry.service.ts\<close>: writing an event,
  counting recent ones for the rate limits, and the operator's overview.
\<close>

record auth_event_input =
  ev_type :: auth_event_type
  ev_phone :: jstring
  ev_countryIso :: jstring
  ev_ip :: "jstring option"
  ev_deviceHash :: "jstring option"
  ev_userAgent :: "jstring option"
  ev_attemptNumber :: "nat option"
  ev_userId :: "jstring option"
  ev_otpCodeId :: "jstring option"
  ev_metadata :: "json option"

text \<open>\<open>v || undefined\<close> as the value of a new column.\<close>

definition nonempty :: "jstring option \<Rightarrow> jstring option" where
  "nonempty v = (if truthy v then v else None)"

definition event_row :: "jstring \<Rightarrow> ms \<Rightarrow> auth_event_input \<Rightarrow> auth_event_row" where
  "event_row newId now input =
     \<lparr>ae_id = newId, ae_type = ev_type input, ae_phone = ev_phone input, ae_countryIso = ev_countryIso input,
      ae_ip = nonempty (ev_ip input), ae_deviceHash = nonempty (ev_deviceHash input),
      ae_userAgent = nonempty (ev_userAgent input), ae_attemptNumber = ev_attemptNumber input,
      ae_metadataJson = map_option Json (ev_metadata input), ae_createdAt = now,
      ae_userId = ev_userId input, ae_otpCodeId = ev_otpCodeId input\<rparr>"

definition recordEvent :: "jstring \<Rightarrow> ms \<Rightarrow> auth_event_input \<Rightarrow> db \<Rightarrow> db" where
  "recordEvent newId now input d = d\<lparr>authEvents := create_row (event_row newId now input) (authEvents d)\<rparr>"

record count_events_input =
  ce_types :: "auth_event_type list"
  ce_since :: ms
  ce_ip :: "jstring option"
  ce_phone :: "jstring option"
  ce_deviceHash :: "jstring option"

text \<open>A criterion that is \<open>undefined\<close> is no criterion.\<close>

definition matches_if_given :: "jstring option \<Rightarrow> jstring option \<Rightarrow> bool" where
  "matches_if_given wanted value \<longleftrightarrow> wanted = None \<or> value = wanted"

definition counted :: "count_events_input \<Rightarrow> auth_event_row \<Rightarrow> bool" where
  "counted input r \<longleftrightarrow> ae_type r \<in> set (ce_types input) \<and> ce_since input \<le> ae_createdAt r
     \<and> matches_if_given (ce_ip input) (ae_ip r) \<and> matches_if_given (ce_phone input) (Some (ae_phone r))
     \<and> matches_if_given (ce_deviceHash input) (ae_deviceHash r)"

definition countRecentEvents :: "db \<Rightarrow> count_events_input \<Rightarrow> nat" where
  "countRecentEvents d input = count_rows (counted input) (authEvents d)"

section \<open>The operator's overview\<close>

definition ABUSE_EVENT_TYPES :: "auth_event_type list" where
  "ABUSE_EVENT_TYPES = [OtpRequestRateLimited, OtpResendBlocked, OtpVerifyFailed, OtpVerifyLocked]"

definition FIFTEEN_MINUTES_MS :: ms where "FIFTEEN_MINUTES_MS = 15 * 60 * 1000"
definition ONE_HOUR_MS :: ms where "ONE_HOUR_MS = 60 * 60 * 1000"
definition ONE_DAY_MS :: ms where "ONE_DAY_MS = 24 * ONE_HOUR_MS"

text \<open>\<open>groupBy\<close> with the number of rows of each group; the order of equal counts is the database's.\<close>

definition group_counts :: "('r \<Rightarrow> 'k) \<Rightarrow> ('r \<Rightarrow> bool) \<Rightarrow> 'r list \<Rightarrow> ('k \<times> nat) list" where
  "group_counts key p rows =
     map (\<lambda>k. (k, count_rows (\<lambda>r. p r \<and> key r = k) rows)) (remdups (map key (filter p rows)))"

definition top_five :: "('k \<times> nat) list \<Rightarrow> ('k \<times> nat) list" where
  "top_five groups = take 5 (sort_key (\<lambda>(k, n). - int n) groups)"

definition countByTypeSince :: "db \<Rightarrow> ms \<Rightarrow> (auth_event_type \<times> nat) list" where
  "countByTypeSince d since = group_counts ae_type (\<lambda>r. since \<le> ae_createdAt r) (authEvents d)"

definition toTypeSummary :: "(auth_event_type \<times> nat) list \<Rightarrow> auth_event_type \<Rightarrow> nat option" where
  "toTypeSummary rows = fold (\<lambda>(k, n) acc. acc(k \<mapsto> n)) rows Map.empty"

definition parseMetadataJson :: "json_text option \<Rightarrow> json option" where
  "parseMetadataJson v = (case v of None \<Rightarrow> None | Some (NotJson _) \<Rightarrow> None | Some (Json j) \<Rightarrow> Some j)"

record inspected_event =
  ie_id :: jstring
  ie_type :: auth_event_type
  ie_phone :: jstring
  ie_countryIso :: jstring
  ie_ip :: "jstring option"
  ie_deviceRef :: "jstring option"
  ie_userAgent :: "jstring option"
  ie_attemptNumber :: "nat option"
  ie_userId :: "jstring option"
  ie_otpCodeId :: "jstring option"
  ie_metadata :: "json option"
  ie_createdAt :: ms

definition inspect_event :: "auth_event_row \<Rightarrow> inspected_event" where
  "inspect_event r =
     \<lparr>ie_id = ae_id r, ie_type = ae_type r, ie_phone = maskPhone (ae_phone r), ie_countryIso = ae_countryIso r,
      ie_ip = ae_ip r, ie_deviceRef = getDeviceReference (ae_deviceHash r), ie_userAgent = ae_userAgent r,
      ie_attemptNumber = ae_attemptNumber r, ie_userId = ae_userId r, ie_otpCodeId = ae_otpCodeId r,
      ie_metadata = parseMetadataJson (ae_metadataJson r), ie_createdAt = ae_createdAt r\<rparr>"

record auth_inspection =
  ai_summary :: "auth_event_type \<Rightarrow> nat option"
  ai_generatedAt :: ms
  ai_last15Minutes :: "auth_event_type \<Rightarrow> nat option"
  ai_lastHour :: "auth_event_type \<Rightarrow> nat option"
  ai_last24Hours :: "auth_event_type \<Rightarrow> nat option"
  ai_otpRequests :: nat
  ai_withDevice :: nat
  ai_percentage :: int
  ai_phones :: "(jstring \<times> nat) list"
  ai_ips :: "(jstring option \<times> nat) list"
  ai_devices :: "(jstring option \<times> nat) list"
  ai_recent :: "inspected_event list"

definition device_percentage :: "nat \<Rightarrow> nat \<Rightarrow> int" where
  "device_percentage withDevice requests =
     (if requests = 0 then 0 else math_round (fl (fl (of_nat withDevice / of_nat requests) * 100)))"

definition auth_getInspection :: "db \<Rightarrow> ms \<Rightarrow> int \<Rightarrow> auth_inspection" where
  "auth_getInspection d now limit =
     (let boundedLimit = min (max limit 1) 50;
          last24Hours = now - ONE_DAY_MS;
          abuse = (\<lambda>r. last24Hours \<le> ae_createdAt r \<and> ae_type r \<in> set ABUSE_EVENT_TYPES);
          requested = (\<lambda>r. ae_type r = OtpRequested \<and> last24Hours \<le> ae_createdAt r);
          otpRequests = count_rows requested (authEvents d);
          withDevice = count_rows (\<lambda>r. requested r \<and> ae_deviceHash r \<noteq> None) (authEvents d)
      in \<lparr>ai_summary = toTypeSummary (group_counts ae_type (\<lambda>r. True) (authEvents d)),
          ai_generatedAt = now,
          ai_last15Minutes = toTypeSummary (countByTypeSince d (now - FIFTEEN_MINUTES_MS)),
          ai_lastHour = toTypeSummary (countByTypeSince d (now - ONE_HOUR_MS)),
          ai_last24Hours = toTypeSummary (countByTypeSince d last24Hours),
          ai_otpRequests = otpRequests, ai_withDevice = withDevice,
          ai_percentage = device_percentage withDevice otpRequests,
          ai_phones = map (\<lambda>(p, n). (maskPhone p, n)) (top_five (group_counts ae_phone abuse (authEvents d))),
          ai_ips = top_five (group_counts ae_ip (\<lambda>r. abuse r \<and> ae_ip r \<noteq> None) (authEvents d)),
          ai_devices = map (\<lambda>(h, n). (getDeviceReference h, n))
            (top_five (group_counts ae_deviceHash (\<lambda>r. abuse r \<and> ae_deviceHash r \<noteq> None) (authEvents d))),
          ai_recent = map inspect_event (take (nat boundedLimit) (find_many_by (\<lambda>r. - ae_createdAt r) (\<lambda>r. True) (authEvents d)))\<rparr>)"

section \<open>What the overview says\<close>

lemma toTypeSummary_lookup:
  "distinct (map fst rows) \<Longrightarrow> fold (\<lambda>(k, n) acc. acc(k \<mapsto> n)) rows m t = (case map_of rows t of None \<Rightarrow> m t | Some n \<Rightarrow> Some n)"
proof (induction rows arbitrary: m)
  case (Cons p rows)
  then have "fst p \<notin> dom (map_of rows)" by (simp add: dom_map_of_conv_image_fst)
  with Cons show ?case by (cases p) (auto split: option.splits)
qed simp

lemma summary_counts:
  "toTypeSummary (group_counts ae_type p rows) t
     = (if count_rows (\<lambda>r. p r \<and> ae_type r = t) rows = 0 then None else Some (count_rows (\<lambda>r. p r \<and> ae_type r = t) rows))"
proof -
  let ?f = "\<lambda>k. count_rows (\<lambda>r. p r \<and> ae_type r = k) rows" and ?ks = "remdups (map ae_type (filter p rows))"
  have "map fst (group_counts ae_type p rows) = ?ks" by (simp add: group_counts_def comp_def)
  then have d: "distinct (map fst (group_counts ae_type p rows))" by simp
  have "map_of (group_counts ae_type p rows) t = (if t \<in> set ?ks then Some (?f t) else None)"
    by (simp add: group_counts_def map_of_map_restrict restrict_map_def)
  moreover have "t \<in> set ?ks \<longleftrightarrow> ?f t \<noteq> 0" by (auto simp: count_rows_0)
  ultimately show ?thesis by (simp add: toTypeSummary_def toTypeSummary_lookup [OF d])
qed

lemma device_percentage_range:
  assumes "withDevice \<le> requests"
  shows "0 \<le> device_percentage withDevice requests \<and> device_percentage withDevice requests \<le> 100"
proof (cases "requests = 0")
  case False
  let ?q = "of_nat withDevice / of_nat requests :: rat"
  have "0 \<le> ?q" "?q \<le> 1" using assms False by (simp_all add: divide_le_eq)
  then have "0 \<le> fl ?q" "fl ?q \<le> 1" using fl_mono [of 0 ?q] fl_mono [of ?q 1] by simp_all
  then have "0 \<le> fl (fl ?q * 100)" "fl (fl ?q * 100) \<le> 100"
    using fl_mono [of 0 "fl ?q * 100"] fl_mono [of "fl ?q * 100" 100] fl_of_int [of 100] by simp_all
  then have "math_round (of_int 0) \<le> math_round (fl (fl ?q * 100)) \<and> math_round (fl (fl ?q * 100)) \<le> math_round (of_int 100)"
    by (intro conjI math_round_mono) simp_all
  then show ?thesis using False by (simp only: device_percentage_def if_False math_round_of_int)
qed (simp add: device_percentage_def)

lemma count_rows_mono: "(\<And>r. r \<in> set rows \<Longrightarrow> p r \<Longrightarrow> q r) \<Longrightarrow> count_rows p rows \<le> count_rows q rows"
  by (induction rows) (auto simp: count_rows_def)

text \<open>
  The operator's overview is sound: the summary of every type is the number of its events,
  absent only when there is none, the share of requests that carried a device lies between 0
  and 100 and no list is longer than it should be.
\<close>

lemma overview_sound:
  "(let v = auth_getInspection d now limit in
     ai_summary v t = (let n = count_rows (\<lambda>r. ae_type r = t) (authEvents d) in if n = 0 then None else Some n)
     \<and> 0 \<le> ai_percentage v \<and> ai_percentage v \<le> 100 \<and> ai_withDevice v \<le> ai_otpRequests v
     \<and> length (ai_recent v) \<le> 50 \<and> length (ai_phones v) \<le> 5 \<and> length (ai_ips v) \<le> 5 \<and> length (ai_devices v) \<le> 5)"
proof -
  let ?requested = "\<lambda>r. ae_type r = OtpRequested \<and> now - ONE_DAY_MS \<le> ae_createdAt r"
  have le: "count_rows (\<lambda>r. ?requested r \<and> ae_deviceHash r \<noteq> None) (authEvents d) \<le> count_rows ?requested (authEvents d)"
    by (intro count_rows_mono) simp
  have "min (max limit 1) 50 \<le> 50" by simp
  then have "nat (min (max limit 1) 50) \<le> 50" by linarith
  then have "length (take (nat (min (max limit 1) 50)) rows) \<le> 50" for rows :: "auth_event_row list"
    by (simp add: min.coboundedI2)
  moreover have "toTypeSummary (group_counts ae_type (\<lambda>r. True) (authEvents d)) t
      = (let n = count_rows (\<lambda>r. ae_type r = t) (authEvents d) in if n = 0 then None else Some n)"
    using summary_counts [of "\<lambda>r. True" "authEvents d" t] by simp
  ultimately show ?thesis
    using le device_percentage_range [OF le] by (simp add: auth_getInspection_def Let_def top_five_def)
qed

end
