(* ===== verification/Auth_Session.thy ===== *)
theory Auth_Session
  imports Auth_Telemetry
begin

text \<open>
  Sessions, the second half of \<open>api/src/auth/auth.service.ts\<close>: refresh tokens come in families,
  one per sign-in; a refresh rotates the token of its family in a transaction, a token that is
  presented twice revokes its family, and a sign-in evicts the oldest families beyond the cap.
  A transaction that throws leaves the database as it was. Every handler sees one instant.
\<close>

section \<open>Settings\<close>

definition accessTokenExpiresIn :: "auth_env \<Rightarrow> jstring" where
  "accessTokenExpiresIn e = or_default (config_text e (js ''JWT_EXPIRES_IN'')) (js ''15m'')"

definition refreshTokenExpiresIn :: "auth_env \<Rightarrow> jstring" where
  "refreshTokenExpiresIn e = or_default (config_text e (js ''AUTH_REFRESH_TOKEN_EXPIRES_IN'')) (js ''30d'')"

definition refreshFamilyMaxAge :: "auth_env \<Rightarrow> jstring" where
  "refreshFamilyMaxAge e = or_default (config_text e (js ''AUTH_REFRESH_FAMILY_MAX_AGE'')) (js ''90d'')"

definition maxRefreshFamiliesPerUser :: "auth_env \<Rightarrow> int" where
  "maxRefreshFamiliesPerUser e =
     (let parsed = (case config_raw e (js ''AUTH_REFRESH_MAX_FAMILIES_PER_USER'') of
                      None \<Rightarrow> None | Some (RawNumber r) \<Rightarrow> Some r | Some (RawString s) \<Rightarrow> number_of_text e s)
      in (case parsed of None \<Rightarrow> 5 | Some p \<Rightarrow> if 1 \<le> p then \<lfloor>p\<rfloor> else 5))"

section \<open>Families of refresh tokens\<close>

definition revoke_row :: "ms \<Rightarrow> refresh_token_row \<Rightarrow> refresh_token_row" where
  "revoke_row now r = r\<lparr>rt_revokedAt := Some now\<rparr>"

definition revokeRefreshTokens :: "ms \<Rightarrow> (refresh_token_row \<Rightarrow> bool) \<Rightarrow> db \<Rightarrow> db" where
  "revokeRefreshTokens now p d =
     d\<lparr>refreshTokens := update_many (\<lambda>r. p r \<and> rt_revokedAt r = None) (revoke_row now) (refreshTokens d)\<rparr>"

definition revokeRefreshFamily :: "ms \<Rightarrow> jstring \<Rightarrow> db \<Rightarrow> db" where
  "revokeRefreshFamily now familyId d = revokeRefreshTokens now (\<lambda>r. rt_familyId r = familyId) d"

definition revoke_families :: "ms \<Rightarrow> jstring \<Rightarrow> jstring list \<Rightarrow> db \<Rightarrow> db" where
  "revoke_families now userId families d =
     fold (\<lambda>f. revokeRefreshTokens now (\<lambda>r. rt_familyId r = f \<and> rt_userId r = userId)) families d"

text \<open>The distinct families of the live tokens of a user, and when a family began.\<close>

definition live_token :: "jstring \<Rightarrow> refresh_token_row \<Rightarrow> bool" where
  "live_token userId r \<longleftrightarrow> rt_userId r = userId \<and> rt_revokedAt r = None"

definition families_where :: "(refresh_token_row \<Rightarrow> bool) \<Rightarrow> db \<Rightarrow> jstring list" where
  "families_where p d = remdups (map rt_familyId (filter p (refreshTokens d)))"

definition family_began :: "jstring \<Rightarrow> db \<Rightarrow> jstring \<Rightarrow> ms" where
  "family_began userId d f =
     Min (rt_familyCreatedAt ` {r \<in> set (refreshTokens d). live_token userId r \<and> rt_familyId r = f})"

definition evicted_families :: "auth_env \<Rightarrow> jstring \<Rightarrow> db \<Rightarrow> jstring list" where
  "evicted_families e userId d =
     (let liveFamilies = families_where (live_token userId) d;
          overflow = int (length liveFamilies) - (maxRefreshFamiliesPerUser e - 1)
      in if overflow \<le> 0 then [] else take (nat overflow) (sort_key (family_began userId d) liveFamilies))"

definition prepareRefreshFamilySlot :: "auth_env \<Rightarrow> ms \<Rightarrow> jstring \<Rightarrow> jstring option \<Rightarrow> db \<Rightarrow> db" where
  "prepareRefreshFamilySlot e now userId deviceHash d =
     (let d = (if truthy deviceHash
               then revoke_families now userId (families_where (\<lambda>r. live_token userId r \<and> rt_deviceHash r = deviceHash) d) d
               else d)
      in revoke_families now userId (evicted_families e userId d) d)"

definition refresh_conflict :: "refresh_token_row \<Rightarrow> refresh_token_row list \<Rightarrow> bool" where
  "refresh_conflict r rows \<longleftrightarrow> list_ex (\<lambda>q. rt_id q = rt_id r \<or> rt_tokenHash q = rt_tokenHash r) rows"

definition createRefreshTokenRow ::
  "auth_env \<Rightarrow> ms \<Rightarrow> jstring \<Rightarrow> jstring \<Rightarrow> jstring \<Rightarrow> jstring \<Rightarrow> jstring option \<Rightarrow> ms \<Rightarrow> db \<Rightarrow> db result"
where
  "createRefreshTokenRow e now newId rawToken userId familyId deviceHash familyCreatedAt d =
     (case parseDurationToMs (refreshTokenExpiresIn e) of
        Inl err \<Rightarrow> Inl err
      | Inr lifetime \<Rightarrow>
          (let row = \<lparr>rt_id = newId, rt_userId = userId, rt_tokenHash = hashRefreshToken e rawToken,
                 rt_familyId = familyId, rt_familyCreatedAt = familyCreatedAt, rt_deviceHash = deviceHash,
                 rt_expiresAt = now + lifetime, rt_revokedAt = None, rt_replacedById = None, rt_createdAt = now\<rparr>
           in if refresh_conflict row (refreshTokens d) then Inl (prisma_error_thrown P2002)
              else if \<not> user_exists d userId then Inl (prisma_error_thrown P2003)
              else Inr (d\<lparr>refreshTokens := create_row row (refreshTokens d)\<rparr>)))"

definition signAccessToken :: "auth_env \<Rightarrow> jstring \<Rightarrow> jstring \<Rightarrow> jstring result" where
  "signAccessToken e userId phone =
     (case parseDurationToSeconds (accessTokenExpiresIn e) of
        Inl err \<Rightarrow> Inl err | Inr s \<Rightarrow> sign_jwt e userId phone s)"

text \<open>The answer to a sign-in or a refresh.\<close>

definition new_session :: "auth_env \<Rightarrow> jstring \<Rightarrow> jstring \<Rightarrow> jstring \<Rightarrow> session result" where
  "new_session e userId phone rawToken =
     (case signAccessToken e userId phone of
        Inl err \<Rightarrow> Inl err
      | Inr token \<Rightarrow>
          (case parseDurationToSeconds (accessTokenExpiresIn e) of
             Inl err \<Rightarrow> Inl err
           | Inr s \<Rightarrow> Inr \<lparr>se_token = token, se_refreshToken = rawToken, se_expiresIn = s\<rparr>))"

text \<open>The random values of a call: the identifier of the new row, the token, the family.\<close>

record session_random =
  sr_rowId :: jstring
  sr_rawToken :: jstring
  sr_familyId :: jstring

text \<open>Not called by any handler of the source.\<close>

definition issueSession ::
  "auth_env \<Rightarrow> session_random \<Rightarrow> ms \<Rightarrow> jstring \<Rightarrow> jstring \<Rightarrow> jstring option \<Rightarrow> db \<Rightarrow> session result \<times> db"
where
  "issueSession e rnd now userId phone deviceHash d =
     (case createRefreshTokenRow e now (sr_rowId rnd) (sr_rawToken rnd) userId (sr_familyId rnd) deviceHash now
             (prepareRefreshFamilySlot e now userId deviceHash d) of
        Inl err \<Rightarrow> (Inl err, d)
      | Inr d' \<Rightarrow> (new_session e userId phone (sr_rawToken rnd), d'))"

section \<open>Refreshing\<close>

definition invalid_refresh :: http_error where
  "invalid_refresh = Unauthorized ''Invalid refresh token''"

text \<open>The checks before the transaction: the token found, the greatest age and the device.\<close>

definition refresh_check ::
  "auth_env \<Rightarrow> ms \<Rightarrow> db \<Rightarrow> jstring \<Rightarrow> jstring option \<Rightarrow> (refresh_token_row \<times> int \<times> jstring option) result \<times> db"
where
  "refresh_check e now d refreshToken deviceId =
     (case find_first (\<lambda>r. rt_tokenHash r = hashRefreshToken e refreshToken) (refreshTokens d) of
        None \<Rightarrow> (Inl invalid_refresh, d)
      | Some existing \<Rightarrow>
          (if rt_revokedAt existing \<noteq> None then (Inl invalid_refresh, revokeRefreshFamily now (rt_familyId existing) d)
           else if rt_expiresAt existing \<le> now
           then (Inl invalid_refresh, d\<lparr>refreshTokens :=
                   update_many (\<lambda>r. rt_id r = rt_id existing) (revoke_row now) (refreshTokens d)\<rparr>)
           else (case parseDurationToMs (refreshFamilyMaxAge e) of
                   Inl err \<Rightarrow> (Inl err, d)
                 | Inr familyMaxAgeMs \<Rightarrow>
                     if rt_familyCreatedAt existing + familyMaxAgeMs \<le> now
                     then (Inl invalid_refresh, revokeRefreshFamily now (rt_familyId existing) d)
                     else (case hashDeviceIdentifier e deviceId (config_text e (js ''AUTH_DEVICE_IDENTIFIER_SECRET'')) of
                             Inl err \<Rightarrow> (Inl err, d)
                           | Inr deviceHash \<Rightarrow>
                               if truthy (rt_deviceHash existing) \<and> (\<not> truthy deviceHash \<or> deviceHash \<noteq> rt_deviceHash existing)
                               then (Inl invalid_refresh, d)
                               else (Inr (existing, familyMaxAgeMs, deviceHash), d)))))"

text \<open>The condition of the write that rotates a token.\<close>

definition rotatable :: "int \<Rightarrow> ms \<Rightarrow> refresh_token_row \<Rightarrow> bool" where
  "rotatable familyMaxAgeMs now r \<longleftrightarrow>
     rt_revokedAt r = None \<and> now < rt_expiresAt r \<and> now - familyMaxAgeMs < rt_familyCreatedAt r"

definition replaced_by :: "jstring \<Rightarrow> refresh_token_row \<Rightarrow> refresh_token_row" where
  "replaced_by newId r = r\<lparr>rt_replacedById := Some newId\<rparr>"

definition rotate ::
  "auth_env \<Rightarrow> session_random \<Rightarrow> ms \<Rightarrow> db \<Rightarrow> refresh_token_row \<Rightarrow> int \<Rightarrow> jstring option \<Rightarrow> session option result \<times> db"
where
  "rotate e rnd now d existing familyMaxAgeMs deviceHash =
     (let claim = (\<lambda>r. rt_id r = rt_id existing \<and> rotatable familyMaxAgeMs now r)
      in if count_rows claim (refreshTokens d) \<noteq> 1 then (Inr None, d)
         else (let d1 = d\<lparr>refreshTokens := update_many claim (revoke_row now) (refreshTokens d)\<rparr>
               in case createRefreshTokenRow e now (sr_rowId rnd) (sr_rawToken rnd) (rt_userId existing)
                         (rt_familyId existing) (if deviceHash = None then rt_deviceHash existing else deviceHash)
                         (rt_familyCreatedAt existing) d1 of
                    Inl err \<Rightarrow> (Inl err, d)
                  | Inr d2 \<Rightarrow>
                      (case new_session e (rt_userId existing) (user_phone d (rt_userId existing)) (sr_rawToken rnd) of
                         Inl err \<Rightarrow> (Inl err, d)
                       | Inr s \<Rightarrow> (Inr (Some s), d2\<lparr>refreshTokens :=
                           update_many (\<lambda>r. rt_id r = rt_id existing) (replaced_by (sr_rowId rnd)) (refreshTokens d2)\<rparr>))))"

text \<open>What follows the transaction: a lost rotation revokes the family when the token is spent.\<close>

definition refresh_outcome ::
  "auth_env \<Rightarrow> ms \<Rightarrow> jstring \<Rightarrow> refresh_token_row \<Rightarrow> session option result \<times> db \<Rightarrow> session result \<times> db"
where
  "refresh_outcome e now refreshToken existing res =
     (case res of
        (Inl err, d) \<Rightarrow> (Inl err, d)
      | (Inr (Some s), d) \<Rightarrow> (Inr s, d)
      | (Inr None, d) \<Rightarrow>
          (case find_first (\<lambda>r. rt_tokenHash r = hashRefreshToken e refreshToken) (refreshTokens d) of
             None \<Rightarrow> (Inl invalid_refresh, d)
           | Some current \<Rightarrow>
               (Inl invalid_refresh, if rt_revokedAt current \<noteq> None
                  then revokeRefreshFamily now (rt_familyId existing) d else d)))"

definition refreshSession ::
  "auth_env \<Rightarrow> session_random \<Rightarrow> ms \<Rightarrow> db \<Rightarrow> jstring \<Rightarrow> jstring option \<Rightarrow> session result \<times> db"
where
  "refreshSession e rnd now d refreshToken deviceId =
     (case refresh_check e now d refreshToken deviceId of
        (Inl err, d') \<Rightarrow> (Inl err, d')
      | (Inr (existing, age, deviceHash), d') \<Rightarrow>
          refresh_outcome e now refreshToken existing (rotate e rnd now d' existing age deviceHash))"

section \<open>Signing out\<close>

record revoke_input =
  ri_refreshToken :: "jstring option"
  ri_accessToken :: "jstring option"
  ri_allDevices :: "bool option"

definition refresh_owner :: "auth_env \<Rightarrow> db \<Rightarrow> jstring option \<Rightarrow> jstring option" where
  "refresh_owner e d token =
     (if truthy token
      then map_option rt_userId (find_first (\<lambda>r. rt_tokenHash r = hashRefreshToken e (the token)) (refreshTokens d))
      else None)"

definition resolveUserIdForLogout :: "auth_env \<Rightarrow> db \<Rightarrow> revoke_input \<Rightarrow> jstring option" where
  "resolveUserIdForLogout e d input =
     (if truthy (ri_accessToken input) then
        (let sec = config_text e (js ''JWT_SECRET'')
         in if \<not> truthy sec then None
            else (case verify_jwt e (the (ri_accessToken input)) (the sec) of
                    JwtClaims (Some p) \<Rightarrow>
                      if truthy (jc_sub p) then jc_sub p else refresh_owner e d (ri_refreshToken input)
                  | _ \<Rightarrow> refresh_owner e d (ri_refreshToken input)))
      else refresh_owner e d (ri_refreshToken input))"

definition revokeSession :: "auth_env \<Rightarrow> ms \<Rightarrow> db \<Rightarrow> revoke_input \<Rightarrow> unit result \<times> db" where
  "revokeSession e now d input =
     (if ri_allDevices input = Some True then
        (Inr (), case resolveUserIdForLogout e d input of
                   None \<Rightarrow> d
                 | Some userId \<Rightarrow> if userId = [] then d else revokeRefreshTokens now (\<lambda>r. rt_userId r = userId) d)
      else if truthy (ri_refreshToken input) then
        (Inr (), case find_first (\<lambda>r. rt_tokenHash r = hashRefreshToken e (the (ri_refreshToken input))) (refreshTokens d) of
                   None \<Rightarrow> d
                 | Some existing \<Rightarrow> revokeRefreshFamily now (rt_familyId existing) d)
      else if truthy (ri_accessToken input) then (Inr (), d)
      else (Inl (Unauthorized ''Missing session credential''), d))"

text \<open>Only one of two rotations of the same token can win, however they are timed.\<close>

interpretation rotation: claim_once rt_id "\<lambda>(age, now). rotatable age now" "\<lambda>(age, now). revoke_row now" "\<lambda>_ _. True"
  by unfold_locales (auto simp: rotatable_def revoke_row_def)


section \<open>What revoking does to the live tokens\<close>

definition live_set :: "jstring \<Rightarrow> db \<Rightarrow> refresh_token_row set" where
  "live_set u d = {r \<in> set (refreshTokens d). live_token u r}"

definition live_families :: "jstring \<Rightarrow> db \<Rightarrow> jstring set" where
  "live_families u d = rt_familyId ` live_set u d"

lemma revoked_rows [simp]:
  "rt_id (revoke_row now r) = rt_id r" "rt_userId (revoke_row now r) = rt_userId r"
  "rt_tokenHash (revoke_row now r) = rt_tokenHash r" "rt_familyId (revoke_row now r) = rt_familyId r"
  "rt_familyCreatedAt (revoke_row now r) = rt_familyCreatedAt r" "rt_revokedAt (revoke_row now r) = Some now"
  by (simp_all add: revoke_row_def)

lemma replaced_rows [simp]:
  "rt_id (replaced_by i r) = rt_id r" "rt_userId (replaced_by i r) = rt_userId r"
  "rt_tokenHash (replaced_by i r) = rt_tokenHash r" "rt_familyId (replaced_by i r) = rt_familyId r"
  "rt_familyCreatedAt (replaced_by i r) = rt_familyCreatedAt r" "rt_revokedAt (replaced_by i r) = rt_revokedAt r"
  "rt_expiresAt (replaced_by i r) = rt_expiresAt r"
  by (simp_all add: replaced_by_def)

lemma live_revoke: "live_set u (revokeRefreshTokens now p d) = {r \<in> live_set u d. \<not> p r}"
proof
  show "live_set u (revokeRefreshTokens now p d) \<subseteq> {r \<in> live_set u d. \<not> p r}"
  proof
    fix r assume r: "r \<in> live_set u (revokeRefreshTokens now p d)"
    then have "r \<in> set (update_many (\<lambda>r. p r \<and> rt_revokedAt r = None) (revoke_row now) (refreshTokens d))"
      by (simp add: live_set_def revokeRefreshTokens_def)
    then show "r \<in> {r \<in> live_set u d. \<not> p r}"
      by (rule in_update_cases) (use r in \<open>auto simp: live_set_def live_token_def\<close>)
  qed
  show "{r \<in> live_set u d. \<not> p r} \<subseteq> live_set u (revokeRefreshTokens now p d)"
    by (auto simp: live_set_def revokeRefreshTokens_def update_many_def)
qed

lemma live_revoke_families:
  "live_set v (revoke_families now u fs d) = {r \<in> live_set v d. \<not> (v = u \<and> rt_familyId r \<in> set fs)}"
proof (induction fs arbitrary: d)
  case (Cons f fs)
  let ?d = "revokeRefreshTokens now (\<lambda>r. rt_familyId r = f \<and> rt_userId r = u) d"
  have "revoke_families now u (f # fs) d = revoke_families now u fs ?d" by (simp add: revoke_families_def)
  moreover have "rt_userId r = v" if "r \<in> live_set v d" for r using that by (simp add: live_set_def live_token_def)
  ultimately show ?case unfolding Cons [of ?d] by (auto simp: live_revoke Cons)
qed (simp add: revoke_families_def)

lemma set_families: "set (families_where (live_token u) d) = live_families u d"
  by (auto simp: families_where_def live_families_def live_set_def)

lemma length_families: "length (families_where (live_token u) d) = card (live_families u d)"
  by (simp add: families_where_def length_remdups_card_conv live_families_def live_set_def)

lemma max_families_pos: "1 \<le> maxRefreshFamiliesPerUser e"
  by (auto simp: maxRefreshFamiliesPerUser_def Let_def le_floor_iff split: option.splits raw_number.splits)

lemma room_left: "1 \<le> (m :: int) \<Longrightarrow> \<not> int c < m \<Longrightarrow> int (c - nat (int c - (m - 1))) < m"
  by linarith

lemma evicted_leave_room:
  "int (card (live_families u d - set (evicted_families e u d))) \<le> maxRefreshFamiliesPerUser e - 1"
proof -
  let ?fs = "families_where (live_token u) d" and ?max = "maxRefreshFamiliesPerUser e"
  let ?over = "int (length ?fs) - (?max - 1)"
  show ?thesis
  proof (cases "?over \<le> 0")
    case True
    then show ?thesis by (simp add: evicted_families_def length_families)
  next
    case False
    let ?sorted = "sort_key (family_began u d) ?fs"
    have ev: "evicted_families e u d = take (nat ?over) ?sorted"
      using False by (simp add: evicted_families_def Let_def)
    have "distinct ?sorted" by (simp add: families_where_def)
    then have "card (set (take (nat ?over) ?sorted)) = nat ?over"
      using max_families_pos [of e] by (simp add: distinct_card)
    moreover have "set (take (nat ?over) ?sorted) \<subseteq> live_families u d"
      using set_take_subset [of "nat ?over" ?sorted] by (simp add: set_families)
    moreover have "finite (live_families u d)" by (simp add: live_families_def live_set_def)
    ultimately have "card (live_families u d - set (take (nat ?over) ?sorted)) = card (live_families u d) - nat ?over"
      by (simp add: card_Diff_subset)
    then show ?thesis using False room_left [OF max_families_pos [of e]] by (simp add: ev length_families)
  qed
qed

lemma live_prepare:
  "live_set v (prepareRefreshFamilySlot e now u dev d) \<subseteq> live_set v d"
  "v \<noteq> u \<Longrightarrow> live_set v (prepareRefreshFamilySlot e now u dev d) = live_set v d"
  "int (card (live_families u (prepareRefreshFamilySlot e now u dev d))) \<le> maxRefreshFamiliesPerUser e - 1"
proof -
  let ?d = "if truthy dev then revoke_families now u (families_where (\<lambda>r. live_token u r \<and> rt_deviceHash r = dev) d) d else d"
  have p: "prepareRefreshFamilySlot e now u dev d = revoke_families now u (evicted_families e u ?d) ?d"
    by (simp add: prepareRefreshFamilySlot_def Let_def)
  show "live_set v (prepareRefreshFamilySlot e now u dev d) \<subseteq> live_set v d"
    "v \<noteq> u \<Longrightarrow> live_set v (prepareRefreshFamilySlot e now u dev d) = live_set v d"
    unfolding p live_revoke_families by (auto simp: live_revoke_families)
  have "live_families u (prepareRefreshFamilySlot e now u dev d) = live_families u ?d - set (evicted_families e u ?d)"
    unfolding live_families_def p live_revoke_families by auto
  then show "int (card (live_families u (prepareRefreshFamilySlot e now u dev d))) \<le> maxRefreshFamiliesPerUser e - 1"
    using evicted_leave_room [of u ?d e] by simp
qed


section \<open>The invariant of the tokens\<close>

text \<open>
  Identifiers and hashes are unique, the tokens of a family have one user and one beginning, and
  a family has at most one live token.
\<close>

definition one_family :: "refresh_token_row \<Rightarrow> refresh_token_row \<Rightarrow> bool" where
  "one_family r q \<longleftrightarrow> rt_familyId r = rt_familyId q \<longrightarrow>
     rt_userId r = rt_userId q \<and> rt_familyCreatedAt r = rt_familyCreatedAt q
     \<and> (rt_revokedAt r = None \<and> rt_revokedAt q = None \<longrightarrow> r = q)"

definition tokens_ok :: "db \<Rightarrow> bool" where
  "tokens_ok d \<longleftrightarrow> distinct (map rt_id (refreshTokens d)) \<and> distinct (map rt_tokenHash (refreshTokens d))
     \<and> (\<forall>r \<in> set (refreshTokens d). \<forall>q \<in> set (refreshTokens d). one_family r q)"

lemma tokens_okD:
  assumes "tokens_ok d"
  shows "distinct (map rt_id (refreshTokens d))" and "distinct (map rt_tokenHash (refreshTokens d))"
    and "\<And>r q. r \<in> set (refreshTokens d) \<Longrightarrow> q \<in> set (refreshTokens d) \<Longrightarrow> one_family r q"
  using assms unfolding tokens_ok_def by blast+

text \<open>A change of rows that keeps what identifies them and brings no token back to life.\<close>

definition quiet_change :: "(refresh_token_row \<Rightarrow> refresh_token_row) \<Rightarrow> bool" where
  "quiet_change f \<longleftrightarrow> (\<forall>r. rt_id (f r) = rt_id r \<and> rt_userId (f r) = rt_userId r \<and> rt_tokenHash (f r) = rt_tokenHash r
     \<and> rt_familyId (f r) = rt_familyId r \<and> rt_familyCreatedAt (f r) = rt_familyCreatedAt r
     \<and> (rt_revokedAt (f r) = None \<longrightarrow> rt_revokedAt r = None))"

lemma quiet_changes: "quiet_change (revoke_row now)" "quiet_change (replaced_by i)"
  by (simp_all add: quiet_change_def)

lemma tokens_ok_update:
  assumes ok: "tokens_ok d" and q: "quiet_change f"
  shows "tokens_ok (d\<lparr>refreshTokens := update_many p f (refreshTokens d)\<rparr>)"
proof -
  let ?rows = "update_many p f (refreshTokens d)"
  have origin: "\<exists>r0 \<in> set (refreshTokens d). r = (if p r0 then f r0 else r0) \<and> rt_userId r = rt_userId r0
      \<and> rt_familyId r = rt_familyId r0 \<and> rt_familyCreatedAt r = rt_familyCreatedAt r0
      \<and> (rt_revokedAt r = None \<longrightarrow> rt_revokedAt r0 = None)" if r: "r \<in> set ?rows" for r
  proof -
    obtain r0 where r0: "r0 \<in> set (refreshTokens d)" "r = (if p r0 then f r0 else r0)"
      using r unfolding in_set_update_many by blast
    have "rt_userId (f r0) = rt_userId r0 \<and> rt_familyId (f r0) = rt_familyId r0
      \<and> rt_familyCreatedAt (f r0) = rt_familyCreatedAt r0 \<and> (rt_revokedAt (f r0) = None \<longrightarrow> rt_revokedAt r0 = None)"
      using q unfolding quiet_change_def by blast
    then show ?thesis using r0 by (intro bexI [of _ r0]) auto
  qed
  have "map rt_id ?rows = map rt_id (refreshTokens d)" "map rt_tokenHash ?rows = map rt_tokenHash (refreshTokens d)"
    by (rule map_update_many, use q in \<open>simp add: quiet_change_def\<close>)+
  moreover have "one_family r t" if rt: "r \<in> set ?rows" "t \<in> set ?rows" for r t
  proof -
    obtain r0 where r0: "r0 \<in> set (refreshTokens d)" "r = (if p r0 then f r0 else r0)" "rt_userId r = rt_userId r0"
      "rt_familyId r = rt_familyId r0" "rt_familyCreatedAt r = rt_familyCreatedAt r0" "rt_revokedAt r = None \<longrightarrow> rt_revokedAt r0 = None"
      using origin [OF rt(1)] by (elim bexE conjE) (rule that; assumption)
    obtain t0 where t0: "t0 \<in> set (refreshTokens d)" "t = (if p t0 then f t0 else t0)" "rt_userId t = rt_userId t0"
      "rt_familyId t = rt_familyId t0" "rt_familyCreatedAt t = rt_familyCreatedAt t0" "rt_revokedAt t = None \<longrightarrow> rt_revokedAt t0 = None"
      using origin [OF rt(2)] by (elim bexE conjE) (rule that; assumption)
    have "one_family r0 t0" by (rule tokens_okD(3) [OF ok r0(1) t0(1)])
    then show ?thesis unfolding one_family_def using r0(2-6) t0(2-6) by metis
  qed
  ultimately show ?thesis using tokens_okD(1,2) [OF ok] unfolding tokens_ok_def by simp
qed

lemma tokens_ok_revoke: "tokens_ok d \<Longrightarrow> tokens_ok (revokeRefreshTokens now p d)"
  unfolding revokeRefreshTokens_def by (rule tokens_ok_update) (simp_all add: quiet_changes)

lemma tokens_ok_revoke_families: "tokens_ok d \<Longrightarrow> tokens_ok (revoke_families now u fs d)"
  unfolding revoke_families_def by (induction fs arbitrary: d) (simp_all add: tokens_ok_revoke)

lemma tokens_ok_prepare: "tokens_ok d \<Longrightarrow> tokens_ok (prepareRefreshFamilySlot e now u dev d)"
  by (simp add: prepareRefreshFamilySlot_def Let_def tokens_ok_revoke_families)

lemma families_revoke:
  "rt_familyId ` set (refreshTokens (revokeRefreshTokens now p d)) = rt_familyId ` set (refreshTokens d)"
proof -
  have "map rt_familyId (refreshTokens (revokeRefreshTokens now p d)) = map rt_familyId (refreshTokens d)"
    unfolding revokeRefreshTokens_def by (simp add: map_update_many)
  then show ?thesis by (metis list.set_map)
qed

lemma families_prepare:
  "rt_familyId ` set (refreshTokens (prepareRefreshFamilySlot e now u dev d)) = rt_familyId ` set (refreshTokens d)"
proof -
  have "rt_familyId ` set (refreshTokens (revoke_families now u fs d)) = rt_familyId ` set (refreshTokens d)" for fs d
    by (induction fs arbitrary: d) (simp_all add: revoke_families_def families_revoke)
  then show ?thesis by (simp add: prepareRefreshFamilySlot_def Let_def)
qed

text \<open>What a new row is.\<close>

lemma createRefreshTokenRow_Inr:
  assumes "createRefreshTokenRow e now newId raw u f dev t d = Inr d'"
  obtains r where "d' = d\<lparr>refreshTokens := create_row r (refreshTokens d)\<rparr>" "rt_id r = newId" "rt_userId r = u"
    "rt_tokenHash r = hashRefreshToken e raw" "rt_familyId r = f" "rt_familyCreatedAt r = t" "rt_revokedAt r = None"
    "\<not> refresh_conflict r (refreshTokens d)" "user_exists d u" "rt_deviceHash r = dev"
  using assms by (auto simp: createRefreshTokenRow_def Let_def split: sum.splits if_splits)

lemma tokens_ok_create:
  assumes ok: "tokens_ok d" and "\<not> refresh_conflict r (refreshTokens d)"
    and fam: "\<And>q. q \<in> set (refreshTokens d) \<Longrightarrow> rt_familyId q = rt_familyId r \<Longrightarrow>
       rt_userId q = rt_userId r \<and> rt_familyCreatedAt q = rt_familyCreatedAt r \<and> rt_revokedAt q \<noteq> None"
  shows "tokens_ok (d\<lparr>refreshTokens := create_row r (refreshTokens d)\<rparr>)"
proof -
  have free: "\<forall>q \<in> set (refreshTokens d). rt_id q \<noteq> rt_id r \<and> rt_tokenHash q \<noteq> rt_tokenHash r"
    using assms(2) unfolding refresh_conflict_def list_ex_iff by blast
  then have "distinct (map rt_id (create_row r (refreshTokens d)))" "distinct (map rt_tokenHash (create_row r (refreshTokens d)))"
    using tokens_okD(1,2) [OF ok] by (auto simp: create_row_def image_iff)
  moreover have "one_family p q" if pq: "p \<in> insert r (set (refreshTokens d))" "q \<in> insert r (set (refreshTokens d))" for p q
  proof -
    consider "p = r" "q = r" | "p = r" "q \<in> set (refreshTokens d)" | "p \<in> set (refreshTokens d)" "q = r"
      | "p \<in> set (refreshTokens d)" "q \<in> set (refreshTokens d)"
      using pq by blast
    then show ?thesis
    proof cases
      case 2
      then show ?thesis using fam [of q] by (auto simp: one_family_def)
    next
      case 3
      then show ?thesis using fam [of p] by (auto simp: one_family_def)
    next
      case 4
      then show ?thesis by (rule tokens_okD(3) [OF ok])
    qed (simp add: one_family_def)
  qed
  ultimately show ?thesis unfolding tokens_ok_def by (simp add: set_create_row)
qed


section \<open>Sessions under any interleaving\<close>

lemma live_families_quiet:
  assumes "quiet_change f"
  shows "live_families v (d\<lparr>refreshTokens := update_many p f (refreshTokens d)\<rparr>) \<subseteq> live_families v d"
proof
  fix x assume "x \<in> live_families v (d\<lparr>refreshTokens := update_many p f (refreshTokens d)\<rparr>)"
  then obtain r where r: "r \<in> set (update_many p f (refreshTokens d))" "live_token v r" "x = rt_familyId r"
    by (auto simp: live_families_def live_set_def)
  from r(1) show "x \<in> live_families v d"
  proof (rule in_update_cases)
    assume "r \<in> set (refreshTokens d)"
    then show ?thesis using r by (simp add: live_families_def live_set_def)
  next
    fix r0 assume r0: "r0 \<in> set (refreshTokens d)" "r = f r0"
    then have "live_token v r0" "x = rt_familyId r0"
      using assms r unfolding quiet_change_def live_token_def by metis+
    then show ?thesis using r0 by (simp add: live_families_def live_set_def)
  qed
qed

text \<open>A row read earlier: since then it may have been revoked, but it is still the same token.\<close>

definition known_token :: "db \<Rightarrow> refresh_token_row \<Rightarrow> bool" where
  "known_token d existing \<longleftrightarrow> (\<exists>r \<in> set (refreshTokens d). rt_id r = rt_id existing \<and> rt_userId r = rt_userId existing
     \<and> rt_familyId r = rt_familyId existing \<and> rt_familyCreatedAt r = rt_familyCreatedAt existing)"

lemma rotate_Some:
  assumes "rotate e rnd now d existing age dev = (Inr (Some s), d')" and "tokens_ok d" and "known_token d existing"
  obtains r0 new where "r0 \<in> set (refreshTokens d)" "rt_id r0 = rt_id existing" "rotatable age now r0"
    "rt_userId r0 = rt_userId existing" "rt_familyId r0 = rt_familyId existing"
    "d' = d\<lparr>refreshTokens := update_many (\<lambda>r. rt_id r = rt_id existing) (replaced_by (sr_rowId rnd))
       (create_row new (update_many (\<lambda>r. rt_id r = rt_id existing \<and> rotatable age now r) (revoke_row now) (refreshTokens d)))\<rparr>"
    "rt_userId new = rt_userId existing" "rt_familyId new = rt_familyId existing" "rt_revokedAt new = None"
    "rt_familyCreatedAt new = rt_familyCreatedAt existing" "rt_tokenHash new = hashRefreshToken e (sr_rawToken rnd)"
    "\<not> refresh_conflict new (update_many (\<lambda>r. rt_id r = rt_id existing \<and> rotatable age now r) (revoke_row now) (refreshTokens d))"
    "rt_familyCreatedAt r0 = rt_familyCreatedAt existing" "se_refreshToken s = sr_rawToken rnd"
proof -
  let ?claim = "\<lambda>r. rt_id r = rt_id existing \<and> rotatable age now r"
  let ?d1 = "d\<lparr>refreshTokens := update_many ?claim (revoke_row now) (refreshTokens d)\<rparr>"
  from assms(1) obtain d2 where one: "count_rows ?claim (refreshTokens d) = 1"
    and c: "createRefreshTokenRow e now (sr_rowId rnd) (sr_rawToken rnd) (rt_userId existing) (rt_familyId existing)
       (if dev = None then rt_deviceHash existing else dev) (rt_familyCreatedAt existing) ?d1 = Inr d2"
    and d': "d' = d2\<lparr>refreshTokens := update_many (\<lambda>r. rt_id r = rt_id existing) (replaced_by (sr_rowId rnd)) (refreshTokens d2)\<rparr>"
    and s: "new_session e (rt_userId existing) (user_phone d (rt_userId existing)) (sr_rawToken rnd) = Inr s"
    by (auto simp: rotate_def Let_def split: if_splits sum.splits)
  have "count_rows ?claim (refreshTokens d) \<noteq> 0" using one by simp
  then obtain r0 where r0: "r0 \<in> set (refreshTokens d)" "?claim r0" unfolding count_rows_0 by blast
  obtain r1 where r1: "r1 \<in> set (refreshTokens d)" "rt_id r1 = rt_id existing" "rt_userId r1 = rt_userId existing"
    "rt_familyId r1 = rt_familyId existing" "rt_familyCreatedAt r1 = rt_familyCreatedAt existing"
    using assms(3) unfolding known_token_def by blast
  have "r1 = r0" using row_by_id [OF tokens_okD(1) [OF assms(2)] r1(1) r0(1)] r1(2) r0(2) by simp
  moreover have "se_refreshToken s = sr_rawToken rnd" using s by (auto simp: new_session_def split: sum.splits)
  moreover from c obtain new where "d2 = ?d1\<lparr>refreshTokens := create_row new (refreshTokens ?d1)\<rparr>"
    "rt_userId new = rt_userId existing" "rt_familyId new = rt_familyId existing" "rt_revokedAt new = None"
    "rt_familyCreatedAt new = rt_familyCreatedAt existing" "rt_tokenHash new = hashRefreshToken e (sr_rawToken rnd)"
    "\<not> refresh_conflict new (refreshTokens ?d1)"
    by (rule createRefreshTokenRow_Inr)
  ultimately show ?thesis using that [of r0 new] r0 r1(2-5) d' by simp
qed

lemma rotate_keeps:
  assumes "rotate e rnd now d existing age dev = (Inr (Some s), d')" and ok: "tokens_ok d" and "known_token d existing"
  shows "tokens_ok d'" and "live_families v d' \<subseteq> live_families v d"
  using assms
proof -
  let ?claim = "\<lambda>r. rt_id r = rt_id existing \<and> rotatable age now r"
  let ?d1 = "d\<lparr>refreshTokens := update_many ?claim (revoke_row now) (refreshTokens d)\<rparr>"
  from assms obtain r0 new where r0: "r0 \<in> set (refreshTokens d)" "?claim r0" "rt_userId r0 = rt_userId existing"
      "rt_familyId r0 = rt_familyId existing" "rt_familyCreatedAt r0 = rt_familyCreatedAt existing"
    and d': "d' = d\<lparr>refreshTokens := update_many (\<lambda>r. rt_id r = rt_id existing) (replaced_by (sr_rowId rnd)) (create_row new (refreshTokens ?d1))\<rparr>"
    and new: "rt_userId new = rt_userId existing" "rt_familyId new = rt_familyId existing" "rt_revokedAt new = None"
      "rt_familyCreatedAt new = rt_familyCreatedAt existing" "\<not> refresh_conflict new (refreshTokens ?d1)"
    by (rule rotate_Some) auto
  let ?d2 = "?d1\<lparr>refreshTokens := create_row new (refreshTokens ?d1)\<rparr>"
  have live0: "rt_revokedAt r0 = None" using r0(2) by (simp add: rotatable_def)
  have ok1: "tokens_ok ?d1" by (rule tokens_ok_update [OF ok quiet_changes(1)])
  have "tokens_ok ?d2"
  proof (rule tokens_ok_create [OF ok1 new(5)])
    fix q assume q: "q \<in> set (refreshTokens ?d1)" "rt_familyId q = rt_familyId new"
    have "revoke_row now r0 \<in> set (refreshTokens ?d1)" using r0(1,2) by (auto simp: update_many_def)
    from tokens_okD(3) [OF ok1 q(1) this] have "rt_userId q = rt_userId new \<and> rt_familyCreatedAt q = rt_familyCreatedAt new"
      using q(2) r0(3-5) new by (simp add: one_family_def)
    moreover have "rt_revokedAt q \<noteq> None"
    proof
      assume live: "rt_revokedAt q = None"
      have "q \<in> set (update_many ?claim (revoke_row now) (refreshTokens d))" using q(1) by simp
      then show False
      proof (rule in_update_cases)
        assume k: "q \<in> set (refreshTokens d)" "\<not> ?claim q"
        then have "q = r0" using tokens_okD(3) [OF ok k(1) r0(1)] live live0 q(2) r0(4) new(2) by (simp add: one_family_def)
        then show False using k(2) r0(2) by simp
      qed (use live in simp)
    qed
    ultimately show "rt_userId q = rt_userId new \<and> rt_familyCreatedAt q = rt_familyCreatedAt new \<and> rt_revokedAt q \<noteq> None" by blast
  qed
  from tokens_ok_update [OF this quiet_changes(2)] show "tokens_ok d'" by (simp add: d')
  have "live_families v d' \<subseteq> live_families v ?d2"
    using live_families_quiet [OF quiet_changes(2), of v _ _ ?d2] by (simp add: d')
  also have "\<dots> \<subseteq> live_families v ?d1 \<union> (if v = rt_userId existing then {rt_familyId existing} else {})"
    using new by (auto simp: live_families_def live_set_def live_token_def set_create_row)
  also have "\<dots> \<subseteq> live_families v d"
  proof -
    have "live_families v ?d1 \<subseteq> live_families v d" by (rule live_families_quiet [OF quiet_changes(1)])
    moreover have "r0 \<in> live_set (rt_userId existing) d" using r0 live0 by (simp add: live_set_def live_token_def)
    then have "rt_familyId existing \<in> live_families (rt_userId existing) d"
      unfolding live_families_def r0(4) [symmetric] by (rule imageI)
    ultimately show ?thesis by auto
  qed
  finally show "live_families v d' \<subseteq> live_families v d" .
qed

text \<open>
  One transaction or one statement of any handler. A new family has a random identifier that no
  token has; a rotation is for a token read earlier, by any number of requests.
\<close>

inductive session_step :: "auth_env \<Rightarrow> db \<Rightarrow> db \<Rightarrow> bool" for e where
  issued: "createRefreshTokenRow e now i raw u f dev now (prepareRefreshFamilySlot e now u dev d) = Inr d' \<Longrightarrow>
     f \<notin> rt_familyId ` set (refreshTokens d) \<Longrightarrow> session_step e d d'"
| rotated: "rotate e rnd now d existing age dev = (Inr (Some s), d') \<Longrightarrow> known_token d existing \<Longrightarrow> session_step e d d'"
| revoked: "session_step e d (revokeRefreshTokens now p d)"
| expired: "session_step e d (d\<lparr>refreshTokens := update_many (\<lambda>r. rt_id r = i) (revoke_row now) (refreshTokens d)\<rparr>)"

definition sessions_ok :: "auth_env \<Rightarrow> db \<Rightarrow> bool" where
  "sessions_ok e d \<longleftrightarrow> tokens_ok d \<and> (\<forall>u. int (card (live_families u d)) \<le> maxRefreshFamiliesPerUser e)"

lemma sessions_ok_shrink:
  assumes "sessions_ok e d" and "tokens_ok d'" and "\<And>v. live_families v d' \<subseteq> live_families v d"
  shows "sessions_ok e d'"
  unfolding sessions_ok_def
proof (intro conjI allI)
  fix u
  have "card (live_families u d') \<le> card (live_families u d)"
    by (rule card_mono [OF _ assms(3)]) (simp add: live_families_def live_set_def)
  moreover have "int (card (live_families u d)) \<le> maxRefreshFamiliesPerUser e" using assms(1) by (simp add: sessions_ok_def)
  ultimately show "int (card (live_families u d')) \<le> maxRefreshFamiliesPerUser e" by simp
qed (rule assms(2))

lemma session_step_ok:
  assumes "session_step e d d'" and "sessions_ok e d"
  shows "sessions_ok e d'"
  using assms
proof (induction rule: session_step.induct)
  case (issued now i raw u f dev d d')
  let ?p = "prepareRefreshFamilySlot e now u dev d"
  have ok: "tokens_ok ?p" using issued(3) by (simp add: sessions_ok_def tokens_ok_prepare)
  from issued(1) obtain r where r: "d' = ?p\<lparr>refreshTokens := create_row r (refreshTokens ?p)\<rparr>" "rt_userId r = u"
    "rt_familyId r = f" "rt_revokedAt r = None" "\<not> refresh_conflict r (refreshTokens ?p)"
    by (rule createRefreshTokenRow_Inr)
  have "f \<notin> rt_familyId ` set (refreshTokens ?p)" using issued(2) by (simp add: families_prepare)
  then have "tokens_ok d'" unfolding r(1) using r(3) by (intro tokens_ok_create [OF ok r(5)]) (auto simp: image_iff)
  moreover have "int (card (live_families v d')) \<le> maxRefreshFamiliesPerUser e" for v
  proof (cases "v = u")
    case True
    have "live_families u d' \<subseteq> insert f (live_families u ?p)"
      using r(2-4) by (auto simp: r(1) live_families_def live_set_def set_create_row)
    then have "card (live_families u d') \<le> card (insert f (live_families u ?p))"
      by (rule card_mono [rotated]) (simp add: live_families_def live_set_def)
    also have "\<dots> \<le> Suc (card (live_families u ?p))" by (simp add: card_insert_if live_families_def live_set_def)
    finally show ?thesis using live_prepare(3) [of u e now dev d] unfolding True by linarith
  next
    case False
    then have "live_families v d' = live_families v d"
      using live_prepare(2) [OF False, of e now dev d] r(2)
      by (auto simp: r(1) live_families_def live_set_def live_token_def set_create_row)
    then show ?thesis using issued(3) by (simp add: sessions_ok_def)
  qed
  ultimately show ?case by (simp add: sessions_ok_def)
next
  case (rotated rnd now d existing age dev s d')
  then have "tokens_ok d" by (simp add: sessions_ok_def)
  with rotated rotate_keeps [OF rotated(1) this rotated(2)] show ?case by (intro sessions_ok_shrink [OF rotated(3)])
next
  case (revoked d now p)
  show ?case
  proof (rule sessions_ok_shrink [OF revoked])
    show "tokens_ok (revokeRefreshTokens now p d)" using revoked by (simp add: sessions_ok_def tokens_ok_revoke)
    show "live_families v (revokeRefreshTokens now p d) \<subseteq> live_families v d" for v
      unfolding revokeRefreshTokens_def by (rule live_families_quiet [OF quiet_changes(1)])
  qed
next
  case (expired d i now)
  then show ?case
    using live_families_quiet [OF quiet_changes(1)] tokens_ok_update [OF _ quiet_changes(1)]
    by (intro sessions_ok_shrink [OF expired]) (simp_all add: sessions_ok_def)
qed


lemma at_most_one: "distinct xs \<Longrightarrow> (\<And>x y. x \<in> set xs \<Longrightarrow> y \<in> set xs \<Longrightarrow> x = y) \<Longrightarrow> length xs \<le> 1"
  unfolding distinct_card [symmetric] by (simp add: card_le_Suc0_iff_eq)

text \<open>
  C8. However sign-ins, refreshes, rotations that lost a race and sign-outs interleave, a user
  never has live sessions in more families than the configured cap, and a family never has two
  live tokens.
\<close>

theorem sessions_bounded:
  assumes "(session_step e)\<^sup>*\<^sup>* d0 d" and "refreshTokens d0 = []"
  shows "int (length (families_where (live_token userId) d)) \<le> maxRefreshFamiliesPerUser e
    \<and> count_rows (\<lambda>r. rt_familyId r = f \<and> rt_revokedAt r = None) (refreshTokens d) \<le> 1"
proof -
  have "sessions_ok e d"
    using assms(1)
  proof (induction rule: rtranclp_induct)
    case base
    then show ?case using assms(2) max_families_pos [of e]
      by (simp add: sessions_ok_def tokens_ok_def live_families_def live_set_def)
  qed (rule session_step_ok)
  then have ok: "tokens_ok d" and cap: "int (card (live_families userId d)) \<le> maxRefreshFamiliesPerUser e"
    by (simp_all add: sessions_ok_def)
  let ?live = "filter (\<lambda>r. rt_familyId r = f \<and> rt_revokedAt r = None) (refreshTokens d)"
  have "distinct (refreshTokens d)" using tokens_okD(1) [OF ok] by (simp add: distinct_map)
  moreover have "r = q" if "r \<in> set ?live" "q \<in> set ?live" for r q
    using tokens_okD(3) [OF ok, of r q] that by (simp add: one_family_def)
  ultimately have "length ?live \<le> 1" by (intro at_most_one) simp_all
  then show ?thesis using cap by (simp add: length_families count_rows_def)
qed

section \<open>A token is spent by its rotation\<close>

lemma rotated_claim:
  assumes "rotate e rnd now d existing age dev = (Inr (Some s), d')"
  shows "count_rows (\<lambda>r. rt_id r = rt_id existing \<and> rotatable age now r) (refreshTokens d) = 1"
  using assms by (auto simp: rotate_def Let_def split: if_splits)

text \<open>The row of a token after its rotation: revoked.\<close>

lemma spent_after_rotate:
  assumes "rotate e rnd now d existing age dev = (Inr (Some s), d')" and "tokens_ok d" and "known_token d existing"
    and "q \<in> set (refreshTokens d')" "rt_id q = rt_id existing"
  shows "rt_revokedAt q \<noteq> None"
proof -
  let ?claim = "\<lambda>r. rt_id r = rt_id existing \<and> rotatable age now r"
  from assms(1-3) obtain r0 new where r0: "r0 \<in> set (refreshTokens d)" "?claim r0"
    and d': "d' = d\<lparr>refreshTokens := update_many (\<lambda>r. rt_id r = rt_id existing) (replaced_by (sr_rowId rnd))
        (create_row new (update_many ?claim (revoke_row now) (refreshTokens d)))\<rparr>"
    and fresh: "\<not> refresh_conflict new (update_many ?claim (revoke_row now) (refreshTokens d))"
    by (rule rotate_Some) auto
  have "revoke_row now r0 \<in> set (update_many ?claim (revoke_row now) (refreshTokens d))"
    using r0 by (auto simp: update_many_def)
  then have "rt_id new \<noteq> rt_id existing"
    using fresh r0(2) unfolding refresh_conflict_def list_ex_iff by (metis revoked_rows(1))
  moreover obtain q1 where "q1 \<in> set (create_row new (update_many ?claim (revoke_row now) (refreshTokens d)))"
    "rt_id q1 = rt_id existing" "rt_revokedAt q1 = rt_revokedAt q"
    using assms(4,5) unfolding d' by (auto simp: update_many_def split: if_splits)
  ultimately have q1: "q1 \<in> set (update_many ?claim (revoke_row now) (refreshTokens d))" "rt_revokedAt q1 = rt_revokedAt q"
    "rt_id q1 = rt_id existing"
    by (auto simp: set_create_row)
  from q1(1) show ?thesis
  proof (rule in_update_cases)
    assume k: "q1 \<in> set (refreshTokens d)" "\<not> ?claim q1"
    have "q1 = r0" using row_by_id [OF tokens_okD(1) [OF assms(2)] k(1) r0(1)] q1(3) r0(2) by simp
    then show ?thesis using k(2) r0(2) by simp
  qed (use q1(2) [symmetric] in auto)
qed

text \<open>
  C28. Of two requests that refresh with the same token at the same time -- both read it while it
  was good -- only one gets a session: after the first transaction the second one finds nothing
  to rotate and changes nothing.
\<close>

theorem rotation_wins_once:
  assumes "rotate e rnd now d existing age dev = (Inr (Some s), d')" and "tokens_ok d" and "known_token d existing"
  shows "rotate e rnd' now' d' existing age' dev' = (Inr None, d')"
proof -
  let ?rows = "update_many (\<lambda>r. rt_id r = rt_id existing \<and> rotatable age now r) (revoke_row now) (refreshTokens d)"
  from assms obtain r0 new where r0: "r0 \<in> set (refreshTokens d)" "rt_id r0 = rt_id existing" "rotatable age now r0"
    and d': "d' = d\<lparr>refreshTokens := update_many (\<lambda>r. rt_id r = rt_id existing) (replaced_by (sr_rowId rnd)) (create_row new ?rows)\<rparr>"
    and fresh: "\<not> refresh_conflict new ?rows"
    by (rule rotate_Some) auto
  have "count_rows (\<lambda>r. rt_id r = rt_id existing \<and> rotatable age now r) (refreshTokens d) \<noteq> 0"
    using rotated_claim [OF assms(1)] by simp
  then have "count_rows (\<lambda>r. rt_id r = rt_id existing \<and> rotatable age' now' r) ?rows = 0"
    using rotation.second_claim_fails [of "refreshTokens d" "rt_id existing" "(age, now)" "(age', now')"]
      tokens_okD(1) [OF assms(2)] by simp
  then have spent: "\<not> rotatable age' now' q" if "q \<in> set ?rows" "rt_id q = rt_id existing" for q
    using that unfolding count_rows_0 by blast
  have "revoke_row now r0 \<in> set ?rows" using r0 by (auto simp: update_many_def)
  then have "rt_id new \<noteq> rt_id existing"
    using fresh r0(2) unfolding refresh_conflict_def list_ex_iff by (metis revoked_rows(1))
  then have spent': "\<not> rotatable age' now' q" if "q \<in> set (create_row new ?rows)" "rt_id q = rt_id existing" for q
    using that spent [of q] unfolding set_create_row by blast
  have "\<not> rotatable age' now' q" if q: "q \<in> set (refreshTokens d')" "rt_id q = rt_id existing" for q
  proof -
    have "q \<in> set (update_many (\<lambda>r. rt_id r = rt_id existing) (replaced_by (sr_rowId rnd)) (create_row new ?rows))"
      using q(1) by (simp add: d')
    then show ?thesis by (rule in_update_cases) (use spent' q(2) in \<open>auto simp: rotatable_def\<close>)
  qed
  then have "count_rows (\<lambda>r. rt_id r = rt_id existing \<and> rotatable age' now' r) (refreshTokens d') = 0"
    unfolding count_rows_0 by blast
  then show ?thesis by (simp add: rotate_def Let_def)
qed


lemma find_token:
  assumes "tokens_ok d" and "r \<in> set (refreshTokens d)" and "rt_tokenHash r = h"
  shows "find_first (\<lambda>r. rt_tokenHash r = h) (refreshTokens d) = Some r"
proof (cases "find_first (\<lambda>r. rt_tokenHash r = h) (refreshTokens d)")
  case None
  then show ?thesis using assms(2,3) by (simp add: find_first_None)
next
  case (Some q)
  then have "q \<in> set (refreshTokens d)" "rt_tokenHash q = h" using find_first_Some by fastforce+
  then show ?thesis using Some row_by_id [OF tokens_okD(2) [OF assms(1)] _ assms(2)] assms(3) by simp
qed

lemma refresh_Inr:
  assumes "refreshSession e rnd now d t dev = (Inr s, d')"
  obtains existing age h where "existing \<in> set (refreshTokens d)" "rt_tokenHash existing = hashRefreshToken e t"
    "rotate e rnd now d existing age h = (Inr (Some s), d')" "known_token d existing"
proof -
  from assms obtain existing age h where c: "refresh_check e now d t dev = (Inr (existing, age, h), d)"
    and o: "refresh_outcome e now t existing (rotate e rnd now d existing age h) = (Inr s, d')"
    by (auto simp: refreshSession_def refresh_check_def split: prod.splits sum.splits option.splits if_splits)
  from c have f: "find_first (\<lambda>r. rt_tokenHash r = hashRefreshToken e t) (refreshTokens d) = Some existing"
    by (auto simp: refresh_check_def split: option.splits sum.splits if_splits)
  then have e: "existing \<in> set (refreshTokens d)" "rt_tokenHash existing = hashRefreshToken e t"
    using find_first_Some by fastforce+
  moreover have "rotate e rnd now d existing age h = (Inr (Some s), d')"
    using o by (auto simp: refresh_outcome_def split: prod.splits sum.splits option.splits)
  ultimately show ?thesis using that by (auto simp: known_token_def)
qed

text \<open>After a rotation: the old token revoked and the new one, in the same family.\<close>

lemma rotated_rows:
  assumes "rotate e rnd now d existing age h = (Inr (Some s), d')" and "tokens_ok d" and "existing \<in> set (refreshTokens d)"
  obtains old new where "old \<in> set (refreshTokens d')" "rt_tokenHash old = rt_tokenHash existing"
    "rt_familyId old = rt_familyId existing" "rt_revokedAt old \<noteq> None"
    "new \<in> set (refreshTokens d')" "rt_tokenHash new = hashRefreshToken e (se_refreshToken s)"
    "rt_familyId new = rt_familyId existing"
proof -
  let ?rows = "update_many (\<lambda>r. rt_id r = rt_id existing \<and> rotatable age now r) (revoke_row now) (refreshTokens d)"
  have k: "known_token d existing" using assms(3) by (auto simp: known_token_def)
  from assms(1,2) k obtain r0 new where r0: "r0 \<in> set (refreshTokens d)" "rt_id r0 = rt_id existing" "rotatable age now r0"
    and d': "d' = d\<lparr>refreshTokens := update_many (\<lambda>r. rt_id r = rt_id existing) (replaced_by (sr_rowId rnd)) (create_row new ?rows)\<rparr>"
    and new: "rt_familyId new = rt_familyId existing" "rt_tokenHash new = hashRefreshToken e (sr_rawToken rnd)"
    and s: "se_refreshToken s = sr_rawToken rnd"
    by (rule rotate_Some) auto
  have "r0 = existing" using row_by_id [OF tokens_okD(1) [OF assms(2)] r0(1) assms(3) r0(2)] .
  then have "revoke_row now existing \<in> set ?rows" using r0 assms(3) by (auto simp: update_many_def)
  then have "replaced_by (sr_rowId rnd) (revoke_row now existing) \<in> set (refreshTokens d')"
    by (auto simp: d' update_many_def [of "\<lambda>r. rt_id r = rt_id existing"] set_create_row intro!: image_eqI)
  moreover have "(if rt_id new = rt_id existing then replaced_by (sr_rowId rnd) new else new) \<in> set (refreshTokens d')"
    by (auto simp: d' update_many_def [of "\<lambda>r. rt_id r = rt_id existing"] set_create_row)
  ultimately show ?thesis using that new s by (fastforce split: if_splits)
qed

lemma revoked_token_refused:
  assumes "tokens_ok d" and "r \<in> set (refreshTokens d)" "rt_tokenHash r = hashRefreshToken e t" "rt_revokedAt r \<noteq> None"
  shows "refreshSession e rnd now d t dev = (Inl invalid_refresh, revokeRefreshFamily now (rt_familyId r) d)"
  using find_token [OF assms(1-3)] assms(4) by (simp add: refreshSession_def refresh_check_def)

text \<open>
  C7. A stolen token is of no lasting use: when a token that was already used is presented
  again, by whoever and whenever, that request is refused and so is every later use of the
  token it had been exchanged for -- the family is closed.
\<close>

theorem reuse_closes_family:
  assumes "tokens_ok d" and "refreshSession e rnd now d t dev = (Inr s, d1)"
    and "refreshSession e rnd1 now1 d1 t dev1 = (res, d2)"
  shows "res = Inl invalid_refresh
    \<and> fst (refreshSession e rnd2 now2 d2 (se_refreshToken s) dev2) = Inl invalid_refresh"
proof -
  from assms(2) obtain existing age h where ex: "existing \<in> set (refreshTokens d)" "rt_tokenHash existing = hashRefreshToken e t"
    and rot: "rotate e rnd now d existing age h = (Inr (Some s), d1)" and k: "known_token d existing"
    by (rule refresh_Inr)
  from rot assms(1) ex(1) obtain old new where old: "old \<in> set (refreshTokens d1)" "rt_tokenHash old = rt_tokenHash existing"
      "rt_familyId old = rt_familyId existing" "rt_revokedAt old \<noteq> None"
    and new: "new \<in> set (refreshTokens d1)" "rt_tokenHash new = hashRefreshToken e (se_refreshToken s)"
      "rt_familyId new = rt_familyId existing"
    by (rule rotated_rows)
  have ok1: "tokens_ok d1" by (rule rotate_keeps(1) [OF rot assms(1) k])
  have two: "refreshSession e rnd1 now1 d1 t dev1 = (Inl invalid_refresh, revokeRefreshFamily now1 (rt_familyId existing) d1)"
    using revoked_token_refused [OF ok1 old(1) _ old(4)] old(2,3) ex(2) by simp
  then have d2: "d2 = revokeRefreshTokens now1 (\<lambda>r. rt_familyId r = rt_familyId existing) d1"
    using assms(3) by (simp add: revokeRefreshFamily_def)
  let ?new = "if rt_revokedAt new = None then revoke_row now1 new else new"
  have "?new \<in> set (refreshTokens d2)"
    using new(1,3) by (auto simp: d2 revokeRefreshTokens_def update_many_def)
  moreover have "tokens_ok d2" unfolding d2 by (rule tokens_ok_revoke [OF ok1])
  moreover have "rt_tokenHash ?new = hashRefreshToken e (se_refreshToken s)" "rt_revokedAt ?new \<noteq> None" using new(2) by simp_all
  ultimately have "refreshSession e rnd2 now2 d2 (se_refreshToken s) dev2
      = (Inl invalid_refresh, revokeRefreshFamily now2 (rt_familyId ?new) d2)"
    by (intro revoked_token_refused)
  then show ?thesis using two assms(3) by simp
qed

text \<open>
  C29. Signing out on all devices ends every session of the user: none of the user's tokens can
  be refreshed afterwards, on any device.
\<close>

theorem logout_everywhere:
  assumes "tokens_ok d" and "ri_allDevices input = Some True" and "resolveUserIdForLogout e d input = Some userId" and "userId \<noteq> []"
    and "revokeSession e now d input = (res, d')"
    and "r \<in> set (refreshTokens d)" "rt_userId r = userId" "rt_tokenHash r = hashRefreshToken e t"
  shows "fst (refreshSession e rnd now' d' t dev) = Inl invalid_refresh"
proof -
  have d': "d' = revokeRefreshTokens now (\<lambda>r. rt_userId r = userId) d"
    using assms(2-5) by (simp add: revokeSession_def)
  let ?r = "if rt_revokedAt r = None then revoke_row now r else r"
  have "?r \<in> set (refreshTokens d')" using assms(6,7) by (auto simp: d' revokeRefreshTokens_def update_many_def)
  moreover have "tokens_ok d'" unfolding d' by (rule tokens_ok_revoke [OF assms(1)])
  moreover have "rt_tokenHash ?r = hashRefreshToken e t" "rt_revokedAt ?r \<noteq> None" using assms(8) by simp_all
  ultimately show ?thesis using revoked_token_refused [of d' ?r e t rnd now' dev] by simp
qed


section \<open>Witnesses\<close>

definition sample_auth :: auth_env where
  "sample_auth = \<lparr>config_text = (\<lambda>k. if k = js ''JWT_EXPIRES_IN'' \<or> k = js ''AUTH_REFRESH_TOKEN_EXPIRES_IN'' \<or> k = js ''AUTH_REFRESH_FAMILY_MAX_AGE''
       then None else Some (js ''k'')),
     config_number = (\<lambda>k. None), config_raw = (\<lambda>k. None), env_text = (\<lambda>k. None), number_of_text = (\<lambda>s. None),
     lower_case = (\<lambda>s. s), upper_case = (\<lambda>s. s), sha256_hex = (\<lambda>s. s), hmac_hex = (\<lambda>k s. s), hmac_key = (\<lambda>k s. s),
     hmac_json = (\<lambda>k v. js ''00''), bcrypt_hash = (\<lambda>salt s. s), bcrypt_compare = (\<lambda>s h. s = h),
     aead_seal = (\<lambda>k iv a t. (dec (int (to_nat t)), [])), aead_open = (\<lambda>k iv a tag ct. Some (from_nat (nat (digits_value ct)))),
     sign_jwt = (\<lambda>u p s. Inr u), verify_jwt = (\<lambda>t s. JwtClaims (Some \<lparr>jc_sub = Some t, jc_phone = Some t\<rparr>)),
     parse_phone = (\<lambda>s c. Some \<lparr>pn_number = s, pn_country = Some (js ''NG''), pn_valid = True\<rparr>)\<rparr>"

lemma sample_auth_simps [simp]:
  "accessTokenExpiresIn sample_auth = js ''15m''" "refreshTokenExpiresIn sample_auth = js ''30d''"
  "refreshFamilyMaxAge sample_auth = js ''90d''" "hashRefreshToken sample_auth t = t"
  "maxRefreshFamiliesPerUser sample_auth = 5" "sign_jwt sample_auth u p n = Inr u"
  by (simp_all add: accessTokenExpiresIn_def refreshTokenExpiresIn_def refreshFamilyMaxAge_def hashRefreshToken_def
      maxRefreshFamiliesPerUser_def sample_auth_def or_default_def truthy_def)

lemma sample_durations [simp]:
  "parseDurationToMs (js ''15m'') = Inr 900000" "parseDurationToMs (js ''30d'') = Inr 2592000000"
  "parseDurationToMs (js ''90d'') = Inr 7776000000"
  by code_simp+

definition sample_token :: refresh_token_row where
  "sample_token = \<lparr>rt_id = js ''r1'', rt_userId = js ''u1'', rt_tokenHash = js ''t1'', rt_familyId = js ''f1'', rt_familyCreatedAt = 0,
     rt_deviceHash = None, rt_expiresAt = 1000, rt_revokedAt = None, rt_replacedById = None, rt_createdAt = 0\<rparr>"

definition sample_sessions_db :: db where
  "sample_sessions_db = one_goal_db\<lparr>refreshTokens := [sample_token]\<rparr>"

definition sample_random :: session_random where
  "sample_random = \<lparr>sr_rowId = js ''r2'', sr_rawToken = js ''t2'', sr_familyId = js ''f2''\<rparr>"

lemma sample_tokens_ok: "tokens_ok sample_sessions_db"
  by (simp add: tokens_ok_def sample_sessions_db_def one_family_def)

lemma sample_user: "user_exists (one_goal_db\<lparr>refreshTokens := rows\<rparr>) (js ''u1'')"
  by (simp add: user_exists_def one_goal_db_def sample_goals_db_def)

lemma sample_rotates:
  "\<exists>s d'. rotate sample_auth sample_random 5 sample_sessions_db sample_token 7776000000 None = (Inr (Some s), d')"
proof -
  have "count_rows (\<lambda>r. rt_id r = rt_id sample_token \<and> rotatable 7776000000 5 r) (refreshTokens sample_sessions_db) = 1"
    by (simp add: count_rows_def sample_sessions_db_def rotatable_def sample_token_def)
  moreover have "createRefreshTokenRow sample_auth 5 (sr_rowId sample_random) (sr_rawToken sample_random) (rt_userId sample_token)
      (rt_familyId sample_token) dev t (sample_sessions_db\<lparr>refreshTokens := update_many p (revoke_row 5) [sample_token]\<rparr>) \<noteq> Inl err" for dev t p err
    using sample_user by (simp add: createRefreshTokenRow_def Let_def refresh_conflict_def sample_sessions_db_def
        update_many_def sample_random_def sample_token_def)
  ultimately show ?thesis
    by (auto simp: rotate_def Let_def new_session_def signAccessToken_def parseDurationToSeconds_def sample_sessions_db_def
        split: sum.splits)
qed

lemma sample_refresh:
  "\<exists>s d'. refreshSession sample_auth sample_random 5 sample_sessions_db (js ''t1'') None = (Inr s, d')"
proof -
  obtain s d' where "rotate sample_auth sample_random 5 sample_sessions_db sample_token 7776000000 None = (Inr (Some s), d')"
    using sample_rotates by blast
  moreover have "refresh_check sample_auth 5 sample_sessions_db (js ''t1'') None = (Inr (sample_token, 7776000000, None), sample_sessions_db)"
    by (simp add: refresh_check_def sample_sessions_db_def find_first_def sample_token_def hashDeviceIdentifier_def truthy_def)
  ultimately show ?thesis by (simp add: refreshSession_def refresh_outcome_def)
qed

theorem sessions_bounded_witness:
  "\<exists>d. (session_step sample_auth)\<^sup>*\<^sup>* (one_goal_db\<lparr>refreshTokens := []\<rparr>) d \<and> families_where (live_token (js ''u1'')) d = [js ''f1'']
     \<and> int (length (families_where (live_token (js ''u1'')) d)) \<le> 5"
proof -
  let ?d0 = "one_goal_db\<lparr>refreshTokens := []\<rparr>"
  have "prepareRefreshFamilySlot sample_auth 0 (js ''u1'') None ?d0 = ?d0"
    by (simp add: prepareRefreshFamilySlot_def truthy_def evicted_families_def families_where_def revoke_families_def)
  moreover obtain d where d: "createRefreshTokenRow sample_auth 0 (js ''r1'') (js ''t1'') (js ''u1'') (js ''f1'') None 0 ?d0 = Inr d"
    using sample_user by (simp add: createRefreshTokenRow_def Let_def refresh_conflict_def)
  ultimately have "session_step sample_auth ?d0 d" using session_step.issued [of sample_auth 0 "js ''r1''" "js ''t1''" "js ''u1''" "js ''f1''" None ?d0 d] by simp
  then have steps: "(session_step sample_auth)\<^sup>*\<^sup>* ?d0 d" by (rule r_into_rtranclp)
  from d obtain r where "refreshTokens d = [r]" "rt_userId r = js ''u1''" "rt_familyId r = js ''f1''" "rt_revokedAt r = None"
    by (rule createRefreshTokenRow_Inr) (simp add: create_row_def)
  then have "families_where (live_token (js ''u1'')) d = [js ''f1'']" by (simp add: families_where_def live_token_def)
  with steps sessions_bounded [OF steps, of "js ''u1''" "js ''f1''"] show ?thesis by auto
qed

theorem rotation_wins_once_witness:
  "\<exists>s d'. rotate sample_auth sample_random 5 sample_sessions_db sample_token 7776000000 None = (Inr (Some s), d')
     \<and> rotate sample_auth sample_random 6 d' sample_token 7776000000 None = (Inr None, d')"
proof -
  obtain s d' where r: "rotate sample_auth sample_random 5 sample_sessions_db sample_token 7776000000 None = (Inr (Some s), d')"
    using sample_rotates by blast
  have "known_token sample_sessions_db sample_token" by (simp add: known_token_def sample_sessions_db_def)
  from rotation_wins_once [OF r sample_tokens_ok this] r show ?thesis by blast
qed

theorem reuse_closes_family_witness:
  "\<exists>s d1 d2. refreshSession sample_auth sample_random 5 sample_sessions_db (js ''t1'') None = (Inr s, d1)
     \<and> refreshSession sample_auth sample_random 6 d1 (js ''t1'') None = (Inl invalid_refresh, d2)
     \<and> fst (refreshSession sample_auth sample_random 7 d2 (se_refreshToken s) None) = Inl invalid_refresh"
proof -
  obtain s d1 where one: "refreshSession sample_auth sample_random 5 sample_sessions_db (js ''t1'') None = (Inr s, d1)"
    using sample_refresh by blast
  obtain res d2 where two: "refreshSession sample_auth sample_random 6 d1 (js ''t1'') None = (res, d2)" by fastforce
  from reuse_closes_family [OF sample_tokens_ok one two, of sample_random 7 None] one two show ?thesis by blast
qed

definition sample_logout :: revoke_input where
  "sample_logout = \<lparr>ri_refreshToken = None, ri_accessToken = Some (js ''u1''), ri_allDevices = Some True\<rparr>"

theorem logout_everywhere_witness:
  "fst (refreshSession sample_auth sample_random 9 (snd (revokeSession sample_auth 8 sample_sessions_db sample_logout)) (js ''t1'') None)
     = Inl invalid_refresh"
proof -
  obtain res d' where o: "revokeSession sample_auth 8 sample_sessions_db sample_logout = (res, d')" by fastforce
  have "resolveUserIdForLogout sample_auth sample_sessions_db sample_logout = Some (js ''u1'')"
    by (simp add: resolveUserIdForLogout_def sample_logout_def truthy_def sample_auth_def)
  moreover have "sample_token \<in> set (refreshTokens sample_sessions_db)" "rt_userId sample_token = js ''u1''"
    "rt_tokenHash sample_token = hashRefreshToken sample_auth (js ''t1'')"
    by (simp_all add: sample_sessions_db_def) (simp_all add: sample_token_def)
  ultimately show ?thesis
    using logout_everywhere [OF sample_tokens_ok _ _ _ o] o by (simp add: sample_logout_def)
qed

end
