(* ===== verification/Auth_Otp.thy ===== *)
theory Auth_Otp
  imports Auth_Session
begin

text \<open>
  Signing in, the first half of \<open>api/src/auth/auth.service.ts\<close>, and \<open>auth.controller.ts\<close>: a
  one-time password is requested, under rate limits and with a key that makes the request
  repeatable, handed to the notification queue, and verified, which opens a session. Every
  handler sees one instant; the database calls of a transaction happen together or not at all.
\<close>

section \<open>Settings\<close>

definition number_or :: "auth_env \<Rightarrow> string \<Rightarrow> int \<Rightarrow> int" where
  "number_or e key d = (case config_number e (js key) of None \<Rightarrow> d | Some n \<Rightarrow> n)"

definition otpRequestLimitPerHour :: "auth_env \<Rightarrow> int" where
  "otpRequestLimitPerHour e = number_or e ''AUTH_OTP_REQUEST_LIMIT_PER_HOUR'' 5"

definition otpResendCooldownMs :: "auth_env \<Rightarrow> int" where
  "otpResendCooldownMs e = number_or e ''AUTH_OTP_RESEND_COOLDOWN_MS'' 60000"

definition otpMaxVerifyAttempts :: "auth_env \<Rightarrow> int" where
  "otpMaxVerifyAttempts e = number_or e ''AUTH_OTP_MAX_VERIFY_ATTEMPTS'' 5"

definition otpRequestLimitPerIpPerHour :: "auth_env \<Rightarrow> int" where
  "otpRequestLimitPerIpPerHour e = number_or e ''AUTH_OTP_REQUEST_LIMIT_PER_IP_PER_HOUR'' 20"

definition otpRequestLimitPerDevicePerHour :: "auth_env \<Rightarrow> int" where
  "otpRequestLimitPerDevicePerHour e = number_or e ''AUTH_OTP_REQUEST_LIMIT_PER_DEVICE_PER_HOUR'' 5"

definition otpVerifyFailureLimitPerIpWindow :: "auth_env \<Rightarrow> int" where
  "otpVerifyFailureLimitPerIpWindow e = number_or e ''AUTH_OTP_VERIFY_FAILURE_LIMIT_PER_IP_WINDOW'' 10"

definition otpVerifyFailureLimitPerDeviceWindow :: "auth_env \<Rightarrow> int" where
  "otpVerifyFailureLimitPerDeviceWindow e = number_or e ''AUTH_OTP_VERIFY_FAILURE_LIMIT_PER_DEVICE_WINDOW'' 8"

definition otpVerifyFailureWindowMs :: "auth_env \<Rightarrow> int" where
  "otpVerifyFailureWindowMs e = number_or e ''AUTH_OTP_VERIFY_FAILURE_WINDOW_MS'' (15 * 60 * 1000)"

definition OTP_REQUEST_PROCESSING_TIMEOUT_MS :: ms where "OTP_REQUEST_PROCESSING_TIMEOUT_MS = 30000"
definition OTP_VERIFICATION_REPLAY_WINDOW_MS :: ms where "OTP_VERIFICATION_REPLAY_WINDOW_MS = 10 * 60 * 1000"

definition exposes_otp :: "auth_env \<Rightarrow> bool" where
  "exposes_otp e \<longleftrightarrow> config_text e (js ''DEV_EXPOSE_OTP'') = Some (js ''true'')"

text \<open>\<open>generateOtp\<close> for the random number \<open>n\<close> below a million.\<close>

definition generateOtp :: "int \<Rightarrow> jstring" where
  "generateOtp n = pad_start 6 (digit 0) (dec n)"

definition otpNotificationDedupeKey :: "jstring \<Rightarrow> jstring" where
  "otpNotificationDedupeKey requestKeyHash = js ''otp.requested:'' @ requestKeyHash"

text \<open>The answer: the password itself only where development exposes it.\<close>

definition buildOtpRequestResponse :: "auth_env \<Rightarrow> jstring option \<Rightarrow> jstring option" where
  "buildOtpRequestResponse e developmentOtp = (if exposes_otp e \<and> truthy developmentOtp then developmentOtp else None)"

record request_context =
  cx_ip :: "jstring option"
  cx_userAgent :: "jstring option"
  cx_deviceId :: "jstring option"
  cx_idempotencyKey :: "jstring option"

text \<open>The key of the header, trimmed and lower-cased, must be a random UUID.\<close>

definition idempotency_key :: "auth_env \<Rightarrow> jstring \<Rightarrow> jstring result" where
  "idempotency_key e raw =
     (let key = lower_case e (trim raw)
      in if is_uuid_v4 key then Inr key else Inl (BadRequest ''Idempotency-Key must be a UUIDv4 value.''))"

section \<open>Replaying a request\<close>

definition complete_request :: "ms \<Rightarrow> jstring \<Rightarrow> db \<Rightarrow> db" where
  "complete_request now i d =
     d\<lparr>otpCodes := update_many (\<lambda>o'. oc_id o' = i) (\<lambda>o'. o'\<lparr>oc_requestCompletedAt := Some now\<rparr>) (otpCodes d)\<rparr>"

text \<open>Deleting codes: a job that refers to one forbids it, an event forgets it.\<close>

definition delete_otp_codes :: "(otp_code_row \<Rightarrow> bool) \<Rightarrow> db \<Rightarrow> prisma_error + db" where
  "delete_otp_codes p d =
     (let ids = map oc_id (filter p (otpCodes d))
      in if list_ex (\<lambda>j. case j_otpCodeId j of None \<Rightarrow> False | Some i \<Rightarrow> i \<in> set ids) (jobs d) then Inl P2003
         else Inr (d\<lparr>otpCodes := delete_many p (otpCodes d),
                     authEvents := update_many (\<lambda>r. case ae_otpCodeId r of None \<Rightarrow> False | Some i \<Rightarrow> i \<in> set ids)
                       (\<lambda>r. r\<lparr>ae_otpCodeId := None\<rparr>) (authEvents d)\<rparr>))"

definition still_processing :: http_error where
  "still_processing = ServiceUnavailable ''The matching OTP request is still processing. Retry shortly.''"

definition used_for_another :: http_error where
  "used_for_another = Conflict ''Idempotency-Key was already used for another OTP request.''"

definition replayOtpRequest ::
  "auth_env \<Rightarrow> jstring \<Rightarrow> ms \<Rightarrow> db \<Rightarrow> jstring \<Rightarrow> jstring \<Rightarrow> jstring option option result \<times> db"
where
  "replayOtpRequest e correlationId now d requestKeyHash normalizedPhone =
     (case find_first (\<lambda>o'. oc_requestKeyHash o' = requestKeyHash) (otpCodes d) of
        None \<Rightarrow> (Inr None, d)
      | Some existing \<Rightarrow>
          (let response = Inr (Some (buildOtpRequestResponse e (oc_developmentOtp existing)));
               dedupeKey = otpNotificationDedupeKey requestKeyHash;
               deadline = now - OTP_REQUEST_PROCESSING_TIMEOUT_MS
           in if user_phone d (oc_userId existing) \<noteq> normalizedPhone then (Inl used_for_another, d)
              else if oc_requestCompletedAt existing \<noteq> None then (response, d)
              else (case (if isOtpRequestEnqueued d dedupeKey (oc_id existing) then (Inr True, d)
                          else adoptLegacyOtpRequest correlationId now d
                                 \<lparr>li_userId = oc_userId existing, li_otpCodeId = oc_id existing, li_dedupeKey = dedupeKey,
                                  li_requestedAt = oc_createdAt existing, li_expiresAt = oc_expiresAt existing\<rparr>) of
                      (Inl err, d') \<Rightarrow> (Inl err, d')
                    | (Inr True, d') \<Rightarrow> (response, complete_request now (oc_id existing) d')
                    | (Inr False, d') \<Rightarrow>
                        if oc_createdAt existing \<le> deadline then
                          (case delete_otp_codes (\<lambda>o'. oc_id o' = oc_id existing \<and> oc_requestCompletedAt o' = None
                                  \<and> oc_createdAt o' \<le> deadline) d' of
                             Inr d'' \<Rightarrow> (Inr None, d'')
                           | Inl err \<Rightarrow>
                               if isOtpRequestEnqueued d' dedupeKey (oc_id existing)
                               then (response, complete_request now (oc_id existing) d')
                               else (Inl (prisma_error_thrown err), d'))
                        else (Inl still_processing, d'))))"

section \<open>Requesting a code\<close>

definition event_input :: "auth_event_type \<Rightarrow> jstring \<Rightarrow> jstring \<Rightarrow> request_context \<Rightarrow> jstring option \<Rightarrow> auth_event_input" where
  "event_input type phone ciso ctx deviceHash =
     \<lparr>ev_type = type, ev_phone = phone, ev_countryIso = ciso, ev_ip = cx_ip ctx, ev_deviceHash = deviceHash,
      ev_userAgent = cx_userAgent ctx, ev_attemptNumber = None, ev_userId = None, ev_otpCodeId = None, ev_metadata = None\<rparr>"

definition limit_metadata :: "int \<Rightarrow> string option \<Rightarrow> json" where
  "limit_metadata limit scope = JObject ([(js ''limit'', JNumber (of_int limit)), (js ''window'', JString (js ''1h''))]
     @ (case scope of None \<Rightarrow> [] | Some s \<Rightarrow> [(js ''scope'', JString (js s))]))"

definition requests_since :: "db \<Rightarrow> ms \<Rightarrow> jstring option \<Rightarrow> jstring option \<Rightarrow> int" where
  "requests_since d since ip deviceHash = int (countRecentEvents d
     \<lparr>ce_types = [OtpRequested], ce_since = since, ce_ip = ip, ce_phone = None, ce_deviceHash = deviceHash\<rparr>)"

definition codes_since :: "db \<Rightarrow> ms \<Rightarrow> jstring \<Rightarrow> int" where
  "codes_since d since phone =
     int (count_rows (\<lambda>o'. user_phone d (oc_userId o') = phone \<and> since \<le> oc_createdAt o') (otpCodes d))"

text \<open>The limits by network, by device and by phone number, in this order: the limit reached and the scope.\<close>

definition request_limit_reached ::
  "auth_env \<Rightarrow> ms \<Rightarrow> db \<Rightarrow> jstring \<Rightarrow> request_context \<Rightarrow> jstring option \<Rightarrow> (http_error \<times> json) option"
where
  "request_limit_reached e now d phone ctx deviceHash =
     (let oneHourAgo = now - 60 * 60 * 1000
      in if truthy (cx_ip ctx) \<and> otpRequestLimitPerIpPerHour e \<le> requests_since d oneHourAgo (cx_ip ctx) None
         then Some (TooManyRequests ''Too many OTP requests from this network. Try again later.'',
                    limit_metadata (otpRequestLimitPerIpPerHour e) (Some ''ip''))
         else if truthy deviceHash \<and> otpRequestLimitPerDevicePerHour e \<le> requests_since d oneHourAgo None deviceHash
         then Some (TooManyRequests ''Too many OTP requests from this device. Try again later.'',
                    limit_metadata (otpRequestLimitPerDevicePerHour e) (Some ''device''))
         else if otpRequestLimitPerHour e \<le> codes_since d oneHourAgo phone
         then Some (TooManyRequests ''Too many OTP requests. Try again later.'', limit_metadata (otpRequestLimitPerHour e) None)
         else None)"

text \<open>The random values of a call.\<close>

record request_random =
  qr_userId :: jstring
  qr_otpId :: jstring
  qr_otpNumber :: int
  qr_salt :: jstring
  qr_eventId :: jstring
  qr_jobId :: jstring
  qr_iv :: jstring
  qr_correlationId :: jstring

definition upsert_user :: "jstring \<Rightarrow> ms \<Rightarrow> jstring \<Rightarrow> db \<Rightarrow> jstring \<times> db" where
  "upsert_user newId now phone d =
     (case find_first (\<lambda>u. u_phone u = phone) (users d) of
        Some u \<Rightarrow> (u_id u, d)
      | None \<Rightarrow> (newId, d\<lparr>users := create_row \<lparr>u_id = newId, u_phone = phone, u_displayName = None,
                   u_createdAt = now, u_updatedAt = now\<rparr> (users d)\<rparr>))"

definition otp_conflict :: "otp_code_row \<Rightarrow> otp_code_row list \<Rightarrow> bool" where
  "otp_conflict r rows \<longleftrightarrow> list_ex (\<lambda>q. oc_id q = oc_id r \<or> oc_requestKeyHash q = oc_requestKeyHash r) rows"

definition new_otp_row ::
  "auth_env \<Rightarrow> request_random \<Rightarrow> ms \<Rightarrow> jstring \<Rightarrow> jstring \<Rightarrow> request_context \<Rightarrow> otp_code_row"
where
  "new_otp_row e rnd now userId requestKeyHash ctx =
     (let otp = generateOtp (qr_otpNumber rnd)
      in \<lparr>oc_id = qr_otpId rnd, oc_userId = userId, oc_codeHash = bcrypt_hash e (qr_salt rnd) otp,
          oc_requestKeyHash = requestKeyHash, oc_requestCompletedAt = None,
          oc_developmentOtp = (if exposes_otp e then Some otp else None), oc_verificationKeyHash = None,
          oc_verificationRequestHash = None, oc_verificationResponseJson = None, oc_verifiedAt = None,
          oc_verifyAttempts = 0, oc_expiresAt = now + 10 * 60 * 1000, oc_consumedAt = None, oc_createdAt = now,
          oc_ip = nonempty (cx_ip ctx), oc_userAgent = nonempty (cx_userAgent ctx)\<rparr>)"

text \<open>From the row of the code to the answer: the event, the job and the mark that it is done.\<close>

definition publish_otp ::
  "auth_env \<Rightarrow> crypto \<Rightarrow> request_random \<Rightarrow> ms \<Rightarrow> db \<Rightarrow> jstring \<Rightarrow> jstring \<Rightarrow> jstring \<Rightarrow> auth_event_input \<Rightarrow>
   jstring option result \<times> db"
where
  "publish_otp e c rnd now d userId requestKeyHash phone event =
     (let otp = generateOtp (qr_otpNumber rnd);
          d1 = recordEvent (qr_eventId rnd) now (event\<lparr>ev_userId := Some userId, ev_otpCodeId := Some (qr_otpId rnd)\<rparr>) d
      in case enqueueOtpRequested c (qr_iv rnd) (qr_jobId rnd) (qr_correlationId rnd) now d1
                \<lparr>oi_userId = userId, oi_otpCodeId = qr_otpId rnd, oi_dedupeKey = otpNotificationDedupeKey requestKeyHash,
                 oi_phone = phone, oi_otp = otp\<rparr> of
           (Inl err, d2) \<Rightarrow> (Inl err, d2)
         | (Inr _, d2) \<Rightarrow> (Inr (buildOtpRequestResponse e (if exposes_otp e then Some otp else None)),
                           complete_request now (qr_otpId rnd) d2))"

definition create_otp ::
  "auth_env \<Rightarrow> crypto \<Rightarrow> request_random \<Rightarrow> ms \<Rightarrow> db \<Rightarrow> jstring \<Rightarrow> jstring \<Rightarrow> jstring \<Rightarrow> jstring \<Rightarrow> request_context \<Rightarrow>
   jstring option \<Rightarrow> jstring option result \<times> db"
where
  "create_otp e c rnd now d userId requestKeyHash phone ciso ctx deviceHash =
     (let row = new_otp_row e rnd now userId requestKeyHash ctx
      in if otp_conflict row (otpCodes d) then
           (case replayOtpRequest e (qr_correlationId rnd) now d requestKeyHash phone of
              (Inl err, d') \<Rightarrow> (Inl err, d')
            | (Inr (Some replay), d') \<Rightarrow> (Inr replay, d')
            | (Inr None, d') \<Rightarrow> (Inl (prisma_error_thrown P2002), d'))
         else publish_otp e c rnd now (d\<lparr>otpCodes := create_row row (otpCodes d)\<rparr>) userId requestKeyHash phone
                (event_input OtpRequested phone ciso ctx deviceHash))"

text \<open>The user's latest code decides whether another one may be sent yet.\<close>

definition after_limits ::
  "auth_env \<Rightarrow> crypto \<Rightarrow> request_random \<Rightarrow> ms \<Rightarrow> db \<Rightarrow> jstring \<Rightarrow> jstring \<Rightarrow> jstring \<Rightarrow> request_context \<Rightarrow>
   jstring option \<Rightarrow> jstring option result \<times> db"
where
  "after_limits e c rnd now d requestKeyHash phone ciso ctx deviceHash =
     (case upsert_user (qr_userId rnd) now phone d of (userId, d1) \<Rightarrow>
        (case find_first_by (\<lambda>o'. - oc_createdAt o')
                (\<lambda>o'. oc_userId o' = userId \<and> now - otpResendCooldownMs e < oc_createdAt o') (otpCodes d1) of
           Some latestOtp \<Rightarrow>
             if oc_requestKeyHash latestOtp = requestKeyHash \<and> oc_requestCompletedAt latestOtp \<noteq> None
             then (Inr (buildOtpRequestResponse e (oc_developmentOtp latestOtp)), d1)
             else if oc_requestKeyHash latestOtp = requestKeyHash then (Inl still_processing, d1)
             else (Inl (TooManyRequests ''Please wait before requesting another OTP.''),
                   recordEvent (qr_eventId rnd) now ((event_input OtpResendBlocked phone ciso ctx deviceHash)
                     \<lparr>ev_userId := Some userId, ev_otpCodeId := Some (oc_id latestOtp),
                      ev_metadata := Some (JObject [(js ''cooldownMs'', JNumber (of_int (otpResendCooldownMs e)))])\<rparr>) d1)
         | None \<Rightarrow> create_otp e c rnd now d1 userId requestKeyHash phone ciso ctx deviceHash))"

definition requestOtp ::
  "auth_env \<Rightarrow> crypto \<Rightarrow> request_random \<Rightarrow> ms \<Rightarrow> db \<Rightarrow> jstring \<Rightarrow> jstring \<Rightarrow> request_context \<Rightarrow> jstring option result \<times> db"
where
  "requestOtp e c rnd now d phone countryIso ctx =
     (case requireAuthCountry e d countryIso of
        Inl err \<Rightarrow> (Inl err, d)
      | Inr country \<Rightarrow>
     (case normalizePhoneNumber e phone (co_iso country) of
        Inl err \<Rightarrow> (Inl err, d)
      | Inr normalizedPhone \<Rightarrow>
     (case idempotency_key e (case cx_idempotencyKey ctx of None \<Rightarrow> [] | Some k \<Rightarrow> k) of
        Inl err \<Rightarrow> (Inl err, d)
      | Inr key \<Rightarrow>
          (let requestKeyHash = sha256_hex e key
           in case replayOtpRequest e (qr_correlationId rnd) now d requestKeyHash normalizedPhone of
                (Inl err, d1) \<Rightarrow> (Inl err, d1)
              | (Inr (Some replay), d1) \<Rightarrow> (Inr replay, d1)
              | (Inr None, d1) \<Rightarrow>
     (case hashDeviceIdentifier e (cx_deviceId ctx) (config_text e (js ''AUTH_DEVICE_IDENTIFIER_SECRET'')) of
        Inl err \<Rightarrow> (Inl err, d1)
      | Inr deviceHash \<Rightarrow>
     (case request_limit_reached e now d1 normalizedPhone ctx deviceHash of
        Some (err, metadata) \<Rightarrow>
          (Inl err, recordEvent (qr_eventId rnd) now
             ((event_input OtpRequestRateLimited normalizedPhone (co_iso country) ctx deviceHash)\<lparr>ev_metadata := Some metadata\<rparr>) d1)
      | None \<Rightarrow> after_limits e c rnd now d1 requestKeyHash normalizedPhone (co_iso country) ctx deviceHash))))))"

section \<open>Replaying a verification\<close>

definition used_for_another_verification :: http_error where
  "used_for_another_verification = Conflict ''Idempotency-Key was already used for another OTP verification.''"

definition replayOtpVerification ::
  "auth_env \<Rightarrow> ms \<Rightarrow> db \<Rightarrow> jstring \<Rightarrow> jstring \<Rightarrow> jstring \<Rightarrow> jstring \<Rightarrow> jstring \<Rightarrow> session option result"
where
  "replayOtpVerification e now d sec verificationKeyHash verificationRequestHash normalizedPhone otp =
     (case find_first (\<lambda>o'. oc_verificationKeyHash o' = Some verificationKeyHash) (otpCodes d) of
        None \<Rightarrow> Inr None
      | Some existing \<Rightarrow>
          if user_phone d (oc_userId existing) \<noteq> normalizedPhone then Inl used_for_another_verification
          else if \<not> truthy (oc_verificationRequestHash existing)
               \<or> \<not> otpVerificationRequestMatches (the (oc_verificationRequestHash existing)) verificationRequestHash
          then Inl used_for_another_verification
          else if \<not> bcrypt_compare e otp (oc_codeHash existing) then Inl used_for_another_verification
          else (case (oc_verifiedAt existing, oc_verificationResponseJson existing) of
                  (Some verifiedAt, Some response) \<Rightarrow>
                    if OTP_VERIFICATION_REPLAY_WINDOW_MS < now - verifiedAt
                    then Inl (Conflict ''The OTP verification replay window has expired.'')
                    else map_sum id Some (decryptOtpVerificationResponse e sec verificationKeyHash verificationRequestHash response)
                | _ \<Rightarrow> Inl (Conflict ''The OTP verification replay window has expired.'')))"

section \<open>Verifying a code\<close>

definition retireLiveOtpsForUser :: "ms \<Rightarrow> jstring \<Rightarrow> db \<Rightarrow> db" where
  "retireLiveOtpsForUser now userId d =
     d\<lparr>otpCodes := update_many (\<lambda>o'. oc_userId o' = userId \<and> oc_consumedAt o' = None) (\<lambda>o'. o'\<lparr>oc_consumedAt := Some now\<rparr>) (otpCodes d)\<rparr>"

definition failures_since :: "db \<Rightarrow> ms \<Rightarrow> jstring option \<Rightarrow> jstring option \<Rightarrow> nat" where
  "failures_since d since ip deviceHash = countRecentEvents d
     \<lparr>ce_types = [OtpVerifyFailed, OtpVerifyLocked], ce_since = since, ce_ip = ip, ce_phone = None, ce_deviceHash = deviceHash\<rparr>"

definition window_metadata :: "string \<Rightarrow> int \<Rightarrow> int \<Rightarrow> json" where
  "window_metadata reason limit windowMs = JObject [(js ''reason'', JString (js reason)),
     (js ''limit'', JNumber (of_int limit)), (js ''windowMs'', JNumber (of_int windowMs))]"

definition verify_limit_reached ::
  "auth_env \<Rightarrow> ms \<Rightarrow> db \<Rightarrow> request_context \<Rightarrow> jstring option \<Rightarrow> (http_error \<times> nat \<times> json) option"
where
  "verify_limit_reached e now d ctx deviceHash =
     (let since = now - otpVerifyFailureWindowMs e;
          byIp = failures_since d since (cx_ip ctx) None;
          byDevice = failures_since d since None deviceHash
      in if truthy (cx_ip ctx) \<and> otpVerifyFailureLimitPerIpWindow e \<le> int byIp
         then Some (TooManyRequests ''Too many invalid OTP attempts from this network. Try again later.'', byIp,
                    window_metadata ''ip_window_limit_reached'' (otpVerifyFailureLimitPerIpWindow e) (otpVerifyFailureWindowMs e))
         else if truthy deviceHash \<and> otpVerifyFailureLimitPerDeviceWindow e \<le> int byDevice
         then Some (TooManyRequests ''Too many invalid OTP attempts from this device. Try again later.'', byDevice,
                    window_metadata ''device_window_limit_reached'' (otpVerifyFailureLimitPerDeviceWindow e) (otpVerifyFailureWindowMs e))
         else None)"

text \<open>What a verification has worked out before it looks at the code.\<close>

record verification =
  vf_phone :: jstring
  vf_iso :: jstring
  vf_otp :: jstring
  vf_ctx :: request_context
  vf_deviceHash :: "jstring option"
  vf_secret :: jstring
  vf_keyHash :: jstring
  vf_requestHash :: jstring

definition vf_replay :: "auth_env \<Rightarrow> ms \<Rightarrow> db \<Rightarrow> verification \<Rightarrow> session option result" where
  "vf_replay e now d v = replayOtpVerification e now d (vf_secret v) (vf_keyHash v) (vf_requestHash v) (vf_phone v) (vf_otp v)"

record verify_random =
  vr_key :: jstring
  vr_eventId :: jstring
  vr_session :: session_random
  vr_iv :: jstring

definition vf_event :: "auth_event_type \<Rightarrow> verification \<Rightarrow> jstring option \<Rightarrow> jstring option \<Rightarrow> nat \<Rightarrow> json option \<Rightarrow> auth_event_input" where
  "vf_event type v userId otpCodeId attempt metadata =
     (event_input type (vf_phone v) (vf_iso v) (vf_ctx v) (vf_deviceHash v))
       \<lparr>ev_userId := userId, ev_otpCodeId := otpCodeId, ev_attemptNumber := Some attempt, ev_metadata := metadata\<rparr>"

text \<open>The condition of the write that spends a code.\<close>

definition spendable :: "ms \<Rightarrow> otp_code_row \<Rightarrow> bool" where
  "spendable now o' \<longleftrightarrow> oc_consumedAt o' = None \<and> now < oc_expiresAt o'"

definition spend_code :: "ms \<Rightarrow> otp_code_row \<Rightarrow> otp_code_row" where
  "spend_code now o' = o'\<lparr>oc_consumedAt := Some now\<rparr>"

definition expired_or_not_found :: http_error where
  "expired_or_not_found = BadRequest ''OTP expired or not found''"

definition store_verification :: "jstring \<Rightarrow> jstring \<Rightarrow> json_text \<Rightarrow> ms \<Rightarrow> otp_code_row \<Rightarrow> otp_code_row" where
  "store_verification keyHash requestHash response now o' =
     o'\<lparr>oc_verificationKeyHash := Some keyHash, oc_verificationRequestHash := Some requestHash,
       oc_verificationResponseJson := Some response, oc_verifiedAt := Some now\<rparr>"

definition verified_transaction ::
  "auth_env \<Rightarrow> verify_random \<Rightarrow> ms \<Rightarrow> db \<Rightarrow> verification \<Rightarrow> jstring \<Rightarrow> jstring \<Rightarrow> otp_code_row \<Rightarrow> (session \<times> db) result"
where
  "verified_transaction e rnd now d v userId userPhone record =
     (let claim = (\<lambda>o'. oc_id o' = oc_id record \<and> spendable now o')
      in if count_rows claim (otpCodes d) = 0 then Inl expired_or_not_found
         else (let d1 = d\<lparr>otpCodes := update_many claim (spend_code now) (otpCodes d)\<rparr>;
                   d2 = recordEvent (vr_eventId rnd) now
                          (vf_event OtpVerifySucceeded v (Some userId) (Some (oc_id record)) (oc_verifyAttempts record) None)
                          (retireLiveOtpsForUser now userId d1);
                   d3 = prepareRefreshFamilySlot e now userId (vf_deviceHash v) d2;
                   sr = vr_session rnd
               in case createRefreshTokenRow e now (sr_rowId sr) (sr_rawToken sr) userId (sr_familyId sr) (vf_deviceHash v) now d3 of
                    Inl err \<Rightarrow> Inl err
                  | Inr d4 \<Rightarrow>
                      (case new_session e userId userPhone (sr_rawToken sr) of
                         Inl err \<Rightarrow> Inl err
                       | Inr response \<Rightarrow>
                           if list_ex (\<lambda>o'. oc_id o' \<noteq> oc_id record \<and> oc_verificationKeyHash o' = Some (vf_keyHash v)) (otpCodes d4)
                           then Inl (prisma_error_thrown P2002)
                           else Inr (response, d4\<lparr>otpCodes := update_many (\<lambda>o'. oc_id o' = oc_id record)
                             (store_verification (vf_keyHash v) (vf_requestHash v)
                               (encryptOtpVerificationResponse e (vr_iv rnd) (vf_secret v) (vf_keyHash v) (vf_requestHash v) response) now)
                             (otpCodes d4)\<rparr>))))"

definition issueVerifiedSession ::
  "auth_env \<Rightarrow> verify_random \<Rightarrow> ms \<Rightarrow> db \<Rightarrow> verification \<Rightarrow> jstring \<Rightarrow> jstring \<Rightarrow> otp_code_row \<Rightarrow> session result \<times> db"
where
  "issueVerifiedSession e rnd now d v userId userPhone record =
     (case verified_transaction e rnd now d v userId userPhone record of
        Inr (s, d') \<Rightarrow> (Inr s, d')
      | Inl err \<Rightarrow>
          (case vf_replay e now d v of
             Inl err' \<Rightarrow> (Inl err', d)
           | Inr (Some s) \<Rightarrow> (Inr s, d)
           | Inr None \<Rightarrow> (Inl err, d)))"

text \<open>A wrong guess: counted, and the last one allowed retires every live code of the user.\<close>

definition wrong_guess :: "auth_env \<Rightarrow> verify_random \<Rightarrow> ms \<Rightarrow> db \<Rightarrow> verification \<Rightarrow> jstring \<Rightarrow> otp_code_row \<Rightarrow> http_error \<times> db" where
  "wrong_guess e rnd now d v userId record =
     (let attempts = oc_verifyAttempts record + 1;
          locked = otpMaxVerifyAttempts e \<le> int attempts;
          d1 = d\<lparr>otpCodes := update_many (\<lambda>o'. oc_id o' = oc_id record)
                 (\<lambda>o'. o'\<lparr>oc_verifyAttempts := attempts, oc_consumedAt := (if locked then Some now else oc_consumedAt o')\<rparr>) (otpCodes d)\<rparr>
      in if locked
         then (TooManyRequests ''Too many invalid OTP attempts. Request a new code.'',
               recordEvent (vr_eventId rnd) now (vf_event OtpVerifyLocked v (Some userId) (Some (oc_id record)) attempts
                 (Some (JObject [(js ''reason'', JString (js ''max_attempts_reached''))]))) (retireLiveOtpsForUser now userId d1))
         else (BadRequest ''Invalid phone or code'',
               recordEvent (vr_eventId rnd) now (vf_event OtpVerifyFailed v (Some userId) (Some (oc_id record)) attempts None) d1))"

text \<open>The live code that counts: the latest one.\<close>

definition live_code :: "ms \<Rightarrow> jstring \<Rightarrow> db \<Rightarrow> otp_code_row option" where
  "live_code now userId d = find_first_by (\<lambda>o'. - oc_createdAt o')
     (\<lambda>o'. oc_userId o' = userId \<and> oc_consumedAt o' = None \<and> now < oc_expiresAt o') (otpCodes d)"

definition check_code :: "auth_env \<Rightarrow> verify_random \<Rightarrow> ms \<Rightarrow> db \<Rightarrow> verification \<Rightarrow> session result \<times> db" where
  "check_code e rnd now d v =
     (case find_first (\<lambda>u. u_phone u = vf_phone v) (users d) of
        None \<Rightarrow> (Inl (BadRequest ''Invalid phone or code''), d)
      | Some user \<Rightarrow>
          (case live_code now (u_id user) d of
             None \<Rightarrow>
               (case vf_replay e now d v of
                  Inl err \<Rightarrow> (Inl err, d)
                | Inr (Some s) \<Rightarrow> (Inr s, d)
                | Inr None \<Rightarrow> (Inl expired_or_not_found, d))
           | Some record \<Rightarrow>
               if otpMaxVerifyAttempts e \<le> int (oc_verifyAttempts record)
               then (Inl (TooManyRequests ''Too many invalid OTP attempts. Request a new code.''),
                     recordEvent (vr_eventId rnd) now (vf_event OtpVerifyLocked v (Some (u_id user)) (Some (oc_id record))
                       (oc_verifyAttempts record) (Some (JObject [(js ''reason'', JString (js ''already_locked''))]))) d)
               else if \<not> bcrypt_compare e (vf_otp v) (oc_codeHash record)
               then (case wrong_guess e rnd now d v (u_id user) record of (err, d') \<Rightarrow> (Inl err, d'))
               else issueVerifiedSession e rnd now d v (u_id user) (u_phone user) record))"

definition otpVerificationEncryptionKey :: "auth_env \<Rightarrow> jstring result" where
  "otpVerificationEncryptionKey e =
     (let sec = (case config_text e (js ''AUTH_OTP_VERIFICATION_ENCRYPTION_KEY'') of
                   None \<Rightarrow> env_text e (js ''AUTH_OTP_VERIFICATION_ENCRYPTION_KEY'') | Some s \<Rightarrow> Some s)
      in if truthy sec then Inr (the sec) else Inl (ServerError ''OTP verification encryption key is not configured''))"

definition verification_of ::
  "auth_env \<Rightarrow> verify_random \<Rightarrow> db \<Rightarrow> jstring \<Rightarrow> jstring \<Rightarrow> jstring \<Rightarrow> request_context \<Rightarrow> verification result"
where
  "verification_of e rnd d phone countryIso otp ctx =
     (case requireAuthCountry e d countryIso of
        Inl err \<Rightarrow> Inl err
      | Inr country \<Rightarrow>
     (case normalizePhoneNumber e phone (co_iso country) of
        Inl err \<Rightarrow> Inl err
      | Inr normalizedPhone \<Rightarrow>
     (case hashDeviceIdentifier e (cx_deviceId ctx) (config_text e (js ''AUTH_DEVICE_IDENTIFIER_SECRET'')) of
        Inl err \<Rightarrow> Inl err
      | Inr deviceHash \<Rightarrow>
     (case idempotency_key e (case cx_idempotencyKey ctx of None \<Rightarrow> vr_key rnd | Some k \<Rightarrow> k) of
        Inl err \<Rightarrow> Inl err
      | Inr key \<Rightarrow>
     (case otpVerificationEncryptionKey e of
        Inl err \<Rightarrow> Inl err
      | Inr sec \<Rightarrow>
          Inr \<lparr>vf_phone = normalizedPhone, vf_iso = co_iso country, vf_otp = otp, vf_ctx = ctx, vf_deviceHash = deviceHash,
               vf_secret = sec, vf_keyHash = hashOtpVerificationKey e key,
               vf_requestHash = hashOtpVerificationRequest e sec deviceHash\<rparr>)))))"

definition verifyOtp ::
  "auth_env \<Rightarrow> verify_random \<Rightarrow> ms \<Rightarrow> db \<Rightarrow> jstring \<Rightarrow> jstring \<Rightarrow> jstring \<Rightarrow> request_context \<Rightarrow> session result \<times> db"
where
  "verifyOtp e rnd now d phone countryIso otp ctx =
     (case verification_of e rnd d phone countryIso otp ctx of
        Inl err \<Rightarrow> (Inl err, d)
      | Inr v \<Rightarrow>
     (case vf_replay e now d v of
        Inl err \<Rightarrow> (Inl err, d)
      | Inr (Some s) \<Rightarrow> (Inr s, d)
      | Inr None \<Rightarrow>
     (case verify_limit_reached e now d ctx (vf_deviceHash v) of
        Some (err, n, metadata) \<Rightarrow>
          (Inl err, recordEvent (vr_eventId rnd) now (vf_event OtpVerifyLocked v None None n (Some metadata)) d)
      | None \<Rightarrow> check_code e rnd now d v)))"

section \<open>The controller\<close>

record request_headers =
  hd_ip :: "jstring option"
  hd_userAgent :: "jstring option"
  hd_deviceId :: "jstring option"
  hd_idempotencyKey :: "jstring option"
  hd_authorization :: "jstring option"

definition context_of :: "request_headers \<Rightarrow> request_context" where
  "context_of h = \<lparr>cx_ip = hd_ip h, cx_userAgent = hd_userAgent h, cx_deviceId = hd_deviceId h, cx_idempotencyKey = hd_idempotencyKey h\<rparr>"

definition key_required :: http_error where
  "key_required = BadRequest ''Idempotency-Key header is required.''"

definition post_request_otp ::
  "auth_env \<Rightarrow> crypto \<Rightarrow> request_random \<Rightarrow> ms \<Rightarrow> db \<Rightarrow> request_otp_dto \<Rightarrow> request_headers \<Rightarrow> jstring option result \<times> db"
where
  "post_request_otp e c rnd now d dto h =
     (if \<not> truthy (hd_idempotencyKey h) then (Inl key_required, d)
      else requestOtp e c rnd now d (ro_phone dto) (ro_countryIso dto) (context_of h))"

definition post_verify_otp ::
  "auth_env \<Rightarrow> verify_random \<Rightarrow> ms \<Rightarrow> db \<Rightarrow> verify_otp_dto \<Rightarrow> request_headers \<Rightarrow> session result \<times> db"
where
  "post_verify_otp e rnd now d dto h =
     (if \<not> truthy (hd_idempotencyKey h) then (Inl key_required, d)
      else verifyOtp e rnd now d (vo_phone dto) (vo_countryIso dto) (vo_otp dto) (context_of h))"

definition post_refresh ::
  "auth_env \<Rightarrow> session_random \<Rightarrow> ms \<Rightarrow> db \<Rightarrow> refresh_session_dto \<Rightarrow> request_headers \<Rightarrow> session result \<times> db"
where
  "post_refresh e rnd now d dto h = refreshSession e rnd now d (rs_refreshToken dto) (hd_deviceId h)"

definition post_logout :: "auth_env \<Rightarrow> ms \<Rightarrow> db \<Rightarrow> logout_session_dto \<Rightarrow> request_headers \<Rightarrow> unit result \<times> db" where
  "post_logout e now d dto h =
     revokeSession e now d \<lparr>ri_refreshToken = lo_refreshToken dto, ri_accessToken = bearer_token (hd_authorization h),
       ri_allDevices = lo_allDevices dto\<rparr>"

text \<open>A code can be spent once, however the verifications are timed.\<close>

interpretation code_spending: claim_once oc_id spendable spend_code "\<lambda>_ _. True"
  by unfold_locales (auto simp: spendable_def spend_code_def)


section \<open>A code opens one session\<close>

lemma otpCodes_kept [simp]:
  "otpCodes (recordEvent i now ev d) = otpCodes d" "users (recordEvent i now ev d) = users d"
  "jobs (recordEvent i now ev d) = jobs d" "countries (recordEvent i now ev d) = countries d"
  by (simp_all add: recordEvent_def)

lemma revoke_families_kept:
  "otpCodes (revoke_families now u fs d) = otpCodes d" "users (revoke_families now u fs d) = users d"
  "countries (revoke_families now u fs d) = countries d"
  by (induction fs arbitrary: d) (simp_all add: revoke_families_def revokeRefreshTokens_def)

lemma prepare_kept [simp]:
  "otpCodes (prepareRefreshFamilySlot e now u dev d) = otpCodes d"
  "users (prepareRefreshFamilySlot e now u dev d) = users d"
  "countries (prepareRefreshFamilySlot e now u dev d) = countries d"
  by (simp_all add: prepareRefreshFamilySlot_def Let_def revoke_families_kept)

lemma create_token_kept:
  assumes "createRefreshTokenRow e now i raw u f dev t d = Inr d'"
  shows "otpCodes d' = otpCodes d" "users d' = users d" "countries d' = countries d"
  using assms by (auto elim: createRefreshTokenRow_Inr)

lemma user_phone_users: "users d = users d' \<Longrightarrow> user_phone d u = user_phone d' u"
  by (simp add: user_phone_def)

text \<open>What a successful verification makes of the codes.\<close>

definition codes_after :: "ms \<Rightarrow> jstring \<Rightarrow> otp_code_row \<Rightarrow> (otp_code_row \<Rightarrow> otp_code_row) \<Rightarrow> otp_code_row list \<Rightarrow> otp_code_row list" where
  "codes_after now userId record store rows =
     update_many (\<lambda>o'. oc_id o' = oc_id record) store
       (update_many (\<lambda>o'. oc_userId o' = userId \<and> oc_consumedAt o' = None) (spend_code now)
         (update_many (\<lambda>o'. oc_id o' = oc_id record \<and> spendable now o') (spend_code now) rows))"

lemma verified_transaction_Inr:
  assumes "verified_transaction e rnd now d v u p record = Inr (s, d')"
  obtains "count_rows (\<lambda>o'. oc_id o' = oc_id record \<and> spendable now o') (otpCodes d) \<noteq> 0"
    "otpCodes d' = codes_after now u record (store_verification (vf_keyHash v) (vf_requestHash v)
        (encryptOtpVerificationResponse e (vr_iv rnd) (vf_secret v) (vf_keyHash v) (vf_requestHash v) s) now) (otpCodes d)"
    "users d' = users d" "countries d' = countries d"
proof -
  let ?claim = "\<lambda>o'. oc_id o' = oc_id record \<and> spendable now o'"
  let ?d3 = "prepareRefreshFamilySlot e now u (vf_deviceHash v) (recordEvent (vr_eventId rnd) now
     (vf_event OtpVerifySucceeded v (Some u) (Some (oc_id record)) (oc_verifyAttempts record) None)
     (retireLiveOtpsForUser now u (d\<lparr>otpCodes := update_many ?claim (spend_code now) (otpCodes d)\<rparr>)))"
  from assms obtain d4 where n: "count_rows ?claim (otpCodes d) \<noteq> 0"
    and c: "createRefreshTokenRow e now (sr_rowId (vr_session rnd)) (sr_rawToken (vr_session rnd)) u
        (sr_familyId (vr_session rnd)) (vf_deviceHash v) now ?d3 = Inr d4"
    and d': "d' = d4\<lparr>otpCodes := update_many (\<lambda>o'. oc_id o' = oc_id record) (store_verification (vf_keyHash v) (vf_requestHash v)
        (encryptOtpVerificationResponse e (vr_iv rnd) (vf_secret v) (vf_keyHash v) (vf_requestHash v) s) now) (otpCodes d4)\<rparr>"
    by (auto simp: verified_transaction_def Let_def split: if_splits sum.splits)
  have "(\<lambda>o'. o'\<lparr>oc_consumedAt := Some now\<rparr>) = spend_code now" by (simp add: fun_eq_iff spend_code_def)
  then show ?thesis
    using that n create_token_kept [OF c] by (simp add: d' codes_after_def retireLiveOtpsForUser_def)
qed

lemma code_kept [simp]:
  "oc_id (spend_code now o') = oc_id o'" "oc_userId (spend_code now o') = oc_userId o'"
  "oc_consumedAt (spend_code now o') = Some now" "oc_codeHash (spend_code now o') = oc_codeHash o'"
  "oc_verificationKeyHash (spend_code now o') = oc_verificationKeyHash o'"
  "oc_id (store_verification kh rh resp now o') = oc_id o'" "oc_userId (store_verification kh rh resp now o') = oc_userId o'"
  "oc_consumedAt (store_verification kh rh resp now o') = oc_consumedAt o'"
  "oc_codeHash (store_verification kh rh resp now o') = oc_codeHash o'"
  "oc_verificationKeyHash (store_verification kh rh resp now o') = Some kh"
  "oc_verificationRequestHash (store_verification kh rh resp now o') = Some rh"
  "oc_verificationResponseJson (store_verification kh rh resp now o') = Some resp"
  "oc_verifiedAt (store_verification kh rh resp now o') = Some now"
  by (simp_all add: spend_code_def store_verification_def)

lemma count_update_zero:
  assumes "count_rows p rows = 0" and "\<And>r. p (f r) \<Longrightarrow> p r"
  shows "count_rows p (update_many q f rows) = 0"
  unfolding count_rows_0
proof
  fix x assume "x \<in> set (update_many q f rows)"
  then show "\<not> p x"
  proof (rule in_update_cases)
    fix r assume r: "r \<in> set rows" "x = f r"
    show ?thesis using assms(2) [of r] r assms(1) [unfolded count_rows_0] by blast
  qed (use assms(1) [unfolded count_rows_0] in blast)
qed

text \<open>
  C4. A code opens one session: of two verifications that found the same live code -- at the
  same time or one after the other, by the same client or by another one -- only the first one
  gets a session; the second one, with a key of its own, is refused and changes nothing.
\<close>

theorem code_opens_one_session:
  assumes "verified_transaction e rnd now d v u p record = Inr (s, d')" and "distinct (map oc_id (otpCodes d))"
    and "vf_replay e now' d' v' = Inr None"
  shows "issueVerifiedSession e rnd' now' d' v' u' p' record = (Inl expired_or_not_found, d')"
proof -
  from assms(1) obtain store where n: "count_rows (\<lambda>o'. oc_id o' = oc_id record \<and> spendable now o') (otpCodes d) \<noteq> 0"
    and codes: "otpCodes d' = codes_after now u record store (otpCodes d)"
    and store: "\<And>o'. oc_id (store o') = oc_id o' \<and> oc_consumedAt (store o') = oc_consumedAt o' \<and> oc_expiresAt (store o') = oc_expiresAt o'"
    by (rule verified_transaction_Inr) (auto simp: store_verification_def)
  let ?p = "\<lambda>o'. oc_id o' = oc_id record \<and> spendable now' o'"
  have "count_rows ?p (update_many (\<lambda>o'. oc_id o' = oc_id record \<and> spendable now o') (spend_code now) (otpCodes d)) = 0"
    using code_spending.second_claim_fails [OF assms(2) n] by simp
  then have "count_rows ?p (update_many (\<lambda>o'. oc_userId o' = u \<and> oc_consumedAt o' = None) (spend_code now)
      (update_many (\<lambda>o'. oc_id o' = oc_id record \<and> spendable now o') (spend_code now) (otpCodes d))) = 0"
    by (rule count_update_zero) (simp add: spendable_def)
  then have "count_rows ?p (otpCodes d') = 0"
    unfolding codes codes_after_def by (rule count_update_zero) (simp add: spendable_def store)
  then show ?thesis
    using assms(3) by (simp add: issueVerifiedSession_def verified_transaction_def Let_def)
qed

section \<open>The last wrong guess\<close>

lemma no_live_code:
  assumes "\<And>o'. o' \<in> set (otpCodes d) \<Longrightarrow> oc_userId o' = u \<Longrightarrow> oc_consumedAt o' \<noteq> None"
  shows "live_code now u d = None"
  using assms by (auto simp: live_code_def find_first_by_None)

lemma retired_codes:
  assumes "o' \<in> set (otpCodes (retireLiveOtpsForUser now u d))" and "oc_userId o' = u"
  shows "oc_consumedAt o' \<noteq> None"
proof -
  have "o' \<in> set (update_many (\<lambda>o'. oc_userId o' = u \<and> oc_consumedAt o' = None) (\<lambda>o'. o'\<lparr>oc_consumedAt := Some now\<rparr>) (otpCodes d))"
    using assms(1) by (simp add: retireLiveOtpsForUser_def)
  then show ?thesis by (rule in_update_cases) (use assms(2) in auto)
qed

text \<open>
  C9. The last wrong guess that is allowed retires every live code of the user, older ones too:
  until a new code is requested no guess, not even the right one, opens a session.
\<close>

theorem last_guess_retires_codes:
  assumes "find_first (\<lambda>u. u_phone u = vf_phone v) (users d) = Some user" and "live_code now (u_id user) d = Some record"
    and "otpMaxVerifyAttempts e = int (oc_verifyAttempts record) + 1" and "\<not> bcrypt_compare e (vf_otp v) (oc_codeHash record)"
    and "check_code e rnd now d v = (res, d')"
    and "vf_phone v' = vf_phone v" and "vf_replay e now' d' v' = Inr None"
  shows "res = Inl (TooManyRequests ''Too many invalid OTP attempts. Request a new code.'')
    \<and> check_code e rnd' now' d' v' = (Inl expired_or_not_found, d')"
proof -
  obtain err where w: "wrong_guess e rnd now d v (u_id user) record = (err, d')" and res: "res = Inl err"
    using assms(1-5) by (auto simp: check_code_def split: prod.splits)
  define d1 where "d1 = d\<lparr>otpCodes := update_many (\<lambda>o'. oc_id o' = oc_id record)
    (\<lambda>o'. o'\<lparr>oc_verifyAttempts := Suc (oc_verifyAttempts record), oc_consumedAt := Some now\<rparr>) (otpCodes d)\<rparr>"
  define ev where "ev = vf_event OtpVerifyLocked v (Some (u_id user)) (Some (oc_id record)) (Suc (oc_verifyAttempts record))
    (Some (JObject [(js ''reason'', JString (js ''max_attempts_reached''))]))"
  from w assms(3) have err: "err = TooManyRequests ''Too many invalid OTP attempts. Request a new code.''"
    and d': "d' = recordEvent (vr_eventId rnd) now ev (retireLiveOtpsForUser now (u_id user) d1)"
    by (auto simp: wrong_guess_def Let_def d1_def ev_def)
  then have codes: "otpCodes d' = otpCodes (retireLiveOtpsForUser now (u_id user) d1)" and users: "users d' = users d"
    by (simp_all add: d1_def retireLiveOtpsForUser_def)
  have "live_code now' (u_id user) d' = None"
    using retired_codes [of _ now "u_id user" d1] by (intro no_live_code) (simp add: codes)
  then show ?thesis using assms(1,6,7) res err by (simp add: check_code_def users)
qed

section \<open>A verification repeated\<close>

definition code_after :: "ms \<Rightarrow> jstring \<Rightarrow> otp_code_row \<Rightarrow> (otp_code_row \<Rightarrow> otp_code_row) \<Rightarrow> otp_code_row \<Rightarrow> otp_code_row" where
  "code_after now userId code store o' =
     (let a = (if oc_id o' = oc_id code \<and> spendable now o' then spend_code now o' else o');
          b = (if oc_userId a = userId \<and> oc_consumedAt a = None then spend_code now a else a)
      in if oc_id b = oc_id code then store b else b)"

lemma codes_after_map: "codes_after now u code store rows = map (code_after now u code store) rows"
  by (simp add: codes_after_def update_many_def code_after_def Let_def)

lemma code_after_other:
  "oc_id o' \<noteq> oc_id code \<Longrightarrow> oc_verificationKeyHash (code_after now u code store o') = oc_verificationKeyHash o'"
  by (simp add: code_after_def Let_def)

lemma code_after_spent:
  assumes "oc_id o' = oc_id code"
  obtains b where "code_after now u code store o' = store b" "oc_id b = oc_id o'" "oc_userId b = oc_userId o'"
    "oc_codeHash b = oc_codeHash o'"
proof -
  define a where "a = (if oc_id o' = oc_id code \<and> spendable now o' then spend_code now o' else o')"
  define b where "b = (if oc_userId a = u \<and> oc_consumedAt a = None then spend_code now a else a)"
  have "oc_id b = oc_id o'" "oc_userId b = oc_userId o'" "oc_codeHash b = oc_codeHash o'"
    by (simp_all add: b_def a_def)
  moreover from this(1) have "code_after now u code store o' = store b"
    using assms by (simp add: code_after_def Let_def a_def b_def)
  ultimately show ?thesis by (rule that [rotated])
qed

lemma replay_finds:
  assumes "find_first (\<lambda>o'. oc_verificationKeyHash o' = Some kh) rows = None"
    and "distinct (map oc_id rows)" and "code \<in> set rows"
    and "\<And>o'. oc_verificationKeyHash (store o') = Some kh"
  shows "find_first (\<lambda>o'. oc_verificationKeyHash o' = Some kh) (codes_after now u code store rows)
    = Some (code_after now u code store code)"
proof -
  let ?g = "code_after now u code store" and ?p = "\<lambda>o'. oc_verificationKeyHash o' = Some kh"
  have hit: "?p (?g code)"
    using assms(4) by (simp add: code_after_def Let_def)
  have only: "o' = code" if "o' \<in> set rows" "?p (?g o')" for o'
  proof (rule ccontr)
    assume "o' \<noteq> code"
    then have "oc_id o' \<noteq> oc_id code" using assms(2,3) that(1) by (auto simp: distinct_map dest: inj_onD)
    then show False using that assms(1) by (simp add: code_after_other find_first_None)
  qed
  obtain x where x: "find_first ?p (map ?g rows) = Some x"
    using hit assms(3) by (cases "find_first ?p (map ?g rows)") (auto simp: find_first_None)
  from find_first_Some [OF x] obtain o' where "o' \<in> set rows" "x = ?g o'" "?p x" by auto
  with only [of o'] have "x = ?g code" by simp
  with x show ?thesis by (simp add: codes_after_map)
qed

lemma map_sum_Inr_None: "map_sum id Some x \<noteq> Inr None"
  by (cases x) simp_all

lemma replay_None:
  assumes "vf_replay e now d v = Inr None"
  shows "find_first (\<lambda>o'. oc_verificationKeyHash o' = Some (vf_keyHash v)) (otpCodes d) = None"
proof (cases "find_first (\<lambda>o'. oc_verificationKeyHash o' = Some (vf_keyHash v)) (otpCodes d)")
  case (Some existing)
  then have "replayOtpVerification e now d (vf_secret v) (vf_keyHash v) (vf_requestHash v) (vf_phone v) (vf_otp v) \<noteq> Inr None"
    by (simp add: replayOtpVerification_def map_sum_Inr_None split: option.split)
  then show ?thesis using assms by (simp add: vf_replay_def)
qed

lemma user_phone_found:
  assumes "find_first (\<lambda>u. u_phone u = phone) (users d) = Some user" and "distinct (map u_id (users d))"
  shows "user_phone d (u_id user) = phone"
proof -
  have user: "user \<in> set (users d)" "u_phone user = phone" using find_first_Some [OF assms(1)] by simp_all
  obtain x where x: "find_first (\<lambda>u. u_id u = u_id user) (users d) = Some x"
    using user by (cases "find_first (\<lambda>u. u_id u = u_id user) (users d)") (auto simp: find_first_None)
  then have "x = user" using find_first_Some [OF x] user(1) assms(2) by (auto simp: distinct_map dest: inj_onD)
  then show ?thesis using x user(2) by (simp add: user_phone_def)
qed

lemma live_code_Some:
  assumes "live_code now u d = Some code"
  shows "code \<in> set (otpCodes d)" "oc_userId code = u" "spendable now code"
  using find_first_by_Some [OF assms [unfolded live_code_def]] by (auto simp: spendable_def)

lemma verification_of_same:
  assumes "countries d' = countries d" and "cx_idempotencyKey ctx = Some key"
  shows "verification_of e rnd' d' phone countryIso otp ctx = verification_of e rnd d phone countryIso otp ctx"
  using assms by (simp add: verification_of_def requireAuthCountry_def cong: sum.case_cong)

text \<open>What a verification that opened a session has passed.\<close>

lemma check_code_Inr:
  assumes "check_code e rnd now d v = (Inr s, d')" and "vf_replay e now d v = Inr None"
  obtains user code where "find_first (\<lambda>u. u_phone u = vf_phone v) (users d) = Some user"
    "live_code now (u_id user) d = Some code" "bcrypt_compare e (vf_otp v) (oc_codeHash code)"
    "int (oc_verifyAttempts code) < otpMaxVerifyAttempts e"
    "verified_transaction e rnd now d v (u_id user) (u_phone user) code = Inr (s, d')"
  using assms by (auto simp: check_code_def issueVerifiedSession_def not_le split: option.splits if_splits sum.splits prod.splits)

text \<open>
  C5. A verification can be repeated: when one opened a session, the same request with the same
  key within ten minutes is given the same session -- the same access token and the same refresh
  token -- and changes nothing, although the code is spent by then.
\<close>

theorem verification_replayed:
  assumes "verification_of e rnd d phone countryIso otp ctx = Inr v" and "vf_replay e now d v = Inr None"
    and "verifyOtp e rnd now d phone countryIso otp ctx = (Inr s, d')"
    and "distinct (map oc_id (otpCodes d))" and "distinct (map u_id (users d))"
    and "aead_ok e" and "0 < se_expiresIn s" and "se_expiresIn s \<le> 9007199254740991" and "vf_requestHash v \<noteq> []"
    and "cx_idempotencyKey ctx = Some key" and "now' - now \<le> 10 * 60 * 1000"
  shows "verifyOtp e rnd' now' d' phone countryIso otp ctx = (Inr s, d')"
proof -
  have "check_code e rnd now d v = (Inr s, d')"
    using assms(1-3) by (simp add: verifyOtp_def split: option.splits prod.splits)
  then obtain user code where user: "find_first (\<lambda>u. u_phone u = vf_phone v) (users d) = Some user"
    and live: "live_code now (u_id user) d = Some code" and right: "bcrypt_compare e (vf_otp v) (oc_codeHash code)"
    and tx: "verified_transaction e rnd now d v (u_id user) (u_phone user) code = Inr (s, d')"
    using assms(2) by (rule check_code_Inr)
  define response where "response = encryptOtpVerificationResponse e (vr_iv rnd) (vf_secret v) (vf_keyHash v) (vf_requestHash v) s"
  define store where "store = store_verification (vf_keyHash v) (vf_requestHash v) response now"
  have codes: "otpCodes d' = codes_after now (u_id user) code store (otpCodes d)"
    and kept: "users d' = users d" "countries d' = countries d"
    using tx by (auto elim: verified_transaction_Inr simp: store_def response_def)
  have found: "find_first (\<lambda>o'. oc_verificationKeyHash o' = Some (vf_keyHash v)) (otpCodes d')
    = Some (code_after now (u_id user) code store code)"
    unfolding codes using replay_None [OF assms(2)] assms(4) live_code_Some(1) [OF live]
    by (rule replay_finds) (simp add: store_def)
  obtain b where b: "code_after now (u_id user) code store code = store b" "oc_userId b = u_id user"
      "oc_codeHash b = oc_codeHash code"
    by (rule code_after_spent [where o' = code and code = code and now = now and u = "u_id user" and store = store, OF refl]) (use live_code_Some(2) [OF live] in simp)
  have stored: "oc_verificationRequestHash (store b) = Some (vf_requestHash v)" "oc_verifiedAt (store b) = Some now"
      "oc_verificationResponseJson (store b) = Some response" "oc_userId (store b) = u_id user" "oc_codeHash (store b) = oc_codeHash code"
    by (simp_all add: store_def b)
  have "user_phone d' (u_id user) = vf_phone v"
    using user_phone_found [OF user assms(5)] by (simp add: user_phone_def kept)
  moreover have "decryptOtpVerificationResponse e (vf_secret v) (vf_keyHash v) (vf_requestHash v) response = Inr s"
    unfolding response_def using assms(6-8) by (rule decrypt_encrypt_response)
  ultimately have "vf_replay e now' d' v = Inr (Some s)"
    using right assms(9,11) by (simp add: vf_replay_def replayOtpVerification_def found b(1) stored truthy_def
        otpVerificationRequestMatches_def OTP_VERIFICATION_REPLAY_WINDOW_MS_def)
  moreover have "verification_of e rnd' d' phone countryIso otp ctx = Inr v"
    using verification_of_same [OF kept(2) assms(10)] assms(1) by (rule trans)
  ultimately show ?thesis by (simp add: verifyOtp_def)
qed

section \<open>A request repeated\<close>

lemma adopt_kept:
  assumes "adoptLegacyOtpRequest cid now d input = (res, d')"
  shows "otpCodes d' = otpCodes d" "users d' = users d" "countries d' = countries d"
  using assms by (auto simp: adoptLegacyOtpRequest_def Let_def split: option.splits if_splits)

lemma complete_kept [simp]:
  "users (complete_request now i d) = users d" "countries (complete_request now i d) = countries d"
  by (simp_all add: complete_request_def)

text \<open>The request of the key is done, for this phone number, with this answer.\<close>

definition completed :: "auth_env \<Rightarrow> db \<Rightarrow> jstring \<Rightarrow> jstring \<Rightarrow> jstring option \<Rightarrow> bool" where
  "completed e d kh phone r \<longleftrightarrow>
     (case find_first (\<lambda>o'. oc_requestKeyHash o' = kh) (otpCodes d) of
        None \<Rightarrow> False
      | Some x \<Rightarrow> oc_requestCompletedAt x \<noteq> None \<and> user_phone d (oc_userId x) = phone
                  \<and> r = buildOtpRequestResponse e (oc_developmentOtp x))"

lemma completed_replays: "completed e d kh phone r \<Longrightarrow> replayOtpRequest e cid now d kh phone = (Inr (Some r), d)"
  by (auto simp: completed_def replayOtpRequest_def Let_def split: option.splits)

lemma complete_completes:
  assumes "find_first (\<lambda>o'. oc_requestKeyHash o' = kh) (otpCodes d) = Some x" and "user_phone d (oc_userId x) = phone"
    and "otpCodes d1 = otpCodes d" "users d1 = users d"
  shows "completed e (complete_request now (oc_id x) d1) kh phone (buildOtpRequestResponse e (oc_developmentOtp x))"
proof -
  have "find_first (\<lambda>o'. oc_requestKeyHash o' = kh) (otpCodes (complete_request now (oc_id x) d1))
    = Some (x\<lparr>oc_requestCompletedAt := Some now\<rparr>)"
    using assms(1,3) by (simp add: complete_request_def find_first_update)
  then show ?thesis using assms(2,4) by (simp add: completed_def user_phone_def)
qed

lemma delete_kept:
  assumes "delete_otp_codes p d = Inr d'"
  shows "otpCodes d' = delete_many p (otpCodes d)" "users d' = users d" "countries d' = countries d"
  using assms by (auto simp: delete_otp_codes_def Let_def split: if_splits)

lemma replay_Some:
  assumes "replayOtpRequest e cid now d kh phone = (Inr (Some r), d')"
  shows "completed e d' kh phone r \<and> countries d' = countries d"
proof (cases "find_first (\<lambda>o'. oc_requestKeyHash o' = kh) (otpCodes d)")
  case None
  then show ?thesis using assms by (simp add: replayOtpRequest_def)
next
  case (Some x)
  let ?in = "\<lparr>li_userId = oc_userId x, li_otpCodeId = oc_id x, li_dedupeKey = otpNotificationDedupeKey kh,
    li_requestedAt = oc_createdAt x, li_expiresAt = oc_expiresAt x\<rparr>"
  obtain res d1 where a: "adoptLegacyOtpRequest cid now d ?in = (res, d1)" by fastforce
  have phone: "user_phone d (oc_userId x) = phone" using assms Some by (auto simp: replayOtpRequest_def Let_def split: if_splits)
  show ?thesis
  proof (cases "oc_requestCompletedAt x = None")
    case False
    then show ?thesis using assms Some phone by (auto simp: replayOtpRequest_def Let_def completed_def)
  next
    case True
    have "d' = complete_request now (oc_id x) d \<or> d' = complete_request now (oc_id x) d1"
      and "r = buildOtpRequestResponse e (oc_developmentOtp x)"
      using assms Some phone True a by (auto simp: replayOtpRequest_def Let_def split: if_splits sum.splits prod.splits bool.splits)
    then show ?thesis
      using complete_completes [OF Some phone] adopt_kept [OF a] by auto
  qed
qed

lemma replay_None_request:
  assumes "replayOtpRequest e cid now d kh phone = (Inr None, d')" and "distinct (map oc_requestKeyHash (otpCodes d))"
  shows "kh \<notin> oc_requestKeyHash ` set (otpCodes d') \<and> users d' = users d \<and> countries d' = countries d"
proof (cases "find_first (\<lambda>o'. oc_requestKeyHash o' = kh) (otpCodes d)")
  case None
  then have "d' = d" using assms(1) by (simp add: replayOtpRequest_def)
  then show ?thesis using None by (auto simp: find_first_None)
next
  case (Some x)
  let ?in = "\<lparr>li_userId = oc_userId x, li_otpCodeId = oc_id x, li_dedupeKey = otpNotificationDedupeKey kh,
    li_requestedAt = oc_createdAt x, li_expiresAt = oc_expiresAt x\<rparr>"
  let ?p = "\<lambda>o'. oc_id o' = oc_id x \<and> oc_requestCompletedAt o' = None \<and> oc_createdAt o' \<le> now - OTP_REQUEST_PROCESSING_TIMEOUT_MS"
  obtain res d1 where a: "adoptLegacyOtpRequest cid now d ?in = (res, d1)" by fastforce
  have del: "delete_otp_codes ?p d1 = Inr d'" and p: "?p x"
    using assms Some a by (auto simp: replayOtpRequest_def Let_def split: if_splits sum.splits prod.splits bool.splits)
  have x: "x \<in> set (otpCodes d)" "oc_requestKeyHash x = kh" using find_first_Some [OF Some] by simp_all
  have "oc_requestKeyHash o' \<noteq> kh" if "o' \<in> set (otpCodes d')" for o'
  proof
    assume "oc_requestKeyHash o' = kh"
    moreover have o: "o' \<in> set (otpCodes d)" "\<not> ?p o'"
      using that delete_kept [OF del] adopt_kept [OF a] by (auto simp: set_delete_many)
    ultimately have "o' = x" using x assms(2) by (auto simp: distinct_map dest: inj_onD)
    then show False using o(2) p by simp
  qed
  then show ?thesis using delete_kept [OF del] adopt_kept [OF a] by auto
qed

lemma enqueue_kept:
  assumes "enqueueOtpRequested c iv i cid now d input = (res, d')"
  shows "otpCodes d' = otpCodes d" "users d' = users d" "countries d' = countries d"
  using assms by (auto simp: enqueueOtpRequested_def insert_job_def split: sum.splits prisma_error.splits option.splits if_splits)

lemma publish_completes:
  assumes "publish_otp e c rnd now (d\<lparr>otpCodes := create_row (new_otp_row e rnd now userId kh ctx) (otpCodes d)\<rparr>) userId kh phone ev = (Inr r, d')"
    and "kh \<notin> oc_requestKeyHash ` set (otpCodes d)" and "user_phone d userId = phone"
  shows "completed e d' kh phone r \<and> countries d' = countries d"
proof -
  let ?row = "new_otp_row e rnd now userId kh ctx"
  let ?d1 = "recordEvent (qr_eventId rnd) now (ev\<lparr>ev_userId := Some userId, ev_otpCodeId := Some (qr_otpId rnd)\<rparr>)
    (d\<lparr>otpCodes := create_row ?row (otpCodes d)\<rparr>)"
  obtain res d2 where q: "enqueueOtpRequested c (qr_iv rnd) (qr_jobId rnd) (qr_correlationId rnd) now ?d1
      \<lparr>oi_userId = userId, oi_otpCodeId = qr_otpId rnd, oi_dedupeKey = otpNotificationDedupeKey kh, oi_phone = phone,
       oi_otp = generateOtp (qr_otpNumber rnd)\<rparr> = (res, d2)" by fastforce
  have d': "d' = complete_request now (qr_otpId rnd) d2"
    and r: "r = buildOtpRequestResponse e (if exposes_otp e then Some (generateOtp (qr_otpNumber rnd)) else None)"
    using assms(1) q by (auto simp: publish_otp_def Let_def split: sum.splits)
  have kept: "otpCodes d2 = otpCodes ?d1" "users d2 = users ?d1" "countries d2 = countries d"
    using enqueue_kept [OF q] by simp_all
  have "List.find (\<lambda>o'. oc_requestKeyHash o' = kh) (otpCodes d) = None"
    using assms(2) by (auto simp: find_None_iff)
  then have "find_first (\<lambda>o'. oc_requestKeyHash o' = kh) (otpCodes ?d1) = Some ?row"
    by (simp add: find_first_def create_row_def find_append_None new_otp_row_def Let_def)
  moreover have "user_phone ?d1 (oc_userId ?row) = phone" using assms(3) by (simp add: user_phone_def new_otp_row_def Let_def)
  ultimately have "completed e (complete_request now (oc_id ?row) d2) kh phone (buildOtpRequestResponse e (oc_developmentOtp ?row))"
    using kept(1,2) by (rule complete_completes)
  then show ?thesis using kept by (simp add: d' r new_otp_row_def Let_def)
qed

lemma upsert_user_phone:
  assumes "upsert_user newId now phone d = (u, d')" and "distinct (map u_id (users d))" and "newId \<notin> u_id ` set (users d)"
  shows "user_phone d' u = phone \<and> otpCodes d' = otpCodes d \<and> countries d' = countries d"
proof (cases "find_first (\<lambda>u. u_phone u = phone) (users d)")
  case None
  have "List.find (\<lambda>u. u_id u = newId) (users d) = None" using assms(3) by (auto simp: find_None_iff)
  then show ?thesis using assms(1) None by (auto simp: upsert_user_def user_phone_def find_first_def create_row_def find_append_None)
next
  case (Some x)
  then show ?thesis using assms(1) user_phone_found [OF Some assms(2)] by (simp add: upsert_user_def)
qed

lemma after_limits_completes:
  assumes "after_limits e c rnd now d kh phone ciso ctx dev = (Inr r, d')" and "kh \<notin> oc_requestKeyHash ` set (otpCodes d)"
    and "distinct (map u_id (users d))" and "qr_userId rnd \<notin> u_id ` set (users d)"
  shows "completed e d' kh phone r \<and> countries d' = countries d"
proof -
  obtain u d1 where up: "upsert_user (qr_userId rnd) now phone d = (u, d1)" by fastforce
  from upsert_user_phone [OF up assms(3,4)] have d1: "user_phone d1 u = phone" "otpCodes d1 = otpCodes d" "countries d1 = countries d"
    by simp_all
  have "oc_requestKeyHash x \<noteq> kh" if "find_first_by k p (otpCodes d1) = Some x" for k p x
    using find_first_by_Some(1) [OF that] assms(2) d1(2) by auto
  then have c: "create_otp e c rnd now d1 u kh phone ciso ctx dev = (Inr r, d')"
    using assms(1) up by (auto simp: after_limits_def split: option.splits if_splits)
  have "find_first (\<lambda>o'. oc_requestKeyHash o' = kh) (otpCodes d1) = None"
    using assms(2) d1(2) by (auto simp: find_first_None)
  then have "replayOtpRequest e (qr_correlationId rnd) now d1 kh phone = (Inr None, d1)" by (simp add: replayOtpRequest_def)
  with c have "publish_otp e c rnd now (d1\<lparr>otpCodes := create_row (new_otp_row e rnd now u kh ctx) (otpCodes d1)\<rparr>) u kh phone
      (event_input OtpRequested phone ciso ctx dev) = (Inr r, d')"
    by (simp add: create_otp_def Let_def split: if_splits)
  from publish_completes [OF this _ d1(1)] show ?thesis using assms(2) d1 by simp
qed

text \<open>
  C6. A request for a code can be repeated: once a request was answered, the same request with
  the same key -- at any later time, from the same device or another -- gets the same answer and
  changes nothing: no second code is made, and no second message is sent.
\<close>

theorem request_replayed:
  assumes "requestOtp e c rnd now d phone countryIso ctx = (Inr r, d')"
    and "distinct (map oc_requestKeyHash (otpCodes d))" and "distinct (map u_id (users d))"
    and "qr_userId rnd \<notin> u_id ` set (users d)" and "cx_idempotencyKey ctx' = cx_idempotencyKey ctx"
  shows "requestOtp e c' rnd' now' d' phone countryIso ctx' = (Inr r, d')"
proof -
  obtain country p key where country: "requireAuthCountry e d countryIso = Inr country"
    and p: "normalizePhoneNumber e phone (co_iso country) = Inr p"
    and key: "idempotency_key e (case cx_idempotencyKey ctx of None \<Rightarrow> [] | Some k \<Rightarrow> k) = Inr key"
    using assms(1) by (auto simp: requestOtp_def split: sum.splits)
  obtain res d1 where rep: "replayOtpRequest e (qr_correlationId rnd) now d (sha256_hex e key) p = (res, d1)" by fastforce
  have "completed e d' (sha256_hex e key) p r \<and> countries d' = countries d"
  proof (cases "\<exists>r'. res = Inr (Some r')")
    case True
    then show ?thesis using assms(1) rep country p key replay_Some [of e _ now d _ p] by (auto simp: requestOtp_def Let_def)
  next
    case False
    then obtain dev where "res = Inr None" and
      lim: "after_limits e c rnd now d1 (sha256_hex e key) p (co_iso country) ctx dev = (Inr r, d')"
      using assms(1) rep country p key by (auto simp: requestOtp_def Let_def split: sum.splits option.splits)
    with replay_None_request [OF _ assms(2)] rep have
      "sha256_hex e key \<notin> oc_requestKeyHash ` set (otpCodes d1)" "users d1 = users d" "countries d1 = countries d" by auto
    then show ?thesis using after_limits_completes [OF lim] assms(3,4) by auto
  qed
  then show ?thesis
    using completed_replays [of e d' _ p r] country p key assms(5) by (simp add: requestOtp_def Let_def requireAuthCountry_def)
qed

section \<open>At concrete inputs\<close>

definition sample_code :: otp_code_row where
  "sample_code = \<lparr>oc_id = js ''o1'', oc_userId = js ''u1'', oc_codeHash = js ''123456'', oc_requestKeyHash = js ''q1'',
     oc_requestCompletedAt = Some 0, oc_developmentOtp = None, oc_verificationKeyHash = None, oc_verificationRequestHash = None,
     oc_verificationResponseJson = None, oc_verifiedAt = None, oc_verifyAttempts = 4, oc_expiresAt = 600000,
     oc_consumedAt = None, oc_createdAt = 0, oc_ip = None, oc_userAgent = None\<rparr>"

definition sample_country :: country_row where
  "sample_country = \<lparr>c_isoCode = js ''NG'', c_name = js ''Nigeria'', c_dialCode = js ''+234'', c_currencyCode = js ''NGN'',
     c_phoneExample = js ''+2348012345678'', c_authEnabled = True, c_marketEnabled = True, c_defaultCountry = True, c_sortOrder = 1\<rparr>"

definition sample_otp_db :: db where
  "sample_otp_db = one_goal_db\<lparr>countries := [sample_country], otpCodes := [sample_code], refreshTokens := []\<rparr>"

definition sample_context :: request_context where
  "sample_context = \<lparr>cx_ip = None, cx_userAgent = None, cx_deviceId = None,
     cx_idempotencyKey = Some (js ''00000000-0000-4000-8000-000000000000'')\<rparr>"

definition sample_verification :: "jstring \<Rightarrow> jstring \<Rightarrow> verification" where
  "sample_verification otp key = \<lparr>vf_phone = js ''+2348012345678'', vf_iso = js ''NG'', vf_otp = otp, vf_ctx = sample_context,
     vf_deviceHash = None, vf_secret = js ''k'', vf_keyHash = key, vf_requestHash = js ''00''\<rparr>"

definition sample_verify_random :: verify_random where
  "sample_verify_random = \<lparr>vr_key = [], vr_eventId = js ''e1'', vr_session = sample_random, vr_iv = js ''iv''\<rparr>"

lemma sample_user_otp [simp]: "user_exists (one_goal_db\<lparr>countries := cs, refreshTokens := rs, otpCodes := os, authEvents := es\<rparr>) (js ''u1'')"
  by (simp add: user_exists_def one_goal_db_def sample_goals_db_def)

lemma sample_verified:
  "\<exists>s d'. verified_transaction sample_auth sample_verify_random 5 sample_otp_db (sample_verification otp key) (js ''u1'')
     (js ''+2348012345678'') sample_code = Inr (s, d') \<and> se_expiresIn s = 900"
  by (simp add: verified_transaction_def Let_def sample_otp_db_def count_rows_def sample_code_def spendable_def
      new_session_def signAccessToken_def parseDurationToSeconds_def createRefreshTokenRow_def sample_verify_random_def
      sample_random_def sample_verification_def prepareRefreshFamilySlot_def truthy_def evicted_families_def
      families_where_def revoke_families_def refresh_conflict_def retireLiveOtpsForUser_def recordEvent_def
      update_many_def spend_code_def create_row_def)

lemma sample_no_replay: "vf_replay sample_auth now sample_otp_db (sample_verification otp key) = Inr None"
  by (simp add: vf_replay_def replayOtpVerification_def sample_otp_db_def find_first_def sample_code_def)

lemma sample_live:
  "find_first (\<lambda>u. u_phone u = vf_phone (sample_verification otp key)) (users sample_otp_db)
     = Some \<lparr>u_id = js ''u1'', u_phone = js ''+2348012345678'', u_displayName = None, u_createdAt = 0, u_updatedAt = 0\<rparr>"
  "live_code 5 (js ''u1'') sample_otp_db = Some sample_code"
  by (simp_all add: sample_otp_db_def find_first_def sample_verification_def one_goal_db_def sample_goals_db_def
      live_code_def find_first_by_def sample_code_def)

theorem code_opens_one_session_witness:
  "\<exists>s d'. verified_transaction sample_auth sample_verify_random 5 sample_otp_db (sample_verification (js ''123456'') (js ''k1''))
       (js ''u1'') (js ''+2348012345678'') sample_code = Inr (s, d')
     \<and> issueVerifiedSession sample_auth sample_verify_random 6 d' (sample_verification (js ''123456'') (js ''k2''))
       (js ''u1'') (js ''+2348012345678'') sample_code = (Inl expired_or_not_found, d')"
proof -
  obtain s d' where tx: "verified_transaction sample_auth sample_verify_random 5 sample_otp_db
      (sample_verification (js ''123456'') (js ''k1'')) (js ''u1'') (js ''+2348012345678'') sample_code = Inr (s, d')"
    using sample_verified by blast
  have "find_first (\<lambda>o'. oc_verificationKeyHash o' = Some (js ''k2'')) (otpCodes d') = None"
    using tx by (rule verified_transaction_Inr)
      (simp add: sample_otp_db_def codes_after_map code_after_def find_first_def sample_verification_def Let_def)
  then have "vf_replay sample_auth 6 d' (sample_verification (js ''123456'') (js ''k2'')) = Inr None"
    by (simp add: vf_replay_def replayOtpVerification_def sample_verification_def)
  moreover have "distinct (map oc_id (otpCodes sample_otp_db))" by (simp add: sample_otp_db_def)
  ultimately show ?thesis using code_opens_one_session [OF tx] tx by blast
qed

theorem last_guess_retires_codes_witness:
  "\<exists>d'. check_code sample_auth sample_verify_random 5 sample_otp_db (sample_verification (js ''111111'') (js ''k1''))
       = (Inl (TooManyRequests ''Too many invalid OTP attempts. Request a new code.''), d')
     \<and> check_code sample_auth sample_verify_random 6 d' (sample_verification (js ''123456'') (js ''k2'')) = (Inl expired_or_not_found, d')"
proof -
  let ?v = "sample_verification (js ''111111'') (js ''k1'')"
  obtain res d' where g: "check_code sample_auth sample_verify_random 5 sample_otp_db ?v = (res, d')" by fastforce
  have limit: "otpMaxVerifyAttempts sample_auth = int (oc_verifyAttempts sample_code) + 1"
    by (simp add: otpMaxVerifyAttempts_def number_or_def sample_auth_def sample_code_def)
  have wrong: "\<not> bcrypt_compare sample_auth (vf_otp ?v) (oc_codeHash sample_code)"
    by (simp add: sample_auth_def sample_verification_def sample_code_def)
  have "otpCodes d' = [sample_code\<lparr>oc_verifyAttempts := 5, oc_consumedAt := Some 5\<rparr>]"
    using g wrong limit sample_live by (auto simp: check_code_def wrong_guess_def Let_def retireLiveOtpsForUser_def sample_otp_db_def
        update_many_def sample_code_def)
  then have "vf_replay sample_auth 6 d' (sample_verification (js ''123456'') (js ''k2'')) = Inr None"
    by (simp add: vf_replay_def replayOtpVerification_def find_first_def sample_code_def)
  moreover have "vf_phone (sample_verification (js ''123456'') (js ''k2'')) = vf_phone ?v" by (simp add: sample_verification_def)
  ultimately show ?thesis
    using last_guess_retires_codes [OF sample_live(1) _ limit wrong g] sample_live(2) g by fastforce
qed

text \<open>The whole handler, with the request's own fields.\<close>

lemma sample_fields:
  "trim (js ''00000000-0000-4000-8000-000000000000'') = js ''00000000-0000-4000-8000-000000000000''"
  "is_uuid_v4 (js ''00000000-0000-4000-8000-000000000000'')"
  "filter (\<lambda>c. \<not> phone_noise c) (js ''+2348012345678'') = js ''+2348012345678''"
  "take 2 (js ''+2348012345678'') \<noteq> js ''00''" "take 1 (js ''+2348012345678'') = js ''+''"
  by code_simp+

lemma sample_parts:
  "requireAuthCountry sample_auth sample_otp_db (js ''NG'') = Inr (toAuthCountryDto sample_country)"
  "idempotency_key sample_auth (js ''00000000-0000-4000-8000-000000000000'') = Inr (js ''00000000-0000-4000-8000-000000000000'')"
  "normalizePhoneNumber sample_auth (js ''+2348012345678'') (js ''NG'') = Inr (js ''+2348012345678'')"
  "otpVerificationEncryptionKey sample_auth = Inr (js ''k'')" "hashOtpVerificationRequest sample_auth k h = js ''00''"
  "config_number sample_auth key = None"
  by (simp_all add: requireAuthCountry_def sample_otp_db_def find_first_def sample_country_def sample_auth_def sample_fields
      idempotency_key_def normalizePhoneNumber_def Let_def otpVerificationEncryptionKey_def truthy_def
      hashOtpVerificationRequest_def)

lemma sample_verification_of:
  "verification_of sample_auth rnd sample_otp_db (js ''+2348012345678'') (js ''NG'') (js ''123456'') sample_context
     = Inr (sample_verification (js ''123456'') (hashOtpVerificationKey sample_auth (js ''00000000-0000-4000-8000-000000000000'')))"
  by (simp add: verification_of_def sample_parts toAuthCountryDto_def sample_country_def sample_context_def
      hashDeviceIdentifier_def truthy_def sample_verification_def)

lemma sample_auth_aead: "aead_ok sample_auth"
  by (simp add: aead_ok_def sample_auth_def digits_value_dec)

theorem verification_replayed_witness:
  "\<exists>s d'. verifyOtp sample_auth sample_verify_random 5 sample_otp_db (js ''+2348012345678'') (js ''NG'') (js ''123456'') sample_context = (Inr s, d')
     \<and> verifyOtp sample_auth sample_verify_random 9 d' (js ''+2348012345678'') (js ''NG'') (js ''123456'') sample_context = (Inr s, d')"
proof -
  let ?v = "sample_verification (js ''123456'') (hashOtpVerificationKey sample_auth (js ''00000000-0000-4000-8000-000000000000''))"
  obtain s d' where tx: "verified_transaction sample_auth sample_verify_random 5 sample_otp_db ?v (js ''u1'')
      (js ''+2348012345678'') sample_code = Inr (s, d')" and s: "se_expiresIn s = 900"
    using sample_verified by blast
  have "check_code sample_auth sample_verify_random 5 sample_otp_db ?v = (Inr s, d')"
    using sample_live tx by (simp add: check_code_def issueVerifiedSession_def otpMaxVerifyAttempts_def number_or_def
        sample_parts) (simp add: sample_auth_def sample_verification_def sample_code_def)
  moreover have "verify_limit_reached sample_auth 5 sample_otp_db sample_context None = None"
    by (simp add: verify_limit_reached_def sample_context_def truthy_def Let_def)
  moreover have "vf_deviceHash ?v = None" by (simp add: sample_verification_def)
  ultimately have one: "verifyOtp sample_auth sample_verify_random 5 sample_otp_db (js ''+2348012345678'') (js ''NG'') (js ''123456'')
      sample_context = (Inr s, d')"
    by (simp add: verifyOtp_def sample_verification_of sample_no_replay)
  have "distinct (map oc_id (otpCodes sample_otp_db))" "distinct (map u_id (users sample_otp_db))"
    "vf_requestHash ?v \<noteq> []" "cx_idempotencyKey sample_context = Some (js ''00000000-0000-4000-8000-000000000000'')"
    by (simp_all add: sample_otp_db_def one_goal_db_def sample_goals_db_def sample_verification_def sample_context_def)
  from verification_replayed [OF sample_verification_of sample_no_replay one this(1,2) sample_auth_aead _ _ this(3,4), of 9 sample_verify_random]
  show ?thesis using one s by auto
qed


definition sample_request_db :: db where
  "sample_request_db = one_goal_db\<lparr>countries := [sample_country]\<rparr>"

definition sample_request_random :: request_random where
  "sample_request_random = \<lparr>qr_userId = js ''u9'', qr_otpId = js ''o9'', qr_otpNumber = 123456, qr_salt = [], qr_eventId = js ''e9'',
     qr_jobId = js ''j9'', qr_iv = js ''iv'', qr_correlationId = js ''c9''\<rparr>"

lemma sample_request_fields:
  "otpCodes sample_request_db = []" "jobs sample_request_db = []" "countries sample_request_db = [sample_country]"
  "users sample_request_db = [\<lparr>u_id = js ''u1'', u_phone = js ''+2348012345678'', u_displayName = None, u_createdAt = 0, u_updatedAt = 0\<rparr>]"
  "authEvents sample_request_db = []"
  by (simp_all add: sample_request_db_def one_goal_db_def sample_goals_db_def empty_db_def)

lemma sample_published:
  assumes "jobs d = []" and "user_exists d (js ''u1'')" and "otp_exists d (js ''o9'')"
  shows "\<exists>d'. publish_otp sample_auth sample_crypto sample_request_random 5 d (js ''u1'') kh p ev = (Inr None, d')"
proof -
  obtain sealed where s: "encryptPayload sample_crypto (js ''iv'') (otp_payload p (generateOtp 123456)) = Inr sealed"
    using encrypt_total [OF sample_crypto_ok] by blast
  have "\<not> exposes_otp sample_auth" by (simp add: exposes_otp_def sample_auth_def)
  then show ?thesis using assms
    by (simp add: publish_otp_def Let_def enqueueOtpRequested_def sample_request_random_def s insert_job_def new_job_def
        job_conflict_def job_references_ok_def user_exists_def otp_exists_def recordEvent_def buildOtpRequestResponse_def)
qed

lemma sample_requested:
  "\<exists>d'. requestOtp sample_auth sample_crypto sample_request_random 5 sample_request_db (js ''+2348012345678'') (js ''NG'') sample_context
     = (Inr None, d')"
proof -
  have country: "requireAuthCountry sample_auth sample_request_db (js ''NG'') = Inr (toAuthCountryDto sample_country)"
    by (simp add: requireAuthCountry_def sample_request_fields find_first_def sample_country_def sample_auth_def)
  have cx: "cx_deviceId sample_context = None"
    "cx_idempotencyKey sample_context = Some (js ''00000000-0000-4000-8000-000000000000'')" "co_iso (toAuthCountryDto sample_country) = js ''NG''"
    by (simp_all add: sample_context_def toAuthCountryDto_def sample_country_def)
  have rep: "replayOtpRequest sample_auth cid 5 sample_request_db k p = (Inr None, sample_request_db)" for cid k p
    by (simp add: replayOtpRequest_def find_first_def sample_request_fields)
  have lim: "request_limit_reached sample_auth 5 sample_request_db p sample_context None = None" for p
    by (simp add: request_limit_reached_def sample_context_def truthy_def codes_since_def count_rows_def sample_request_fields
        otpRequestLimitPerHour_def number_or_def sample_parts)
  have "\<exists>d'. publish_otp sample_auth sample_crypto sample_request_random 5 (sample_request_db\<lparr>otpCodes :=
      create_row (new_otp_row sample_auth sample_request_random 5 (js ''u1'') kh sample_context) []\<rparr>) (js ''u1'') kh p ev = (Inr None, d')" for kh p ev
    by (rule sample_published) (simp_all add: sample_request_fields user_exists_def otp_exists_def create_row_def new_otp_row_def
        Let_def sample_request_random_def)
  then have "\<exists>d'. after_limits sample_auth sample_crypto sample_request_random 5 sample_request_db kh (js ''+2348012345678'') ciso
      sample_context dev = (Inr None, d')" for kh ciso dev
    by (simp add: after_limits_def upsert_user_def find_first_def find_first_by_def sample_request_fields create_otp_def
        otp_conflict_def Let_def)
  then show ?thesis
    by (simp add: requestOtp_def country sample_parts cx rep lim hashDeviceIdentifier_def truthy_def Let_def)
qed

theorem request_replayed_witness:
  "\<exists>d'. requestOtp sample_auth sample_crypto sample_request_random 5 sample_request_db (js ''+2348012345678'') (js ''NG'') sample_context
       = (Inr None, d')
     \<and> requestOtp sample_auth sample_crypto sample_request_random 70000 d' (js ''+2348012345678'') (js ''NG'') sample_context
       = (Inr None, d')"
proof -
  obtain d' where one: "requestOtp sample_auth sample_crypto sample_request_random 5 sample_request_db (js ''+2348012345678'') (js ''NG'')
      sample_context = (Inr None, d')"
    using sample_requested by blast
  have "distinct (map oc_requestKeyHash (otpCodes sample_request_db))" "distinct (map u_id (users sample_request_db))"
    "qr_userId sample_request_random \<notin> u_id ` set (users sample_request_db)"
    by (simp_all add: sample_request_fields sample_request_random_def)
  from request_replayed [OF one this refl] one show ?thesis by blast
qed

end
