(* ===== verification/Account.thy ===== *)
theory Account
  imports Auth_Otp Goals
begin

text \<open>
  The account service \<open>api/src/account/account.service.ts\<close> with the request classes of
  \<open>api/src/account/dto\<close>: the profile, the consents with their history, the export of everything
  stored about a customer, and the deletion of an account, which goes through the memory of the
  notification queue. The transactions of the source happen as a whole or not at all.
\<close>

section \<open>Requests\<close>

record update_profile_dto =
  up_displayName :: "jstring field"

definition valid_update_profile :: "update_profile_dto \<Rightarrow> bool" where
  "valid_update_profile dto \<longleftrightarrow> optional_field (\<lambda>s. 1 \<le> length s \<and> length s \<le> 100) (up_displayName dto)"

record update_consents_dto =
  uc_analyticsEnabled :: "bool option"
  uc_productResearchEnabled :: "bool option"

definition valid_delete_account :: "jstring \<Rightarrow> bool" where
  "valid_delete_account confirmation \<longleftrightarrow> confirmation = js ''DELETE''"

section \<open>The account\<close>

record account_profile =
  pf_id :: jstring
  pf_phone :: jstring
  pf_displayName :: "jstring option"
  pf_createdAt :: jstring
  pf_updatedAt :: jstring

record account_consents =
  cs_analyticsEnabled :: bool
  cs_productResearchEnabled :: bool
  cs_updatedAt :: "jstring option"

definition account_not_found :: http_error where
  "account_not_found = NotFound ''Account not found''"

definition find_user :: "db \<Rightarrow> jstring \<Rightarrow> user_row option" where
  "find_user d userId = find_first (\<lambda>u. u_id u = userId) (users d)"

definition consent_preference :: "db \<Rightarrow> jstring \<Rightarrow> consent_preference_row option" where
  "consent_preference d userId = find_first (\<lambda>p. cp_userId p = userId) (consentPreferences d)"

definition profile_view :: "user_row \<Rightarrow> account_profile" where
  "profile_view u = \<lparr>pf_id = u_id u, pf_phone = u_phone u, pf_displayName = u_displayName u,
     pf_createdAt = to_iso_string (u_createdAt u), pf_updatedAt = to_iso_string (u_updatedAt u)\<rparr>"

definition consents_view :: "consent_preference_row option \<Rightarrow> account_consents" where
  "consents_view p = (case p of
      None \<Rightarrow> \<lparr>cs_analyticsEnabled = False, cs_productResearchEnabled = False, cs_updatedAt = None\<rparr>
    | Some r \<Rightarrow> \<lparr>cs_analyticsEnabled = cp_analyticsEnabled r, cs_productResearchEnabled = cp_productResearchEnabled r,
                 cs_updatedAt = Some (to_iso_string (cp_updatedAt r))\<rparr>)"

definition getAccount :: "db \<Rightarrow> jstring \<Rightarrow> (account_profile \<times> account_consents) result" where
  "getAccount d userId =
     (case find_user d userId of
        None \<Rightarrow> Inl account_not_found
      | Some u \<Rightarrow> Inr (profile_view u, consents_view (consent_preference d userId)))"

definition updateProfile ::
  "ms \<Rightarrow> db \<Rightarrow> jstring \<Rightarrow> update_profile_dto \<Rightarrow> (account_profile \<times> account_consents) result \<times> db"
where
  "updateProfile now d userId input =
     (if up_displayName input = Undefined then (Inl (BadRequest ''At least one profile field is required''), d)
      else (let displayName = (case up_displayName input of Value s \<Rightarrow> Some (trim s) | _ \<Rightarrow> None)
            in if up_displayName input \<noteq> Null \<and> \<not> truthy displayName
               then (Inl (BadRequest ''displayName must not be blank''), d)
               else if count_rows (\<lambda>u. u_id u = userId) (users d) \<noteq> 1 then (Inl account_not_found,
                 d\<lparr>users := update_many (\<lambda>u. u_id u = userId) (\<lambda>u. u\<lparr>u_displayName := displayName, u_updatedAt := now\<rparr>) (users d)\<rparr>)
               else (let d' = d\<lparr>users := update_many (\<lambda>u. u_id u = userId)
                                  (\<lambda>u. u\<lparr>u_displayName := displayName, u_updatedAt := now\<rparr>) (users d)\<rparr>
                     in (getAccount d' userId, d'))))"

section \<open>Consents\<close>

fun consent_input :: "update_consents_dto \<Rightarrow> consent_category \<Rightarrow> bool option" where
  "consent_input dto Analytics = uc_analyticsEnabled dto"
| "consent_input dto ProductResearch = uc_productResearchEnabled dto"

fun consent_column :: "consent_category \<Rightarrow> consent_preference_row \<Rightarrow> bool" where
  "consent_column Analytics p = cp_analyticsEnabled p"
| "consent_column ProductResearch p = cp_productResearchEnabled p"

definition CONSENT_CATEGORIES :: "consent_category list" where
  "CONSENT_CATEGORIES = [Analytics, ProductResearch]"

text \<open>The consent in force: none until it is given.\<close>

definition current_consent :: "db \<Rightarrow> jstring \<Rightarrow> consent_category \<Rightarrow> bool" where
  "current_consent d userId cat = (case consent_preference d userId of None \<Rightarrow> False | Some p \<Rightarrow> consent_column cat p)"

definition consent_changes :: "ms \<Rightarrow> db \<Rightarrow> jstring \<Rightarrow> update_consents_dto \<Rightarrow> consent_record_row list" where
  "consent_changes now d userId input =
     concat (map (\<lambda>cat. case consent_input input cat of
         None \<Rightarrow> []
       | Some granted \<Rightarrow> if current_consent d userId cat = granted then []
           else [\<lparr>cr_userId = userId, cr_category = cat, cr_granted = granted, cr_createdAt = now\<rparr>]) CONSENT_CATEGORIES)"

definition upsert_consents :: "ms \<Rightarrow> db \<Rightarrow> jstring \<Rightarrow> update_consents_dto \<Rightarrow> consent_preference_row list" where
  "upsert_consents now d userId input =
     (let value = (\<lambda>cat. case consent_input input cat of None \<Rightarrow> current_consent d userId cat | Some v \<Rightarrow> v)
      in if consent_preference d userId = None
         then create_row \<lparr>cp_userId = userId, cp_analyticsEnabled = value Analytics,
                cp_productResearchEnabled = value ProductResearch, cp_updatedAt = now\<rparr> (consentPreferences d)
         else update_many (\<lambda>p. cp_userId p = userId)
                (\<lambda>p. p\<lparr>cp_analyticsEnabled := set_if_given (uc_analyticsEnabled input) (cp_analyticsEnabled p),
                       cp_productResearchEnabled := set_if_given (uc_productResearchEnabled input) (cp_productResearchEnabled p),
                       cp_updatedAt := now\<rparr>) (consentPreferences d))"

definition updateConsents ::
  "ms \<Rightarrow> db \<Rightarrow> jstring \<Rightarrow> update_consents_dto \<Rightarrow> (account_profile \<times> account_consents) result \<times> db"
where
  "updateConsents now d userId input =
     (if list_all (\<lambda>cat. consent_input input cat = None) CONSENT_CATEGORIES
      then (Inl (BadRequest ''At least one consent is required''), d)
      else if find_user d userId = None then (Inl account_not_found, d)
      else (let records = consent_changes now d userId input;
                d' = (if records = [] then d
                      else d\<lparr>consentPreferences := upsert_consents now d userId input,
                             consentRecords := consentRecords d @ records\<rparr>)
            in (getAccount d' userId, d')))"

section \<open>The export\<close>

record exported_consent =
  xc_category :: consent_category
  xc_granted :: bool
  xc_createdAt :: jstring

record exported_transaction =
  xt_id :: jstring
  xt_goalId :: "jstring option"
  xt_amountKobo :: rat
  xt_direction :: jstring
  xt_occurredAt :: jstring
  xt_note :: "jstring option"
  xt_createdAt :: jstring

record exported_preferences =
  xp_weeklySummaryEnabled :: bool
  xp_riskAlertsEnabled :: bool
  xp_timeZone :: jstring
  xp_weeklyDay :: int
  xp_weeklyHourLocal :: int
  xp_updatedAt :: jstring

record exported_event =
  xe_type :: auth_event_type
  xe_countryIso :: jstring
  xe_createdAt :: jstring

record exported_job =
  xj_id :: jstring
  xj_type :: jstring
  xj_status :: job_status
  xj_provider :: "jstring option"
  xj_providerMessageId :: "jstring option"
  xj_createdAt :: jstring
  xj_sentAt :: "jstring option"
  xj_failedAt :: "jstring option"

record exported_goal =
  xg_id :: jstring
  xg_name :: jstring
  xg_amountTotalKobo :: rat
  xg_dueDate :: jstring
  xg_monthlyIncomeKobo :: "rat option"
  xg_isActive :: bool
  xg_status :: goal_status
  xg_endedAt :: "jstring option"
  xg_createdAt :: jstring

record account_export =
  ex_exportedAt :: jstring
  ex_profile :: account_profile
  ex_consents :: account_consents
  ex_consentHistory :: "exported_consent list"
  ex_goals :: "exported_goal list"
  ex_transactions :: "exported_transaction list"
  ex_alertPreferences :: "exported_preferences option"
  ex_authHistory :: "exported_event list"
  ex_notificationHistory :: "exported_job list"

definition export_consent :: "consent_record_row \<Rightarrow> exported_consent" where
  "export_consent r = \<lparr>xc_category = cr_category r, xc_granted = cr_granted r, xc_createdAt = to_iso_string (cr_createdAt r)\<rparr>"

definition export_goal :: "goal_row \<Rightarrow> exported_goal" where
  "export_goal g = \<lparr>xg_id = g_id g, xg_name = g_name g, xg_amountTotalKobo = to_number (g_amountTotalKobo g),
     xg_dueDate = to_iso_string (g_dueDate g), xg_monthlyIncomeKobo = map_option to_number (g_monthlyIncomeKobo g),
     xg_isActive = g_isActive g, xg_status = g_status g, xg_endedAt = map_option to_iso_string (g_endedAt g),
     xg_createdAt = to_iso_string (g_createdAt g)\<rparr>"

definition export_transaction :: "transaction_row \<Rightarrow> exported_transaction" where
  "export_transaction t = \<lparr>xt_id = t_id t, xt_goalId = t_goalId t, xt_amountKobo = to_number (t_amountKobo t),
     xt_direction = t_direction t, xt_occurredAt = to_iso_string (t_occurredAt t), xt_note = t_note t,
     xt_createdAt = to_iso_string (t_createdAt t)\<rparr>"

definition export_preferences :: "alert_preference_row \<Rightarrow> exported_preferences" where
  "export_preferences p = \<lparr>xp_weeklySummaryEnabled = ap_weeklySummaryEnabled p, xp_riskAlertsEnabled = ap_riskAlertsEnabled p,
     xp_timeZone = ap_timeZone p, xp_weeklyDay = ap_weeklyDay p, xp_weeklyHourLocal = ap_weeklyHourLocal p,
     xp_updatedAt = to_iso_string (ap_updatedAt p)\<rparr>"

definition export_event :: "auth_event_row \<Rightarrow> exported_event" where
  "export_event r = \<lparr>xe_type = ae_type r, xe_countryIso = ae_countryIso r, xe_createdAt = to_iso_string (ae_createdAt r)\<rparr>"

definition export_job :: "job_row \<Rightarrow> exported_job" where
  "export_job j = \<lparr>xj_id = j_id j, xj_type = j_type j, xj_status = j_status j, xj_provider = j_provider j,
     xj_providerMessageId = j_providerMessageId j, xj_createdAt = to_iso_string (j_createdAt j),
     xj_sentAt = map_option to_iso_string (j_sentAt j), xj_failedAt = map_option to_iso_string (j_failedAt j)\<rparr>"

definition own_event :: "jstring \<Rightarrow> jstring \<Rightarrow> auth_event_row \<Rightarrow> bool" where
  "own_event userId phone r \<longleftrightarrow> ae_userId r = Some userId \<or> ae_phone r = phone"

definition exportData :: "ms \<Rightarrow> db \<Rightarrow> jstring \<Rightarrow> account_export result" where
  "exportData now d userId =
     (case find_user d userId of
        None \<Rightarrow> Inl account_not_found
      | Some u \<Rightarrow> Inr
          \<lparr>ex_exportedAt = to_iso_string now, ex_profile = profile_view u,
           ex_consents = consents_view (consent_preference d userId),
           ex_consentHistory = map export_consent (find_many_by cr_createdAt (\<lambda>r. cr_userId r = userId) (consentRecords d)),
           ex_goals = map export_goal (find_many_by g_createdAt (\<lambda>g. g_userId g = userId) (goals d)),
           ex_transactions = map export_transaction (find_many_by t_occurredAt (\<lambda>t. t_userId t = userId) (transactions d)),
           ex_alertPreferences = map_option export_preferences (find_first (\<lambda>p. ap_userId p = userId) (alertPreferences d)),
           ex_authHistory = map export_event (find_many_by ae_createdAt (own_event userId (u_phone u)) (authEvents d)),
           ex_notificationHistory = map export_job (find_many_by j_createdAt (\<lambda>j. j_userId j = Some userId) (jobs d))\<rparr>)"

section \<open>The deletion\<close>

text \<open>Deleting a job takes its failed attempts along; deleting a goal takes its alert states and
  is forgotten by transactions; deleting a user takes the refresh tokens.\<close>

definition delete_jobs :: "(job_row \<Rightarrow> bool) \<Rightarrow> db \<Rightarrow> db" where
  "delete_jobs p d = d\<lparr>jobs := delete_many p (jobs d),
     failureAttempts := delete_many (\<lambda>a. fa_notificationJobId a \<in> j_id ` set (filter p (jobs d))) (failureAttempts d)\<rparr>"

definition delete_goals :: "(goal_row \<Rightarrow> bool) \<Rightarrow> db \<Rightarrow> db" where
  "delete_goals p d =
     (let ids = map g_id (filter p (goals d))
      in d\<lparr>goals := delete_many p (goals d), alertStates := delete_many (\<lambda>s. as_goalId s \<in> set ids) (alertStates d),
           transactions := update_many (\<lambda>t. case t_goalId t of None \<Rightarrow> False | Some i \<Rightarrow> i \<in> set ids)
             (\<lambda>t. t\<lparr>t_goalId := None\<rparr>) (transactions d)\<rparr>)"

definition erase_account :: "jstring list \<Rightarrow> db \<Rightarrow> jstring \<Rightarrow> jstring \<Rightarrow> db result" where
  "erase_account legacyIds d userId phone =
     (let d1 = delete_jobs (\<lambda>j. j_userId j = Some userId \<or> j_id j \<in> set legacyIds) d;
          d2 = d1\<lparr>authEvents := delete_many (own_event userId phone) (authEvents d1)\<rparr>
      in case delete_otp_codes (\<lambda>o'. oc_userId o' = userId) d2 of
           Inl err \<Rightarrow> Inl (prisma_error_thrown err)
         | Inr d3 \<Rightarrow>
             (let d4 = d3\<lparr>transactions := delete_many (\<lambda>t. t_userId t = userId) (transactions d3),
                          alertStates := delete_many (\<lambda>s. as_userId s = userId) (alertStates d3),
                          alertPreferences := delete_many (\<lambda>p. ap_userId p = userId) (alertPreferences d3),
                          consentPreferences := delete_many (\<lambda>p. cp_userId p = userId) (consentPreferences d3),
                          consentRecords := delete_many (\<lambda>r. cr_userId r = userId) (consentRecords d3)\<rparr>;
                  d5 = delete_goals (\<lambda>g. g_userId g = userId) d4
              in if count_rows (\<lambda>u. u_id u = userId) (users d5) \<noteq> 1 then Inl account_not_found
                 else Inr (d5\<lparr>users := delete_many (\<lambda>u. u_id u = userId) (users d5),
                              refreshTokens := delete_many (\<lambda>t. rt_userId t = userId) (refreshTokens d5)\<rparr>)))"

text \<open>On success the block on deliveries stays until its timer lifts it.\<close>

definition deleteAccount ::
  "crypto \<Rightarrow> ms \<Rightarrow> queue_memory \<Rightarrow> db \<Rightarrow> jstring \<Rightarrow> jstring result \<times> queue_memory \<times> db"
where
  "deleteAccount c now m d userId =
     (case find_user d userId of
        None \<Rightarrow> (Inl account_not_found, m, d)
      | Some user \<Rightarrow>
          (case beginAccountDeletion c d userId (u_phone user) m of
             (legacyIds, m') \<Rightarrow>
               (case erase_account legacyIds d userId (u_phone user) of
                  Inl err \<Rightarrow> (Inl err, restoreForAccount userId m', d)
                | Inr d' \<Rightarrow> (Inr (to_iso_string now), m', d'))))"

section \<open>A deletion leaves no trace\<close>

text \<open>Some row is about the user or names the phone number.\<close>

definition traces :: "db \<Rightarrow> jstring \<Rightarrow> jstring \<Rightarrow> bool" where
  "traces d u phone \<longleftrightarrow> list_ex (\<lambda>r. u_id r = u) (users d) \<or> list_ex (\<lambda>r. g_userId r = u) (goals d)
     \<or> list_ex (\<lambda>r. t_userId r = u) (transactions d) \<or> list_ex (\<lambda>r. ap_userId r = u) (alertPreferences d)
     \<or> list_ex (\<lambda>r. as_userId r = u) (alertStates d) \<or> list_ex (\<lambda>r. rt_userId r = u) (refreshTokens d)
     \<or> list_ex (\<lambda>r. oc_userId r = u) (otpCodes d) \<or> list_ex (own_event u phone) (authEvents d)
     \<or> list_ex (\<lambda>r. cp_userId r = u) (consentPreferences d) \<or> list_ex (\<lambda>r. cr_userId r = u) (consentRecords d)
     \<or> list_ex (\<lambda>r. j_userId r = Some u) (jobs d)"

text \<open>The rows of everybody else, where a row belongs to one user.\<close>

definition same_for_others :: "jstring \<Rightarrow> db \<Rightarrow> db \<Rightarrow> bool" where
  "same_for_others u d d' \<longleftrightarrow> users d' = filter (\<lambda>r. u_id r \<noteq> u) (users d) \<and> goals d' = filter (\<lambda>r. g_userId r \<noteq> u) (goals d)
     \<and> alertPreferences d' = filter (\<lambda>r. ap_userId r \<noteq> u) (alertPreferences d)
     \<and> refreshTokens d' = filter (\<lambda>r. rt_userId r \<noteq> u) (refreshTokens d)
     \<and> otpCodes d' = filter (\<lambda>r. oc_userId r \<noteq> u) (otpCodes d)
     \<and> consentPreferences d' = filter (\<lambda>r. cp_userId r \<noteq> u) (consentPreferences d)
     \<and> consentRecords d' = filter (\<lambda>r. cr_userId r \<noteq> u) (consentRecords d)
     \<and> map t_id (transactions d') = map t_id (filter (\<lambda>r. t_userId r \<noteq> u) (transactions d))"

lemma delete_many_filter: "delete_many p rows = filter (\<lambda>r. \<not> p r) rows"
  by (simp add: delete_many_def)

lemma erase_account_Inr:
  assumes "erase_account ids d u phone = Inr d'"
  shows "jobs d' = delete_many (\<lambda>j. j_userId j = Some u \<or> j_id j \<in> set ids) (jobs d)"
    "authEvents d' = update_many (\<lambda>r. case ae_otpCodeId r of None \<Rightarrow> False | Some i \<Rightarrow> i \<in> set (map oc_id (filter (\<lambda>c. oc_userId c = u) (otpCodes d))))
      (\<lambda>r. r\<lparr>ae_otpCodeId := None\<rparr>) (delete_many (own_event u phone) (authEvents d))"
    "otpCodes d' = delete_many (\<lambda>r. oc_userId r = u) (otpCodes d)"
    "transactions d' = update_many (\<lambda>t. case t_goalId t of None \<Rightarrow> False | Some i \<Rightarrow> i \<in> set (map g_id (filter (\<lambda>g. g_userId g = u) (goals d))))
      (\<lambda>t. t\<lparr>t_goalId := None\<rparr>) (delete_many (\<lambda>t. t_userId t = u) (transactions d))"
    "alertStates d' = delete_many (\<lambda>s. as_goalId s \<in> set (map g_id (filter (\<lambda>g. g_userId g = u) (goals d))))
      (delete_many (\<lambda>s. as_userId s = u) (alertStates d))"
    "alertPreferences d' = delete_many (\<lambda>p. ap_userId p = u) (alertPreferences d)"
    "consentPreferences d' = delete_many (\<lambda>p. cp_userId p = u) (consentPreferences d)"
    "consentRecords d' = delete_many (\<lambda>r. cr_userId r = u) (consentRecords d)"
    "goals d' = delete_many (\<lambda>g. g_userId g = u) (goals d)" "users d' = delete_many (\<lambda>r. u_id r = u) (users d)"
    "refreshTokens d' = delete_many (\<lambda>t. rt_userId t = u) (refreshTokens d)"
  using assms
  by (auto simp: erase_account_def delete_otp_codes_def delete_jobs_def delete_goals_def Let_def cong: option.case_cong
      split: sum.splits if_splits)

lemma list_ex_delete: "\<not> list_ex p (delete_many p rows)"
  by (simp add: delete_many_def list_ex_iff)

lemma list_ex_update: "(\<And>r. p (f r) = p r) \<Longrightarrow> list_ex p (update_many q f rows) = list_ex p rows"
  by (induction rows) (auto simp: update_many_def)


section \<open>The history of the consents\<close>

text \<open>One call of the service; what a refused call leaves behind is a step, too.\<close>

inductive account_step :: "crypto \<Rightarrow> queue_memory \<times> db \<Rightarrow> queue_memory \<times> db \<Rightarrow> bool" for c where
  profile: "updateProfile now d u input = (r, d') \<Longrightarrow> account_step c (m, d) (m, d')"
| consents: "updateConsents now d u consents = (r, d') \<Longrightarrow> account_step c (m, d) (m, d')"
| deletion: "deleteAccount c now m d u = (t, m', d') \<Longrightarrow> account_step c (m, d) (m', d')"

definition consent_history :: "db \<Rightarrow> jstring \<Rightarrow> consent_category \<Rightarrow> bool list" where
  "consent_history d u cat = map cr_granted (filter (\<lambda>r. cr_userId r = u \<and> cr_category r = cat) (consentRecords d))"

text \<open>Grants and revocations take turns, beginning with a grant, and the last one is in force.\<close>

definition consents_told :: "db \<Rightarrow> bool" where
  "consents_told d \<longleftrightarrow> (\<forall>u cat. let h = consent_history d u cat
     in h = map even [0..<length h] \<and> current_consent d u cat = odd (length h))"

lemma consents_told_cong:
  assumes "consents_told d" and "\<And>u cat. consent_history d' u cat = consent_history d u cat"
    and "\<And>u cat. current_consent d' u cat = current_consent d u cat"
  shows "consents_told d'"
  using assms by (simp add: consents_told_def)

lemma history_of_changes:
  "map cr_granted (filter (\<lambda>r. cr_userId r = u' \<and> cr_category r = cat) (consent_changes now d u input)) =
   (case consent_input input cat of Some g \<Rightarrow> if u' = u \<and> current_consent d u cat \<noteq> g then [g] else [] | None \<Rightarrow> [])"
  by (cases cat; cases "uc_analyticsEnabled input"; cases "uc_productResearchEnabled input")
    (auto simp: consent_changes_def CONSENT_CATEGORIES_def)

lemma current_after_upsert:
  assumes "consentPreferences d' = upsert_consents now d u input"
  shows "current_consent d' u' cat =
    (case consent_input input cat of Some g \<Rightarrow> if u' = u then g else current_consent d u' cat | None \<Rightarrow> current_consent d u' cat)"
proof (cases "consent_preference d u")
  case None
  then have none: "List.find (\<lambda>p. cp_userId p = u) (consentPreferences d) = None"
    by (simp add: consent_preference_def find_first_def)
  show ?thesis
  proof (cases "u' = u")
    case True
    then show ?thesis using assms None find_append_None [OF none]
      by (cases cat) (auto simp: upsert_consents_def Let_def create_row_def current_consent_def consent_preference_def
          find_first_def split: option.splits)
  next
    case False
    then show ?thesis using assms None
      by (auto simp: upsert_consents_def Let_def create_row_def current_consent_def consent_preference_def
          find_first_def find_append_other split: option.splits)
  qed
next
  case (Some p)
  let ?f = "\<lambda>p. p\<lparr>cp_analyticsEnabled := set_if_given (uc_analyticsEnabled input) (cp_analyticsEnabled p),
      cp_productResearchEnabled := set_if_given (uc_productResearchEnabled input) (cp_productResearchEnabled p), cp_updatedAt := now\<rparr>"
  have pref: "consent_preference d' u' = map_option (\<lambda>r. if cp_userId r = u then ?f r else r) (consent_preference d u')"
    using assms Some unfolding consent_preference_def upsert_consents_def Let_def
    by (simp add: find_first_update)
  have own: "cp_userId r = u'" if "consent_preference d u' = Some r" for r
    using that find_first_Some unfolding consent_preference_def by fast
  have col: "consent_column cat (?f r) = (case consent_input input cat of Some g \<Rightarrow> g | None \<Rightarrow> consent_column cat r)" for r
    by (cases cat; cases "uc_analyticsEnabled input"; cases "uc_productResearchEnabled input") simp_all
  show ?thesis
  proof (cases "consent_preference d u'")
    case None
    then have "u' \<noteq> u" using Some by auto
    then show ?thesis using None by (simp add: current_consent_def pref split: option.splits)
  next
    case s: (Some r)
    then show ?thesis using own [OF s] by (auto simp: current_consent_def pref col split: option.splits)
  qed
qed

lemma updateConsents_cases:
  assumes "updateConsents now d u input = (r, d')"
  obtains "d' = d"
  | "d' = d\<lparr>consentPreferences := upsert_consents now d u input, consentRecords := consentRecords d @ consent_changes now d u input\<rparr>"
  using assms by (auto simp: updateConsents_def Let_def split: if_splits)

lemma updateConsents_told:
  assumes "consents_told d" and "updateConsents now d u input = (r, d')"
  shows "consents_told d'"
  using assms(2)
proof (cases rule: updateConsents_cases)
  case 1
  then show ?thesis using assms(1) by simp
next
  case 2
  have h: "consent_history d' u' cat = consent_history d u' cat @
      (case consent_input input cat of Some g \<Rightarrow> if u' = u \<and> current_consent d u cat \<noteq> g then [g] else [] | None \<Rightarrow> [])" for u' cat
    using history_of_changes [of u' cat now d u input] by (simp add: consent_history_def 2)
  have c: "current_consent d' u' cat =
    (case consent_input input cat of Some g \<Rightarrow> if u' = u then g else current_consent d u' cat | None \<Rightarrow> current_consent d u' cat)" for u' cat
    by (rule current_after_upsert [where now = now]) (simp add: 2)
  show ?thesis
    unfolding consents_told_def Let_def
  proof (intro allI)
    fix u' cat
    have old: "consent_history d u' cat = map even [0..<length (consent_history d u' cat)]"
      "current_consent d u' cat = odd (length (consent_history d u' cat))"
      using assms(1) by (simp_all add: consents_told_def Let_def)
    show "consent_history d' u' cat = map even [0..<length (consent_history d' u' cat)] \<and>
          current_consent d' u' cat = odd (length (consent_history d' u' cat))"
      using old by (cases "consent_input input cat") (auto simp: h c)
  qed
qed

lemma updateProfile_told:
  assumes "consents_told d" and "updateProfile now d u input = (r, d')"
  shows "consents_told d'"
proof -
  have "consentPreferences d' = consentPreferences d \<and> consentRecords d' = consentRecords d"
    using assms(2) by (auto simp: updateProfile_def Let_def split: if_splits)
  then show ?thesis
    by (intro consents_told_cong [OF assms(1)]) (simp_all add: consent_history_def current_consent_def consent_preference_def)
qed

lemma deletion_told:
  assumes "consents_told d" and "deleteAccount c now m d u = (t, m', d')"
  shows "consents_told d'"
proof (cases "d' = d")
  case False
  then obtain ids phone where e: "erase_account ids d u phone = Inr d'"
    using assms(2) by (auto simp: deleteAccount_def split: option.splits prod.splits sum.splits)
  have p: "consentPreferences d' = filter (\<lambda>p. cp_userId p \<noteq> u) (consentPreferences d)"
    and r: "consentRecords d' = filter (\<lambda>r. cr_userId r \<noteq> u) (consentRecords d)"
    by (simp_all add: erase_account_Inr [OF e] delete_many_filter)
  have gone: "consent_history d' u cat = []" "\<not> current_consent d' u cat" for cat
    using find_first_Some [of "\<lambda>p. cp_userId p = u" "consentPreferences d'"]
    by (auto simp: consent_history_def r p filter_empty_conv current_consent_def consent_preference_def split: option.splits)
  have other: "consent_history d' u' cat = consent_history d u' cat" "current_consent d' u' cat = current_consent d u' cat"
    if "u' \<noteq> u" for u' cat
  proof -
    show "consent_history d' u' cat = consent_history d u' cat"
      unfolding consent_history_def r filter_filter using that by (intro arg_cong [where f = "map _"] filter_cong) auto
    show "current_consent d' u' cat = current_consent d u' cat"
      unfolding current_consent_def consent_preference_def p using that by (simp add: find_first_filter)
  qed
  show ?thesis
    unfolding consents_told_def Let_def
  proof (intro allI)
    fix u' cat
    show "consent_history d' u' cat = map even [0..<length (consent_history d' u' cat)] \<and>
          current_consent d' u' cat = odd (length (consent_history d' u' cat))"
      using assms(1) gone [of cat] other [of u' cat] by (cases "u' = u") (simp_all add: consents_told_def Let_def)
  qed
qed (use assms in simp)

lemma account_step_told: "account_step c s s' \<Longrightarrow> consents_told (snd s) \<Longrightarrow> consents_told (snd s')"
  by (induction rule: account_step.induct) (auto intro: updateProfile_told updateConsents_told deletion_told)

text \<open>
  C14. The history of the consents is true: from a database without consents, whatever sequence of
  profile changes, consent changes and deletions is made, the recorded history of every user and
  category alternates between grants and revocations, begins with a grant, and its last entry is
  the consent in force.
\<close>

theorem consent_history_true:
  assumes "(account_step c)\<^sup>*\<^sup>* (m0, d0) (m, d)" and "consentPreferences d0 = []" and "consentRecords d0 = []"
  shows "let h = consent_history d u cat in h = map even [0..<length h] \<and> current_consent d u cat = odd (length h)"
proof -
  have "consents_told d0"
    using assms(2,3) by (simp add: consents_told_def consent_history_def current_consent_def consent_preference_def find_first_def)
  with assms(1) have "consents_told (snd (m, d))"
    by (induction "(m, d)" arbitrary: m d rule: rtranclp_induct) (auto dest: account_step_told)
  then show ?thesis by (simp add: consents_told_def)
qed

section \<open>Samples\<close>

definition sample_user :: user_row where
  "sample_user = \<lparr>u_id = js ''u1'', u_phone = js ''+2348012345678'', u_displayName = None, u_createdAt = 0, u_updatedAt = 0\<rparr>"

definition sample_account_db :: db where
  "sample_account_db = sample_goals_db\<lparr>users := [sample_user], otpCodes := [sample_code], jobs := [sample_job\<lparr>j_userId := Some (js ''u1'')\<rparr>]\<rparr>"

lemma sample_account_found: "find_user sample_account_db (js ''u1'') = Some sample_user"
  by (simp add: find_user_def find_first_def sample_account_db_def sample_user_def)


definition sample_consents :: "bool \<Rightarrow> update_consents_dto" where
  "sample_consents granted = \<lparr>uc_analyticsEnabled = Some granted, uc_productResearchEnabled = None\<rparr>"

text \<open>Given, given again, and taken back: two entries.\<close>

definition sample_consented :: db where
  "sample_consented = snd (updateConsents 3 (snd (updateConsents 2 (snd (updateConsents 1 sample_account_db (js ''u1'')
     (sample_consents True))) (js ''u1'') (sample_consents True))) (js ''u1'') (sample_consents False))"

lemma sample_consent_step: "account_step c (m, d) (m, snd (updateConsents now d u input))"
  by (rule account_step.consents) (rule surjective_pairing)

theorem consent_history_true_witness:
  "consent_history sample_consented (js ''u1'') Analytics = [True, False]
   \<and> consent_history sample_consented (js ''u1'') Analytics = map even [0..<2]
   \<and> current_consent sample_consented (js ''u1'') Analytics = odd (2::nat)"
proof -
  have "(account_step sample_crypto)\<^sup>*\<^sup>* (empty_memory, sample_account_db) (empty_memory, sample_consented)"
    unfolding sample_consented_def by (meson sample_consent_step converse_rtranclp_into_rtranclp rtranclp.rtrancl_refl)
  moreover have "consentPreferences sample_account_db = []" "consentRecords sample_account_db = []"
    by (simp_all add: sample_account_db_def sample_goals_db_def empty_db_def)
  moreover have h: "consent_history sample_consented (js ''u1'') Analytics = [True, False]"
    by code_simp
  ultimately show ?thesis
    using consent_history_true [of sample_crypto empty_memory sample_account_db empty_memory sample_consented "js ''u1''" Analytics]
    by (simp only: h Let_def) (simp add: upt_rec)
qed

end
