(* ===== verification/Api_Routes.thy ===== *)
theory Api_Routes
  imports Account Transactions Dashboard Alerts Notification_Consumer Auth_Telemetry
begin

text \<open>
  The routes of the API behind the guard of \<open>auth/jwt-auth.guard.ts\<close>: the controllers of goals,
  transactions, dashboard, alerts, account, notifications and the inspection of \<open>auth\<close> under
  \<open>api/src\<close>. A request passes the guards, then the validation of its body, then its handler runs
  with the user id of the token. The routes that sign in are in \<open>Auth_Otp\<close>.
\<close>

section \<open>Routes and answers\<close>

text \<open>A route as the framework matched it, with the id in its path and its body; the number of rows
  to inspect has been parsed and defaults to ten.\<close>

datatype goals_route =
    PostGoal create_goal_dto
  | GetGoals
  | GetActiveGoal
  | PostGoalEnd jstring end_status
  | PatchGoal jstring update_goal_dto

datatype transactions_route =
    PostTransaction create_transaction_dto
  | PostImportPreview preview_import_dto
  | PostImport confirm_import_dto
  | GetTransactions list_transactions_dto
  | PatchTransaction jstring update_transaction_dto
  | RemoveTransaction jstring

datatype alerts_route =
    GetPreferences
  | PatchPreferences update_alert_preferences_dto

datatype account_route =
    GetAccount
  | PatchProfile update_profile_dto
  | PutConsents update_consents_dto
  | GetExport
  | RemoveAccount jstring

datatype api_route =
    GoalsRoute goals_route
  | TransactionsRoute transactions_route
  | GetStability
  | AlertsRoute alerts_route
  | AccountRoute account_route
  | GetAuthInspection int
  | GetQueueInspection int

datatype api_answer =
    AnsGoal goal_view
  | AnsGoals "goal_view list"
  | AnsTransaction transaction_view
  | AnsTransactions "transaction_view list"
  | AnsRemoved bool
  | AnsPreview import_preview
  | AnsImport import_result
  | AnsStability dashboard_response
  | AnsPreferences alert_preferences
  | AnsAccount account_profile account_consents
  | AnsExport account_export
  | AnsDeleted jstring
  | AnsAuthInspection auth_inspection
  | AnsQueueInspection inspection

text \<open>What the process was configured with, and what a request draws from outside: two readings of
  the clock, and the identifiers of new rows.\<close>

record api_env =
  en_auth :: auth_env
  en_crypto :: crypto
  en_sms :: sms_env
  en_zones :: time_zones
  en_newDate :: "jstring \<Rightarrow> ms option"
  en_isDateString :: "jstring \<Rightarrow> bool"

record api_moment =
  mo_now :: ms
  mo_later :: ms
  mo_id :: jstring
  mo_rowId :: "int \<Rightarrow> jstring"

section \<open>The controllers\<close>

definition respond :: "('a \<Rightarrow> api_answer) \<Rightarrow> 'a result \<times> 'b \<Rightarrow> api_answer result \<times> 'b" where
  "respond f r = (map_sum id f (fst r), snd r)"

fun goals_controller :: "api_env \<Rightarrow> api_moment \<Rightarrow> jstring \<Rightarrow> goals_route \<Rightarrow> db \<Rightarrow> api_answer result \<times> db" where
  "goals_controller e w u (PostGoal dto) d = respond AnsGoal (create_goal (en_newDate e) d u (mo_id w) (mo_now w) (mo_later w) dto)"
| "goals_controller e w u GetGoals d = respond AnsGoals (Inr (list_goals d u), d)"
| "goals_controller e w u GetActiveGoal d = respond AnsGoal (getActive d u, d)"
| "goals_controller e w u (PostGoalEnd i outcome) d = respond AnsGoal (end_goal d u i (mo_now w) outcome)"
| "goals_controller e w u (PatchGoal i dto) d = respond AnsGoal (update_goal (en_newDate e) d u i (mo_now w) (mo_later w) dto)"

fun transactions_controller ::
  "api_env \<Rightarrow> api_moment \<Rightarrow> jstring \<Rightarrow> transactions_route \<Rightarrow> db \<Rightarrow> api_answer result \<times> db"
where
  "transactions_controller e w u (PostTransaction dto) d =
     respond AnsTransaction (create_transaction (en_newDate e) d u (mo_id w) (mo_now w) dto)"
| "transactions_controller e w u (PostImportPreview dto) d =
     respond AnsPreview (previewImport (lower_case (en_auth e)) (sha256_hex (en_auth e)) d u dto, d)"
| "transactions_controller e w u (PostImport dto) d =
     respond AnsImport (confirmImport (lower_case (en_auth e)) (sha256_hex (en_auth e)) (en_newDate e) d u (mo_rowId w) (mo_now w) dto)"
| "transactions_controller e w u (GetTransactions dto) d = respond AnsTransactions (list_transactions (en_newDate e) d u dto, d)"
| "transactions_controller e w u (PatchTransaction i dto) d = respond AnsTransaction (update_transaction (en_newDate e) d u i dto)"
| "transactions_controller e w u (RemoveTransaction i) d = respond AnsRemoved (remove_transaction d u i)"

definition dashboard_controller :: "api_moment \<Rightarrow> jstring \<Rightarrow> db \<Rightarrow> api_answer result \<times> db" where
  "dashboard_controller w u d = respond AnsStability (Inr (getStability d u (mo_now w)), d)"

fun alerts_controller :: "api_env \<Rightarrow> api_moment \<Rightarrow> jstring \<Rightarrow> alerts_route \<Rightarrow> db \<Rightarrow> api_answer result \<times> db" where
  "alerts_controller e w u GetPreferences d = respond AnsPreferences (Inr (getPreferences d u), d)"
| "alerts_controller e w u (PatchPreferences dto) d = respond AnsPreferences (patch_preferences (en_zones e) (mo_now w) d u dto)"

fun account_controller ::
  "api_env \<Rightarrow> api_moment \<Rightarrow> jstring \<Rightarrow> account_route \<Rightarrow> queue_memory \<Rightarrow> db \<Rightarrow> api_answer result \<times> queue_memory \<times> db"
where
  "account_controller e w u GetAccount m d = respond (case_prod AnsAccount) (getAccount d u, m, d)"
| "account_controller e w u (PatchProfile dto) m d =
     (case updateProfile (mo_now w) d u dto of (r, d') \<Rightarrow> respond (case_prod AnsAccount) (r, m, d'))"
| "account_controller e w u (PutConsents dto) m d =
     (case updateConsents (mo_now w) d u dto of (r, d') \<Rightarrow> respond (case_prod AnsAccount) (r, m, d'))"
| "account_controller e w u GetExport m d = respond AnsExport (exportData (mo_now w) d u, m, d)"
| "account_controller e w u (RemoveAccount _) m d = respond AnsDeleted (deleteAccount (en_crypto e) (mo_now w) m d u)"

definition auth_inspection_route :: "api_moment \<Rightarrow> int \<Rightarrow> db \<Rightarrow> api_answer result \<times> db" where
  "auth_inspection_route w limit d = respond AnsAuthInspection (Inr (auth_getInspection d (mo_now w) limit), d)"

definition notifications_controller :: "api_env \<Rightarrow> api_moment \<Rightarrow> int \<Rightarrow> db \<Rightarrow> api_answer result \<times> db" where
  "notifications_controller e w limit d =
     respond AnsQueueInspection (Inr (getInspection (en_crypto e) (en_sms e) d (mo_now w) limit), d)"

section \<open>The pipeline\<close>

text \<open>Only the queue service keeps a memory between requests, and only a deletion reaches it.\<close>

definition with_memory :: "queue_memory \<Rightarrow> 'a \<times> db \<Rightarrow> 'a \<times> queue_memory \<times> db" where
  "with_memory m r = (fst r, m, snd r)"

fun handle ::
  "api_env \<Rightarrow> api_moment \<Rightarrow> jstring \<Rightarrow> api_route \<Rightarrow> queue_memory \<Rightarrow> db \<Rightarrow> api_answer result \<times> queue_memory \<times> db"
where
  "handle e w u (GoalsRoute rt) m d = with_memory m (goals_controller e w u rt d)"
| "handle e w u (TransactionsRoute rt) m d = with_memory m (transactions_controller e w u rt d)"
| "handle e w u GetStability m d = with_memory m (dashboard_controller w u d)"
| "handle e w u (AlertsRoute rt) m d = with_memory m (alerts_controller e w u rt d)"
| "handle e w u (AccountRoute rt) m d = account_controller e w u rt m d"
| "handle e w u (GetAuthInspection limit) m d = with_memory m (auth_inspection_route w limit d)"
| "handle e w u (GetQueueInspection limit) m d = with_memory m (notifications_controller e w limit d)"

fun operator_only :: "api_route \<Rightarrow> bool" where
  "operator_only (GetAuthInspection _) = True"
| "operator_only (GetQueueInspection _) = True"
| "operator_only _ = False"

fun valid_goals :: "api_env \<Rightarrow> goals_route \<Rightarrow> bool" where
  "valid_goals e (PostGoal dto) = valid_create_goal (en_isDateString e) dto"
| "valid_goals e (PatchGoal _ dto) = valid_update_goal (en_isDateString e) dto"
| "valid_goals e _ = True"

fun valid_transactions :: "api_env \<Rightarrow> transactions_route \<Rightarrow> bool" where
  "valid_transactions e (PostTransaction dto) = valid_create_transaction (en_isDateString e) dto"
| "valid_transactions e (PostImportPreview dto) = valid_preview_import dto"
| "valid_transactions e (PostImport dto) = valid_confirm_import dto"
| "valid_transactions e (GetTransactions dto) = valid_list_transactions (en_isDateString e) dto"
| "valid_transactions e (PatchTransaction _ dto) = valid_update_transaction (en_isDateString e) dto"
| "valid_transactions e (RemoveTransaction _) = True"

fun valid_route :: "api_env \<Rightarrow> api_route \<Rightarrow> bool" where
  "valid_route e (GoalsRoute rt) = valid_goals e rt"
| "valid_route e (TransactionsRoute rt) = valid_transactions e rt"
| "valid_route e (AlertsRoute (PatchPreferences dto)) = valid_update_preferences dto"
| "valid_route e (AccountRoute (PatchProfile dto)) = valid_update_profile dto"
| "valid_route e (AccountRoute (RemoveAccount confirmation)) = valid_delete_account confirmation"
| "valid_route e _ = True"

text \<open>The guards in their order; a body that does not pass is refused before the handler runs.\<close>

definition pass_guards :: "api_env \<Rightarrow> jstring option \<Rightarrow> api_route \<Rightarrow> jwt_user result" where
  "pass_guards e authorization call =
     (case jwt_canActivate (en_auth e) authorization of
        Inl err \<Rightarrow> Inl err
      | Inr user \<Rightarrow>
          if operator_only call
          then (case operator_canActivate (en_auth e) (Some user) of Inl err \<Rightarrow> Inl err | Inr _ \<Rightarrow> Inr user)
          else Inr user)"

definition api_request ::
  "api_env \<Rightarrow> api_moment \<Rightarrow> jstring option \<Rightarrow> api_route \<Rightarrow> queue_memory \<Rightarrow> db \<Rightarrow> api_answer result \<times> queue_memory \<times> db"
where
  "api_request e w authorization call m d =
     (case pass_guards e authorization call of
        Inl err \<Rightarrow> (Inl err, m, d)
      | Inr user \<Rightarrow>
          if \<not> valid_route e call then (Inl (BadRequest ''Bad Request Exception''), m, d)
          else handle e w (ju_userId user) call m d)"

text \<open>Without a token, or without being an operator where one is asked for, nothing happens.\<close>

lemma unguarded_refused: "pass_guards e a call = Inl err \<Longrightarrow> api_request e w a call m d = (Inl err, m, d)"
  by (simp add: api_request_def)

lemma inspection_for_operators:
  assumes "operator_only call" and "api_request e w a call m d = (Inr answer, m', d')"
  shows "\<exists>user. jwt_canActivate (en_auth e) a = Inr user \<and> ju_userId user \<in> operatorUserIds (en_auth e)"
  using assms
  by (auto simp: api_request_def pass_guards_def operator_canActivate_def split: sum.splits if_splits)

text \<open>The calls that only read: what is the user's own, or what operators may see.\<close>

fun own_reading :: "api_route \<Rightarrow> bool" where
  "own_reading (GoalsRoute rt) = (rt \<in> {GetGoals, GetActiveGoal})"
| "own_reading (TransactionsRoute rt) = (case rt of GetTransactions _ \<Rightarrow> True | PostImportPreview _ \<Rightarrow> True | _ \<Rightarrow> False)"
| "own_reading GetStability = True"
| "own_reading (AlertsRoute rt) = (rt = GetPreferences)"
| "own_reading (AccountRoute rt) = (rt \<in> {GetAccount, GetExport})"
| "own_reading _ = False"

lemmas controller_defs = respond_def with_memory_def dashboard_controller_def auth_inspection_route_def notifications_controller_def

lemma reading_writes_nothing: "own_reading call \<or> operator_only call \<Longrightarrow> snd (api_request e w a call m d) = (m, d)"
  by (cases call) (auto simp: api_request_def controller_defs split: sum.splits transactions_route.splits)

end
