(* ===== verification/Api_Privacy.thy ===== *)
theory Api_Privacy
  imports Api_Routes
begin

text \<open>
  What one user's requests can do to another user: nothing. The part of the database that is
  one user's is kept by the requests of everybody else, and it alone determines what the user reads.
\<close>

section \<open>The rows of one user\<close>

definition own_history :: "jstring \<Rightarrow> db \<Rightarrow> auth_event_row list" where
  "own_history u d = (case find_user d u of None \<Rightarrow> [] | Some r \<Rightarrow> filter (own_event u (u_phone r)) (authEvents d))"

definition own_part :: "jstring \<Rightarrow> db \<Rightarrow> db" where
  "own_part u d =
     \<lparr>users = filter (\<lambda>r. u_id r = u) (users d), goals = filter (\<lambda>g. g_userId g = u) (goals d),
      transactions = filter (\<lambda>t. t_userId t = u) (transactions d),
      alertPreferences = filter (\<lambda>p. ap_userId p = u) (alertPreferences d),
      alertStates = filter (\<lambda>s. as_userId s = u) (alertStates d),
      refreshTokens = filter (\<lambda>t. rt_userId t = u) (refreshTokens d),
      otpCodes = filter (\<lambda>c. oc_userId c = u) (otpCodes d), authEvents = own_history u d, countries = [],
      consentPreferences = filter (\<lambda>p. cp_userId p = u) (consentPreferences d),
      consentRecords = filter (\<lambda>r. cr_userId r = u) (consentRecords d),
      jobs = filter (\<lambda>j. j_userId j = Some u) (jobs d), failureAttempts = []\<rparr>"

text \<open>Rows refer to rows of their own user, and identifiers are unique.\<close>

definition ids_unique :: "db \<Rightarrow> bool" where
  "ids_unique d \<longleftrightarrow> distinct (map u_id (users d)) \<and> distinct (map u_phone (users d)) \<and> goals_ok (goals d)
     \<and> [] \<notin> g_id ` set (goals d) \<and> distinct (map t_id (transactions d)) \<and> distinct (map j_id (jobs d))"

definition goal_keys :: "db \<Rightarrow> (jstring \<times> jstring) set" where
  "goal_keys d = (\<lambda>g. (g_id g, g_userId g)) ` set (goals d)"

definition links_owned :: "db \<Rightarrow> bool" where
  "links_owned d \<longleftrightarrow>
     list_all (\<lambda>t. case t_goalId t of None \<Rightarrow> True | Some i \<Rightarrow> (i, t_userId t) \<in> goal_keys d) (transactions d)
   \<and> list_all (\<lambda>s. (as_goalId s, as_userId s) \<in> goal_keys d) (alertStates d)"

definition user_keys :: "db \<Rightarrow> (jstring \<times> jstring) set" where
  "user_keys d = (\<lambda>r. (u_id r, u_phone r)) ` set (users d)"

definition events_owned :: "db \<Rightarrow> bool" where
  "events_owned d \<longleftrightarrow>
     list_all (\<lambda>e. case ae_userId e of None \<Rightarrow> True | Some u \<Rightarrow> (u, ae_phone e) \<in> user_keys d) (authEvents d)
   \<and> list_all (\<lambda>e. list_all (\<lambda>c. ae_otpCodeId e \<noteq> Some (oc_id c) \<or> ae_userId e = Some (oc_userId c)) (otpCodes d)) (authEvents d)"

definition db_owned :: "db \<Rightarrow> bool" where
  "db_owned d \<longleftrightarrow> ids_unique d \<and> links_owned d \<and> events_owned d"

text \<open>The identifiers a request makes up are new.\<close>

definition fresh_moment :: "api_moment \<Rightarrow> db \<Rightarrow> bool" where
  "fresh_moment w d \<longleftrightarrow> mo_id w \<noteq> [] \<and> mo_id w \<notin> g_id ` set (goals d) \<and> mo_id w \<notin> t_id ` set (transactions d)
     \<and> inj_on (mo_rowId w) {0..} \<and> (\<forall>n. 0 \<le> n \<longrightarrow> mo_rowId w n \<notin> t_id ` set (transactions d))"

text \<open>What the requests of \<open>v\<close> may do: they keep the rules and every other user's part.\<close>

definition only_own :: "jstring \<Rightarrow> db \<Rightarrow> db \<Rightarrow> bool" where
  "only_own v d d' \<longleftrightarrow> db_owned d' \<and> (\<forall>u. u \<noteq> v \<longrightarrow> own_part u d' = own_part u d)"

lemma only_own_refl [simp]: "db_owned d \<Longrightarrow> only_own v d d"
  by (simp add: only_own_def)

lemma filter_owner:
  assumes "filter (\<lambda>r. k r \<noteq> v) xs = filter (\<lambda>r. k r \<noteq> v) ys" and "u \<noteq> v"
  shows "filter (\<lambda>r. k r = u) xs = filter (\<lambda>r. k r = u) ys"
proof -
  have "filter (\<lambda>r. k r = u) zs = filter (\<lambda>r. k r = u) (filter (\<lambda>r. k r \<noteq> v) zs)" for zs
    using assms(2) by (induction zs) auto
  then show ?thesis using assms(1) by metis
qed

lemma filter_owner_update:
  assumes "\<And>r. r \<in> set rows \<Longrightarrow> p r \<Longrightarrow> k r \<noteq> u \<and> k (f r) \<noteq> u"
  shows "filter (\<lambda>r. k r = u) (update_many p f rows) = filter (\<lambda>r. k r = u) rows"
  using assms by (intro filter_update_many) blast

lemma filter_owner_delete:
  assumes "\<And>r. r \<in> set rows \<Longrightarrow> p r \<Longrightarrow> k r \<noteq> u"
  shows "filter (\<lambda>r. k r = u) (delete_many p rows) = filter (\<lambda>r. k r = u) rows"
  unfolding delete_many_def filter_filter using assms by (intro filter_cong) auto

lemma filter_owner_create: "k r \<noteq> u \<Longrightarrow> filter (\<lambda>r. k r = u) (create_row r rows) = filter (\<lambda>r. k r = u) rows"
  by (simp add: create_row_def)

section \<open>Goals\<close>

lemma own_history_simps [simp]: "own_history u (d\<lparr>goals := gs\<rparr>) = own_history u d"
  "own_history u (d\<lparr>transactions := ts\<rparr>) = own_history u d"
  "own_history u (d\<lparr>alertPreferences := ps\<rparr>) = own_history u d"
  "own_history u (d\<lparr>consentPreferences := cs, consentRecords := rs\<rparr>) = own_history u d"
  by (simp_all add: own_history_def find_user_def split: option.split)

lemma goal_keys_simps [simp]: "goal_keys (d\<lparr>transactions := ts\<rparr>) = goal_keys d"
  "goal_keys (d\<lparr>alertPreferences := ps\<rparr>) = goal_keys d" "goal_keys (d\<lparr>users := us\<rparr>) = goal_keys d"
  "goal_keys (d\<lparr>consentPreferences := cs, consentRecords := rs\<rparr>) = goal_keys d"
  by (simp_all add: goal_keys_def)

lemma links_owned_mono:
  assumes "links_owned d" and "goal_keys d \<subseteq> goal_keys d'" and "transactions d' = transactions d" and "alertStates d' = alertStates d"
  shows "links_owned d'"
  using assms unfolding links_owned_def by (auto simp: list_all_iff split: option.splits)

lemma events_owned_same:
  "user_keys d' = user_keys d \<Longrightarrow> authEvents d' = authEvents d \<Longrightarrow> otpCodes d' = otpCodes d \<Longrightarrow> events_owned d' = events_owned d"
  by (simp add: events_owned_def cong: option.case_cong)

text \<open>Goals keep their ids and owners, new ones are the user's.\<close>

lemma goals_only_own:
  assumes "db_owned d" and "only_own_goals v d d'" and "goals_ok (goals d')"
    and "goal_keys d \<subseteq> goal_keys d'" and "[] \<notin> g_id ` set (goals d')"
  shows "only_own v d d'"
proof -
  have others: "filter (\<lambda>g. g_userId g \<noteq> v) (goals d') = filter (\<lambda>g. g_userId g \<noteq> v) (goals d)"
    using assms(2) by (simp add: only_own_goals_def)
  have "d' = d\<lparr>goals := goals d'\<rparr>" using assms(2) unfolding only_own_goals_def by (rule conjunct1)
  then obtain gs where d': "d' = d\<lparr>goals := gs\<rparr>" by (rule that)
  have same: "transactions d' = transactions d" "alertStates d' = alertStates d" "user_keys d' = user_keys d" "authEvents d' = authEvents d"
    "otpCodes d' = otpCodes d" "jobs d' = jobs d" "users d' = users d"
    by (simp_all add: d' user_keys_def)
  have owned: "ids_unique d" "links_owned d" "events_owned d" using assms(1) by (simp_all add: db_owned_def)
  have "links_owned d'" using owned(2) assms(4) same(1,2) by (rule links_owned_mono)
  moreover have "events_owned d'" using owned(3) events_owned_same [OF same(3-5)] by simp
  moreover have "ids_unique d'" using owned(1) assms(3,5) by (simp add: ids_unique_def same)
  moreover have "own_part u d' = own_part u d" if "u \<noteq> v" for u
    using filter_owner [OF others that] by (simp add: own_part_def d')
  ultimately show ?thesis by (simp add: only_own_def db_owned_def)
qed

lemma goals_handler_only_own:
  assumes "db_owned d" and "only_own_goals v d (snd rd)" and "goals_ok (goals (snd rd))"
    and "\<And>err d'. rd = (Inl err, d') \<Longrightarrow> d' = d"
    and "\<And>view d'. rd = (Inr view, d') \<Longrightarrow> goal_keys d \<subseteq> goal_keys d' \<and> [] \<notin> g_id ` set (goals d')"
  shows "only_own v d (snd rd)"
proof (cases rd)
  case (Pair r d')
  show ?thesis
  proof (cases r)
    case (Inl err)
    with Pair assms(1,4) show ?thesis by simp
  next
    case (Inr view)
    with Pair assms(5) [of view d'] goals_only_own [OF assms(1-3)] show ?thesis by simp
  qed
qed

lemma update_keeps_keys:
  assumes "\<And>g. g_id (f g) = g_id g \<and> g_userId (f g) = g_userId g"
  shows "(\<lambda>g. (g_id g, g_userId g)) ` set (update_many p f gs) = (\<lambda>g. (g_id g, g_userId g)) ` set gs"
    and "g_id ` set (update_many p f gs) = g_id ` set gs"
  unfolding update_many_def set_map image_image using assms by (auto intro!: image_cong)

lemma goal_changes_keep:
  "g_id (replace_goal t g) = g_id g \<and> g_userId (replace_goal t g) = g_userId g"
  "g_id (finish_goal outcome t g) = g_id g \<and> g_userId (finish_goal outcome t g) = g_userId g"
  "g_id (changed_goal dto a t k due inc n z g) = g_id g \<and> g_userId (changed_goal dto a t k due inc n z g) = g_userId g"
  by (simp_all add: replace_goal_def finish_goal_def changed_goal_def)

lemmas goal_keys_kept = goal_changes_keep [THEN update_keeps_keys(1)] goal_changes_keep [THEN update_keeps_keys(2)]

lemma db_ownedD:
  assumes "db_owned d"
  shows "goals_ok (goals d)" and "[] \<notin> g_id ` set (goals d)" and "distinct (map t_id (transactions d))"
  using assms by (simp_all add: db_owned_def ids_unique_def)

lemma goals_step_result: "goals_step d d' \<Longrightarrow> db_owned d \<Longrightarrow> goals_ok (goals d')"
  using goals_step_ok db_ownedD(1) by blast

lemma create_goal_only_own:
  assumes "db_owned d" and "fresh_moment w d"
  shows "only_own v d (snd (create_goal new_date d v (mo_id w) endedAt createdAt dto))"
proof (rule goals_handler_only_own [OF assms(1) create_goal_own])
  have "mo_id w \<notin> g_id ` set (goals d)" using assms(2) by (simp add: fresh_moment_def)
  then show "goals_ok (goals (snd (create_goal new_date d v (mo_id w) endedAt createdAt dto)))"
    using goals_step_result [OF goals_step.created] assms(1) by (metis prod.collapse)
  show "d' = d" if "create_goal new_date d v (mo_id w) endedAt createdAt dto = (Inl err, d')" for err d'
    using that by (rule create_goal_Inl)
  show "goal_keys d \<subseteq> goal_keys d' \<and> [] \<notin> g_id ` set (goals d')"
    if "create_goal new_date d v (mo_id w) endedAt createdAt dto = (Inr view, d')" for view d'
    using that by (rule create_goal_Inr)
      (use assms(2) db_ownedD(2) [OF assms(1)] in \<open>auto simp: goal_keys_def set_create_row goal_keys_kept new_goal_def fresh_moment_def\<close>)
qed

lemma update_goal_only_own:
  assumes "db_owned d"
  shows "only_own v d (snd (update_goal new_date d v i replacedAt now dto))"
proof (rule goals_handler_only_own [OF assms update_goal_own [OF db_ownedD(1) [OF assms]]])
  show "goals_ok (goals (snd (update_goal new_date d v i replacedAt now dto)))"
    using goals_step_result [OF goals_step.updated] assms by (metis prod.collapse)
  show "d' = d" if "update_goal new_date d v i replacedAt now dto = (Inl err, d')" for err d'
    using that by (rule update_goal_Inl)
  show "goal_keys d \<subseteq> goal_keys d' \<and> [] \<notin> g_id ` set (goals d')"
    if "update_goal new_date d v i replacedAt now dto = (Inr view, d')" for view d'
    using that by (rule update_goal_Inr) (use db_ownedD(2) [OF assms] in \<open>simp add: goal_keys_def goal_keys_kept\<close>)
qed

lemma end_goal_only_own:
  assumes "db_owned d"
  shows "only_own v d (snd (end_goal d v i now outcome))"
proof (rule goals_handler_only_own [OF assms end_goal_own])
  show "goals_ok (goals (snd (end_goal d v i now outcome)))"
    using goals_step_result [OF goals_step.ended] assms by (metis prod.collapse)
  show "d' = d" if "end_goal d v i now outcome = (Inl err, d')" for err d'
    using that by (rule end_goal_Inl)
  show "goal_keys d \<subseteq> goal_keys d' \<and> [] \<notin> g_id ` set (goals d')"
    if "end_goal d v i now outcome = (Inr view, d')" for view d'
    using that by (rule end_goal_Inr) (use db_ownedD(2) [OF assms] in \<open>simp add: goal_keys_def goal_keys_kept\<close>)
qed

section \<open>Transactions\<close>

lemma checked_goal_owned:
  assumes "check_goal d f v = Inr ()" and "or_null f = Some i"
  shows "(i, v) \<in> goal_keys d"
  using assms find_first_Some unfolding check_goal_def ensureGoalBelongsToUser_def goal_keys_def
  by (fastforce split: option.splits)

text \<open>The rows of transactions after a handler: those of others, in their order, and rows of \<open>v\<close> whose goal is \<open>v\<close>'s.\<close>

lemma transactions_only_own:
  assumes "db_owned d" and "filter (\<lambda>t. t_userId t \<noteq> v) ts = filter (\<lambda>t. t_userId t \<noteq> v) (transactions d)"
    and "distinct (map t_id ts)"
    and "\<And>t i. t \<in> set ts \<Longrightarrow> t_userId t = v \<Longrightarrow> t_goalId t = Some i \<Longrightarrow> (i, v) \<in> goal_keys d"
  shows "only_own v d (d\<lparr>transactions := ts\<rparr>)"
proof -
  have foreign: "t \<in> set (transactions d)" if "t \<in> set ts" "t_userId t \<noteq> v" for t
    using that arg_cong [OF assms(2), of set] by auto
  have "links_owned (d\<lparr>transactions := ts\<rparr>)"
    using assms(1,4) foreign by (fastforce simp: db_owned_def links_owned_def list_all_iff split: option.splits)
  moreover have "ids_unique (d\<lparr>transactions := ts\<rparr>)" "events_owned (d\<lparr>transactions := ts\<rparr>)"
    using assms(1,3) events_owned_same [of "d\<lparr>transactions := ts\<rparr>" d] by (simp_all add: db_owned_def ids_unique_def user_keys_def)
  moreover have "own_part u (d\<lparr>transactions := ts\<rparr>) = own_part u d" if "u \<noteq> v" for u
    using filter_owner [OF assms(2) that] by (simp add: own_part_def)
  ultimately show ?thesis by (simp add: only_own_def db_owned_def)
qed

text \<open>A goal of the user's own transaction is the user's own.\<close>

lemma own_goal_linked:
  assumes "db_owned d" and "t \<in> set (transactions d)" and "t_goalId t = Some i"
  shows "(i, t_userId t) \<in> goal_keys d"
  using assms by (fastforce simp: db_owned_def links_owned_def list_all_iff split: option.splits)

lemma create_transaction_only_own:
  assumes "db_owned d" and "fresh_moment w d"
  shows "only_own v d (snd (create_transaction new_date d v (mo_id w) now dto))"
proof -
  have "only_own v d (d\<lparr>transactions := create_row t (transactions d)\<rparr>)"
    if t: "check_goal d (ct_goalId dto) v = Inr ()" "t_userId t = v" "t_id t = mo_id w" "t_goalId t = or_null (ct_goalId dto)" for t
  proof (rule transactions_only_own [OF assms(1)])
    show "distinct (map t_id (create_row t (transactions d)))"
      using assms(2) db_ownedD(3) [OF assms(1)] t(3) by (simp add: create_row_def fresh_moment_def)
    fix x i
    assume "x \<in> set (create_row t (transactions d))" "t_userId x = v" "t_goalId x = Some i"
    with checked_goal_owned [OF t(1)] own_goal_linked [OF assms(1)] t(4) show "(i, v) \<in> goal_keys d"
      by (auto simp: set_create_row)
  qed (simp add: create_row_def t(2))
  then show ?thesis
    using assms(1) by (simp add: create_transaction_def Let_def split: sum.split option.split)
qed

lemma update_transaction_only_own:
  assumes "db_owned d"
  shows "only_own v d (snd (update_transaction new_date d v i dto))"
proof -
  have "only_own v d (d\<lparr>transactions := update_many (\<lambda>t. t_id t = i) (changed_transaction dir k occurred (ut_goalId dto) memo) (transactions d)\<rparr>)"
    (is "only_own v d (d\<lparr>transactions := update_many _ ?f _\<rparr>)")
    if t: "find_first (\<lambda>t. t_id t = i \<and> t_userId t = v) (transactions d) = Some t" and check: "check_goal d (ut_goalId dto) v = Inr ()"
      and reference: "goal_reference_ok d (field_value (ut_goalId dto))" for t dir k occurred memo
  proof (rule transactions_only_own [OF assms])
    have mine: "x = t \<and> t_userId x = v" if "x \<in> set (transactions d)" "t_id x = i" for x
      using find_first_Some [OF t] that row_by_id [OF db_ownedD(3) [OF assms]] by metis
    have f: "t_id (?f x) = t_id x" "t_userId (?f x) = t_userId x" for x by (simp_all add: changed_transaction_def)
    show "filter (\<lambda>t. t_userId t \<noteq> v) (update_many (\<lambda>t. t_id t = i) ?f (transactions d)) = filter (\<lambda>t. t_userId t \<noteq> v) (transactions d)"
      using mine f by (intro filter_update_many) metis
    show "distinct (map t_id (update_many (\<lambda>t. t_id t = i) ?f (transactions d)))"
      using f(1) db_ownedD(3) [OF assms] by (subst map_update_many) simp_all
    fix x g
    assume x: "x \<in> set (update_many (\<lambda>t. t_id t = i) ?f (transactions d))" "t_userId x = v" "t_goalId x = Some g"
    then obtain y where y: "y \<in> set (transactions d)" "x = (if t_id y = i then ?f y else y)" by (auto simp: in_set_update_many)
    show "(g, v) \<in> goal_keys d"
    proof (cases "t_id y = i \<and> ut_goalId dto = Value g")
      case True
      then have "g \<noteq> []"
        using reference db_ownedD(2) [OF assms] by (auto simp: goal_reference_ok_def goal_exists_def list_ex_iff image_iff)
      with True show ?thesis by (intro checked_goal_owned [OF check]) (simp add: or_null_def truthy_def)
    next
      case False
      with x y have "t_goalId y = Some g \<and> t_userId y = v"
        by (cases "ut_goalId dto") (auto simp: changed_transaction_def split: if_splits)
      with own_goal_linked [OF assms y(1)] show ?thesis by blast
    qed
  qed
  then show ?thesis
    using assms by (simp add: update_transaction_def Let_def split: sum.split option.split prod.split)
qed

lemma remove_transaction_only_own:
  assumes "db_owned d"
  shows "only_own v d (snd (remove_transaction d v i))"
proof -
  have "only_own v d (d\<lparr>transactions := delete_many (\<lambda>t. t_id t = i) (transactions d)\<rparr>)"
    if t: "find_first (\<lambda>t. t_id t = i \<and> t_userId t = v) (transactions d) = Some t" for t
  proof (rule transactions_only_own [OF assms])
    have mine: "t_userId x = v" if "x \<in> set (transactions d)" "t_id x = i" for x
      using find_first_Some [OF t] that row_by_id [OF db_ownedD(3) [OF assms]] by metis
    then show "filter (\<lambda>t. t_userId t \<noteq> v) (delete_many (\<lambda>t. t_id t = i) (transactions d)) = filter (\<lambda>t. t_userId t \<noteq> v) (transactions d)"
      by (auto simp: delete_many_def intro!: filter_cong)
    show "distinct (map t_id (delete_many (\<lambda>t. t_id t = i) (transactions d)))"
      using db_ownedD(3) [OF assms] by (simp add: delete_many_def distinct_map_filter)
  qed (use own_goal_linked [OF assms] in \<open>auto simp: set_delete_many\<close>)
  then show ?thesis
    using assms by (simp add: remove_transaction_def ensureTransactionBelongsToUser_def split: option.split)
qed

lemma distinct_novel: "distinct (map t_id rs) \<Longrightarrow> distinct (map t_id (novel rs rows))"
  using set_novel by (induction rs arbitrary: rows) (auto, fastforce)

text \<open>An import that succeeds adds rows of the user, with the checked goal and with new ids.\<close>

lemma confirm_import_adds:
  assumes "confirmImport lower sha256 new_date d v newId now dto = (Inr res, d')" and "inj_on newId {0..}" and "valid_confirm_import dto"
  obtains added where "d' = d\<lparr>transactions := transactions d @ added\<rparr>" "distinct (map t_id added)"
    "\<And>t. t \<in> set added \<Longrightarrow> t_userId t = v \<and> t_goalId t = field_value (ci_goalId dto) \<and> (\<exists>n \<ge> 0. t_id t = newId n)"
    "check_goal d (ci_goalId dto) v = Inr ()"
proof -
  let ?row = "imported_row new_date v (field_value (ci_goalId dto)) newId now"
  from assms(1) obtain parsed where check: "check_goal d (ci_goalId dto) v = Inr ()"
    and parsed: "parseTransactionImport lower sha256 (ci_csv dto) = Inr parsed"
    and dates: "\<forall>row \<in> set (selected_rows parsed (ci_rowNumbers dto)). \<not> invalid_row row \<and> Option.bind (ir_occurredAt row) new_date \<noteq> None"
    and d': "d' = d\<lparr>transactions := transactions d @ novel (map ?row (selected_rows parsed (ci_rowNumbers dto))) (transactions d)\<rparr>"
    by (metis confirmImport_Inr)
  let ?rows = "selected_rows parsed (ci_rowNumbers dto)"
  obtain ix records where "parsed = import_rows lower sha256 ix 0 Map.empty records"
    using parsed by (rule parsed_import_rows) blast
  then have nums: "distinct (map ir_rowNumber ?rows)"
    by (simp add: selected_rows_def distinct_map_filter row_numbers_distinct)
  have numbers: "0 \<le> ir_rowNumber row" if "row \<in> set ?rows" for row
    using that assms(3) by (auto simp: selected_rows_def valid_confirm_import_def list_all_iff)
  have fields: "t_userId (?row row) = v \<and> t_id (?row row) = newId (ir_rowNumber row) \<and> t_goalId (?row row) = field_value (ci_goalId dto)"
    if "row \<in> set ?rows" for row
    using dates that imported_row_fields [of row new_date] by fastforce
  show ?thesis
  proof (rule that [OF d' _ _ check])
    have "inj_on newId (ir_rowNumber ` set ?rows)"
      using assms(2) numbers by (auto intro: inj_on_subset)
    then have "distinct (map (newId \<circ> ir_rowNumber) ?rows)"
      using nums by (simp add: distinct_map comp_inj_on)
    then have "distinct (map t_id (map ?row ?rows))"
      using fields by (simp add: comp_def cong: map_cong)
    then show "distinct (map t_id (novel (map ?row ?rows) (transactions d)))" by (rule distinct_novel)
    fix t
    assume "t \<in> set (novel (map ?row ?rows) (transactions d))"
    with set_novel obtain row where row: "row \<in> set ?rows" "t = ?row row" by fastforce
    with fields [OF row(1)] numbers [OF row(1)]
    show "t_userId t = v \<and> t_goalId t = field_value (ci_goalId dto) \<and> (\<exists>n \<ge> 0. t_id t = newId n)" by blast
  qed
qed

lemma confirm_import_only_own:
  assumes "db_owned d" and "fresh_moment w d" and "valid_confirm_import dto"
  shows "only_own v d (snd (confirmImport lower sha256 new_date d v (mo_rowId w) now dto))"
proof (cases "confirmImport lower sha256 new_date d v (mo_rowId w) now dto")
  case (Pair r d')
  have fresh: "inj_on (mo_rowId w) {0..}" "\<And>n. 0 \<le> n \<Longrightarrow> mo_rowId w n \<notin> t_id ` set (transactions d)"
    using assms(2) by (simp_all add: fresh_moment_def)
  have "only_own v d d'"
  proof (cases r)
    case (Inl err)
    with Pair confirmImport_Inl assms(1) show ?thesis by fastforce
  next
    case (Inr res)
    with Pair obtain added where d': "d' = d\<lparr>transactions := transactions d @ added\<rparr>" and ids: "distinct (map t_id added)"
      and added: "\<And>t. t \<in> set added \<Longrightarrow> t_userId t = v \<and> t_goalId t = field_value (ci_goalId dto) \<and> (\<exists>n \<ge> 0. t_id t = mo_rowId w n)"
      and check: "check_goal d (ci_goalId dto) v = Inr ()"
      using confirm_import_adds [OF _ fresh(1) assms(3)] by metis
    show ?thesis
      unfolding d'
    proof (rule transactions_only_own [OF assms(1)])
      show "filter (\<lambda>t. t_userId t \<noteq> v) (transactions d @ added) = filter (\<lambda>t. t_userId t \<noteq> v) (transactions d)"
        using added by (simp add: filter_empty_conv)
      have "t_id x \<noteq> t_id t" if "t \<in> set added" "x \<in> set (transactions d)" for t x
        using added [OF that(1)] that(2) fresh(2) by (metis image_eqI)
      then show "distinct (map t_id (transactions d @ added))"
        using ids db_ownedD(3) [OF assms(1)] by auto
      fix t i
      assume t: "t \<in> set (transactions d @ added)" "t_userId t = v" "t_goalId t = Some i"
      show "(i, v) \<in> goal_keys d"
      proof (cases "t \<in> set (transactions d)")
        case True
        with t own_goal_linked [OF assms(1)] show ?thesis by blast
      next
        case False
        with t added have "ci_goalId dto = Value i" by (cases "ci_goalId dto") auto
        with assms(3) show ?thesis
          by (intro checked_goal_owned [OF check]) (auto simp: or_null_def truthy_def valid_confirm_import_def)
      qed
    qed
  qed
  with Pair show ?thesis by simp
qed

section \<open>Preferences and consents\<close>

lemma other_table_owned:
  assumes "db_owned d"
  shows "db_owned (d\<lparr>alertPreferences := ps\<rparr>)" and "db_owned (d\<lparr>consentPreferences := cs, consentRecords := rs\<rparr>)"
proof -
  have "links_owned (d\<lparr>alertPreferences := ps\<rparr>) = links_owned d"
    "links_owned (d\<lparr>consentPreferences := cs, consentRecords := rs\<rparr>) = links_owned d"
    by (simp_all add: links_owned_def cong: option.case_cong)
  moreover have "events_owned (d\<lparr>alertPreferences := ps\<rparr>) = events_owned d"
    "events_owned (d\<lparr>consentPreferences := cs, consentRecords := rs\<rparr>) = events_owned d"
    by (rule events_owned_same; simp add: user_keys_def)+
  ultimately show "db_owned (d\<lparr>alertPreferences := ps\<rparr>)" "db_owned (d\<lparr>consentPreferences := cs, consentRecords := rs\<rparr>)"
    using assms by (simp_all add: db_owned_def ids_unique_def)
qed

lemma patch_preferences_only_own:
  assumes "db_owned d"
  shows "only_own v d (snd (patch_preferences z now d v dto))"
proof -
  have keep: "ap_userId (apply_preferences body now p) = ap_userId p" for body p
    by (simp add: apply_preferences_def)
  have step: "only_own v d (d\<lparr>alertPreferences := ps\<rparr>)"
    if "\<And>u. u \<noteq> v \<Longrightarrow> filter (\<lambda>p. ap_userId p = u) ps = filter (\<lambda>p. ap_userId p = u) (alertPreferences d)" for ps
    using other_table_owned(1) [OF assms, of ps] that by (simp add: only_own_def own_part_def)
  have "only_own v d (d\<lparr>alertPreferences := update_many (\<lambda>p. ap_userId p = v) (apply_preferences body now) (alertPreferences d)\<rparr>)" for body
    by (rule step) (rule filter_owner_update, simp add: keep)
  moreover have "only_own v d (d\<lparr>alertPreferences := create_row (apply_preferences body now (default_preference_row v now)) (alertPreferences d)\<rparr>)" for body
    by (rule step) (rule filter_owner_create, simp add: keep default_preference_row_def)
  ultimately show ?thesis
    using assms by (simp add: patch_preferences_def updatePreferences_def Let_def split: option.split)
qed

lemma update_consents_only_own:
  assumes "db_owned d"
  shows "only_own v d (snd (updateConsents now d v dto))"
proof -
  have "filter (\<lambda>p. cp_userId p = u) (upsert_consents now d v dto) = filter (\<lambda>p. cp_userId p = u) (consentPreferences d)" if "u \<noteq> v" for u
  proof (cases "consent_preference d v = None")
    case True
    with that show ?thesis by (simp add: upsert_consents_def create_row_def Let_def)
  next
    case False
    with that show ?thesis unfolding upsert_consents_def Let_def if_not_P [OF False] by (intro filter_owner_update) simp
  qed
  moreover have "filter (\<lambda>r. cr_userId r = u) (consent_changes now d v dto) = []" if "u \<noteq> v" for u
    using that by (auto simp: filter_empty_conv consent_changes_def split: option.splits if_splits)
  ultimately have "only_own v d (d\<lparr>consentPreferences := upsert_consents now d v dto, consentRecords := consentRecords d @ consent_changes now d v dto\<rparr>)"
    using other_table_owned(2) [OF assms] by (simp add: only_own_def own_part_def)
  then show ?thesis
    using assms by (simp add: updateConsents_def Let_def)
qed

lemma update_profile_only_own:
  assumes "db_owned d"
  shows "only_own v d (snd (updateProfile now d v dto))"
proof -
  have "only_own v d (d\<lparr>users := update_many (\<lambda>u. u_id u = v) (\<lambda>u. u\<lparr>u_displayName := name, u_updatedAt := now\<rparr>) (users d)\<rparr>)"
    (is "only_own v d ?d") for name
  proof -
    let ?rename = "\<lambda>u. u\<lparr>u_displayName := name, u_updatedAt := now\<rparr>"
    have ids: "map u_id (users ?d) = map u_id (users d)" "map u_phone (users ?d) = map u_phone (users d)"
      by (simp_all add: map_update_many)
    have keys: "(\<lambda>r. (u_id r, u_phone r)) ` set (update_many (\<lambda>u. u_id u = v) ?rename (users d)) = (\<lambda>r. (u_id r, u_phone r)) ` set (users d)"
      unfolding set_map [symmetric] by (subst map_update_many) simp_all
    have "ids_unique ?d" using assms unfolding ids_unique_def db_owned_def ids by simp
    moreover have "links_owned ?d" by (rule links_owned_mono [of d]) (use assms in \<open>simp_all add: db_owned_def\<close>)
    moreover have "events_owned ?d"
      using assms events_owned_same [of ?d d] by (simp add: db_owned_def user_keys_def keys)
    moreover have "own_part u ?d = own_part u d" if "u \<noteq> v" for u
    proof -
      have "find_user ?d u = find_user d u"
        using that unfolding find_user_def
        by (simp add: find_first_update) (auto dest!: find_first_Some intro!: option.map_ident_strong)
      then show ?thesis using that by (simp add: own_part_def own_history_def filter_owner_update split: option.split)
    qed
    ultimately show ?thesis by (simp add: only_own_def db_owned_def)
  qed
  with assms show ?thesis by (simp add: updateProfile_def Let_def)
qed

section \<open>The deletion\<close>

text \<open>The jobs of a deletion are the user's own or nobody's.\<close>

lemma legacy_jobs:
  assumes "distinct (map j_id (jobs d))" and "j \<in> set (jobs d)" and "j_id j \<in> set (fst (beginAccountDeletion c d v phone m))"
  shows "j_userId j = Some v \<or> j_userId j = None"
proof -
  from assms(3) obtain k where "k \<in> set (jobs d)" "j_userId k = Some v \<or> j_userId k = None" "j_id k = j_id j"
    by (auto simp: beginAccountDeletion_def find_many_def Let_def)
  with row_by_id [OF assms(1), of k j] assms(2) show ?thesis by simp
qed

text \<open>Under the rules a deletion only deletes: nothing of others refers to what goes.\<close>

lemma erased_tables:
  assumes "erase_account ids d v phone = Inr d'" and "db_owned d"
  shows "authEvents d' = delete_many (own_event v phone) (authEvents d)"
    and "transactions d' = delete_many (\<lambda>t. t_userId t = v) (transactions d)"
    and "alertStates d' = delete_many (\<lambda>s. as_userId s = v) (alertStates d)"
proof -
  have own: "g_userId h = x" if "(i, x) \<in> goal_keys d" "h \<in> set (goals d)" "g_id h = i" for i x h
  proof -
    from that(1) obtain g where g: "g \<in> set (goals d)" "g_id g = i" "g_userId g = x" by (auto simp: goal_keys_def)
    with that(2,3) have "g = h" by (intro row_by_id [OF goals_okD(1) [OF db_ownedD(1) [OF assms(2)]]]) simp_all
    with g(3) show ?thesis by simp
  qed
  have code: "ae_userId e = Some (oc_userId c)" if "e \<in> set (authEvents d)" "c \<in> set (otpCodes d)" "ae_otpCodeId e = Some (oc_id c)" for e c
    using assms(2) that by (fastforce simp: db_owned_def events_owned_def list_all_iff)
  show "authEvents d' = delete_many (own_event v phone) (authEvents d)"
    unfolding erase_account_Inr(2) [OF assms(1)]
    by (rule update_many_none) (auto simp: set_delete_many own_event_def dest: code split: option.splits)
  show "transactions d' = delete_many (\<lambda>t. t_userId t = v) (transactions d)"
    unfolding erase_account_Inr(4) [OF assms(1)]
    by (rule update_many_none) (auto simp: set_delete_many dest!: own_goal_linked [OF assms(2)] dest: own split: option.splits)
  have state: "(as_goalId s, as_userId s) \<in> goal_keys d" if "s \<in> set (alertStates d)" for s
    using assms(2) that by (simp add: db_owned_def links_owned_def list_all_iff)
  show "alertStates d' = delete_many (\<lambda>s. as_userId s = v) (alertStates d)"
    unfolding erase_account_Inr(5) [OF assms(1)]
    by (rule delete_many_none) (auto simp: set_delete_many dest!: state dest: own)
qed

text \<open>The history of everybody else stays: neither the id nor the number is another user's.\<close>

lemma erased_history:
  assumes "authEvents d' = delete_many (own_event v (u_phone user)) (authEvents d)"
    and "users d' = delete_many (\<lambda>r. u_id r = v) (users d)" and "find_user d v = Some user"
    and "ids_unique d" and "events_owned d" and "u \<noteq> v"
  shows "own_history u d' = own_history u d"
proof -
  have same: "find_user d' u = find_user d u"
    using assms(6) unfolding find_user_def assms(2) delete_many_def by (intro find_first_filter) auto
  show ?thesis
  proof (cases "find_user d u")
    case (Some r)
    have r: "r \<in> set (users d)" "u_id r = u" and user: "user \<in> set (users d)" "u_id user = v"
      using find_first_Some Some assms(3) unfolding find_user_def by fast+
    have phones: "u_phone r \<noteq> u_phone user"
      using row_by_id [of u_phone "users d" r user] r user assms(4,6) by (auto simp: ids_unique_def)
    have known: "ae_phone e = u_phone x" if "e \<in> set (authEvents d)" "ae_userId e = Some (u_id x)" "x \<in> set (users d)" for e x
    proof -
      from assms(5) that(1,2) have "(u_id x, ae_phone e) \<in> user_keys d" by (fastforce simp: events_owned_def list_all_iff)
      then obtain y where "y \<in> set (users d)" "u_id y = u_id x" "u_phone y = ae_phone e" by (auto simp: user_keys_def)
      with row_by_id [of u_id "users d" y x] that(3) assms(4) show ?thesis by (simp add: ids_unique_def)
    qed
    have "\<not> own_event v (u_phone user) e" if "e \<in> set (authEvents d)" "own_event u (u_phone r) e" for e
      using that known [of e r] known [of e user] r user phones assms(6) by (auto simp: own_event_def)
    then show ?thesis
      by (simp add: own_history_def same Some assms(1) delete_many_def) (intro filter_cong; auto)
  qed (simp add: own_history_def same)
qed

lemma delete_account_only_own:
  assumes "db_owned d" and "deleteAccount c now m d v = (r, m', d')"
  shows "only_own v d d'"
proof (cases "d' = d")
  case False
  with assms(2) obtain user ids where user: "find_user d v = Some user" and ids: "ids = fst (beginAccountDeletion c d v (u_phone user) m)"
    and e: "erase_account ids d v (u_phone user) = Inr d'"
    by (auto simp: deleteAccount_def split: option.splits prod.splits sum.splits)
  note tables = erased_tables [OF e assms(1)] erase_account_Inr(1,3,6-11) [OF e]
  have unique: "ids_unique d" and links: "links_owned d" and events: "events_owned d" using assms(1) by (simp_all add: db_owned_def)
  have "goals_ok (goals d')"
    using unique by (auto simp: tables ids_unique_def goals_ok_def delete_many_def distinct_map_filter)
  then have "ids_unique d'"
    using unique by (auto simp: tables ids_unique_def delete_many_def distinct_map_filter)
  moreover have "links_owned d'"
    using links by (fastforce simp: tables links_owned_def goal_keys_def list_all_iff delete_many_def split: option.splits)
  moreover have "events_owned d'"
    using events by (fastforce simp: tables events_owned_def user_keys_def own_event_def list_all_iff delete_many_def split: option.splits)
  moreover have "own_part u d' = own_part u d" if u: "u \<noteq> v" for u
  proof -
    have "own_history u d' = own_history u d" using u unique events user by (intro erased_history [OF tables(1)]) (simp_all add: tables)
    moreover have "filter (\<lambda>j. j_userId j = Some u) (jobs d') = filter (\<lambda>j. j_userId j = Some u) (jobs d)"
      unfolding tables
    proof (rule filter_owner_delete)
      fix j
      assume "j \<in> set (jobs d)" and "j_userId j = Some v \<or> j_id j \<in> set ids"
      with legacy_jobs [of d j c v "u_phone user" m] unique have "j_userId j = Some v \<or> j_userId j = None"
        by (auto simp: ids_unique_def ids)
      with u show "j_userId j \<noteq> Some u" by auto
    qed
    ultimately show ?thesis using u by (simp add: own_part_def tables filter_owner_delete)
  qed
  ultimately show ?thesis by (simp add: only_own_def db_owned_def)
qed (use assms(1) in simp)

section \<open>Any call\<close>

lemmas handlers_only_own =
  create_goal_only_own update_goal_only_own end_goal_only_own
  create_transaction_only_own update_transaction_only_own remove_transaction_only_own confirm_import_only_own
  patch_preferences_only_own update_profile_only_own update_consents_only_own

lemma controllers_only_own:
  assumes "db_owned d" and "fresh_moment w d"
  shows "only_own v d (snd (goals_controller e w v g d))"
    and "valid_transactions e t \<Longrightarrow> only_own v d (snd (transactions_controller e w v t d))"
    and "only_own v d (snd (alerts_controller e w v p d))"
    and "only_own v d (snd (snd (account_controller e w v k m d)))"
proof -
  show "only_own v d (snd (goals_controller e w v g d))"
    using assms by (cases g) (simp_all add: respond_def handlers_only_own)
  show "only_own v d (snd (transactions_controller e w v t d))" if "valid_transactions e t"
    using assms that by (cases t) (simp_all add: respond_def handlers_only_own)
  show "only_own v d (snd (alerts_controller e w v p d))"
    using assms by (cases p) (simp_all add: respond_def handlers_only_own)
  show "only_own v d (snd (snd (account_controller e w v k m d)))"
  proof (cases k)
    case (RemoveAccount confirmation)
    obtain r m' d' where "deleteAccount (en_crypto e) (mo_now w) m d v = (r, m', d')" by (metis prod.collapse)
    with RemoveAccount delete_account_only_own [OF assms(1) this] show ?thesis by (simp add: respond_def)
  next
    case (PatchProfile dto)
    with update_profile_only_own [OF assms(1), of v "mo_now w" dto] show ?thesis by (auto simp: respond_def split: prod.splits)
  next
    case (PutConsents dto)
    with update_consents_only_own [OF assms(1), of v "mo_now w" dto] show ?thesis by (auto simp: respond_def split: prod.splits)
  qed (use assms in \<open>simp_all add: respond_def\<close>)
qed

lemma handle_only_own:
  assumes "db_owned d" and "fresh_moment w d" and "valid_route e call" and "handle e w v call m d = (r, m', d')"
  shows "only_own v d d'"
  using assms(3,4) controllers_only_own [OF assms(1,2)] assms(1)
  by (cases call) (auto simp: controller_defs dest!: arg_cong [of "account_controller _ _ _ _ _ _" _ "\<lambda>x. snd (snd x)"])

lemma request_only_own:
  assumes "db_owned d" and "fresh_moment w d" and "api_request e w a call m d = (r, m', d')"
  shows "db_owned d'" and "(\<And>user. jwt_canActivate (en_auth e) a = Inr user \<Longrightarrow> ju_userId user \<noteq> u) \<Longrightarrow> own_part u d' = own_part u d"
proof -
  consider "d' = d"
    | user where "jwt_canActivate (en_auth e) a = Inr user" "valid_route e call" "handle e w (ju_userId user) call m d = (r, m', d')"
    using assms(3) by (auto simp: api_request_def pass_guards_def split: sum.splits if_splits)
  then have "db_owned d' \<and> ((\<forall>user. jwt_canActivate (en_auth e) a = Inr user \<longrightarrow> ju_userId user \<noteq> u) \<longrightarrow> own_part u d' = own_part u d)"
  proof cases
    case 2
    from handle_only_own [OF assms(1,2) 2(2,3)] 2(1) show ?thesis by (auto simp: only_own_def)
  qed (use assms(1) in simp)
  then show "db_owned d'" and "(\<And>user. jwt_canActivate (en_auth e) a = Inr user \<Longrightarrow> ju_userId user \<noteq> u) \<Longrightarrow> own_part u d' = own_part u d"
    by blast+
qed

section \<open>What a user reads\<close>

lemma own_part_reads:
  shows "list_goals (own_part u d) u = list_goals d u" and "getActive (own_part u d) u = getActive d u"
    and "list_transactions new_date (own_part u d) u query = list_transactions new_date d u query"
    and "previewImport lower sha256 (own_part u d) u dto = previewImport lower sha256 d u dto"
    and "getStability (own_part u d) u now = getStability d u now"
    and "getPreferences (own_part u d) u = getPreferences d u"
    and "getAccount (own_part u d) u = getAccount d u"
    and "exportData now (own_part u d) u = exportData now d u"
proof -
  have user: "find_user (own_part u d) u = find_user d u" and consent: "consent_preference (own_part u d) u = consent_preference d u"
    by (simp_all add: find_user_def consent_preference_def own_part_def find_first_filter)
  show "list_goals (own_part u d) u = list_goals d u" by (simp add: list_goals_def own_part_def find_many_def)
  show "getActive (own_part u d) u = getActive d u"
    unfolding getActive_def own_part_def by simp (subst find_first_by_filter; simp)
  show "list_transactions new_date (own_part u d) u query = list_transactions new_date d u query"
    by (simp add: list_transactions_def own_part_def find_many_by_def find_many_filter split: sum.split)
  have "ensureGoalBelongsToUser (own_part u d) i u = ensureGoalBelongsToUser d i u" for i
    unfolding ensureGoalBelongsToUser_def own_part_def by simp (subst find_first_filter; simp)
  then have "check_goal (own_part u d) f u = check_goal d f u" for f
    by (simp add: check_goal_def split: option.split)
  moreover have "find_many (\<lambda>t. t_userId t = u \<and> P t) (transactions (own_part u d)) = find_many (\<lambda>t. t_userId t = u \<and> P t) (transactions d)" for P
    unfolding find_many_def own_part_def by simp
  ultimately show "previewImport lower sha256 (own_part u d) u dto = previewImport lower sha256 d u dto"
    unfolding previewImport_def by (simp only:)
  show "getStability (own_part u d) u now = getStability d u now"
  proof -
    have "active_goal (own_part u d) u = active_goal d u"
      unfolding active_goal_def own_part_def by simp (subst find_first_by_filter; simp)
    moreover have "find_many (\<lambda>t. t_userId t = u) (transactions (own_part u d)) = find_many (\<lambda>t. t_userId t = u) (transactions d)"
      by (simp add: own_part_def find_many_def)
    ultimately show ?thesis unfolding getStability_def by (simp only:)
  qed
  show "getPreferences (own_part u d) u = getPreferences d u"
    by (simp add: getPreferences_def preference_of_def own_part_def find_first_filter)
  show "getAccount (own_part u d) u = getAccount d u"
    unfolding getAccount_def user consent ..
  show "exportData now (own_part u d) u = exportData now d u"
    unfolding exportData_def user consent
    by (simp add: own_part_def own_history_def find_many_by_def find_first_filter find_many_filter split: option.split)
qed

text \<open>
  A run of requests none of which carries a token of \<open>u\<close>: other users, operators, requests without
  a valid token. The memory of the queue may change in between.
\<close>

definition foreign_token :: "api_env \<Rightarrow> jstring \<Rightarrow> jstring option \<Rightarrow> bool" where
  "foreign_token e u a \<longleftrightarrow> (case jwt_canActivate (en_auth e) a of Inl _ \<Rightarrow> True | Inr user \<Rightarrow> ju_userId user \<noteq> u)"

inductive others_requests :: "api_env \<Rightarrow> jstring \<Rightarrow> db \<Rightarrow> db \<Rightarrow> bool" for e u d0 where
  no_request: "others_requests e u d0 d0"
| one_more: "others_requests e u d0 d \<Longrightarrow> fresh_moment w d \<Longrightarrow> foreign_token e u a
    \<Longrightarrow> api_request e w a call m d = (r, m', d') \<Longrightarrow> others_requests e u d0 d'"

lemma others_requests_keep:
  "others_requests e u d0 d \<Longrightarrow> db_owned d0 \<Longrightarrow> db_owned d \<and> own_part u d = own_part u d0"
proof (induction rule: others_requests.induct)
  case (one_more d w a call m r m' d')
  then have d: "db_owned d" "own_part u d = own_part u d0" by simp_all
  have "own_part u d' = own_part u d"
    using one_more.hyps(3) by (intro request_only_own(2) [OF d(1) one_more.hyps(2,4)]) (simp add: foreign_token_def)
  with d request_only_own(1) [OF d(1) one_more.hyps(2,4)] show ?case by simp
qed simp

text \<open>An answer to a request of \<open>u\<close> comes from the rows of \<open>u\<close>.\<close>

lemma reading_own_part:
  assumes "jwt_canActivate (en_auth e) a = Inr user" and "own_reading call"
  shows "fst (api_request e w a call m d) = fst (api_request e w a call m' (own_part (ju_userId user) d))"
  using assms
  by (cases call) (auto simp: api_request_def pass_guards_def controller_defs own_part_reads split: transactions_route.splits)


section \<open>A concrete run\<close>

definition sample_api :: api_env where
  "sample_api = \<lparr>en_auth = sample_auth, en_crypto = sample_crypto, en_sms = sample_sms,
     en_zones = \<lparr>tz_valid = (\<lambda>_. True), tz_offset = (\<lambda>_ _. 0)\<rparr>, en_newDate = (\<lambda>_. Some 0), en_isDateString = (\<lambda>_. True)\<rparr>"

definition sample_moment :: api_moment where
  "sample_moment = \<lparr>mo_now = 1, mo_later = 2, mo_id = js ''new'', mo_rowId = (\<lambda>n. replicate (nat n + 9) 0)\<rparr>"

definition sample_transfer :: "string \<Rightarrow> string \<Rightarrow> transaction_row" where
  "sample_transfer i u = \<lparr>t_id = js i, t_userId = js u, t_goalId = None, t_amountKobo = 5, t_direction = js ''in'',
     t_occurredAt = 0, t_note = None, t_importFingerprint = None, t_createdAt = 0\<rparr>"

definition shared_db :: db where
  "shared_db = empty_db\<lparr>transactions := [sample_transfer ''t1'' ''ada'', sample_transfer ''t2'' ''bob'']\<rparr>"

definition after_removal :: "string \<Rightarrow> string \<Rightarrow> db \<Rightarrow> db" where
  "after_removal u i d = snd (snd (api_request sample_api sample_moment (Some (js (''Bearer '' @ u))) (TransactionsRoute (RemoveTransaction (js i))) empty_memory d))"

lemma sample_bearer: "jwt_canActivate sample_auth (Some (js (''Bearer '' @ u))) =
    (if u = [] then Inl (Unauthorized ''Invalid token payload'') else Inr \<lparr>ju_userId = js u, ju_phone = js u\<rparr>)"
proof -
  have bearer: "bearer_token (Some (js (''Bearer '' @ u))) = Some (js u)"
    by (simp add: bearer_token_def truthy_def bearer_prefix_def js_def)
  show ?thesis unfolding jwt_canActivate_def bearer by (simp add: sample_auth_def truthy_def)
qed

lemma sample_removals:
  "after_removal ''bob'' ''t1'' shared_db = shared_db"
  "after_removal ''bob'' ''t2'' shared_db = shared_db\<lparr>transactions := [sample_transfer ''t1'' ''ada'']\<rparr>"
proof -
  have guards: "pass_guards sample_api (Some (js (''Bearer '' @ ''bob''))) (TransactionsRoute (RemoveTransaction i)) = Inr \<lparr>ju_userId = js ''bob'', ju_phone = js ''bob''\<rparr>" for i
    unfolding pass_guards_def sample_api_def by (simp add: sample_bearer del: append.simps)
  show "after_removal ''bob'' ''t1'' shared_db = shared_db"
    "after_removal ''bob'' ''t2'' shared_db = shared_db\<lparr>transactions := [sample_transfer ''t1'' ''ada'']\<rparr>"
    unfolding after_removal_def api_request_def guards
    by (simp_all add: controller_defs remove_transaction_def ensureTransactionBelongsToUser_def shared_db_def sample_transfer_def
        find_first_def delete_many_def)
qed


end
