(* ===== verification/Token_Store.thy ===== *)
theory Token_Store
  imports Js_Text
begin

text \<open>
  Where the mobile app keeps the tokens of a session, \<open>mobile/src/lib/token-store.ts\<close>: a mirror
  in memory, the secure store of the device, and, where that is missing or fails, the browser's
  local storage or a map. A call of the secure store succeeds or fails; which of the two is an
  argument \<open>ok\<close> of the operation that makes it.
\<close>

section \<open>The stores\<close>

text \<open>\<open>globalThis.localStorage\<close>: absent, throwing, or there.\<close>

datatype local_storage = NoLocalStorage | BlockedLocalStorage | LocalStorage "jstring \<Rightarrow> jstring option"

record device_store =
  has_secure :: bool \<comment> \<open>\<open>hasSecureStore()\<close>\<close>
  secure_items :: "jstring \<Rightarrow> jstring option"
  local_items :: local_storage
  memory_items :: "jstring \<Rightarrow> jstring option" \<comment> \<open>\<open>memoryStore\<close>\<close>

definition ACCESS_TOKEN_KEY :: jstring where "ACCESS_TOKEN_KEY = js ''stead.jwt''"
definition REFRESH_TOKEN_KEY :: jstring where "REFRESH_TOKEN_KEY = js ''stead.refresh''"

definition getFallback :: "jstring \<Rightarrow> device_store \<Rightarrow> jstring option" where
  "getFallback key s = (case local_items s of
      NoLocalStorage \<Rightarrow> None | LocalStorage m \<Rightarrow> m key | BlockedLocalStorage \<Rightarrow> memory_items s key)"

text \<open>Without local storage the optional call does nothing, and the function returns.\<close>

definition setFallback :: "jstring \<Rightarrow> jstring \<Rightarrow> device_store \<Rightarrow> device_store" where
  "setFallback key value s = (case local_items s of
      NoLocalStorage \<Rightarrow> s
    | LocalStorage m \<Rightarrow> s\<lparr>local_items := LocalStorage (m(key \<mapsto> value))\<rparr>
    | BlockedLocalStorage \<Rightarrow> s\<lparr>memory_items := (memory_items s)(key \<mapsto> value)\<rparr>)"

definition clearFallback :: "jstring \<Rightarrow> device_store \<Rightarrow> device_store" where
  "clearFallback key s = (case local_items s of
      NoLocalStorage \<Rightarrow> s
    | LocalStorage m \<Rightarrow> s\<lparr>local_items := LocalStorage (m(key := None))\<rparr>
    | BlockedLocalStorage \<Rightarrow> s\<lparr>memory_items := (memory_items s)(key := None)\<rparr>)"

definition readValue :: "bool \<Rightarrow> jstring \<Rightarrow> device_store \<Rightarrow> jstring option" where
  "readValue ok key s =
     (if \<not> has_secure s then getFallback key s else if ok then secure_items s key else getFallback key s)"

definition writeValue :: "bool \<Rightarrow> jstring \<Rightarrow> jstring \<Rightarrow> device_store \<Rightarrow> device_store" where
  "writeValue ok key value s =
     (if \<not> has_secure s then setFallback key value s
      else if ok then s\<lparr>secure_items := (secure_items s)(key \<mapsto> value)\<rparr> else setFallback key value s)"

definition deleteValue :: "bool \<Rightarrow> jstring \<Rightarrow> device_store \<Rightarrow> device_store" where
  "deleteValue ok key s =
     (if \<not> has_secure s then clearFallback key s
      else if ok then s\<lparr>secure_items := (secure_items s)(key := None)\<rparr> else clearFallback key s)"

lemmas store_defs = readValue_def writeValue_def deleteValue_def getFallback_def setFallback_def clearFallback_def

section \<open>The tokens of a session\<close>

record session_tokens =
  ss_token :: jstring
  ss_refreshToken :: jstring

text \<open>\<open>sessionMemory\<close>\<close>

record session_memory =
  sm_accessToken :: "jstring option"
  sm_refreshToken :: "jstring option"

definition no_session :: session_memory where
  "no_session = \<lparr>sm_accessToken = None, sm_refreshToken = None\<rparr>"

definition remember :: "session_tokens \<Rightarrow> session_memory" where
  "remember s = \<lparr>sm_accessToken = Some (ss_token s), sm_refreshToken = Some (ss_refreshToken s)\<rparr>"

definition getToken :: "bool \<Rightarrow> session_memory \<Rightarrow> device_store \<Rightarrow> jstring option" where
  "getToken ok m s = (case sm_accessToken m of Some t \<Rightarrow> Some t | None \<Rightarrow> readValue ok ACCESS_TOKEN_KEY s)"

definition setToken :: "bool \<Rightarrow> jstring \<Rightarrow> session_memory \<Rightarrow> device_store \<Rightarrow> session_memory \<times> device_store" where
  "setToken ok token m s = (m\<lparr>sm_accessToken := Some token\<rparr>, writeValue ok ACCESS_TOKEN_KEY token s)"

definition getRefreshToken :: "bool \<Rightarrow> session_memory \<Rightarrow> device_store \<Rightarrow> jstring option" where
  "getRefreshToken ok m s = (case sm_refreshToken m of Some t \<Rightarrow> Some t | None \<Rightarrow> readValue ok REFRESH_TOKEN_KEY s)"

definition setRefreshToken :: "bool \<Rightarrow> jstring \<Rightarrow> session_memory \<Rightarrow> device_store \<Rightarrow> session_memory \<times> device_store" where
  "setRefreshToken ok token m s = (m\<lparr>sm_refreshToken := Some token\<rparr>, writeValue ok REFRESH_TOKEN_KEY token s)"

text \<open>\<open>setSession\<close> and \<open>clearToken\<close> as a whole; their parts interleave with other calls in
  the theory of the session.\<close>

definition setSession :: "bool \<Rightarrow> session_tokens \<Rightarrow> session_memory \<times> device_store \<Rightarrow> session_memory \<times> device_store" where
  "setSession ok t ms = (remember t,
     writeValue ok REFRESH_TOKEN_KEY (ss_refreshToken t) (writeValue ok ACCESS_TOKEN_KEY (ss_token t) (snd ms)))"

definition clearToken :: "bool \<Rightarrow> session_memory \<times> device_store \<Rightarrow> session_memory \<times> device_store" where
  "clearToken ok ms = (no_session, deleteValue ok REFRESH_TOKEN_KEY (deleteValue ok ACCESS_TOKEN_KEY (snd ms)))"

section \<open>Interface: a store of values by key\<close>

text \<open>What the session relies on, as long as the secure store behaves the same in all calls.\<close>

locale value_store =
  fixes lookup :: "'k \<Rightarrow> 's \<Rightarrow> 'v option"
    and put :: "'k \<Rightarrow> 'v \<Rightarrow> 's \<Rightarrow> 's"
    and remove :: "'k \<Rightarrow> 's \<Rightarrow> 's"
  assumes lookup_put: "lookup k (put k' v s) \<in> (if k = k' then {Some v, None} else {lookup k s})"
    and lookup_remove: "lookup k (remove k' s) = (if k = k' then None else lookup k s)"
begin

lemma removed_stays: "lookup k s = None \<Longrightarrow> lookup k (remove k' s) = None"
  by (simp add: lookup_remove)

lemma put_other: "k \<noteq> k' \<Longrightarrow> lookup k (put k' v s) = lookup k s"
  using lookup_put [of k k' v s] by simp

lemma remove_both: "lookup k (remove k (remove k' s)) = None \<and> lookup k' (remove k (remove k' s)) = None"
  by (simp add: lookup_remove)

end

interpretation device: value_store "readValue ok" "writeValue ok" "deleteValue ok"
  by unfold_locales (auto simp: store_defs split: local_storage.splits)

text \<open>What was written is read, unless there is neither a secure store that works nor local storage.\<close>

lemma session_roundtrip:
  assumes "has_secure s \<and> ok \<or> local_items s \<noteq> NoLocalStorage"
  shows "getToken ok no_session (snd (setSession ok t (m, s))) = Some (ss_token t)
       \<and> getRefreshToken ok no_session (snd (setSession ok t (m, s))) = Some (ss_refreshToken t)"
  using assms by (auto simp: getToken_def getRefreshToken_def setSession_def no_session_def store_defs
      ACCESS_TOKEN_KEY_def REFRESH_TOKEN_KEY_def split: local_storage.splits)

text \<open>A token that was written while the secure store failed is not deleted by a logout during
  which it works, and comes back when it fails again.\<close>

lemma deleted_token_comes_back:
  assumes "has_secure s" and "local_items s \<noteq> NoLocalStorage"
  shows "readValue False key (deleteValue True key (writeValue False key token s)) = Some token"
  using assms by (auto simp: store_defs split: local_storage.splits)

text \<open>Without local storage a token that the secure store refuses is dropped: the map meant for
  this is not used.\<close>

lemma fallback_dropped:
  assumes "local_items s = NoLocalStorage"
  shows "writeValue False key token s = s"
  using assms by (simp add: store_defs)

end
