(* ===== verification/Mobile_Session.thy ===== *)
theory Mobile_Session
  imports Token_Store
begin

text \<open>
  The session of the mobile app: the refresh of the access token in \<open>mobile/src/lib/api.ts\<close> and
  the provider \<open>mobile/src/lib/auth-state.tsx\<close>, which signs in, signs out and stores what a
  refresh brings. These are asynchronous functions on shared variables. A step below is what one
  of them does between two \<open>await\<close>s, or the moment a write to the store takes effect; steps of
  different calls come in any order.
\<close>

section \<open>The state\<close>

text \<open>Where a refresh stands. It remembers the epoch in which it began.\<close>

datatype refresh_point =
    ReadingToken "jstring option" \<comment> \<open>the refresh token found in memory, else the store is read\<close>
  | AwaitingResponse
  | WritingAccess session_tokens
  | WritingRefresh session_tokens
  | Written session_tokens
  | DroppingTokens session_tokens bool bool \<comment> \<open>which deletions are outstanding: access, refresh\<close>
  | Persisted session_tokens

record refresh_call =
  rf_id :: nat
  rf_epoch :: nat
  rf_point :: refresh_point

text \<open>Where a \<open>logout\<close> stands: reading its token, waiting for the refresh it found under way,
  deleting, revoking at the server, emptying the cache of queries, at its end.\<close>

datatype logout_point =
    LReading "jstring option" "nat option"
  | LWaiting "jstring option" "nat option"
  | LClearing "jstring option" bool bool
  | LRevoking "jstring option"
  | LEmptyingCache
  | LDone

record logout_call =
  lo_expired :: bool \<comment> \<open>\<open>options.reason === 'expired'\<close>\<close>
  lo_point :: logout_point

text \<open>Where a \<open>completeAuth\<close> stands.\<close>

datatype sign_in_point =
    CEmptyingCache session_tokens
  | CWritingAccess session_tokens
  | CWritingRefresh session_tokens
  | CWritten session_tokens
  | CDone

record app_session =
  refreshAllowed :: bool
  refreshEpoch :: nat
  refreshInFlight :: "refresh_call option"
  next_refresh :: nat
  sessionLive :: bool \<comment> \<open>\<open>sessionLiveRef.current\<close>\<close>
  sessionMemory :: session_memory
  stored :: device_store
  shown_token :: "jstring option" \<comment> \<open>\<open>token\<close> of the React state\<close>
  sessionExpired :: bool \<comment> \<open>\<open>sessionEndReason\<close>\<close>
  logouts :: "logout_call list"
  sign_ins :: "sign_in_point list"

section \<open>The refresh\<close>

text \<open>The guard that follows every \<open>await\<close> of the refresh.\<close>

definition still_wanted :: "refresh_call \<Rightarrow> app_session \<Rightarrow> bool" where
  "still_wanted r s \<longleftrightarrow> refreshAllowed s \<and> rf_epoch r = refreshEpoch s"

definition abandonInFlightRefresh :: "app_session \<Rightarrow> app_session" where
  "abandonInFlightRefresh s = s\<lparr>refreshEpoch := refreshEpoch s + 1, refreshAllowed := False\<rparr>"

definition allowTokenRefresh :: "app_session \<Rightarrow> app_session" where
  "allowTokenRefresh s = s\<lparr>refreshAllowed := True\<rparr>"

text \<open>The synchronous part of \<open>rotateAccessToken\<close>: nothing while refreshing is not allowed, one
  more caller waits for the refresh under way, else a refresh begins.\<close>

definition rotateAccessToken :: "app_session \<Rightarrow> app_session" where
  "rotateAccessToken s =
     (if \<not> refreshAllowed s then s
      else case refreshInFlight s of
             Some _ \<Rightarrow> s
           | None \<Rightarrow> s\<lparr>refreshInFlight := Some \<lparr>rf_id = next_refresh s, rf_epoch = refreshEpoch s,
                                rf_point = ReadingToken (sm_refreshToken (sessionMemory s))\<rparr>,
                       next_refresh := next_refresh s + 1\<rparr>)"

definition goes_on :: "refresh_call \<Rightarrow> refresh_point \<Rightarrow> app_session \<Rightarrow> app_session" where
  "goes_on r p s = s\<lparr>refreshInFlight := Some (r\<lparr>rf_point := p\<rparr>)\<rparr>"

definition ends :: "app_session \<Rightarrow> app_session" where
  "ends s = s\<lparr>refreshInFlight := None\<rparr>"

text \<open>\<open>persistSession\<close> of the provider, up to its first \<open>await\<close>.\<close>

definition persist_begins :: "refresh_call \<Rightarrow> session_tokens \<Rightarrow> app_session \<Rightarrow> app_session" where
  "persist_begins r t s =
     (if \<not> sessionLive s then goes_on r (Persisted t) s
      else goes_on r (WritingAccess t) (s\<lparr>sessionMemory := remember t\<rparr>))"

text \<open>One step of the refresh under way; \<open>response\<close> is what the server answers, none when the
  call fails or its answer is not a session, and \<open>first\<close> which of two deletions comes first.\<close>

fun refresh_step :: "bool \<Rightarrow> bool \<Rightarrow> session_tokens option \<Rightarrow> refresh_call \<Rightarrow> refresh_point \<Rightarrow> app_session \<Rightarrow> app_session" where
  "refresh_step ok first response r (ReadingToken found) s =
     (let token = (case found of Some t \<Rightarrow> Some t | None \<Rightarrow> readValue ok REFRESH_TOKEN_KEY (stored s))
      in if token = None \<or> token = Some [] \<or> \<not> still_wanted r s then ends s else goes_on r AwaitingResponse s)"
| "refresh_step ok first response r AwaitingResponse s =
     (case response of
        None \<Rightarrow> ends s
      | Some t \<Rightarrow> if still_wanted r s then persist_begins r t s else ends s)"
| "refresh_step ok first response r (WritingAccess t) s =
     goes_on r (WritingRefresh t) (s\<lparr>stored := writeValue ok ACCESS_TOKEN_KEY (ss_token t) (stored s)\<rparr>)"
| "refresh_step ok first response r (WritingRefresh t) s =
     goes_on r (Written t) (s\<lparr>stored := writeValue ok REFRESH_TOKEN_KEY (ss_refreshToken t) (stored s)\<rparr>)"
| "refresh_step ok first response r (Written t) s =
     (if \<not> sessionLive s then goes_on r (DroppingTokens t True True) (s\<lparr>sessionMemory := no_session\<rparr>)
      else goes_on r (Persisted t) (s\<lparr>shown_token := Some (ss_token t)\<rparr>))"
| "refresh_step ok first response r (DroppingTokens t a b) s =
     (if a \<and> (first \<or> \<not> b) then goes_on r (DroppingTokens t False b) (s\<lparr>stored := deleteValue ok ACCESS_TOKEN_KEY (stored s)\<rparr>)
      else if b then goes_on r (DroppingTokens t a False) (s\<lparr>stored := deleteValue ok REFRESH_TOKEN_KEY (stored s)\<rparr>)
      else goes_on r (Persisted t) s)"
| "refresh_step ok first response r (Persisted t) s = ends s"

text \<open>What the callers of a refresh that ends get: the new token, or none.\<close>

fun refresh_result :: "session_tokens option \<Rightarrow> refresh_call \<Rightarrow> app_session \<Rightarrow> jstring option" where
  "refresh_result response r s = (case rf_point r of
      Persisted t \<Rightarrow> if still_wanted r s then Some (ss_token t) else None
    | _ \<Rightarrow> None)"

section \<open>Signing out\<close>

definition clear_shown :: "bool \<Rightarrow> app_session \<Rightarrow> app_session" where
  "clear_shown expired s = s\<lparr>shown_token := None, sessionExpired := (expired \<or> sessionExpired s), sessionMemory := no_session\<rparr>"

definition logout_begins :: "bool \<Rightarrow> app_session \<Rightarrow> app_session" where
  "logout_begins expired s =
     (let s' = abandonInFlightRefresh (s\<lparr>sessionLive := False\<rparr>)
      in s'\<lparr>logouts := logouts s' @ [\<lparr>lo_expired = expired,
              lo_point = LReading (sm_refreshToken (sessionMemory s')) (map_option rf_id (refreshInFlight s'))\<rparr>]\<rparr>)"

definition awaited_ended :: "nat option \<Rightarrow> app_session \<Rightarrow> bool" where
  "awaited_ended awaited s \<longleftrightarrow> (case awaited of None \<Rightarrow> True | Some i \<Rightarrow> map_option rf_id (refreshInFlight s) \<noteq> Some i)"

text \<open>One step of a logout, as far as it can go; waiting leaves it where it is.\<close>

fun logout_step :: "bool \<Rightarrow> bool \<Rightarrow> bool \<Rightarrow> logout_point \<Rightarrow> app_session \<Rightarrow> logout_point \<times> app_session" where
  "logout_step ok first expired (LReading found awaited) s =
     (LWaiting (case found of Some t \<Rightarrow> Some t | None \<Rightarrow> readValue ok REFRESH_TOKEN_KEY (stored s)) awaited, s)"
| "logout_step ok first expired (LWaiting token awaited) s =
     (if awaited_ended awaited s then (LClearing token True True, clear_shown expired s) else (LWaiting token awaited, s))"
| "logout_step ok first expired (LClearing token a b) s =
     (if a \<and> (first \<or> \<not> b) then (LClearing token False b, s\<lparr>stored := deleteValue ok ACCESS_TOKEN_KEY (stored s)\<rparr>)
      else if b then (LClearing token a False, s\<lparr>stored := deleteValue ok REFRESH_TOKEN_KEY (stored s)\<rparr>)
      else (LRevoking token, s))"
| "logout_step ok first expired (LRevoking token) s = (LEmptyingCache, s)"
| "logout_step ok first expired LEmptyingCache s = (LDone, s)"
| "logout_step ok first expired LDone s = (LDone, s)"

definition logout_moves :: "bool \<Rightarrow> bool \<Rightarrow> nat \<Rightarrow> app_session \<Rightarrow> app_session" where
  "logout_moves ok first i s =
     (case logout_step ok first (lo_expired (logouts s ! i)) (lo_point (logouts s ! i)) s of
        (p, s') \<Rightarrow> s'\<lparr>logouts := (logouts s')[i := (logouts s' ! i)\<lparr>lo_point := p\<rparr>]\<rparr>)"

section \<open>Signing in\<close>

fun sign_in_step :: "bool \<Rightarrow> sign_in_point \<Rightarrow> app_session \<Rightarrow> sign_in_point \<times> app_session" where
  "sign_in_step ok (CEmptyingCache t) s = (CWritingAccess t, s\<lparr>sessionMemory := remember t\<rparr>)"
| "sign_in_step ok (CWritingAccess t) s = (CWritingRefresh t, s\<lparr>stored := writeValue ok ACCESS_TOKEN_KEY (ss_token t) (stored s)\<rparr>)"
| "sign_in_step ok (CWritingRefresh t) s = (CWritten t, s\<lparr>stored := writeValue ok REFRESH_TOKEN_KEY (ss_refreshToken t) (stored s)\<rparr>)"
| "sign_in_step ok (CWritten t) s =
     (CDone, allowTokenRefresh (s\<lparr>sessionLive := True, sessionExpired := False, shown_token := Some (ss_token t)\<rparr>))"
| "sign_in_step ok CDone s = (CDone, s)"

definition sign_in_begins :: "session_tokens \<Rightarrow> app_session \<Rightarrow> app_session" where
  "sign_in_begins t s = s\<lparr>sign_ins := sign_ins s @ [CEmptyingCache t]\<rparr>"

definition sign_in_moves :: "bool \<Rightarrow> nat \<Rightarrow> app_session \<Rightarrow> app_session" where
  "sign_in_moves ok i s = (case sign_in_step ok (sign_ins s ! i) s of (p, s') \<Rightarrow> s'\<lparr>sign_ins := (sign_ins s')[i := p]\<rparr>)"

section \<open>All interleavings\<close>

text \<open>Any request may ask for a refresh or end in a logout at any time.\<close>

inductive app_step :: "bool \<Rightarrow> app_session \<Rightarrow> app_session \<Rightarrow> bool" for ok where
  asks: "app_step ok s (rotateAccessToken s)"
| refreshes: "refreshInFlight s = Some r \<Longrightarrow> app_step ok s (refresh_step ok first response r (rf_point r) s)"
| logs_out: "app_step ok s (logout_begins expired s)"
| logout: "i < length (logouts s) \<Longrightarrow> app_step ok s (logout_moves ok first i s)"
| signs_in: "app_step ok s (sign_in_begins t s)"
| sign_in: "i < length (sign_ins s) \<Longrightarrow> app_step ok s (sign_in_moves ok i s)"

text \<open>No sign-in is under way, and none begins.\<close>

definition no_sign_in :: "app_session \<Rightarrow> bool" where
  "no_sign_in s \<longleftrightarrow> (\<forall>p \<in> set (sign_ins s). p = CDone)"

inductive quiet_step :: "bool \<Rightarrow> app_session \<Rightarrow> app_session \<Rightarrow> bool" for ok where
  "app_step ok s s' \<Longrightarrow> length (sign_ins s') = length (sign_ins s) \<Longrightarrow> quiet_step ok s s'"

section \<open>After a logout\<close>

definition nothing_kept :: "app_session \<Rightarrow> bool" where
  "nothing_kept s \<longleftrightarrow> refreshInFlight s = None \<and> sessionMemory s = no_session \<and> shown_token s = None"

definition nothing_stored :: "bool \<Rightarrow> bool \<Rightarrow> bool \<Rightarrow> app_session \<Rightarrow> bool" where
  "nothing_stored ok access refresh s \<longleftrightarrow> (access \<longrightarrow> readValue ok ACCESS_TOKEN_KEY (stored s) = None)
     \<and> (refresh \<longrightarrow> readValue ok REFRESH_TOKEN_KEY (stored s) = None)"

text \<open>What holds once a logout that found the refresh \<open>a\<close> under way has come to a point.\<close>

fun logout_promise :: "bool \<Rightarrow> nat option \<Rightarrow> logout_point \<Rightarrow> app_session \<Rightarrow> bool" where
  "logout_promise ok a (LReading found a') s = (a' = a)"
| "logout_promise ok a (LWaiting token a') s = (a' = a)"
| "logout_promise ok a (LClearing token x y) s = (nothing_kept s \<and> nothing_stored ok (\<not> x) (\<not> y) s)"
| "logout_promise ok a _ s = (nothing_kept s \<and> nothing_stored ok True True s)"

definition signing_out :: "bool \<Rightarrow> nat option \<Rightarrow> nat \<Rightarrow> app_session \<Rightarrow> bool" where
  "signing_out ok a i s \<longleftrightarrow> \<not> sessionLive s \<and> \<not> refreshAllowed s \<and> no_sign_in s \<and> i < length (logouts s)
     \<and> map_option rf_id (refreshInFlight s) \<in> {None, a} \<and> logout_promise ok a (lo_point (logouts s ! i)) s"

lemmas session_defs = goes_on_def ends_def persist_begins_def clear_shown_def

lemma refresh_step_frame:
  assumes "refresh_step ok first response r p s = s'"
  shows "sessionLive s' = sessionLive s" "refreshAllowed s' = refreshAllowed s" "sign_ins s' = sign_ins s" "logouts s' = logouts s"
    "map_option rf_id (refreshInFlight s') \<in> {None, Some (rf_id r)}"
  unfolding assms [symmetric] by (cases p; simp add: session_defs Let_def split: option.splits)+

text \<open>What the step of a logout does beside going on: nothing, forgetting, or one deletion.\<close>

lemma logout_step_effect:
  assumes "logout_step ok first expired p s = (p', s')"
  obtains "s' = s" | "s' = clear_shown expired s" | key where "s' = s\<lparr>stored := deleteValue ok key (stored s)\<rparr>"
  using assms by (cases p) (auto split: if_splits)

lemma logout_step_frame:
  assumes "logout_step ok first expired p s = (p', s')"
  shows "sessionLive s' = sessionLive s" "refreshAllowed s' = refreshAllowed s" "sign_ins s' = sign_ins s" "logouts s' = logouts s"
    "refreshInFlight s' = refreshInFlight s"
  using assms by (auto elim!: logout_step_effect simp: clear_shown_def)

lemma nothing_stored_delete:
  "nothing_stored ok x y s \<Longrightarrow> nothing_stored ok x y (s\<lparr>stored := deleteValue ok key (stored s)\<rparr>)"
  by (simp add: nothing_stored_def device.lookup_remove)

lemma logout_promise_step:
  assumes "logout_step ok first expired p s = (p', s')" and "logout_promise ok a q s"
  shows "logout_promise ok a q s'"
  using assms
  by (cases q) (auto elim!: logout_step_effect simp: nothing_kept_def clear_shown_def nothing_stored_delete, auto simp: nothing_stored_def)

lemma own_logout_step:
  assumes "logout_step ok first expired p s = (p', s')" and "logout_promise ok a p s"
    and "map_option rf_id (refreshInFlight s) \<in> {None, a}"
  shows "logout_promise ok a p' s'"
  using assms
  by (cases p) (auto simp: nothing_kept_def nothing_stored_def clear_shown_def awaited_ended_def device.lookup_remove split: if_splits option.splits)

lemma logout_promise_cong:
  assumes "refreshInFlight s' = refreshInFlight s" "sessionMemory s' = sessionMemory s" "shown_token s' = shown_token s" "stored s' = stored s"
  shows "logout_promise ok a q s' = logout_promise ok a q s"
  by (cases q) (simp_all add: nothing_kept_def nothing_stored_def assms)

lemma logout_promise_refresh:
  assumes "refreshInFlight s = Some r" and "logout_promise ok a q s"
  shows "logout_promise ok a q s'"
  using assms by (cases q) (simp_all add: nothing_kept_def)

lemma signing_out_logout:
  assumes "signing_out ok a i s" and "j < length (logouts s)"
  shows "signing_out ok a i (logout_moves ok first j s)"
proof -
  obtain p' s' where st: "logout_step ok first (lo_expired (logouts s ! j)) (lo_point (logouts s ! j)) s = (p', s')" by fastforce
  let ?t = "logout_moves ok first j s"
  have t: "?t = s'\<lparr>logouts := (logouts s)[j := (logouts s ! j)\<lparr>lo_point := p'\<rparr>]\<rparr>"
    by (simp add: logout_moves_def st logout_step_frame(4) [OF st])
  have "logout_promise ok a (lo_point (logouts ?t ! i)) s'"
  proof (cases "i = j")
    case True
    then show ?thesis using assms own_logout_step [OF st] by (simp add: signing_out_def t)
  next
    case False
    then show ?thesis using assms logout_promise_step [OF st] by (simp add: signing_out_def t)
  qed
  then have "logout_promise ok a (lo_point (logouts ?t ! i)) ?t"
    using logout_promise_cong [of ?t s' ok a] by (simp add: t)
  then show ?thesis using assms(1) logout_step_frame [OF st] by (simp add: signing_out_def no_sign_in_def t)
qed

lemma signing_out_step:
  assumes "quiet_step ok s s'" and "signing_out ok a i s"
  shows "signing_out ok a i s'"
proof -
  from assms(1) have st: "app_step ok s s'" and len: "length (sign_ins s') = length (sign_ins s)"
    by (auto elim: quiet_step.cases)
  from st show ?thesis
  proof cases
    case asks
    then show ?thesis using assms(2) by (simp add: signing_out_def rotateAccessToken_def)
  next
    case (refreshes r first response)
    have a: "a = Some (rf_id r)" using assms(2) refreshes by (auto simp: signing_out_def)
    note f = refresh_step_frame [OF refreshes(1) [symmetric]]
    show ?thesis
      using assms(2) f logout_promise_refresh [OF refreshes(2)] unfolding signing_out_def no_sign_in_def a by metis
  next
    case (logs_out expired)
    have "logout_promise ok a (lo_point (logouts s' ! i)) s'"
      using assms(2) logout_promise_cong [of s' s ok a] unfolding signing_out_def logs_out
      by (simp add: logout_begins_def abandonInFlightRefresh_def Let_def nth_append)
    then show ?thesis using assms(2) unfolding signing_out_def logs_out
      by (simp add: logout_begins_def abandonInFlightRefresh_def Let_def no_sign_in_def)
  next
    case (logout j first)
    then show ?thesis using signing_out_logout assms(2) by blast
  next
    case (signs_in t)
    then show ?thesis using len by (simp add: sign_in_begins_def)
  next
    case (sign_in j)
    then have "sign_ins s ! j = CDone" using assms(2) by (auto simp: signing_out_def no_sign_in_def)
    then have "s' = s" using sign_in by (simp add: sign_in_moves_def list_update_same_conv)
    then show ?thesis using assms(2) by simp
  qed
qed

text \<open>
  C17. A logout is final: once it has deleted the tokens, however refreshes, failing requests and
  other logouts interleave with it, no token is shown, in memory or stored, and no refresh is
  under way, as long as nobody signs in.
\<close>

theorem logout_is_final:
  assumes "no_sign_in s0" and "(quiet_step ok)\<^sup>*\<^sup>* (logout_begins expired s0) s"
    and "lo_point (logouts s ! length (logouts s0)) \<in> {LRevoking token, LEmptyingCache, LDone}"
  shows "getToken ok (sessionMemory s) (stored s) = None \<and> getRefreshToken ok (sessionMemory s) (stored s) = None
       \<and> shown_token s = None \<and> refreshInFlight s = None"
proof -
  let ?a = "map_option rf_id (refreshInFlight s0)"
  have "signing_out ok ?a (length (logouts s0)) (logout_begins expired s0)"
    using assms(1) by (simp add: signing_out_def logout_begins_def abandonInFlightRefresh_def Let_def no_sign_in_def)
  with assms(2) have "signing_out ok ?a (length (logouts s0)) s"
    by (induction rule: rtranclp_induct) (auto intro: signing_out_step)
  then show ?thesis
    using assms(3) by (auto simp: signing_out_def nothing_kept_def nothing_stored_def no_session_def getToken_def getRefreshToken_def)
qed

section \<open>A restart\<close>

text \<open>
  What the provider begins with, and what it shows once the stored token has been read. Until then
  no screen is mounted and no request is made.
\<close>

definition opened_session :: "device_store \<Rightarrow> app_session" where
  "opened_session st = \<lparr>refreshAllowed = True, refreshEpoch = 0, refreshInFlight = None, next_refresh = 0, sessionLive = True,
     sessionMemory = no_session, stored = st, shown_token = None, sessionExpired = False, logouts = [], sign_ins = []\<rparr>"

definition bootstrap :: "bool \<Rightarrow> app_session \<Rightarrow> app_session" where
  "bootstrap ok s = s\<lparr>shown_token := getToken ok (sessionMemory s) (stored s)\<rparr>"

text \<open>A restart after the deletions of a logout shows no token, one after a sign-in shows its token.\<close>

lemma restart_after_logout:
  assumes "nothing_stored ok True True s"
  shows "shown_token (bootstrap ok (opened_session (stored s))) = None"
  using assms by (simp add: bootstrap_def opened_session_def getToken_def no_session_def nothing_stored_def)

lemma restart_after_sign_in:
  assumes "has_secure (stored s) \<and> ok \<or> local_items (stored s) \<noteq> NoLocalStorage"
    and "sign_in_step ok (CWritingAccess t) s = (p1, s1)" and "sign_in_step ok p1 s1 = (p2, s2)" and "sign_in_step ok p2 s2 = (p3, s3)"
  shows "p3 = CDone" and "shown_token s3 = Some (ss_token t)"
    and "shown_token (bootstrap ok (opened_session (stored s3))) = shown_token s3"
proof -
  have s: "p3 = CDone" "shown_token s3 = Some (ss_token t)" "stored s3 = snd (setSession ok t (no_session, stored s))"
    using assms(2-4) by (auto simp: allowTokenRefresh_def setSession_def)
  show "p3 = CDone" "shown_token s3 = Some (ss_token t)" by (rule s)+
  show "shown_token (bootstrap ok (opened_session (stored s3))) = shown_token s3"
    using session_roundtrip [OF assms(1), of t no_session] by (simp add: s bootstrap_def opened_session_def)
qed

section \<open>A logout while a refresh waits for its answer\<close>

lemma logout_moves_frame: "length (logouts (logout_moves ok first i s)) = length (logouts s)" "sign_ins (logout_moves ok first i s) = sign_ins s"
proof -
  obtain p s' where st: "logout_step ok first (lo_expired (logouts s ! i)) (lo_point (logouts s ! i)) s = (p, s')" by fastforce
  show "length (logouts (logout_moves ok first i s)) = length (logouts s)" "sign_ins (logout_moves ok first i s) = sign_ins s"
    using logout_step_frame [OF st] by (simp_all add: logout_moves_def st)
qed

lemma logout_moves_quiet:
  assumes "i < length (logouts s)"
  shows "(quiet_step ok)\<^sup>*\<^sup>* s ((logout_moves ok first i ^^ n) s)"
proof -
  have "(quiet_step ok)\<^sup>*\<^sup>* s ((logout_moves ok first i ^^ n) s) \<and> length (logouts ((logout_moves ok first i ^^ n) s)) = length (logouts s)"
  proof (induction n)
    case (Suc n)
    let ?s = "(logout_moves ok first i ^^ n) s"
    have "quiet_step ok ?s (logout_moves ok first i ?s)"
      using Suc assms by (intro quiet_step.intros app_step.logout) (simp_all add: logout_moves_frame)
    with Suc have "(quiet_step ok)\<^sup>*\<^sup>* s (logout_moves ok first i ?s)"
      using rtranclp.rtrancl_into_rtrancl by metis
    with Suc show ?case by (simp add: logout_moves_frame)
  qed simp
  then show ?thesis ..
qed

definition sample_call :: refresh_call where
  "sample_call = \<lparr>rf_id = 0, rf_epoch = 3, rf_point = AwaitingResponse\<rparr>"

definition sample_session :: app_session where
  "sample_session = \<lparr>refreshAllowed = True, refreshEpoch = 3, refreshInFlight = Some sample_call, next_refresh = 1, sessionLive = True,
     sessionMemory = remember \<lparr>ss_token = js ''a1'', ss_refreshToken = js ''r1''\<rparr>,
     stored = \<lparr>has_secure = True, secure_items = [ACCESS_TOKEN_KEY \<mapsto> js ''a1'', REFRESH_TOKEN_KEY \<mapsto> js ''r1''],
       local_items = NoLocalStorage, memory_items = Map.empty\<rparr>,
     shown_token = Some (js ''a1''), sessionExpired = False, logouts = [], sign_ins = []\<rparr>"

text \<open>The answer comes after the logout has begun and is dropped.\<close>

definition sample_answered :: app_session where
  "sample_answered = refresh_step True True (Some \<lparr>ss_token = js ''a2'', ss_refreshToken = js ''r2''\<rparr>) sample_call AwaitingResponse
     (logout_begins False sample_session)"

definition sample_signed_out :: app_session where
  "sample_signed_out = (logout_moves True True 0 ^^ 5) sample_answered"

theorem logout_is_final_witness:
  "getToken True (sessionMemory sample_signed_out) (stored sample_signed_out) = None
   \<and> getRefreshToken True (sessionMemory sample_signed_out) (stored sample_signed_out) = None
   \<and> shown_token sample_signed_out = None \<and> refreshInFlight sample_signed_out = None"
proof -
  have "quiet_step True (logout_begins False sample_session) sample_answered"
  proof
    have "refreshInFlight (logout_begins False sample_session) = Some sample_call" by code_simp
    then show "app_step True (logout_begins False sample_session) sample_answered"
      using app_step.refreshes [where r = sample_call] unfolding sample_answered_def by (simp add: sample_call_def del: refresh_step.simps)
    show "length (sign_ins sample_answered) = length (sign_ins (logout_begins False sample_session))"
      by (simp add: refresh_step_frame(3) [OF refl] sample_answered_def del: refresh_step.simps)
  qed
  moreover have "(quiet_step True)\<^sup>*\<^sup>* sample_answered sample_signed_out"
    unfolding sample_signed_out_def by (rule logout_moves_quiet) code_simp
  ultimately have run: "(quiet_step True)\<^sup>*\<^sup>* (logout_begins False sample_session) sample_signed_out"
    by (rule converse_rtranclp_into_rtranclp)
  have "lo_point (logouts sample_signed_out ! length (logouts sample_session)) = LRevoking (Some (js ''r1''))"
    by code_simp
  moreover have "no_sign_in sample_session" by code_simp
  ultimately show ?thesis using logout_is_final [OF _ run] by simp
qed

end
