(* ===== verification/Trace_Ids.thy ===== *)
theory Trace_Ids
  imports Auth_Util
begin

text \<open>
  Identifiers in the paths of requests: the pattern that \<open>api/src/app.setup.ts\<close> and
  \<open>mobile/src/lib/api.ts\<close> replace before a path is logged or reported, the replacement, and what
  is left of a path after it.
\<close>

section \<open>The pattern and the replacement\<close>

definition is_word :: "code_unit \<Rightarrow> bool" where
  "is_word c \<longleftrightarrow> is_digit c \<or> 65 \<le> c \<and> c \<le> 90 \<or> 97 \<le> c \<and> c \<le> 122 \<or> c = 95"

definition is_version :: "code_unit \<Rightarrow> bool" where
  "is_version c \<longleftrightarrow> 49 \<le> c \<and> c \<le> 53"

text \<open>The pattern of an identifier in a path, without regard to case; \<open>\b\<close> on both sides.\<close>

definition uuid_shape :: "(code_unit \<Rightarrow> bool) list" where
  "uuid_shape = replicate 8 is_hex @ [is_dash] @ replicate 4 is_hex @ [is_dash, is_version] @ replicate 3 is_hex
     @ [is_dash, is_variant] @ replicate 3 is_hex @ [is_dash] @ replicate 12 is_hex"

definition starts_uuid :: "jstring \<Rightarrow> bool" where
  "starts_uuid s \<longleftrightarrow> length uuid_shape \<le> length s \<and> list_all2 (\<lambda>p c. p c) uuid_shape (take (length uuid_shape) s)
     \<and> (case drop (length uuid_shape) s of [] \<Rightarrow> True | c # _ \<Rightarrow> \<not> is_word c)"

text \<open>\<open>replace\<close> from left to right; \<open>inside\<close>: the unit before is part of a word.\<close>

function hide_ids :: "bool \<Rightarrow> jstring \<Rightarrow> jstring" where
  "hide_ids inside [] = []"
| "hide_ids inside (c # s) =
     (if \<not> inside \<and> starts_uuid (c # s) then js '':id'' @ hide_ids True (drop (length uuid_shape) (c # s))
      else c # hide_ids (is_word c) s)"
  by pat_completeness auto
termination by (relation "measure (length \<circ> snd)") (auto simp: uuid_shape_def)

section \<open>No identifier is left\<close>

text \<open>A place where a word may begin, after the text \<open>u\<close>; \<open>inside\<close> tells of the unit before \<open>u\<close>.\<close>

definition at_boundary :: "bool \<Rightarrow> jstring \<Rightarrow> bool" where
  "at_boundary inside u \<longleftrightarrow> (if u = [] then \<not> inside else \<not> is_word (last u))"

definition mentions_id :: "bool \<Rightarrow> jstring \<Rightarrow> bool" where
  "mentions_id inside s \<longleftrightarrow> list_ex (\<lambda>n. at_boundary inside (take n s) \<and> starts_uuid (drop n s)) [0..<length s]"

definition uuid_unit :: "code_unit \<Rightarrow> bool" where
  "uuid_unit c \<longleftrightarrow> is_hex c \<or> is_dash c"

lemma starts_uuid_split:
  "starts_uuid s \<longleftrightarrow> (\<exists>m r. s = m @ r \<and> list_all2 (\<lambda>p c. p c) uuid_shape m \<and> (r = [] \<or> \<not> is_word (hd r)))"
proof
  assume h: "starts_uuid s"
  show "\<exists>m r. s = m @ r \<and> list_all2 (\<lambda>p c. p c) uuid_shape m \<and> (r = [] \<or> \<not> is_word (hd r))"
    by (rule exI [of _ "take (length uuid_shape) s"], rule exI [of _ "drop (length uuid_shape) s"])
      (use h in \<open>auto simp: starts_uuid_def split: list.splits\<close>)
next
  assume "\<exists>m r. s = m @ r \<and> list_all2 (\<lambda>p c. p c) uuid_shape m \<and> (r = [] \<or> \<not> is_word (hd r))"
  then obtain m r where s: "s = m @ r" "list_all2 (\<lambda>p c. p c) uuid_shape m" "r = [] \<or> \<not> is_word (hd r)" by blast
  from s(2) have "length uuid_shape = length m" by (rule list_all2_lengthD)
  with s show "starts_uuid s" by (cases r) (auto simp: starts_uuid_def)
qed

lemma uuid_shape_ends: "uuid_shape = butlast uuid_shape @ [is_hex]" and uuid_shape_begins: "hd uuid_shape = is_hex"
  by (simp_all add: uuid_shape_def numeral_eq_Suc)

lemma hex_is_word: "is_hex c \<Longrightarrow> is_word c"
  by (auto simp: is_hex_def is_word_def word_le_nat_alt)

lemma uuid_match:
  assumes "list_all2 (\<lambda>p c. p c) uuid_shape m"
  shows "list_all uuid_unit m" and "m \<noteq> []" and "is_hex (hd m)" and "is_word (last m)"
proof -
  have shape: "list_all (\<lambda>p. \<forall>c. p c \<longrightarrow> uuid_unit c) uuid_shape"
    by (auto simp: uuid_shape_def list_all_iff uuid_unit_def is_version_def is_variant_def is_hex_def is_digit_def
        is_four_def word_le_nat_alt)
  from assms show "list_all uuid_unit m"
    using shape by (auto simp: list_all2_conv_all_nth list_all_length)
  from assms show ne: "m \<noteq> []" by (auto simp: uuid_shape_def)
  from assms have len: "length m = length uuid_shape" by (simp add: list_all2_lengthD)
  have "is_hex (m ! 0)"
    using assms ne len by (auto simp: list_all2_conv_all_nth uuid_shape_def nth_append dest: spec [of _ 0])
  with ne show "is_hex (hd m)" by (simp add: hd_conv_nth)
  from assms obtain m' c where "m = m' @ [c]" "is_hex c"
    by (subst (asm) uuid_shape_ends) (auto simp: list_all2_append1 list_all2_Cons1)
  then show "is_word (last m)" by (simp add: hex_is_word)
qed

lemma hidden_prefix:
  assumes "hide_ids inside s = m @ r" and "list_all uuid_unit m"
  shows "\<exists>s'. s = m @ s' \<and> r = hide_ids (if m = [] then inside else is_word (last m)) s'"
  using assms
proof (induction m arbitrary: inside s)
  case (Cons c m)
  have colon: "\<not> uuid_unit 58" by (simp add: uuid_unit_def is_hex_def is_digit_def is_dash_def word_le_nat_alt)
  from Cons.prems obtain d t where s: "s = d # t" by (cases s) auto
  have kept: "\<not> (\<not> inside \<and> starts_uuid s)"
    using Cons.prems colon unfolding s by (auto simp: js_def unit_of_def)
  with Cons.prems s have "d = c" "hide_ids (is_word c) t = m @ r" by auto
  from Cons.IH [OF this(2)] Cons.prems(2) s \<open>d = c\<close> show ?case by (cases m) auto
qed simp

lemma hide_ids_inside: "hide_ids True s = [] \<longleftrightarrow> s = []" "s \<noteq> [] \<Longrightarrow> hd (hide_ids True s) = hd s"
  by (cases s; simp)+

lemma ids_hidden:
  assumes "hide_ids inside s = u @ v" and "at_boundary inside u"
  shows "\<not> starts_uuid v"
  using assms
proof (induction inside s arbitrary: u v rule: hide_ids.induct)
  case (1 inside)
  then show ?case by (auto simp: starts_uuid_def uuid_shape_def)
next
  case (2 inside c s)
  have no_start: "\<not> starts_uuid v" if "v \<noteq> []" "\<not> is_hex (hd v)" for v
    using that uuid_match(2,3) unfolding starts_uuid_split by (metis hd_append2)
  show ?case
  proof (cases "\<not> inside \<and> starts_uuid (c # s)")
    case True
    let ?rest = "hide_ids True (drop (length uuid_shape) (c # s))"
    from True "2.prems"(1) have out: "58 # 105 # 100 # ?rest = u @ v"
      by (simp add: js_def unit_of_def)
    consider "u = []" | "u = [58]" | "u = [58, 105]" | u' where "u = 58 # 105 # 100 # u'"
      using out by (auto simp: Cons_eq_append_conv)
    then show ?thesis
    proof cases
      case 1
      with out have "v = 58 # 105 # 100 # ?rest" by simp
      then show ?thesis using no_start [of v] by (simp add: is_hex_def is_digit_def word_le_nat_alt)
    next
      case 2
      with out have "v = 105 # 100 # ?rest" by simp
      then show ?thesis using no_start [of v] by (simp add: is_hex_def is_digit_def word_le_nat_alt)
    next
      case 3
      with "2.prems"(2) show ?thesis by (simp add: at_boundary_def is_word_def word_le_nat_alt)
    next
      case 4
      have "is_word 100" by (simp add: is_word_def word_le_nat_alt)
      with 4 "2.prems"(2) have "at_boundary True u'" by (auto simp: at_boundary_def split: if_splits)
      with "2.IH"(1) [OF True] 4 out show ?thesis by simp
    qed
  next
    case False
    with "2.prems"(1) have out: "c # hide_ids (is_word c) s = u @ v" by (simp only: hide_ids.simps if_False)
    show ?thesis
    proof (cases u)
      case (Cons d u')
      with out "2.prems"(2) have "hide_ids (is_word c) s = u' @ v" "at_boundary (is_word c) u'"
        by (auto simp: at_boundary_def split: if_splits)
      with "2.IH"(2) [OF False] show ?thesis by blast
    next
      case Nil
      show ?thesis
      proof
        assume "starts_uuid v"
        then obtain m r where v: "v = m @ r" "list_all2 (\<lambda>p c. p c) uuid_shape m" "r = [] \<or> \<not> is_word (hd r)"
          by (auto simp: starts_uuid_split)
        from Nil "2.prems"(1) v(1) have "hide_ids inside (c # s) = m @ r" by simp
        from hidden_prefix [OF this uuid_match(1) [OF v(2)]] uuid_match(2,4) [OF v(2)]
        obtain s' where "c # s = m @ s'" "r = hide_ids True s'" by auto
        with v hide_ids_inside [of s'] have "starts_uuid (c # s)"
          unfolding starts_uuid_split by (cases "s' = []") auto
        moreover have "\<not> inside" using Nil "2.prems"(2) by (simp add: at_boundary_def)
        ultimately show False using False by blast
      qed
    qed
  qed
qed

text \<open>A path without an identifier is kept as it is, any other is changed.\<close>

lemma mentions_id_iff: "mentions_id inside s \<longleftrightarrow> (\<exists>u v. s = u @ v \<and> at_boundary inside u \<and> starts_uuid v)"
proof
  assume "mentions_id inside s"
  then show "\<exists>u v. s = u @ v \<and> at_boundary inside u \<and> starts_uuid v"
    by (auto simp: mentions_id_def list_ex_iff) (metis append_take_drop_id)
next
  assume "\<exists>u v. s = u @ v \<and> at_boundary inside u \<and> starts_uuid v"
  then obtain u v where s: "s = u @ v" "at_boundary inside u" "starts_uuid v" by blast
  then have "v \<noteq> []" by (auto simp: starts_uuid_def uuid_shape_def)
  with s show "mentions_id inside s"
    by (auto simp: mentions_id_def list_ex_iff intro!: bexI [of _ "length u"])
qed

lemma at_boundary_simps: "at_boundary inside [] \<longleftrightarrow> \<not> inside" "at_boundary inside (c # u) \<longleftrightarrow> at_boundary (is_word c) u"
  by (simp_all add: at_boundary_def)

lemma mentions_id_Cons:
  "mentions_id inside (c # s) \<longleftrightarrow> \<not> inside \<and> starts_uuid (c # s) \<or> mentions_id (is_word c) s"
proof -
  have places: "mentions_id b t \<longleftrightarrow> (\<exists>n<length t. at_boundary b (take n t) \<and> starts_uuid (drop n t))" for b t
    by (auto simp: mentions_id_def list_ex_iff)
  show ?thesis
    unfolding places by (simp add: Ex_less_Suc2 at_boundary_simps)
qed

lemma hide_ids_clean: "\<not> mentions_id inside (hide_ids inside s)"
  using ids_hidden by (auto simp: mentions_id_iff)

lemma hide_ids_keeps: "hide_ids inside s = s \<longleftrightarrow> \<not> mentions_id inside s"
proof
  assume "hide_ids inside s = s"
  then show "\<not> mentions_id inside s" using hide_ids_clean [of inside s] by simp
next
  show "\<not> mentions_id inside s \<Longrightarrow> hide_ids inside s = s"
    by (induction inside s rule: hide_ids.induct) (auto simp: mentions_id_Cons)
qed

end
