(* ===== verification/Http_Trace.thy ===== *)
theory Http_Trace
  imports Trace_Ids Js_Number
begin

text \<open>
  What the API tells about the requests it serves: the middleware of \<open>api/src/app.setup.ts\<close>, the
  context of \<open>observability/request-context.ts\<close>, the logger of \<open>observability/stead-logger.ts\<close> and
  the measurements of \<open>observability/metrics.ts\<close>. The context is the value that
  \<open>AsyncLocalStorage\<close> hands to the callback; the lines and measurements are values returned.
\<close>

section \<open>The context of a request\<close>

record obs_context =
  xc_correlationId :: "jstring option"
  xc_operationId :: "jstring option"
  xc_operationName :: "jstring option"

definition no_context :: obs_context where
  "no_context = \<lparr>xc_correlationId = None, xc_operationId = None, xc_operationName = None\<rparr>"

definition runWithCorrelationId :: "jstring \<Rightarrow> (obs_context \<Rightarrow> 'a) \<Rightarrow> obs_context \<Rightarrow> 'a" where
  "runWithCorrelationId i callback ctx = callback (ctx\<lparr>xc_correlationId := Some i\<rparr>)"

definition runWithOperation :: "jstring \<Rightarrow> jstring \<Rightarrow> (obs_context \<Rightarrow> 'a) \<Rightarrow> obs_context \<Rightarrow> 'a" where
  "runWithOperation i name callback ctx = callback (ctx\<lparr>xc_operationId := Some i, xc_operationName := Some name\<rparr>)"

definition runWithRequestId :: "jstring \<Rightarrow> (obs_context \<Rightarrow> 'a) \<Rightarrow> obs_context \<Rightarrow> 'a" where
  "runWithRequestId i callback ctx =
     callback (ctx\<lparr>xc_correlationId := Some i, xc_operationId := Some i, xc_operationName := Some (js ''http.request'')\<rparr>)"

definition createOperationId :: "jstring \<Rightarrow> jstring \<Rightarrow> jstring" where
  "createOperationId name uuid = name @ js '':'' @ uuid"

section \<open>The logger\<close>

record request_log =
  rl_requestId :: jstring
  rl_method :: jstring
  rl_path :: jstring
  rl_statusCode :: int
  rl_durationMs :: rat

datatype log_param = LogText jstring | LogRequest request_log | LogContext obs_context | LogOther json

datatype log_level = LevelVerbose | LevelDebug | LevelLog | LevelWarn | LevelError | LevelFatal

record log_line =
  ln_level :: log_level
  ln_message :: jstring
  ln_params :: "log_param list"

definition levelsByMinimum :: "jstring \<Rightarrow> log_level list option" where
  "levelsByMinimum m =
     (if m = js ''debug'' then Some [LevelDebug, LevelLog, LevelWarn, LevelError, LevelFatal]
      else if m = js ''info'' then Some [LevelLog, LevelWarn, LevelError, LevelFatal]
      else if m = js ''warn'' then Some [LevelWarn, LevelError, LevelFatal]
      else if m = js ''error'' then Some [LevelError, LevelFatal]
      else None)"

text \<open>An empty identifier counts as absent. A last parameter that is a text is the name of the
  logging class, which Nest expects at the end.\<close>

definition if_truthy :: "jstring option \<Rightarrow> jstring option" where
  "if_truthy x = (if truthy x then x else None)"

definition withCorrelation :: "obs_context \<Rightarrow> log_param list \<Rightarrow> log_param list" where
  "withCorrelation ctx params =
     (if \<not> truthy (xc_correlationId ctx) \<and> \<not> truthy (xc_operationId ctx) \<and> \<not> truthy (xc_operationName ctx) then params
      else (let context = LogContext \<lparr>xc_correlationId = if_truthy (xc_correlationId ctx),
                  xc_operationId = if_truthy (xc_operationId ctx), xc_operationName = if_truthy (xc_operationName ctx)\<rparr>
            in (if params = [] then [context]
                else (case last params of
                    LogText name \<Rightarrow> butlast params @ [context, LogText name]
                  | _ \<Rightarrow> params @ [context]))))"

definition stead_log :: "log_level \<Rightarrow> jstring \<Rightarrow> log_param list \<Rightarrow> obs_context \<Rightarrow> log_line" where
  "stead_log level message params ctx = \<lparr>ln_level = level, ln_message = message, ln_params = withCorrelation ctx params\<rparr>"

section \<open>Measurements\<close>

datatype attribute = AttrText jstring | AttrNumber int

datatype instrument = OperationCount | DurationSeconds

record measurement =
  me_name :: jstring
  me_instrument :: instrument
  me_value :: rat
  me_attributes :: "(jstring \<times> attribute) list"

text \<open>A duration is a Number, \<open>None\<close> when it is not finite.\<close>

definition seconds :: "rat option \<Rightarrow> rat" where
  "seconds durationMs = (case durationMs of Some d \<Rightarrow> if 0 < d then fl (d / 1000) else 0 | None \<Rightarrow> 0)"

definition record_metric :: "jstring \<Rightarrow> rat option \<Rightarrow> (jstring \<times> attribute) list \<Rightarrow> measurement list" where
  "record_metric prefix durationMs attributes =
     [\<lparr>me_name = prefix @ js ''.count'', me_instrument = OperationCount, me_value = 1, me_attributes = attributes\<rparr>,
      \<lparr>me_name = prefix @ js ''.duration'', me_instrument = DurationSeconds, me_value = seconds durationMs,
       me_attributes = attributes\<rparr>]"

definition recordHttpRequest :: "jstring \<Rightarrow> jstring \<Rightarrow> int \<Rightarrow> rat option \<Rightarrow> measurement list" where
  "recordHttpRequest method route statusCode durationMs =
     record_metric (js ''stead.http.server.request'') durationMs
       [(js ''http.request.method'', AttrText method), (js ''http.route'', AttrText route),
        (js ''http.response.status_code'', AttrNumber statusCode),
        (js ''stead.outcome'', AttrText (if 500 \<le> statusCode then js ''error'' else js ''success''))]"

definition poll_outcome_text :: "poll_outcome \<Rightarrow> jstring" where
  "poll_outcome_text out = (case out of PollSkipped \<Rightarrow> js ''skipped'' | PollEmpty \<Rightarrow> js ''empty''
     | PollProcessed \<Rightarrow> js ''processed'' | PollError \<Rightarrow> js ''error'')"

definition recordNotificationPoll :: "poll_outcome \<Rightarrow> rat option \<Rightarrow> measurement list" where
  "recordNotificationPoll out durationMs =
     record_metric (js ''stead.notification.poll'') durationMs [(js ''stead.outcome'', AttrText (poll_outcome_text out))]"

definition recordNotificationJob :: "jstring \<Rightarrow> jstring \<Rightarrow> jstring \<Rightarrow> rat option \<Rightarrow> measurement list" where
  "recordNotificationJob type provider out durationMs =
     record_metric (js ''stead.notification.job'') durationMs
       [(js ''notification.type'', AttrText type), (js ''sms.provider'', AttrText provider), (js ''stead.outcome'', AttrText out)]"

definition recordSchedulerRun :: "jstring \<Rightarrow> rat option \<Rightarrow> measurement list" where
  "recordSchedulerRun out durationMs =
     record_metric (js ''stead.alert.scheduler.run'') durationMs [(js ''stead.outcome'', AttrText out)]"

definition recordProviderRequest :: "jstring \<Rightarrow> jstring \<Rightarrow> jstring \<Rightarrow> rat option \<Rightarrow> measurement list" where
  "recordProviderRequest provider kind out durationMs =
     record_metric (js ''stead.sms.provider.request'') durationMs
       [(js ''notification.kind'', AttrText kind), (js ''sms.provider'', AttrText provider), (js ''stead.outcome'', AttrText out)]"

section \<open>The middleware\<close>

datatype header = NoHeader | HeaderText jstring | HeaderList "jstring list"

datatype route_path = NoRoute | RouteText jstring | OtherRoute

record http_request =
  hr_requestId :: header
  hr_method :: jstring
  hr_path :: jstring
  hr_route :: route_path

definition is_request_id_unit :: "code_unit \<Rightarrow> bool" where
  "is_request_id_unit c \<longleftrightarrow> is_word c \<or> c = 46 \<or> c = 58 \<or> c = 45"

definition SAFE_REQUEST_ID :: "jstring \<Rightarrow> bool" where
  "SAFE_REQUEST_ID s \<longleftrightarrow> 1 \<le> length s \<and> length s \<le> 128 \<and> list_all is_request_id_unit s"

definition safeRequestPath :: "jstring \<Rightarrow> jstring" where
  "safeRequestPath path = hide_ids False path"

definition metricRoute :: "http_request \<Rightarrow> jstring" where
  "metricRoute rq = (case hr_route rq of RouteText p \<Rightarrow> if p = [] then js ''/'' else p | _ \<Rightarrow> js ''unmatched'')"

definition request_id :: "jstring \<Rightarrow> http_request \<Rightarrow> jstring" where
  "request_id fresh rq = (case hr_requestId rq of HeaderText i \<Rightarrow> if SAFE_REQUEST_ID i then i else fresh | _ \<Rightarrow> fresh)"

text \<open>What is done when the response is finished; the name of the logger is the last parameter.\<close>

definition request_finished :: "jstring \<Rightarrow> http_request \<Rightarrow> int \<Rightarrow> rat \<Rightarrow> obs_context \<Rightarrow> log_line \<times> measurement list" where
  "request_finished requestId rq statusCode durationMs ctx =
     (stead_log LevelLog (js ''HTTP request completed'')
        [LogRequest \<lparr>rl_requestId = requestId, rl_method = hr_method rq, rl_path = safeRequestPath (hr_path rq),
           rl_statusCode = statusCode, rl_durationMs = durationMs\<rparr>, LogText (js ''HTTP'')] ctx,
      recordHttpRequest (hr_method rq) (metricRoute rq) statusCode (Some durationMs))"

text \<open>\<open>next\<close> is the rest of the application: its status code and the lines it logs.\<close>

record handled_request =
  hq_responseId :: jstring
  hq_lines :: "log_line list"
  hq_measurements :: "measurement list"

definition trace_request ::
  "jstring \<Rightarrow> http_request \<Rightarrow> (obs_context \<Rightarrow> int \<times> log_line list) \<Rightarrow> rat \<Rightarrow> obs_context \<Rightarrow> handled_request" where
  "trace_request fresh rq proceed durationMs ctx =
     (let requestId = request_id fresh rq;
          (statusCode, lines) = runWithRequestId requestId proceed ctx;
          (line, measurements) = runWithRequestId requestId (request_finished requestId rq statusCode durationMs) ctx
      in \<lparr>hq_responseId = requestId, hq_lines = lines @ [line], hq_measurements = measurements\<rparr>)"

section \<open>Lines carry the request, paths carry no identifier\<close>

lemma uuid_is_safe: "is_uuid_v4 s \<Longrightarrow> SAFE_REQUEST_ID s"
proof -
  assume h: "is_uuid_v4 s"
  have shape: "list_all (\<lambda>p. \<forall>c. p c \<longrightarrow> is_request_id_unit c) uuid_v4_shape"
    by (auto simp: uuid_v4_shape_def list_all_iff is_request_id_unit_def is_word_def is_dash_def is_four_def is_variant_def
        is_hex_def is_digit_def word_le_nat_alt)
  from h have "length s = length uuid_v4_shape" by (simp add: is_uuid_v4_def list_all2_lengthD)
  moreover from h shape have "list_all is_request_id_unit s"
    by (auto simp: is_uuid_v4_def list_all2_conv_all_nth list_all_length)
  ultimately show ?thesis by (simp add: SAFE_REQUEST_ID_def uuid_v4_shape_def)
qed

lemma request_id_safe: "SAFE_REQUEST_ID fresh \<Longrightarrow> SAFE_REQUEST_ID (request_id fresh rq)"
  by (simp add: request_id_def split: header.split)

lemma request_id_kept: "hr_requestId rq = HeaderText i \<Longrightarrow> SAFE_REQUEST_ID i \<Longrightarrow> request_id fresh rq = i"
  by (simp add: request_id_def)

text \<open>The parameters are kept in their order, the context goes before the name of the logger.\<close>

lemma withCorrelation_keeps:
  "filter (\<lambda>p. \<forall>c. p \<noteq> LogContext c) (withCorrelation ctx params) = filter (\<lambda>p. \<forall>c. p \<noteq> LogContext c) params"
proof (cases params rule: rev_cases)
  case (snoc ps p)
  then show ?thesis by (cases p) (simp_all add: withCorrelation_def Let_def)
qed (simp add: withCorrelation_def Let_def)

lemma levels_nested:
  assumes "levelsByMinimum a = Some as" and "levelsByMinimum b = Some bs"
  shows "set as \<subseteq> set bs \<or> set bs \<subseteq> set as"
  using assms by (auto simp: levelsByMinimum_def split: if_splits)

lemma request_line:
  assumes "i \<noteq> []"
  shows "fst (runWithRequestId i (request_finished i rq statusCode d) ctx) =
    \<lparr>ln_level = LevelLog, ln_message = js ''HTTP request completed'',
     ln_params = [LogRequest \<lparr>rl_requestId = i, rl_method = hr_method rq, rl_path = safeRequestPath (hr_path rq),
         rl_statusCode = statusCode, rl_durationMs = d\<rparr>,
       LogContext \<lparr>xc_correlationId = Some i, xc_operationId = Some i, xc_operationName = Some (js ''http.request'')\<rparr>,
       LogText (js ''HTTP'')]\<rparr>"
  using assms
  by (simp add: runWithRequestId_def request_finished_def stead_log_def withCorrelation_def if_truthy_def truthy_def js_def)


definition sample_uuid_path :: jstring where
  "sample_uuid_path = js ''/goals/123e4567-e89b-42d3-a456-426614174000''"


end
