(* ===== verification/Env_Schema.thy ===== *)
theory Env_Schema
  imports Auth_Otp
begin

text \<open>
  The environment the API starts with, \<open>api/src/config/env.schema.ts\<close>: the rules of every key, which
  the validator Joi applies, and the check across keys. Joi is a parameter; \<open>satisfies\<close> is what
  its documentation says of a value that passed a rule.
\<close>

section \<open>The rules\<close>

datatype env_value = EnvText jstring | EnvNumber int

type_synonym env_values = "jstring \<Rightarrow> env_value option"

text \<open>
  A text rule: the values allowed (any when the list is empty), the least length, whether the empty
  text is allowed, whether the key is required, and the value of an absent key. A number rule: an
  integer with a least value, a largest one for a port, and the value of an absent key.
\<close>

record text_rule =
  tr_valid :: "jstring list"
  tr_min :: nat
  tr_allowEmpty :: bool
  tr_required :: bool
  tr_default :: "jstring option"

datatype env_rule =
    TextRule text_rule
  | UriRule
  | NumberRule int "int option" int

definition any_text :: text_rule where
  "any_text = \<lparr>tr_valid = [], tr_min = 0, tr_allowEmpty = False, tr_required = False, tr_default = None\<rparr>"

definition secret_rule :: "nat \<Rightarrow> env_rule" where
  "secret_rule n = TextRule (any_text\<lparr>tr_min := n, tr_required := True\<rparr>)"

definition default_rule :: "jstring \<Rightarrow> env_rule" where
  "default_rule d = TextRule (any_text\<lparr>tr_default := Some d\<rparr>)"

definition choice_rule :: "jstring list \<Rightarrow> jstring \<Rightarrow> env_rule" where
  "choice_rule vs d = TextRule (any_text\<lparr>tr_valid := vs, tr_default := Some d\<rparr>)"

definition optional_rule :: env_rule where
  "optional_rule = TextRule (any_text\<lparr>tr_allowEmpty := True\<rparr>)"

definition env_rules :: "(jstring \<times> env_rule) list" where
  "env_rules =
    [(js ''NODE_ENV'', choice_rule [js ''development'', js ''test'', js ''production''] (js ''development'')),
     (js ''PORT'', NumberRule 0 (Some 65535) 3000),
     (js ''DATABASE_URL'', UriRule),
     (js ''JWT_SECRET'', secret_rule 16),
     (js ''JWT_EXPIRES_IN'', default_rule (js ''15m'')),
     (js ''AUTH_REFRESH_TOKEN_EXPIRES_IN'', default_rule (js ''30d'')),
     (js ''AUTH_REFRESH_FAMILY_MAX_AGE'', default_rule (js ''90d'')),
     (js ''AUTH_REFRESH_MAX_FAMILIES_PER_USER'', NumberRule 1 None 5),
     (js ''AUTH_INSPECTION_OPERATOR_USER_IDS'', TextRule (any_text\<lparr>tr_allowEmpty := True, tr_default := Some []\<rparr>)),
     (js ''AUTH_DEVICE_IDENTIFIER_SECRET'', secret_rule 32),
     (js ''NOTIFICATION_PAYLOAD_ENCRYPTION_KEY'', secret_rule 32),
     (js ''AUTH_OTP_VERIFICATION_ENCRYPTION_KEY'', secret_rule 32),
     (js ''LOG_FORMAT'', choice_rule [js ''json'', js ''text''] (js ''json'')),
     (js ''LOG_LEVEL'', choice_rule [js ''debug'', js ''info'', js ''warn'', js ''error''] (js ''info'')),
     (js ''AUTH_OTP_REQUEST_LIMIT_PER_HOUR'', NumberRule 1 None 5),
     (js ''AUTH_OTP_REQUEST_LIMIT_PER_IP_PER_HOUR'', NumberRule 1 None 20),
     (js ''AUTH_OTP_REQUEST_LIMIT_PER_DEVICE_PER_HOUR'', NumberRule 1 None 5),
     (js ''AUTH_OTP_RESEND_COOLDOWN_MS'', NumberRule 1000 None 60000),
     (js ''AUTH_OTP_MAX_VERIFY_ATTEMPTS'', NumberRule 1 None 5),
     (js ''AUTH_OTP_VERIFY_FAILURE_LIMIT_PER_IP_WINDOW'', NumberRule 1 None 10),
     (js ''AUTH_OTP_VERIFY_FAILURE_LIMIT_PER_DEVICE_WINDOW'', NumberRule 1 None 8),
     (js ''AUTH_OTP_VERIFY_FAILURE_WINDOW_MS'', NumberRule 1000 None (15 * 60 * 1000)),
     (js ''SMS_PROVIDER'', choice_rule [js ''twilio'', js ''termii'', js ''dev''] (js ''twilio'')),
     (js ''DEV_EXPOSE_OTP'', choice_rule [js ''true'', js ''false''] (js ''false'')),
     (js ''TWILIO_ACCOUNT_SID'', optional_rule),
     (js ''TWILIO_AUTH_TOKEN'', optional_rule),
     (js ''TWILIO_FROM'', optional_rule),
     (js ''TWILIO_MESSAGING_SERVICE_SID'', optional_rule),
     (js ''TERMII_API_KEY'', optional_rule),
     (js ''TERMII_SENDER_ID'', optional_rule),
     (js ''TERMII_CHANNEL'', optional_rule)]"

section \<open>The check across keys\<close>

definition env_text_value :: "env_values \<Rightarrow> jstring \<Rightarrow> jstring option" where
  "env_text_value v k = (case v k of Some (EnvText s) \<Rightarrow> Some s | _ \<Rightarrow> None)"

definition env_secrets :: "env_values \<Rightarrow> jstring list" where
  "env_secrets v = map the (filter truthy (map (env_text_value v)
     [js ''JWT_SECRET'', js ''AUTH_DEVICE_IDENTIFIER_SECRET'', js ''NOTIFICATION_PAYLOAD_ENCRYPTION_KEY'',
      js ''AUTH_OTP_VERIFICATION_ENCRYPTION_KEY'']))"

definition check_environment :: "(jstring \<Rightarrow> jstring) \<Rightarrow> env_values \<Rightarrow> string + env_values" where
  "check_environment lower v =
     (let text_of = env_text_value v;
          provider = lower (or_default (text_of (js ''SMS_PROVIDER'')) (js ''twilio''));
          exposeOtp = (text_of (js ''DEV_EXPOSE_OTP'') = Some (js ''true''));
          production = (text_of (js ''NODE_ENV'') = Some (js ''production''));
          secrets = env_secrets v
      in if card (set secrets) \<noteq> length secrets
         then Inl ''JWT_SECRET, AUTH_DEVICE_IDENTIFIER_SECRET, NOTIFICATION_PAYLOAD_ENCRYPTION_KEY, and AUTH_OTP_VERIFICATION_ENCRYPTION_KEY must be distinct''
         else if production \<and> provider = js ''dev'' then Inl ''SMS_PROVIDER=dev is not allowed when NODE_ENV=production''
         else if production \<and> exposeOtp then Inl ''DEV_EXPOSE_OTP=true is not allowed when NODE_ENV=production''
         else if provider = js ''twilio'' \<and> \<not> truthy (text_of (js ''TWILIO_ACCOUNT_SID''))
         then Inl ''TWILIO_ACCOUNT_SID is required when SMS_PROVIDER=twilio''
         else if provider = js ''twilio'' \<and> \<not> truthy (text_of (js ''TWILIO_AUTH_TOKEN''))
         then Inl ''TWILIO_AUTH_TOKEN is required when SMS_PROVIDER=twilio''
         else if provider = js ''twilio'' \<and> \<not> truthy (text_of (js ''TWILIO_FROM'')) \<and> \<not> truthy (text_of (js ''TWILIO_MESSAGING_SERVICE_SID''))
         then Inl ''Set TWILIO_FROM or TWILIO_MESSAGING_SERVICE_SID when SMS_PROVIDER=twilio''
         else if provider = js ''termii'' \<and> \<not> truthy (text_of (js ''TERMII_API_KEY''))
         then Inl ''TERMII_API_KEY is required when SMS_PROVIDER=termii''
         else if provider = js ''termii'' \<and> \<not> truthy (text_of (js ''TERMII_SENDER_ID''))
         then Inl ''TERMII_SENDER_ID is required when SMS_PROVIDER=termii''
         else Inr v)"

text \<open>\<open>joi\<close> applies the rules to the process environment, with the values of absent keys filled in.\<close>

definition envSchema ::
  "((jstring \<times> env_rule) list \<Rightarrow> (jstring \<Rightarrow> jstring option) \<Rightarrow> string + env_values)
   \<Rightarrow> (jstring \<Rightarrow> jstring) \<Rightarrow> (jstring \<Rightarrow> jstring option) \<Rightarrow> string + env_values" where
  "envSchema joi lower raw = (case joi env_rules raw of Inl m \<Rightarrow> Inl m | Inr v \<Rightarrow> check_environment lower v)"

section \<open>What an accepted environment promises\<close>

fun satisfies :: "env_rule \<Rightarrow> env_value option \<Rightarrow> bool" where
  "satisfies (TextRule t) (Some (EnvText s)) = ((s \<noteq> [] \<or> tr_allowEmpty t) \<and> (tr_valid t = [] \<or> s \<in> set (tr_valid t)) \<and> tr_min t \<le> length s)"
| "satisfies (TextRule t) None = (\<not> tr_required t \<and> tr_default t = None)"
| "satisfies UriRule (Some (EnvText s)) = (s \<noteq> [])"
| "satisfies (NumberRule lo hi d) (Some (EnvNumber n)) = (lo \<le> n \<and> (case hi of None \<Rightarrow> True | Some h \<Rightarrow> n \<le> h))"
| "satisfies _ _ = False"

definition joi_applies_rules :: "((jstring \<times> env_rule) list \<Rightarrow> (jstring \<Rightarrow> jstring option) \<Rightarrow> string + env_values) \<Rightarrow> bool" where
  "joi_applies_rules joi \<longleftrightarrow> (\<forall>raw v. joi env_rules raw = Inr v \<longrightarrow> list_all (\<lambda>(k, r). satisfies r (v k)) env_rules)"

text \<open>The services read the accepted values through the configuration service.\<close>

definition configured :: "env_values \<Rightarrow> sms_env \<Rightarrow> auth_env \<Rightarrow> bool" where
  "configured v e a \<longleftrightarrow> config_get e = env_text_value v \<and> config_text a = env_text_value v
     \<and> (\<forall>s \<in> {js ''twilio'', js ''termii'', js ''dev''}. to_lower e s = s)"

definition provider_credentials :: "jstring list" where
  "provider_credentials = [js ''TWILIO_ACCOUNT_SID'', js ''TWILIO_AUTH_TOKEN'', js ''TWILIO_FROM'',
     js ''TWILIO_MESSAGING_SERVICE_SID'', js ''TERMII_API_KEY'', js ''TERMII_SENDER_ID'']"

lemma choice_satisfied:
  assumes "satisfies (choice_rule vs d) (v k)" and "vs \<noteq> []"
  shows "\<exists>s \<in> set vs. env_text_value v k = Some s"
  using assms by (cases "v k" rule: option.exhaust; cases "the (v k)")
    (auto simp: choice_rule_def any_text_def env_text_value_def)

lemma secret_satisfied:
  assumes "satisfies (secret_rule n) (v k)"
  shows "\<exists>s. env_text_value v k = Some s \<and> n \<le> length s \<and> s \<noteq> []"
  using assms by (cases "v k" rule: option.exhaust; cases "the (v k)")
    (auto simp: secret_rule_def any_text_def env_text_value_def)

lemma accepted_values:
  assumes "joi_applies_rules joi" and "envSchema joi lower raw = Inr v"
  shows "check_environment lower v = Inr v" and "\<And>k r. (k, r) \<in> set env_rules \<Longrightarrow> satisfies r (v k)"
proof -
  from assms(2) obtain w where w: "joi env_rules raw = Inr w" "check_environment lower w = Inr v"
    by (auto simp: envSchema_def split: sum.splits)
  then have "w = v" by (auto simp: check_environment_def Let_def split: if_splits)
  with w show "check_environment lower v = Inr v" by simp
  have "list_all (\<lambda>(k, r). satisfies r (v k)) env_rules"
    using assms(1) w(1) \<open>w = v\<close> unfolding joi_applies_rules_def by blast
  then show "satisfies r (v k)" if "(k, r) \<in> set env_rules" for k r
    using that by (auto simp: list_all_iff)
qed

text \<open>What the check across keys leaves.\<close>

lemma checked_environment:
  assumes "check_environment lower v = Inr w"
  defines "p \<equiv> lower (or_default (env_text_value v (js ''SMS_PROVIDER'')) (js ''twilio''))"
    and "production \<equiv> env_text_value v (js ''NODE_ENV'') = Some (js ''production'')"
  shows "card (set (env_secrets v)) = length (env_secrets v)" and "\<not> (production \<and> p = js ''dev'')"
    and "\<not> (production \<and> env_text_value v (js ''DEV_EXPOSE_OTP'') = Some (js ''true''))"
    and "p = js ''twilio'' \<Longrightarrow> truthy (env_text_value v (js ''TWILIO_ACCOUNT_SID''))"
    and "p = js ''twilio'' \<Longrightarrow> truthy (env_text_value v (js ''TWILIO_AUTH_TOKEN''))"
    and "p = js ''twilio'' \<Longrightarrow> truthy (env_text_value v (js ''TWILIO_FROM'')) \<or> truthy (env_text_value v (js ''TWILIO_MESSAGING_SERVICE_SID''))"
    and "p = js ''termii'' \<Longrightarrow> truthy (env_text_value v (js ''TERMII_API_KEY''))"
    and "p = js ''termii'' \<Longrightarrow> truthy (env_text_value v (js ''TERMII_SENDER_ID''))"
  using assms(1) unfolding check_environment_def Let_def p_def [symmetric] production_def [symmetric]
  by (blast | (simp split: if_split_asm; fail))+

text \<open>The provider of an accepted environment, and what the check across keys asks of it.\<close>

lemma accepted_provider:
  assumes "joi_applies_rules joi" and "envSchema joi (to_lower e) raw = Inr v" and "configured v e a"
  obtains p where "p \<in> {js ''twilio'', js ''termii'', js ''dev''}" and "env_text_value v (js ''SMS_PROVIDER'') = Some p"
    and "or_default (env_text_value v (js ''SMS_PROVIDER'')) (js ''twilio'') = p" and "to_lower e p = p"
    and "getProviderName e = (if p = js ''dev'' then Dev else if p = js ''termii'' then Termii else Twilio)"
proof -
  have "(js ''SMS_PROVIDER'', choice_rule [js ''twilio'', js ''termii'', js ''dev''] (js ''twilio'')) \<in> set env_rules"
    by (simp add: env_rules_def)
  from choice_satisfied [where v = v, OF accepted_values(2) [OF assms(1,2) this]]
  obtain p where p: "p \<in> {js ''twilio'', js ''termii'', js ''dev''}" "env_text_value v (js ''SMS_PROVIDER'') = Some p" by auto
  have trims: "trim (js ''twilio'') = js ''twilio''" "trim (js ''termii'') = js ''termii''" "trim (js ''dev'') = js ''dev''"
    by code_simp+
  have ne: "js ''twilio'' \<noteq> []" "js ''termii'' \<noteq> []" "js ''dev'' \<noteq> []" by (simp_all add: js_def)
  have d: "or_default (env_text_value v (js ''SMS_PROVIDER'')) (js ''twilio'') = p"
    using p ne by (auto simp: or_default_def truthy_def)
  have l: "to_lower e p = p" using p(1) assms(3) by (auto simp: configured_def)
  have "trim p = p" using p(1) trims by auto
  then have "getProviderName e = (if p = js ''dev'' then Dev else if p = js ''termii'' then Termii else Twilio)"
    using assms(3) d l by (simp add: getProviderName_def configured_def)
  with p d l show thesis using that by blast
qed

lemma truthy_has_value: "truthy (config_get e k) \<Longrightarrow> trim (the (config_get e k)) \<noteq> [] \<Longrightarrow> hasValue e k"
  by (cases "config_get e k") (auto simp: hasValue_def truthy_def)

lemma accepted_starts:
  assumes "joi_applies_rules joi" and "envSchema joi (to_lower e) raw = Inr v" and "configured v e a"
    and "\<And>k. k \<in> set provider_credentials \<Longrightarrow> truthy (config_get e k) \<Longrightarrow> trim (the (config_get e k)) \<noteq> []"
  shows "assertProviderConfiguration e = Inr ()"
proof -
  from assms(1-3) obtain p where p: "p \<in> {js ''twilio'', js ''termii'', js ''dev''}" "env_text_value v (js ''SMS_PROVIDER'') = Some p"
    "or_default (env_text_value v (js ''SMS_PROVIDER'')) (js ''twilio'') = p" "to_lower e p = p"
    "getProviderName e = (if p = js ''dev'' then Dev else if p = js ''termii'' then Termii else Twilio)"
    by (rule accepted_provider)
  have cfg: "env_text_value v = config_get e" using assms(3) by (simp add: configured_def)
  have val: "hasValue e k" if "k \<in> set provider_credentials" "truthy (config_get e k)" for k
    using truthy_has_value assms(4) that by blast
  note checked = checked_environment(4-) [OF accepted_values(1) [OF assms(1,2)], unfolded p(3,4), unfolded cfg]
  consider "p = js ''twilio''" | "p = js ''termii''" | "p = js ''dev''" using p(1) by blast
  then show ?thesis
  proof cases
    case 1
    then have "getProviderName e = Twilio" using p(5) by (simp add: js_def)
    with checked(1-3) [OF 1] val show ?thesis
      unfolding assertProviderConfiguration_def by (auto simp: provider_credentials_def)
  next
    case 2
    then have "getProviderName e = Termii" using p(5) by (simp add: js_def)
    with checked(4,5) [OF 2] val show ?thesis
      unfolding assertProviderConfiguration_def by (auto simp: provider_credentials_def)
  next
    case 3
    with p(5) show ?thesis by (simp add: assertProviderConfiguration_def)
  qed
qed

text \<open>
  C24. In an accepted production environment no answer to a request for a code carries the code,
  text messages go to a real provider, and the four secrets are long enough and distinct; the service for text
  messages starts, unless a credential of its provider is blank.
\<close>

theorem production_hides_codes:
  assumes "joi_applies_rules joi" and "envSchema joi (to_lower e) raw = Inr v" and "configured v e a"
    and "env_text_value v (js ''NODE_ENV'') = Some (js ''production'')"
  shows "buildOtpRequestResponse a otp = None \<and> getProviderName e \<noteq> Dev
     \<and> (\<exists>s1 s2 s3 s4. map (config_text a) [js ''JWT_SECRET'', js ''AUTH_DEVICE_IDENTIFIER_SECRET'',
           js ''NOTIFICATION_PAYLOAD_ENCRYPTION_KEY'', js ''AUTH_OTP_VERIFICATION_ENCRYPTION_KEY''] = map Some [s1, s2, s3, s4]
         \<and> distinct [s1, s2, s3, s4] \<and> 16 \<le> length s1 \<and> list_all (\<lambda>s. 32 \<le> length s) [s2, s3, s4])
     \<and> (assertProviderConfiguration e = Inr () \<or> (\<exists>k \<in> set provider_credentials. truthy (config_get e k) \<and> trim (the (config_get e k)) = []))"
proof (intro conjI)
  note ok = accepted_values [OF assms(1,2)]
  have cfg: "config_text a = env_text_value v" "config_get e = env_text_value v" using assms(3) by (simp_all add: configured_def)
  from assms(1-3) obtain p where p: "p \<in> {js ''twilio'', js ''termii'', js ''dev''}" "env_text_value v (js ''SMS_PROVIDER'') = Some p"
    "or_default (env_text_value v (js ''SMS_PROVIDER'')) (js ''twilio'') = p" "to_lower e p = p"
    "getProviderName e = (if p = js ''dev'' then Dev else if p = js ''termii'' then Termii else Twilio)"
    by (rule accepted_provider)
  show "getProviderName e \<noteq> Dev" and "buildOtpRequestResponse a otp = None"
    using checked_environment(2,3) [OF ok(1), unfolded p(3,4)] assms(4) p(5)
    by (simp_all add: buildOtpRequestResponse_def exposes_otp_def cfg)
  have rules: "(js ''JWT_SECRET'', secret_rule 16) \<in> set env_rules" "(js ''AUTH_DEVICE_IDENTIFIER_SECRET'', secret_rule 32) \<in> set env_rules"
    "(js ''NOTIFICATION_PAYLOAD_ENCRYPTION_KEY'', secret_rule 32) \<in> set env_rules"
    "(js ''AUTH_OTP_VERIFICATION_ENCRYPTION_KEY'', secret_rule 32) \<in> set env_rules" by (simp_all add: env_rules_def)
  from secret_satisfied [where v = v, OF ok(2) [OF rules(1)]] secret_satisfied [where v = v, OF ok(2) [OF rules(2)]]
    secret_satisfied [where v = v, OF ok(2) [OF rules(3)]] secret_satisfied [where v = v, OF ok(2) [OF rules(4)]]
  obtain s1 s2 s3 s4 where s: "env_text_value v (js ''JWT_SECRET'') = Some s1" "env_text_value v (js ''AUTH_DEVICE_IDENTIFIER_SECRET'') = Some s2"
    "env_text_value v (js ''NOTIFICATION_PAYLOAD_ENCRYPTION_KEY'') = Some s3"
    "env_text_value v (js ''AUTH_OTP_VERIFICATION_ENCRYPTION_KEY'') = Some s4"
    "16 \<le> length s1" "list_all (\<lambda>s. 32 \<le> length s) [s2, s3, s4]" "list_all (\<lambda>s. s \<noteq> []) [s1, s2, s3, s4]" by auto
  then have secrets: "env_secrets v = [s1, s2, s3, s4]" by (simp add: env_secrets_def truthy_def)
  have "distinct (env_secrets v)"
    using checked_environment(1) [OF ok(1)] by (simp add: card_distinct)
  with s secrets show "\<exists>s1 s2 s3 s4. map (config_text a) [js ''JWT_SECRET'', js ''AUTH_DEVICE_IDENTIFIER_SECRET'',
           js ''NOTIFICATION_PAYLOAD_ENCRYPTION_KEY'', js ''AUTH_OTP_VERIFICATION_ENCRYPTION_KEY''] = map Some [s1, s2, s3, s4]
         \<and> distinct [s1, s2, s3, s4] \<and> 16 \<le> length s1 \<and> list_all (\<lambda>s. 32 \<le> length s) [s2, s3, s4]"
    by (intro exI [of _ s1] exI [of _ s2] exI [of _ s3] exI [of _ s4]) (simp add: cfg)
  show "assertProviderConfiguration e = Inr () \<or> (\<exists>k \<in> set provider_credentials. truthy (config_get e k) \<and> trim (the (config_get e k)) = [])"
    using accepted_starts [OF assms(1-3)] by blast
qed

text \<open>A validator that applies the rules: absent keys get their default, numbers are read from digits.\<close>

definition sample_values :: "(jstring \<times> env_rule) list \<Rightarrow> (jstring \<Rightarrow> jstring option) \<Rightarrow> env_values" where
  "sample_values rules raw k =
     (case map_of rules k of
        Some (NumberRule _ _ d) \<Rightarrow> Some (EnvNumber (case raw k of Some s \<Rightarrow> digits_value s | None \<Rightarrow> d))
      | Some (TextRule t) \<Rightarrow> map_option EnvText (case raw k of Some s \<Rightarrow> Some s | None \<Rightarrow> tr_default t)
      | _ \<Rightarrow> map_option EnvText (raw k))"

definition sample_joi :: "(jstring \<times> env_rule) list \<Rightarrow> (jstring \<Rightarrow> jstring option) \<Rightarrow> string + env_values" where
  "sample_joi rules raw = (if list_all (\<lambda>(k, r). satisfies r (sample_values rules raw k)) rules
     then Inr (sample_values rules raw) else Inl ''invalid'')"

definition sample_environment :: "jstring \<Rightarrow> jstring option" where
  "sample_environment = map_of
     [(js ''NODE_ENV'', js ''production''), (js ''DATABASE_URL'', js ''postgresql://db''), (js ''JWT_SECRET'', replicate 16 97),
      (js ''AUTH_DEVICE_IDENTIFIER_SECRET'', replicate 32 98), (js ''NOTIFICATION_PAYLOAD_ENCRYPTION_KEY'', replicate 32 99),
      (js ''AUTH_OTP_VERIFICATION_ENCRYPTION_KEY'', replicate 32 100), (js ''SMS_PROVIDER'', js ''termii''),
      (js ''TERMII_API_KEY'', js ''k''), (js ''TERMII_SENDER_ID'', js ''s'')]"

lemmas sample_defs = env_rules_def sample_values_def sample_environment_def choice_rule_def secret_rule_def default_rule_def
  optional_rule_def any_text_def env_text_value_def truthy_def

lemma production_hides_codes_witness:
  "buildOtpRequestResponse (sample_auth\<lparr>config_text := env_text_value (sample_values env_rules sample_environment)\<rparr>)
     (Some (js ''123456'')) = None"
proof -
  let ?v = "sample_values env_rules sample_environment"
  let ?e = "sample_sms\<lparr>config_get := env_text_value ?v, to_lower := (\<lambda>s. s)\<rparr>"
  let ?a = "sample_auth\<lparr>config_text := env_text_value ?v\<rparr>"
  have rules: "joi_applies_rules sample_joi"
    by (auto simp: joi_applies_rules_def sample_joi_def split: if_splits)
  have passed: "list_all (\<lambda>(k, r). satisfies r (?v k)) env_rules"
    by (simp add: sample_defs)
  have texts: "env_text_value ?v (js ''SMS_PROVIDER'') = Some (js ''termii'')" "env_text_value ?v (js ''DEV_EXPOSE_OTP'') = Some (js ''false'')"
    "env_text_value ?v (js ''NODE_ENV'') = Some (js ''production'')" "env_text_value ?v (js ''TERMII_API_KEY'') = Some (js ''k'')"
    "env_text_value ?v (js ''TERMII_SENDER_ID'') = Some (js ''s'')"
    by (simp_all add: sample_defs)
  have "env_secrets ?v = [replicate 16 97, replicate 32 98, replicate 32 99, replicate 32 100]"
    unfolding env_secrets_def by (simp add: sample_defs)
  then have secrets: "card (set (env_secrets ?v)) = length (env_secrets ?v)"
    by (simp add: numeral_eq_Suc)
  have "check_environment (\<lambda>s. s) ?v = Inr ?v"
    unfolding check_environment_def Let_def or_default_def truthy_def texts using secrets by simp
  then have "envSchema sample_joi (to_lower ?e) sample_environment = Inr ?v"
    using passed by (simp add: envSchema_def sample_joi_def)
  from production_hides_codes [OF rules this, of ?a "Some (js ''123456'')"] texts(3) show ?thesis
    by (simp add: configured_def)
qed

end
