(* ===== verification/Mobile_Forms.thy ===== *)
theory Mobile_Forms
  imports Import_Parser Goals Transactions
begin

text \<open>
  The forms of the mobile app: amounts and dates typed by the user
  (\<open>mobile/src/lib/transactions.ts\<close>), the goal form (\<open>goal-form.ts\<close>), telephone numbers, countries
  and codes (\<open>phone.ts\<close>, \<open>countries.ts\<close>, \<open>otp-request.ts\<close>, \<open>otp.ts\<close>), and the texts shown for
  errors (\<open>auth-feedback.ts\<close>, \<open>transaction-import-feedback.ts\<close>) and picked files
  (\<open>transaction-import-file.ts\<close>).
\<close>

section \<open>Transactions\<close>

definition filterTransactions :: "transaction_view list \<Rightarrow> direction option \<Rightarrow> transaction_view list" where
  "filterTransactions txs choice = (case choice of None \<Rightarrow> txs | Some d \<Rightarrow> filter (\<lambda>t. tv_direction t = d) txs)"

definition calculateNetKobo :: "transaction_view list \<Rightarrow> rat" where
  "calculateNetKobo txs = fold (\<lambda>t total. fl (total + (if tv_direction t = DirIn then tv_amountKobo t else - tv_amountKobo t))) txs 0"

definition replaceTransactionInList :: "transaction_view list option \<Rightarrow> transaction_view \<Rightarrow> transaction_view list" where
  "replaceTransactionInList txs updated =
     (case txs of
        None \<Rightarrow> [updated]
      | Some ts \<Rightarrow>
          if ts = [] then [updated]
          else if index_of (map tv_id ts) (tv_id updated) = None then ts @ [updated]
          else map (\<lambda>t. if tv_id t = tv_id updated then updated else t) ts)"

text \<open>\<open>toLocale\<close>: the digits of the locale, with two of them after the point.\<close>

definition formatKoboAsNaira :: "(rat \<Rightarrow> jstring) \<Rightarrow> rat \<Rightarrow> jstring" where
  "formatKoboAsNaira toLocale amountKobo =
     (if amountKobo < 0 then js ''-'' else []) @ [unit_naira] @ toLocale (fl (\<bar>amountKobo\<bar> / 100))"

definition datePartsToInput :: "int \<Rightarrow> int \<Rightarrow> int \<Rightarrow> jstring" where
  "datePartsToInput year month day =
     join (js ''-'') [pad_start 4 (digit 0) (int_text year), pad_start 2 (digit 0) (int_text month), pad_start 2 (digit 0) (int_text day)]"

definition isoToDateInput :: "jstring \<Rightarrow> jstring" where
  "isoToDateInput occurredAt = take 10 occurredAt"

definition dateInputToIso :: "jstring \<Rightarrow> jstring option" where
  "dateInputToIso value =
     (case iso_shape value of
        None \<Rightarrow> None
      | Some (y, m, d) \<Rightarrow>
          (case noon_of (digits_value y) (digits_value m) (digits_value d) of
             None \<Rightarrow> None
           | Some date \<Rightarrow> if take 10 (to_iso_string date) \<noteq> value then None else Some (to_iso_string date)))"

definition resolveTransactionGoalId :: "jstring option \<Rightarrow> bool \<Rightarrow> jstring option \<Rightarrow> jstring option" where
  "resolveTransactionGoalId currentGoalId tagGoal activeGoalId =
     (if tagGoal then (case activeGoalId of Some i \<Rightarrow> Some i | None \<Rightarrow> currentGoalId) else None)"

definition math_trunc :: "rat \<Rightarrow> int" where
  "math_trunc x = (if x < 0 then \<lceil>x\<rceil> else \<lfloor>x\<rfloor>)"

text \<open>The amount is an integer, so the remainder is one.\<close>

definition koboToNairaInput :: "rat \<Rightarrow> jstring" where
  "koboToNairaInput amountKobo =
     (let whole = math_trunc (fl (amountKobo / 100));
          fraction = \<bar>amountKobo - 100 * of_int (math_trunc (amountKobo / 100))\<bar>
      in if fraction = 0 then int_text whole
         else int_text whole @ [unit_dot] @ pad_start 2 (digit 0) (int_text \<lfloor>fraction\<rfloor>))"

text \<open>\<open>/^\d+(?:\.\d{1,2})?$/\<close>\<close>

definition naira_shape :: "jstring \<Rightarrow> bool" where
  "naira_shape s = (case split_on unit_dot s of
     [w] \<Rightarrow> w \<noteq> [] \<and> list_all is_digit w
   | [w, f] \<Rightarrow> w \<noteq> [] \<and> list_all is_digit w \<and> digits_between 1 2 f
   | _ \<Rightarrow> False)"

definition strip_commas :: "jstring \<Rightarrow> jstring" where
  "strip_commas s = filter (\<lambda>c. c \<noteq> unit_comma) s"

definition naira_kobo :: "jstring \<Rightarrow> int" where
  "naira_kobo normalized =
     (let parts = split_on unit_dot normalized
      in digits_value (hd parts) * 100 + digits_value (pad_end 2 (digit 0) (field_at parts 1)))"

definition nairaInputToKobo :: "jstring \<Rightarrow> int option" where
  "nairaInputToKobo value =
     (let normalized = strip_commas (trim value)
      in if \<not> naira_shape normalized then None
         else if naira_kobo normalized \<le> 0 \<or> naira_kobo normalized > MAX_SAFE_INTEGER then None
         else Some (naira_kobo normalized))"

record transaction_update_form =
  tf_direction :: direction
  tf_amountNaira :: jstring
  tf_occurredOn :: jstring
  tf_note :: jstring
  tf_tagGoal :: bool
  tf_goalSelectionChanged :: bool
  tf_currentGoalId :: "jstring option"
  tf_activeGoalId :: "jstring option"

definition buildTransactionUpdatePayload :: "transaction_update_form \<Rightarrow> update_transaction_dto option" where
  "buildTransactionUpdatePayload form =
     (case (nairaInputToKobo (tf_amountNaira form), dateInputToIso (tf_occurredOn form)) of
        (Some amountKobo, Some occurredAt) \<Rightarrow>
          if tf_goalSelectionChanged form \<and> tf_tagGoal form \<and> \<not> truthy (tf_activeGoalId form) then None
          else (let target = resolveTransactionGoalId (tf_currentGoalId form) (tf_tagGoal form) (tf_activeGoalId form)
                in Some \<lparr>ut_direction = Value (tf_direction form), ut_amountKobo = Value amountKobo, ut_occurredAt = Value occurredAt,
                     ut_goalId = (if tf_goalSelectionChanged form \<and> target \<noteq> tf_currentGoalId form
                                  then (case target of None \<Rightarrow> Null | Some i \<Rightarrow> Value i) else Undefined),
                     ut_note = (if trim (tf_note form) = [] then Null else Value (trim (tf_note form)))\<rparr>)
      | _ \<Rightarrow> None)"

section \<open>Goals\<close>

record goal_form_fields =
  gf_name :: jstring
  gf_amountNaira :: jstring
  gf_dueOn :: jstring
  gf_monthlyIncomeNaira :: jstring

text \<open>\<open>undefined\<close> for a blank field, \<open>null\<close> for one that is not an amount.\<close>

definition optionalNairaInputToKobo :: "jstring \<Rightarrow> int field" where
  "optionalNairaInputToKobo value =
     (let normalized = strip_commas (trim value)
      in if normalized = [] then Undefined
         else if \<not> naira_shape normalized \<or> naira_kobo normalized > MAX_SAFE_INTEGER then Null
         else Value (naira_kobo normalized))"

definition goalFormValidationError :: "goal_form_fields \<Rightarrow> string" where
  "goalFormValidationError form =
     (if trim (gf_name form) = [] then ''Goal name is required''
      else if nairaInputToKobo (gf_amountNaira form) = None then ''Enter a goal amount greater than zero''
      else if dateInputToIso (gf_dueOn form) = None then ''Enter a valid due date as YYYY-MM-DD''
      else if optionalNairaInputToKobo (gf_monthlyIncomeNaira form) = Null then ''Enter a valid monthly income or leave it blank''
      else [])"

record goal_fields =
  go_name :: jstring
  go_amountTotalKobo :: int
  go_dueDate :: jstring
  go_monthlyIncomeKobo :: "int option" \<comment> \<open>none for \<open>undefined\<close>\<close>

definition buildGoalFields :: "goal_form_fields \<Rightarrow> goal_fields option" where
  "buildGoalFields form =
     (if goalFormValidationError form \<noteq> [] then None
      else (case (nairaInputToKobo (gf_amountNaira form), dateInputToIso (gf_dueOn form), optionalNairaInputToKobo (gf_monthlyIncomeNaira form)) of
              (Some amount, Some due, Value income) \<Rightarrow>
                Some \<lparr>go_name = trim (gf_name form), go_amountTotalKobo = amount, go_dueDate = due, go_monthlyIncomeKobo = Some income\<rparr>
            | (Some amount, Some due, Undefined) \<Rightarrow>
                Some \<lparr>go_name = trim (gf_name form), go_amountTotalKobo = amount, go_dueDate = due, go_monthlyIncomeKobo = None\<rparr>
            | _ \<Rightarrow> None))"

definition buildCreateGoalPayload :: "goal_form_fields \<Rightarrow> create_goal_dto option" where
  "buildCreateGoalPayload form = map_option (\<lambda>g.
     \<lparr>cg_name = go_name g, cg_amountTotalKobo = go_amountTotalKobo g, cg_dueDate = go_dueDate g,
      cg_monthlyIncomeKobo = (case go_monthlyIncomeKobo g of None \<Rightarrow> Undefined | Some n \<Rightarrow> Value n)\<rparr>) (buildGoalFields form)"

definition buildUpdateGoalPayload :: "goal_form_fields \<Rightarrow> update_goal_dto option" where
  "buildUpdateGoalPayload form = map_option (\<lambda>g.
     \<lparr>ug_name = Value (go_name g), ug_amountTotalKobo = Value (go_amountTotalKobo g), ug_dueDate = Value (go_dueDate g),
      ug_monthlyIncomeKobo = (case go_monthlyIncomeKobo g of None \<Rightarrow> Null | Some n \<Rightarrow> Value n), ug_isActive = Undefined\<rparr>) (buildGoalFields form)"

definition goalToFormFields :: "goal_view \<Rightarrow> goal_form_fields" where
  "goalToFormFields goal =
     \<lparr>gf_name = gv_name goal, gf_amountNaira = koboToNairaInput (gv_amountTotalKobo goal), gf_dueOn = take 10 (gv_dueDate goal),
      gf_monthlyIncomeNaira = (case gv_monthlyIncomeKobo goal of None \<Rightarrow> [] | Some k \<Rightarrow> koboToNairaInput k)\<rparr>"

section \<open>An amount shown and typed in again\<close>

lemma trunc_hundredth:
  assumes "0 \<le> k" and "k \<le> MAX_SAFE_INTEGER"
  shows "math_trunc (fl (of_int k / 100)) = k div 100"
proof -
  let ?x = "of_int k / 100 :: rat" and ?q = "k div 100"
  have kb: "k < 2 ^ 53" using assms(2) by (simp add: MAX_SAFE_INTEGER_def)
  have k: "of_int k = (of_int ?q * 100 + of_int (k mod 100) :: rat)"
    by (metis div_mult_mod_eq of_int_add of_int_mult of_int_numeral)
  have r: "(0 :: rat) \<le> of_int (k mod 100)" "of_int (k mod 100) \<le> (99 :: rat)"
    using pos_mod_bound [of 100 k] by simp_all
  have q: "0 \<le> ?q" "\<bar>?q\<bar> \<le> 2 ^ 53" using assms kb by simp_all
  have "fl (of_int ?q) \<le> fl ?x" using k r by (intro fl_mono) (simp add: field_simps)
  then have low: "of_int ?q \<le> fl ?x" using fl_of_int [OF q(2)] by simp
  have "?x * pow2 (- 53) < 1 / 100"
  proof -
    have "(of_int k :: rat) < 2 ^ 53" using kb by (metis of_int_less_iff of_int_numeral of_int_power)
    then show ?thesis by (simp add: pow2_def field_simps)
  qed
  then have "?x * (1 + pow2 (- 53)) < ?x + 1 / 100" by (simp add: algebra_simps)
  moreover have "fl ?x \<le> ?x * (1 + pow2 (- 53))" by (rule fl_relative_error) (use assms in simp)
  moreover have "?x \<le> of_int ?q + 99 / 100" using k r by (simp add: field_simps)
  ultimately have "fl ?x < of_int ?q + 1" by linarith
  then have "\<lfloor>fl ?x\<rfloor> = ?q" using low by linarith
  then show ?thesis using low q(1) by (simp add: math_trunc_def not_less [symmetric])
qed

lemma kobo_input_text:
  assumes "0 \<le> k" and "k \<le> MAX_SAFE_INTEGER"
  shows "koboToNairaInput (of_int k) = (if k mod 100 = 0 then dec (k div 100) else naira_text k)"
proof -
  have "math_trunc (of_int k / 100) = k div 100"
    using assms(1) by (simp add: math_trunc_def floor_divide_of_int_eq [of k 100, simplified])
  moreover have "of_int k - 100 * of_int (k div 100) = (of_int (k mod 100) :: rat)"
    by (metis minus_div_mult_eq_mod mult.commute of_int_diff of_int_mult of_int_numeral)
  ultimately have "\<bar>of_int k - 100 * of_int (math_trunc (of_int k / 100)) :: rat\<bar> = of_int (k mod 100)" by simp
  then show ?thesis
    using assms by (simp add: koboToNairaInput_def Let_def trunc_hundredth int_text_def naira_text_def pad2_def pos_imp_zdiv_neg_iff)
qed

lemma typed_amount:
  assumes "0 \<le> k" and "k \<le> MAX_SAFE_INTEGER"
  defines "v \<equiv> koboToNairaInput (of_int k)"
  shows "strip_commas (trim v) = v" and "naira_shape v" and "naira_kobo v = k" and "v \<noteq> []"
proof -
  let ?w = "dec (k div 100)" and ?f = "pad2 (k mod 100)"
  note p = naira_text_parts [OF assms(1)]
  have f: "list_all is_digit ?f" "length ?f = 2" using p(2) by (simp_all add: digits_between_def)
  have v: "v = (if k mod 100 = 0 then ?w else ?w @ [unit_dot] @ ?f)"
    using kobo_input_text [OF assms(1,2)] by (simp add: v_def naira_text_def)
  have ends: "is_digit (hd v)" "is_digit (last v)"
    using dec_hd_last [of "k div 100"] assms(1) f by (auto simp: v hd_append list_all_iff intro!: last_in_set)
  show "v \<noteq> []" by (simp add: v)
  moreover have "strip_commas v = v"
    using digits_no_sep(2) [OF p(1)] digits_no_sep(2) [OF f(1)] by (simp add: strip_commas_def v unit_dot_def unit_comma_def)
  ultimately show "strip_commas (trim v) = v" using trim_id [of v] ends is_digit_props by simp
  have split: "split_on unit_dot v = (if k mod 100 = 0 then [?w] else [?w, ?f])"
    using digits_no_sep(1) [OF p(1)] digits_no_sep(1) [OF f(1)] by (simp add: v split_on_append split_on_no_sep)
  show "naira_shape v" using p f by (simp add: naira_shape_def split digits_between_def)
  have zero: "digits_value (replicate 2 (digit 0)) = 0" by code_simp
  have kk: "k div 100 * 100 + k mod 100 = k" by simp
  show "naira_kobo v = k"
  proof (cases "k mod 100 = 0")
    case True
    then show ?thesis using p(3) kk zero by (simp add: naira_kobo_def Let_def split field_at_def pad_end_def)
  next
    case False
    then show ?thesis using p(3,4) kk f(2) by (simp add: naira_kobo_def Let_def split field_at_def pad_end_def)
  qed
qed

lemma amount_typed_again:
  assumes "1 \<le> k" and "k \<le> MAX_SAFE_INTEGER"
  shows "nairaInputToKobo (koboToNairaInput (of_int k)) = Some k"
  using assms typed_amount [of k] by (simp add: nairaInputToKobo_def Let_def)

lemma income_typed_again:
  assumes "0 \<le> k" and "k \<le> MAX_SAFE_INTEGER"
  shows "optionalNairaInputToKobo (koboToNairaInput (of_int k)) = Value k"
  using assms typed_amount [OF assms] by (simp add: optionalNairaInputToKobo_def Let_def)

section \<open>A date shown and typed in again\<close>

text \<open>Noon UTC of the day of an instant.\<close>

definition noon :: "ms \<Rightarrow> ms" where
  "noon t = t div ms_per_day * ms_per_day + 43200000"

lemma date_typed_again:
  assumes "four_digit_year t"
  shows "dateInputToIso (take 10 (to_iso_string t)) = Some (to_iso_string (noon t))"
proof -
  let ?day = "t div ms_per_day"
  have r: "0 \<le> year_of_day ?day" "year_of_day ?day \<le> 9999" using assms by (simp_all add: four_digit_year_def)
  have v: "take 10 (to_iso_string t) = iso_date ?day"
    using to_iso_string_date [of t] length_iso_date [OF r] by auto
  from iso_date_shape [OF r] obtain y m d where
    s: "valid_date y m d" "days_from_civil y m d = ?day" "iso_shape (iso_date ?day) = Some (iso_year y, pad2 m, pad2 d)"
    "digits_value (iso_year y) = y" "digits_value (pad2 m) = m" "digits_value (pad2 d) = d" by metis
  then show ?thesis
    using valid_date_bounds [OF s(1)] noon_date [OF r] by (simp add: dateInputToIso_def v noon_of_def noon_def)
qed

section \<open>The goal form\<close>

text \<open>The goal as the update leaves it: the due date moves to noon of its day.\<close>

definition noon_due :: "goal_row \<Rightarrow> goal_row" where
  "noon_due g = g\<lparr>g_dueDate := noon (g_dueDate g)\<rparr>"

definition editable_goal :: "goal_row \<Rightarrow> bool" where
  "editable_goal g \<longleftrightarrow> g_name g \<noteq> [] \<and> trim (g_name g) = g_name g \<and> 1 \<le> g_amountTotalKobo g \<and> g_amountTotalKobo g \<le> MAX_SAFE_INTEGER
     \<and> (case g_monthlyIncomeKobo g of None \<Rightarrow> True | Some n \<Rightarrow> 0 \<le> n \<and> n \<le> MAX_SAFE_INTEGER) \<and> four_digit_year (g_dueDate g)"

lemma to_number_safe: "0 \<le> n \<Longrightarrow> n \<le> MAX_SAFE_INTEGER \<Longrightarrow> to_number n = of_int n"
  by (simp add: to_number_def fl_of_int MAX_SAFE_INTEGER_def)

lemma unchanged_form_payload:
  assumes "editable_goal g"
  shows "buildUpdateGoalPayload (goalToFormFields (serializeGoal g)) =
    Some \<lparr>ug_name = Value (g_name g), ug_amountTotalKobo = Value (g_amountTotalKobo g),
      ug_dueDate = Value (to_iso_string (noon (g_dueDate g))),
      ug_monthlyIncomeKobo = (case g_monthlyIncomeKobo g of None \<Rightarrow> Null | Some n \<Rightarrow> Value n), ug_isActive = Undefined\<rparr>"
proof -
  let ?f = "goalToFormFields (serializeGoal g)"
  have g: "g_name g \<noteq> []" "trim (g_name g) = g_name g" "1 \<le> g_amountTotalKobo g" "g_amountTotalKobo g \<le> MAX_SAFE_INTEGER"
    "four_digit_year (g_dueDate g)"
    using assms by (simp_all add: editable_goal_def)
  have amount: "nairaInputToKobo (gf_amountNaira ?f) = Some (g_amountTotalKobo g)"
    using amount_typed_again [OF g(3,4)] to_number_safe [of "g_amountTotalKobo g"] g(3,4) by (simp add: goalToFormFields_def serializeGoal_def)
  have due: "dateInputToIso (gf_dueOn ?f) = Some (to_iso_string (noon (g_dueDate g)))"
    using date_typed_again [OF g(5)] by (simp add: goalToFormFields_def serializeGoal_def)
  have name: "gf_name ?f = g_name g" by (simp add: goalToFormFields_def serializeGoal_def)
  have blank: "optionalNairaInputToKobo [] = Undefined"
    by (simp add: optionalNairaInputToKobo_def strip_commas_def)
  have income: "optionalNairaInputToKobo (gf_monthlyIncomeNaira ?f) = (case g_monthlyIncomeKobo g of None \<Rightarrow> Undefined | Some n \<Rightarrow> Value n)"
    using assms income_typed_again to_number_safe blank
    by (auto simp: goalToFormFields_def serializeGoal_def editable_goal_def split: option.splits)
  show ?thesis
    using g(1,2) amount due income
    by (cases "g_monthlyIncomeKobo g")
      (simp_all add: buildUpdateGoalPayload_def buildGoalFields_def goalFormValidationError_def name)
qed

lemma big_int_safe: "0 \<le> n \<Longrightarrow> n \<le> MAX_SAFE_INTEGER \<Longrightarrow> big_int_column n = Inr n"
  by (simp add: big_int_column_def MAX_SAFE_INTEGER_def)

lemma noon_four_digit: "four_digit_year t \<Longrightarrow> four_digit_year (noon t)"
  by (simp add: four_digit_year_def noon_def noon_div)

lemma update_many_cong: "(\<And>r. r \<in> set rows \<Longrightarrow> p r \<Longrightarrow> f r = f' r) \<Longrightarrow> update_many p f rows = update_many p f' rows"
  by (simp add: update_many_def)

text \<open>
  C20. Saving the goal form without a change changes nothing but the time of day: the amounts
  pass through the texts of the form and back exactly, and the due date becomes noon of its day.
\<close>

theorem unchanged_goal_form:
  assumes "own_goal d (g_id g) u = Some g" and "distinct (map g_id (goals d))" and "editable_goal g" and "parses_iso new_date"
  shows "\<exists>payload. buildUpdateGoalPayload (goalToFormFields (serializeGoal g)) = Some payload
     \<and> update_goal new_date d u (g_id g) replacedAt now payload
       = (Inr (serializeGoal (noon_due g)), d\<lparr>goals := update_many (\<lambda>h. g_id h = g_id g) noon_due (goals d)\<rparr>)"
proof -
  let ?payload = "\<lparr>ug_name = Value (g_name g), ug_amountTotalKobo = Value (g_amountTotalKobo g),
      ug_dueDate = Value (to_iso_string (noon (g_dueDate g))),
      ug_monthlyIncomeKobo = (case g_monthlyIncomeKobo g of None \<Rightarrow> Null | Some n \<Rightarrow> Value n), ug_isActive = Undefined\<rparr>"
  have e: "1 \<le> g_amountTotalKobo g" "g_amountTotalKobo g \<le> MAX_SAFE_INTEGER"
    "case g_monthlyIncomeKobo g of None \<Rightarrow> True | Some n \<Rightarrow> 0 \<le> n \<and> n \<le> MAX_SAFE_INTEGER" "four_digit_year (g_dueDate g)"
    using assms(3) by (simp_all add: editable_goal_def)
  let ?income = "case g_monthlyIncomeKobo g of None \<Rightarrow> Null | Some n \<Rightarrow> Value n"
  have date: "given_date new_date (Value (to_iso_string (noon (g_dueDate g)))) = Inr (Some (noon (g_dueDate g)))"
    using assms(4) noon_four_digit [OF e(4)] by (simp add: parses_iso_def)
  have amount: "given_bigint (Value (g_amountTotalKobo g)) = Inr (Some (g_amountTotalKobo g))"
    using e(1,2) by (simp add: big_int_safe)
  have income: "income_data ?income = Inr ?income"
    using e(3) by (auto simp: income_data_def big_int_safe split: option.splits)
  let ?change = "changed_goal ?payload (g_isActive g) now (Some (g_amountTotalKobo g)) (Some (noon (g_dueDate g))) ?income (Some (g_name g)) None"
  have change: "?change g = noon_due g"
    by (cases "g_monthlyIncomeKobo g") (simp_all add: changed_goal_def noon_due_def)
  have mem: "g \<in> set (goals d)" using assms(1) find_first_Some unfolding own_goal_def by fast
  have same: "h = g" if "h \<in> set (goals d)" "g_id h = g_id g" for h
    using assms(2) mem that by (metis distinct_map inj_on_eq_iff)
  have "update_many (\<lambda>h. g_id h = g_id g) ?change (goals d) = update_many (\<lambda>h. g_id h = g_id g) noon_due (goals d)"
    by (rule update_many_cong) (metis same change)
  then have "update_goal new_date d u (g_id g) replacedAt now ?payload
       = (Inr (serializeGoal (noon_due g)), d\<lparr>goals := update_many (\<lambda>h. g_id h = g_id g) noon_due (goals d)\<rparr>)"
    using date amount income change by (simp add: update_goal_def assms(1))
  then show ?thesis using unchanged_form_payload [OF assms(3)] by blast
qed

theorem unchanged_goal_form_witness:
  "\<exists>payload. buildUpdateGoalPayload (goalToFormFields (serializeGoal sample_goal)) = Some payload
     \<and> update_goal parse_iso one_goal_db (js ''u1'') (js ''g1'') 5 6 payload
       = (Inr (serializeGoal (noon_due sample_goal)), one_goal_db\<lparr>goals := [noon_due sample_goal]\<rparr>)"
proof -
  have i: "g_id sample_goal = js ''g1''" by (simp add: sample_goal_def new_goal_def)
  have "own_goal one_goal_db (g_id sample_goal) (js ''u1'') = Some sample_goal" "distinct (map g_id (goals one_goal_db))"
    by (simp_all add: own_goal_def find_first_def one_goal_db_def sample_goal_def new_goal_def)
  moreover have "editable_goal sample_goal" by code_simp
  ultimately show ?thesis
    using unchanged_goal_form [OF _ _ _ parses_iso_parse_iso, of one_goal_db sample_goal "js ''u1''" 5 6]
    by (simp add: i one_goal_db_def update_many_def)
qed

section \<open>The net amount on the screen\<close>

definition view_signed :: "transaction_view \<Rightarrow> rat" where
  "view_signed t = (if tv_direction t = DirIn then tv_amountKobo t else - tv_amountKobo t)"

text \<open>The sum on the screen is the exact sum of the ledger while the amounts stay in range.\<close>

lemma abs_le_sum_list: "k \<in> set ks \<Longrightarrow> \<bar>k :: int\<bar> \<le> sum_list (map abs ks)"
proof (induction ks)
  case (Cons x xs)
  have "0 \<le> sum_list (map abs xs)" by (rule sum_list_nonneg) auto
  with Cons show ?case by auto
qed simp

lemma net_kobo_exact:
  assumes "map view_signed txs = map of_int ks" and "sum_list (map abs ks) \<le> 2 ^ 53"
  shows "calculateNetKobo txs = of_int (sum_list ks)"
proof -
  have bound: "\<bar>k\<bar> \<le> 2 ^ 53" if "k \<in> set ks" for k
    using abs_le_sum_list [OF that] assms(2) by simp
  have "calculateNetKobo txs = fold (\<lambda>x acc. fl (acc + x)) (map view_signed txs) 0"
    by (simp add: calculateNetKobo_def view_signed_def fold_map comp_def)
  also have "\<dots> = fold (\<lambda>k acc. fl (acc + fl (of_int k))) ks (of_int 0)"
    unfolding assms(1) fold_map by (intro fold_cong) (use bound in \<open>simp_all add: comp_def fl_of_int\<close>)
  also have "\<dots> = of_int (0 + sum_list ks)" by (rule ieee.rounded_fold_exact) (use assms(2) in simp)
  finally show ?thesis by simp
qed

section \<open>Importing a file\<close>

text \<open>\<open>num_text\<close> is \<open>String(number)\<close>.\<close>

definition formatImportPreviewSummary :: "nat \<Rightarrow> nat \<Rightarrow> nat \<Rightarrow> jstring" where
  "formatImportPreviewSummary ready duplicate invalid =
     (let dot = js '' '' @ [183] @ js '' ''
      in int_text (int ready) @ js '' ready to import'' @ dot @ int_text (int duplicate) @ js '' already imported'' @ dot
         @ int_text (int invalid) @ js '' '' @ (if invalid = 1 then js ''needs fixing'' else js ''need fixing''))"

definition readConfirmRowNumbers :: "json option \<Rightarrow> rat list" where
  "readConfirmRowNumbers details =
     (case details of
        Some (JObject members) \<Rightarrow>
          (case json_get (JObject members) (js ''rowNumbers'') of
             Some (JArray xs) \<Rightarrow> concat (map (\<lambda>x. case x of JNumber n \<Rightarrow> [n] | _ \<Rightarrow> []) xs)
           | _ \<Rightarrow> [])
      | _ \<Rightarrow> [])"

text \<open>\<open>replace(/\.\s*$/, '')\<close>\<close>

definition drop_final_dot :: "jstring \<Rightarrow> jstring" where
  "drop_final_dot s =
     (let t = rev (dropWhile is_space (rev s)) in if t \<noteq> [] \<and> last t = unit_dot then butlast t else s)"

definition formatConfirmImportError :: "(rat \<Rightarrow> jstring) \<Rightarrow> jstring \<Rightarrow> json option \<Rightarrow> jstring" where
  "formatConfirmImportError num_text message details =
     (let rowNumbers = readConfirmRowNumbers details
      in if rowNumbers = [] then message
         else drop_final_dot message @ js '' (rows '' @ join (js '', '') (map num_text rowNumbers) @ js '').'')"

definition MAX_CSV_CHARACTERS :: nat where "MAX_CSV_CHARACTERS = 200000"

datatype picked_csv = PickCanceled | PickRefused string | Picked jstring jstring

text \<open>\<open>asset\<close>: the picked file's name and its text, none when it cannot be read.\<close>

definition pickTransactionCsv :: "(jstring \<Rightarrow> jstring) \<Rightarrow> (jstring \<times> jstring option) option \<Rightarrow> picked_csv" where
  "pickTransactionCsv lower asset =
     (case asset of
        None \<Rightarrow> PickCanceled
      | Some (name, content) \<Rightarrow>
          if \<not> (4 \<le> length (lower name) \<and> drop (length (lower name) - 4) (lower name) = js ''.csv'')
          then PickRefused ''Choose a file with a .csv extension.''
          else (case content of
                  None \<Rightarrow> PickRefused ''Unable to read that CSV file. Close other apps using it, or export the statement again.''
                | Some csv \<Rightarrow>
                    if trim csv = [] then PickRefused ''That CSV file is empty. Export a statement that includes at least one transaction row, then try again.''
                    else if length csv > MAX_CSV_CHARACTERS
                    then PickRefused ''That CSV is too large (over 200,000 characters). Export a smaller date range, then try again.''
                    else Picked name csv))"

text \<open>A file the app picks passes the validation of the import request.\<close>

lemma picked_file_valid:
  assumes "pickTransactionCsv lower asset = Picked name csv"
  shows "valid_preview_import \<lparr>pi_csv = csv, pi_goalId = Undefined\<rparr>"
proof -
  have "trim csv \<noteq> []" "length csv \<le> 200000"
    using assms by (auto simp: pickTransactionCsv_def MAX_CSV_CHARACTERS_def split: option.splits if_splits)
  then have "csv \<noteq> []" by auto
  then have "0 < length csv" by simp
  then show ?thesis using \<open>length csv \<le> 200000\<close> unfolding valid_preview_import_def by (simp add: Suc_le_eq)
qed

end
