(* ===== verification/Screen_Import.thy ===== *)
theory Screen_Import
  imports Mobile_Forms
begin

text \<open>
  The import screen of the app, \<open>mobile/app/(app)/import-transactions.tsx\<close>: a file is picked and
  previewed by the API, rows are selected, and the selection is confirmed. The screen is a state;
  a press, the end of a pick and the answer to a request are events. Rendering is left out, the
  conditions under which a control is shown and enabled are the guards of its event.
\<close>

section \<open>The state of the screen\<close>

text \<open>
  \<open>is_picking\<close> counts the calls of \<open>chooseFile\<close> that wait for the picker or for the file to be read.
  A preview under way is its text and whether the mutation still observes it: a later call of
  \<open>mutate\<close> or \<open>reset\<close> observes another one, but the answer is handled all the same. A \<open>Set\<close> is the
  list of its members in the order of insertion.
\<close>

record import_screen =
  is_fileName :: jstring
  is_csv :: jstring
  is_preview :: "import_preview option"
  is_selected :: "int list"
  is_tagGoal :: bool
  is_fileError :: string
  is_result :: "import_result option"
  is_picking :: nat
  is_previewing :: "(jstring \<times> bool) list"
  is_confirming :: "confirm_import_dto option"

definition import_screen_start :: import_screen where
  "import_screen_start = \<lparr>is_fileName = [], is_csv = [], is_preview = None, is_selected = [], is_tagGoal = False,
     is_fileError = [], is_result = None, is_picking = 0, is_previewing = [], is_confirming = None\<rparr>"

datatype import_screen_event =
    ChooseFile
  | FilePicked picked_csv
  | PreviewAnswered nat "string + import_preview"
  | ToggleRow int
  | ToggleGoal
  | PressConfirm
  | ConfirmAnswered "string + import_result"

section \<open>What the screen does\<close>

definition js_set :: "'a list \<Rightarrow> 'a list" where
  "js_set xs = rev (remdups (rev xs))"

definition unavailable :: "import_row \<Rightarrow> bool" where
  "unavailable row \<longleftrightarrow> truthy (ir_error row) \<or> ir_duplicate row"

definition ready_numbers :: "import_preview \<Rightarrow> int list" where
  "ready_numbers pv = map ir_rowNumber (filter (\<lambda>row. \<not> unavailable row) (pv_rows pv))"

definition preview_pending :: "import_screen \<Rightarrow> bool" where
  "preview_pending s \<longleftrightarrow> list_ex snd (is_previewing s)"

definition import_busy :: "import_screen \<Rightarrow> bool" where
  "import_busy s \<longleftrightarrow> preview_pending s \<or> is_confirming s \<noteq> None"

definition selectedTotalKobo :: "import_screen \<Rightarrow> rat" where
  "selectedTotalKobo s =
     (case is_preview s of
        None \<Rightarrow> 0
      | Some pv \<Rightarrow> fold (\<lambda>row total. case ir_amountKobo row of
            Some k \<Rightarrow> if ir_rowNumber row \<in> set (is_selected s) then fl (total + of_int k) else total
          | None \<Rightarrow> total) (pv_rows pv) 0)"

definition unobserved :: "(jstring \<times> bool) list \<Rightarrow> (jstring \<times> bool) list" where
  "unobserved ps = map (\<lambda>(csv, _). (csv, False)) ps"

definition chooseFile :: "import_screen \<Rightarrow> import_screen" where
  "chooseFile s = s\<lparr>is_fileError := [], is_result := None, is_previewing := unobserved (is_previewing s),
     is_picking := Suc (is_picking s)\<rparr>"

definition file_picked :: "picked_csv \<Rightarrow> import_screen \<Rightarrow> import_screen" where
  "file_picked picked s0 =
     (let s = s0\<lparr>is_picking := is_picking s0 - 1\<rparr>
      in case picked of
           PickCanceled \<Rightarrow> s
         | PickRefused message \<Rightarrow> s\<lparr>is_fileError := message\<rparr>
         | Picked name csv \<Rightarrow> s\<lparr>is_preview := None, is_selected := [], is_fileName := name, is_csv := csv,
             is_previewing := unobserved (is_previewing s) @ [(csv, True)]\<rparr>)"

definition preview_answered :: "nat \<Rightarrow> string + import_preview \<Rightarrow> import_screen \<Rightarrow> import_screen" where
  "preview_answered i answer s0 =
     (let s = s0\<lparr>is_previewing := take i (is_previewing s0) @ drop (Suc i) (is_previewing s0)\<rparr>
      in case answer of
           Inl _ \<Rightarrow> s
         | Inr pv \<Rightarrow> s\<lparr>is_preview := Some pv, is_selected := js_set (ready_numbers pv)\<rparr>)"

definition toggleRow :: "int \<Rightarrow> import_screen \<Rightarrow> import_screen" where
  "toggleRow n s = s\<lparr>is_selected := (if n \<in> set (is_selected s) then filter (\<lambda>m. m \<noteq> n) (is_selected s)
     else is_selected s @ [n])\<rparr>"

definition import_request :: "jstring option \<Rightarrow> import_screen \<Rightarrow> confirm_import_dto" where
  "import_request activeGoalId s =
     \<lparr>ci_csv = is_csv s, ci_rowNumbers = sort (is_selected s),
      ci_goalId = (case activeGoalId of Some g \<Rightarrow> if is_tagGoal s then Value g else Undefined | None \<Rightarrow> Undefined)\<rparr>"

definition confirm_answered :: "string + import_result \<Rightarrow> import_screen \<Rightarrow> import_screen" where
  "confirm_answered answer s0 =
     (let s = s0\<lparr>is_confirming := None\<rparr>
      in case answer of
           Inl _ \<Rightarrow> s
         | Inr res \<Rightarrow> s\<lparr>is_result := Some res, is_preview := None, is_selected := []\<rparr>)"

definition shows_row :: "int \<Rightarrow> import_screen \<Rightarrow> bool" where
  "shows_row n s \<longleftrightarrow> (case is_preview s of None \<Rightarrow> False | Some pv \<Rightarrow> n \<in> set (ready_numbers pv))"

text \<open>No event where the control is hidden or disabled, or nothing is there to be answered.\<close>

fun import_screen_step :: "jstring option \<Rightarrow> import_screen_event \<Rightarrow> import_screen \<Rightarrow> import_screen option" where
  "import_screen_step goal ChooseFile s = (if import_busy s then None else Some (chooseFile s))"
| "import_screen_step goal (FilePicked picked) s = (if is_picking s = 0 then None else Some (file_picked picked s))"
| "import_screen_step goal (PreviewAnswered i answer) s =
     (if i < length (is_previewing s) then Some (preview_answered i answer s) else None)"
| "import_screen_step goal (ToggleRow n) s =
     (if shows_row n s \<and> is_confirming s = None then Some (toggleRow n s) else None)"
| "import_screen_step goal ToggleGoal s =
     (if is_preview s \<noteq> None \<and> goal \<noteq> None then Some (s\<lparr>is_tagGoal := \<not> is_tagGoal s\<rparr>) else None)"
| "import_screen_step goal PressConfirm s =
     (if is_preview s \<noteq> None \<and> is_selected s \<noteq> [] \<and> \<not> import_busy s
      then Some (s\<lparr>is_confirming := Some (import_request goal s)\<rparr>) else None)"
| "import_screen_step goal (ConfirmAnswered answer) s =
     (if is_confirming s = None then None else Some (confirm_answered answer s))"

section \<open>Histories\<close>

text \<open>
  What the rest of the world gives: a pick ends with what \<open>pickTransactionCsv\<close> makes of a file, and a
  preview that arrives is the API's, for the text it was asked for, on the database of some moment.
  With \<open>one_pick\<close> the user does not press the button again while an earlier pick is under way.
\<close>

definition served_preview ::
  "(jstring \<Rightarrow> jstring) \<Rightarrow> (jstring \<Rightarrow> jstring) \<Rightarrow> jstring \<Rightarrow> jstring \<Rightarrow> import_preview \<Rightarrow> bool" where
  "served_preview lower sha256 userId csv pv \<longleftrightarrow> (\<exists>d. previewImport lower sha256 d userId \<lparr>pi_csv = csv, pi_goalId = Undefined\<rparr> = Inr pv)"

definition import_world ::
  "(jstring \<Rightarrow> jstring) \<Rightarrow> (jstring \<Rightarrow> jstring) \<Rightarrow> jstring \<Rightarrow> bool \<Rightarrow> import_screen \<Rightarrow> import_screen_event \<Rightarrow> bool" where
  "import_world lower sha256 userId one_pick s ev \<longleftrightarrow>
     (case ev of
        ChooseFile \<Rightarrow> one_pick \<longrightarrow> is_picking s = 0
      | FilePicked picked \<Rightarrow> (\<exists>asset. picked = pickTransactionCsv lower asset)
      | PreviewAnswered i (Inr pv) \<Rightarrow> served_preview lower sha256 userId (fst (is_previewing s ! i)) pv
      | _ \<Rightarrow> True)"

inductive import_history ::
  "(jstring \<Rightarrow> jstring) \<Rightarrow> (jstring \<Rightarrow> jstring) \<Rightarrow> jstring \<Rightarrow> bool \<Rightarrow> import_screen \<Rightarrow> bool"
  for lower sha256 userId one_pick where
  opened: "import_history lower sha256 userId one_pick import_screen_start"
| happens: "import_history lower sha256 userId one_pick s \<Longrightarrow> import_world lower sha256 userId one_pick s ev
    \<Longrightarrow> import_screen_step goal ev s = Some s' \<Longrightarrow> import_history lower sha256 userId one_pick s'"

section \<open>The preview shown belongs to the text that is confirmed\<close>

definition import_screen_wf ::
  "(jstring \<Rightarrow> jstring) \<Rightarrow> (jstring \<Rightarrow> jstring) \<Rightarrow> jstring \<Rightarrow> import_screen \<Rightarrow> bool" where
  "import_screen_wf lower sha256 userId s \<longleftrightarrow>
     (is_previewing s = [] \<or> is_previewing s = [(is_csv s, True)] \<and> is_picking s = 0)
   \<and> (is_previewing s \<noteq> [] \<or> is_preview s \<noteq> None \<longrightarrow> valid_preview_import \<lparr>pi_csv = is_csv s, pi_goalId = Undefined\<rparr>)
   \<and> is_picking s \<le> 1
   \<and> (case is_preview s of
        None \<Rightarrow> is_selected s = []
      | Some pv \<Rightarrow> served_preview lower sha256 userId (is_csv s) pv \<and> distinct (is_selected s)
          \<and> set (is_selected s) \<subseteq> set (ready_numbers pv))"

lemma set_js_set [simp]: "set (js_set xs) = set xs" and distinct_js_set [simp]: "distinct (js_set xs)"
  by (simp_all add: js_set_def)

lemma unobserved_simps [simp]: "unobserved [] = []" "unobserved (p # ps) = (fst p, False) # unobserved ps"
  "length (unobserved ps) = length ps"
  by (simp_all add: unobserved_def case_prod_beta)

lemma import_step_wf:
  assumes "import_screen_wf lower sha256 userId s" and "import_world lower sha256 userId True s ev"
    and "import_screen_step goal ev s = Some s'"
  shows "import_screen_wf lower sha256 userId s'"
proof (cases ev)
  case ChooseFile
  with assms show ?thesis
    by (auto simp: import_screen_wf_def import_world_def import_busy_def preview_pending_def chooseFile_def split: if_splits option.splits)
next
  case (FilePicked picked)
  from assms(2) FilePicked obtain asset where a: "picked = pickTransactionCsv lower asset" by (auto simp: import_world_def)
  have now: "s' = file_picked picked s" "is_picking s = 1" "is_previewing s = []"
    using assms FilePicked by (auto simp: import_screen_wf_def split: if_splits)
  show ?thesis
  proof (cases picked)
    case (Picked name csv)
    have "valid_preview_import \<lparr>pi_csv = csv, pi_goalId = Undefined\<rparr>"
      by (rule picked_file_valid [of lower asset name]) (simp add: a [symmetric] Picked)
    with now Picked show ?thesis by (simp add: import_screen_wf_def file_picked_def Let_def)
  qed (use now assms(1) in \<open>simp_all add: import_screen_wf_def file_picked_def split: option.splits\<close>)
next
  case (PreviewAnswered i answer)
  with assms have now: "s' = preview_answered i answer s" "is_previewing s = [(is_csv s, True)]" "i = 0"
    by (auto simp: import_screen_wf_def split: if_splits)
  show ?thesis
  proof (cases answer)
    case (Inr pv)
    with assms(2) PreviewAnswered now have "served_preview lower sha256 userId (is_csv s) pv" by (simp add: import_world_def)
    with Inr now assms(1) show ?thesis by (simp add: import_screen_wf_def preview_answered_def)
  qed (use now assms(1) in \<open>simp add: import_screen_wf_def preview_answered_def split: option.splits\<close>)
next
  case (ToggleRow n)
  with assms show ?thesis
    by (auto simp: import_screen_wf_def toggleRow_def shows_row_def split: if_splits option.splits)
next
  case (ConfirmAnswered answer)
  with assms show ?thesis
    by (cases answer) (auto simp: import_screen_wf_def confirm_answered_def split: if_splits option.splits)
qed (use assms in \<open>auto simp: import_screen_wf_def split: if_splits option.splits\<close>)

lemma import_history_wf:
  "import_history lower sha256 userId True s \<Longrightarrow> import_screen_wf lower sha256 userId s"
proof (induction rule: import_history.induct)
  case opened
  show ?case by (simp add: import_screen_wf_def import_screen_start_def)
qed (blast intro: import_step_wf)

text \<open>The rows of a preview are the rows of the file with the duplicates marked.\<close>

lemma served_rows:
  assumes "served_preview lower sha256 userId csv pv"
  obtains parsed known where "parseTransactionImport lower sha256 csv = Inr parsed"
    "pv_rows pv = map (\<lambda>row. row\<lparr>ir_duplicate := known row\<rparr>) parsed"
    "set (ready_numbers pv) \<subseteq> ir_rowNumber ` {row \<in> set parsed. ir_error row = None}"
    "set (ready_numbers pv) \<subseteq> {2..501}"
    "\<forall>row \<in> set parsed. ir_rowNumber row \<in> set (ready_numbers pv) \<longrightarrow> \<not> unavailable (row\<lparr>ir_duplicate := known row\<rparr>)"
proof -
  from assms obtain d where "previewImport lower sha256 d userId \<lparr>pi_csv = csv, pi_goalId = Undefined\<rparr> = Inr pv"
    by (auto simp: served_preview_def)
  then obtain parsed where p: "parseTransactionImport lower sha256 csv = Inr parsed"
    and rows: "pv_rows pv = map (\<lambda>row. row\<lparr>ir_duplicate := known_fingerprint d userId (ir_fingerprint row)\<rparr>) parsed"
    by (rule previewImport_Inr) simp
  from p obtain ix records where ir: "parsed = import_rows lower sha256 ix 0 Map.empty records" "length records \<le> 500"
    by (rule parsed_import_rows) blast
  have "ir_error row = None" if "row \<in> set parsed" "\<not> truthy (ir_error row)" for row
    using import_rows_facts(1) that unfolding ir(1) truthy_def by blast
  then have ready: "set (ready_numbers pv) \<subseteq> ir_rowNumber ` {row \<in> set parsed. ir_error row = None}"
    by (auto simp: ready_numbers_def rows unavailable_def)
  have "set (map ir_rowNumber parsed) \<subseteq> {2..501}"
    using ir(2) unfolding ir(1) by (simp only: row_numbers) (auto simp: length_import_rows)
  then have "set (ready_numbers pv) \<subseteq> {2..501}"
    using ready by fastforce
  moreover have "\<not> unavailable (row\<lparr>ir_duplicate := known_fingerprint d userId (ir_fingerprint row)\<rparr>)"
    if "row \<in> set parsed" "ir_rowNumber row \<in> set (ready_numbers pv)" for row
  proof -
    from that(2) obtain q where q: "q \<in> set parsed" "ir_rowNumber q = ir_rowNumber row"
      "\<not> unavailable (q\<lparr>ir_duplicate := known_fingerprint d userId (ir_fingerprint q)\<rparr>)"
      by (auto simp: ready_numbers_def rows)
    have "distinct (map ir_rowNumber parsed)" by (simp add: ir(1) row_numbers_distinct)
    with q(1,2) that(1) have "q = row" by (auto simp: distinct_map dest: inj_onD)
    with q(3) show ?thesis by simp
  qed
  ultimately show thesis using p rows ready by (intro that) auto
qed

text \<open>What the screen shows of a row, and what a transaction stores of it.\<close>

definition shows_transaction :: "(jstring \<Rightarrow> ms option) \<Rightarrow> import_row \<Rightarrow> transaction_row \<Rightarrow> bool" where
  "shows_transaction new_date row t \<longleftrightarrow> ir_amountKobo row = Some (t_amountKobo t)
     \<and> map_option direction_text (ir_direction row) = Some (t_direction t)
     \<and> Option.bind (ir_occurredAt row) new_date = Some (t_occurredAt t) \<and> t_note t = ir_note row"

lemma imported_row_shown:
  assumes "\<not> invalid_row row" and "Option.bind (ir_occurredAt row) new_date \<noteq> None"
  shows "shows_transaction new_date (row\<lparr>ir_duplicate := b\<rparr>) (imported_row new_date userId goal newId now row)"
proof -
  obtain t where "Option.bind (ir_occurredAt row) new_date = Some t" using assms(2) by auto
  with assms(1) show ?thesis
    by (auto simp: shows_transaction_def imported_row_def import_data_def invalid_row_def)
qed

text \<open>What a press of the import button rests on.\<close>

lemma confirm_pressed:
  assumes "import_history lower sha256 userId True s" and "import_screen_step goal PressConfirm s = Some s'"
  obtains pv parsed known where "is_preview s = Some pv" "is_confirming s' = Some (import_request goal s)"
    "parseTransactionImport lower sha256 (is_csv s) = Inr parsed" "pv_rows pv = map (\<lambda>row. row\<lparr>ir_duplicate := known row\<rparr>) parsed"
    "set (is_selected s) \<subseteq> ir_rowNumber ` {row \<in> set parsed. ir_error row = None}" "distinct (is_selected s)"
    "\<And>row. row \<in> set parsed \<Longrightarrow> ir_rowNumber row \<in> set (is_selected s) \<Longrightarrow> \<not> unavailable (row\<lparr>ir_duplicate := known row\<rparr>)"
    "(\<And>g. goal = Some g \<Longrightarrow> g \<noteq> []) \<Longrightarrow> valid_confirm_import (import_request goal s)"
proof -
  have wf: "import_screen_wf lower sha256 userId s" using assms(1) by (rule import_history_wf)
  from assms(2) obtain pv where pv: "is_preview s = Some pv" "is_selected s \<noteq> []" "is_confirming s' = Some (import_request goal s)"
    by (auto split: if_splits)
  with wf have served: "served_preview lower sha256 userId (is_csv s) pv" and sel: "distinct (is_selected s)"
      "set (is_selected s) \<subseteq> set (ready_numbers pv)" and csv: "valid_preview_import \<lparr>pi_csv = is_csv s, pi_goalId = Undefined\<rparr>"
    by (simp_all add: import_screen_wf_def)
  from served obtain parsed known where p: "parseTransactionImport lower sha256 (is_csv s) = Inr parsed"
    and rows: "pv_rows pv = map (\<lambda>row. row\<lparr>ir_duplicate := known row\<rparr>) parsed"
    and ready: "set (ready_numbers pv) \<subseteq> ir_rowNumber ` {row \<in> set parsed. ir_error row = None}"
    and bounds: "set (ready_numbers pv) \<subseteq> {2..501}"
    and available: "\<forall>row \<in> set parsed. ir_rowNumber row \<in> set (ready_numbers pv) \<longrightarrow> \<not> unavailable (row\<lparr>ir_duplicate := known row\<rparr>)"
    by (rule served_rows)
  have "length (is_selected s) \<le> card {2 .. 501 :: int}"
    using sel bounds by (metis (no_types, lifting) card_mono distinct_card finite_atLeastAtMost_int subset_eq)
  then have "valid_confirm_import (import_request goal s)" if "\<And>g. goal = Some g \<Longrightarrow> g \<noteq> []"
    using csv sel bounds pv(2) that unfolding import_request_def
    by (auto simp: valid_confirm_import_def valid_preview_import_def list_all_iff Suc_le_eq split: option.split)
  then show ?thesis using pv p rows ready sel available by (intro that [of pv parsed known]) auto
qed

text \<open>
  C22. While the user picks one file at a time, a press of the import button sends a request the
  API accepts, for selected rows of the preview on the screen: every row is imported or found to be
  a duplicate, and what is stored is what the screen showed. This needs the user, the goal to be
  linked and \<open>Date\<close> to read back what \<open>toISOString\<close> wrote, whatever happened to the database
  since the preview.
\<close>

theorem import_screen_stores_what_it_shows:
  assumes "import_history lower sha256 userId True s" and "import_screen_step goal PressConfirm s = Some s'"
    and "\<forall>t. sha256 t \<noteq> []" and "parses_iso new_date" and "user_exists d userId"
    and "\<forall>g. goal = Some g \<longrightarrow> g \<noteq> [] \<and> ensureGoalBelongsToUser d g userId = Inr ()"
  shows "\<exists>pv dto res added. is_preview s = Some pv \<and> is_confirming s' = Some dto \<and> valid_confirm_import dto
     \<and> confirmImport lower sha256 new_date d userId newId now dto = (Inr res, d\<lparr>transactions := transactions d @ added\<rparr>)
     \<and> im_importedCount res = length added \<and> im_importedCount res + im_duplicateCount res = length (is_selected s)
     \<and> (\<forall>t \<in> set added. \<exists>row \<in> set (pv_rows pv). \<not> unavailable row \<and> ir_rowNumber row \<in> set (is_selected s)
           \<and> shows_transaction new_date row t)"
  using assms(1,2)
proof (rule confirm_pressed)
  fix pv parsed known
  assume pv: "is_preview s = Some pv" "is_confirming s' = Some (import_request goal s)" "pv_rows pv = map (\<lambda>row. row\<lparr>ir_duplicate := known row\<rparr>) parsed"
    and p: "parseTransactionImport lower sha256 (is_csv s) = Inr parsed"
    and sel: "set (is_selected s) \<subseteq> ir_rowNumber ` {row \<in> set parsed. ir_error row = None}" "distinct (is_selected s)"
    and available: "\<And>row. row \<in> set parsed \<Longrightarrow> ir_rowNumber row \<in> set (is_selected s) \<Longrightarrow> \<not> unavailable (row\<lparr>ir_duplicate := known row\<rparr>)"
    and valid: "(\<And>g. goal = Some g \<Longrightarrow> g \<noteq> []) \<Longrightarrow> valid_confirm_import (import_request goal s)"
  let ?ns = "sort (is_selected s)" and ?link = "ci_goalId (import_request goal s)"
  have goal: "check_goal d ?link userId = Inr ()" "optional_field (\<lambda>g. 1 \<le> length g) ?link"
    using assms(6) by (auto simp: import_request_def check_goal_def or_null_def truthy_def Suc_le_eq split: option.split)
  have ns: "set ?ns \<subseteq> ir_rowNumber ` {row \<in> set parsed. ir_error row = None}" "distinct ?ns" using sel by auto
  note confirm = confirm_sound_rows [OF p ns(1) goal assms(5,3,4)]
  have dto: "\<lparr>ci_csv = is_csv s, ci_rowNumbers = ?ns, ci_goalId = ?link\<rparr> = import_request goal s" by (simp add: import_request_def)
  let ?rows = "selected_rows parsed ?ns" and ?stored = "imported_row new_date userId (field_value ?link) newId now"
  let ?added = "novel (map ?stored ?rows) (transactions d)"
  have "length ?added \<le> length ?rows" using length_novel [of "map ?stored ?rows" "transactions d"] by simp
  moreover have "\<exists>row \<in> set (pv_rows pv). \<not> unavailable row \<and> ir_rowNumber row \<in> set (is_selected s) \<and> shows_transaction new_date row t"
    if "t \<in> set ?added" for t
  proof -
    from that set_novel [of "map ?stored ?rows" "transactions d"] obtain row where row: "row \<in> set ?rows" "t = ?stored row" by auto
    then have "row \<in> set parsed" "ir_rowNumber row \<in> set (is_selected s)" by (auto simp: selected_rows_def)
    with available imported_row_shown [of row new_date] confirm(3) [OF row(1)] row(2) show ?thesis
      by (intro bexI [of _ "row\<lparr>ir_duplicate := known row\<rparr>"]) (auto simp: pv(3))
  qed
  ultimately show ?thesis
    using pv(1,2) valid assms(6) confirm(1) confirm(2) [OF ns(2)] unfolding dto by (auto simp: Let_def)
qed

section \<open>One file, two files\<close>

text \<open>A file picked on the fresh screen and previewed.\<close>

definition file_previewed :: "jstring \<Rightarrow> jstring \<Rightarrow> import_preview \<Rightarrow> import_screen" where
  "file_previewed name csv pv = preview_answered 0 (Inr pv) (file_picked (Picked name csv) (chooseFile import_screen_start))"

lemma file_previewed_simps:
  "is_preview (file_previewed name csv pv) = Some pv" "is_csv (file_previewed name csv pv) = csv"
  "is_previewing (file_previewed name csv pv) = []" "is_confirming (file_previewed name csv pv) = None"
  by (simp_all add: file_previewed_def preview_answered_def file_picked_def chooseFile_def import_screen_start_def)

lemma one_file_previewed:
  assumes "pickTransactionCsv lower asset = Picked name csv" and "served_preview lower sha256 userId csv pv"
  shows "import_history lower sha256 userId one_pick (file_previewed name csv pv)"
proof -
  let ?hist = "import_history lower sha256 userId one_pick"
  have "?hist (chooseFile import_screen_start)"
    by (rule happens [OF opened, where ev = ChooseFile])
      (simp_all add: import_world_def import_screen_start_def import_busy_def preview_pending_def)
  then have "?hist (file_picked (Picked name csv) (chooseFile import_screen_start))"
    by (rule happens [where ev = "FilePicked (Picked name csv)"])
      (use assms(1) in \<open>auto simp: import_world_def chooseFile_def import_screen_start_def intro: exI [of _ asset]\<close>)
  then show ?thesis
    unfolding file_previewed_def
    by (rule happens [where ev = "PreviewAnswered 0 (Inr pv)"])
      (use assms(2) in \<open>simp_all add: import_world_def file_picked_def chooseFile_def import_screen_start_def\<close>)
qed

text \<open>
  Without that patience the texts get mixed up: the button is enabled while a picked file is still
  being read, so that two previews can be under way; when the first one is answered last,
  the screen shows the first file, and a press of the import button confirms rows of the second.
\<close>

lemma overlapping_picks_mix_files:
  assumes "pickTransactionCsv lower asset1 = Picked name1 csv1" and "pickTransactionCsv lower asset2 = Picked name2 csv2"
    and "served_preview lower sha256 userId csv1 pv1" and "served_preview lower sha256 userId csv2 pv2"
    and "ready_numbers pv1 \<noteq> []"
  shows "\<exists>s s'. import_history lower sha256 userId False s \<and> import_screen_step None PressConfirm s = Some s'
    \<and> is_preview s = Some pv1
    \<and> is_confirming s' = Some \<lparr>ci_csv = csv2, ci_rowNumbers = sort (js_set (ready_numbers pv1)), ci_goalId = Undefined\<rparr>"
proof -
  let ?hist = "import_history lower sha256 userId False"
  let ?s2 = "chooseFile (chooseFile import_screen_start)"
  let ?s4 = "file_picked (Picked name2 csv2) (file_picked (Picked name1 csv1) ?s2)"
  let ?s6 = "preview_answered 0 (Inr pv1) (preview_answered 1 (Inr pv2) ?s4)"
  note defs = chooseFile_def import_screen_start_def file_picked_def preview_answered_def import_busy_def preview_pending_def
  have "?hist (chooseFile import_screen_start)"
    by (rule happens [OF opened, where ev = ChooseFile]) (simp_all add: import_world_def defs)
  then have "?hist ?s2"
    by (rule happens [where ev = ChooseFile]) (simp_all add: import_world_def defs)
  then have "?hist (file_picked (Picked name1 csv1) ?s2)"
    by (rule happens [where ev = "FilePicked (Picked name1 csv1)"]) (use assms(1) in \<open>auto simp: import_world_def defs intro: exI [of _ asset1]\<close>)
  then have "?hist ?s4"
    by (rule happens [where ev = "FilePicked (Picked name2 csv2)"]) (use assms(2) in \<open>auto simp: import_world_def defs intro: exI [of _ asset2]\<close>)
  then have "?hist (preview_answered 1 (Inr pv2) ?s4)"
    by (rule happens [where ev = "PreviewAnswered 1 (Inr pv2)"]) (use assms(4) in \<open>simp_all add: import_world_def defs\<close>)
  then have "?hist ?s6"
    by (rule happens [where ev = "PreviewAnswered 0 (Inr pv1)"]) (use assms(3) in \<open>simp_all add: import_world_def defs\<close>)
  moreover have "js_set (ready_numbers pv1) \<noteq> []" using assms(5) by (simp add: js_set_def)
  then have "import_screen_step None PressConfirm ?s6 = Some (?s6\<lparr>is_confirming := Some (import_request None ?s6)\<rparr>)"
    by (simp add: defs)
  ultimately show ?thesis
    by (intro exI [of _ ?s6] exI [of _ "?s6\<lparr>is_confirming := Some (import_request None ?s6)\<rparr>"]) (simp add: defs import_request_def)
qed

definition screen_csv :: jstring where
  "screen_csv = js ''date,description,amount,type'' @ [10] @ js ''2026-03-01,Pay,5,income''"

lemma import_screen_stores_what_it_shows_witness:
  "\<exists>s dto res d'. import_history (\<lambda>s. s) sample_digest (js ''u1'') True s \<and> is_selected s = [2]
     \<and> confirmImport (\<lambda>s. s) sample_digest parse_iso one_goal_db (js ''u1'') dec 0 dto = (Inr res, d')
     \<and> im_importedCount res + im_duplicateCount res = 1"
proof -
  have "case previewImport (\<lambda>s. s) sample_digest one_goal_db (js ''u1'') \<lparr>pi_csv = screen_csv, pi_goalId = Undefined\<rparr> of
     Inr pv \<Rightarrow> ready_numbers pv = [2] | Inl _ \<Rightarrow> False"
    by code_simp
  then obtain pv where pv: "previewImport (\<lambda>s. s) sample_digest one_goal_db (js ''u1'') \<lparr>pi_csv = screen_csv, pi_goalId = Undefined\<rparr> = Inr pv"
    "ready_numbers pv = [2]" by (auto split: sum.splits)
  then have served: "served_preview (\<lambda>s. s) sample_digest (js ''u1'') screen_csv pv" by (auto simp: served_preview_def)
  have "trim screen_csv = screen_csv" "length screen_csv \<le> 100" by code_simp+
  then have picked: "pickTransactionCsv (\<lambda>s. s) (Some (js ''a.csv'', Some screen_csv)) = Picked (js ''a.csv'') screen_csv"
    by (simp add: pickTransactionCsv_def MAX_CSV_CHARACTERS_def js_def screen_csv_def)
  note shown = one_file_previewed [OF picked served, of True]
  let ?s = "file_previewed (js ''a.csv'') screen_csv pv"
  have sel: "is_selected ?s = [2]" by (simp add: file_previewed_def preview_answered_def js_set_def pv(2))
  then have press: "import_screen_step None PressConfirm ?s = Some (?s\<lparr>is_confirming := Some (import_request None ?s)\<rparr>)"
    by (simp add: file_previewed_simps import_busy_def preview_pending_def)
  have user: "user_exists one_goal_db (js ''u1'')"
    by (simp add: one_goal_db_def sample_goals_db_def user_exists_def)
  have digest: "\<forall>t. sample_digest t \<noteq> []" by (simp add: sample_digest_def)
  from import_screen_stores_what_it_shows [OF shown press digest parses_iso_parse_iso user, of dec 0] shown sel
  show ?thesis by (auto intro!: exI [of _ ?s])
qed

end
