(* ===== verification/Mobile_Api.thy ===== *)
theory Mobile_Api
  imports Schema Trace_Ids Js_Number
begin

text \<open>
  The client of the API in the mobile app, \<open>mobile/src/lib/api.ts\<close>: what is sent with every
  request, the one repetition of a request after a refresh of the access token, the errors the
  screens get to see and those that are reported, and the repetition of requests for one-time
  passwords. The network, the refresh (its own theory), the provider's sign-out, random values
  and the schemas that check an answer are parameters.
\<close>

section \<open>Errors\<close>

record api_error =
  er_message :: jstring
  er_status :: "int option"
  er_details :: "json option"
  er_requestId :: "jstring option"

datatype call_error =
    Api api_error
  | BadAnswer \<comment> \<open>an answer that does not fit its schema\<close>
  | BadUri \<comment> \<open>\<open>encodeURIComponent\<close> throws on half of a surrogate pair\<close>

record error_report =
  rep_operation :: jstring
  rep_requestId :: "jstring option"
  rep_route :: jstring
  rep_statusCode :: "int option"

section \<open>Requests\<close>

record request =
  rq_method :: jstring
  rq_url :: jstring
  rq_params :: "(jstring \<times> jstring) list"
  rq_body :: "json option"
  rq_authorization :: "jstring option"
  rq_deviceId :: "jstring option"
  rq_requestId :: "jstring option"
  rq_idempotencyKey :: "jstring option"
  rq_steadRetry :: bool

text \<open>A request that failed: the status and body of an answer, if there was one, the message of
  the network library, and the request identifier among the headers of the answer.\<close>

record failure =
  fl_status :: "int option"
  fl_body :: "json option"
  fl_message :: jstring
  fl_responseId :: "jstring option"

datatype outcome = Answer json | Failure failure

record 's client_env =
  ce_token :: "'s \<Rightarrow> jstring option \<times> 's" \<comment> \<open>\<open>getTokenFn\<close>\<close>
  ce_installationId :: "'s \<Rightarrow> jstring option \<times> 's" \<comment> \<open>\<open>getOrCreateId\<close>, none when it throws\<close>
  ce_uuid :: "'s \<Rightarrow> jstring \<times> 's"
  ce_random :: "'s \<Rightarrow> rat \<times> 's" \<comment> \<open>\<open>Math.random\<close>\<close>
  ce_transport :: "request \<Rightarrow> 's \<Rightarrow> outcome \<times> 's"
  ce_rotate :: "'s \<Rightarrow> jstring option \<times> 's" \<comment> \<open>\<open>rotateAccessToken\<close>\<close>
  ce_unauthorized :: "'s \<Rightarrow> 's" \<comment> \<open>\<open>onUnauthorizedFn\<close>\<close>

definition PUBLIC_AUTH_PATHS :: "jstring list" where
  "PUBLIC_AUTH_PATHS = [js ''/auth/countries'', js ''/auth/request-otp'', js ''/auth/verify-otp'',
     js ''/auth/refresh'', js ''/auth/logout'']"

definition ends_with :: "jstring \<Rightarrow> jstring \<Rightarrow> bool" where
  "ends_with s suffix \<longleftrightarrow> length suffix \<le> length s \<and> drop (length s - length suffix) s = suffix"

fun contains_text :: "jstring \<Rightarrow> jstring \<Rightarrow> bool" where
  "contains_text [] piece = (piece = [])"
| "contains_text (c # s) piece = (take (length piece) (c # s) = piece \<or> contains_text s piece)"

definition isPublicAuthRequest :: "jstring \<Rightarrow> bool" where
  "isPublicAuthRequest url \<longleftrightarrow>
     list_ex (\<lambda>path. url = path \<or> ends_with url path \<or> contains_text url (path @ js ''?'')) PUBLIC_AUTH_PATHS"

text \<open>The interceptor of requests: token, installation and request identifiers. A retried
  request keeps its request identifier.\<close>

definition attach_headers :: "'s client_env \<Rightarrow> request \<Rightarrow> 's \<Rightarrow> request option \<times> 's" where
  "attach_headers e rq s =
     (case ce_token e s of (token, s1) \<Rightarrow>
      (case ce_installationId e s1 of
         (None, s2) \<Rightarrow> (None, s2)
       | (Some device, s2) \<Rightarrow>
           (let rq1 = rq\<lparr>rq_authorization := (if truthy token then Some (js ''Bearer '' @ the token) else rq_authorization rq),
                         rq_deviceId := Some device\<rparr>
            in case rq_requestId rq of
                 Some _ \<Rightarrow> (Some rq1, s2)
               | None \<Rightarrow> (case ce_uuid e s2 of (i, s3) \<Rightarrow> (Some (rq1\<lparr>rq_requestId := Some i\<rparr>), s3)))))"

section \<open>What is reported\<close>

definition requestIdFrom :: "request \<Rightarrow> jstring option \<Rightarrow> jstring option" where
  "requestIdFrom rq responseId = (case responseId of Some i \<Rightarrow> Some i | None \<Rightarrow> rq_requestId rq)"

definition safeRoute :: "jstring \<Rightarrow> jstring" where
  "safeRoute url = hide_ids False (takeWhile (\<lambda>c. c \<noteq> unit_of CHR ''?'') url)"

text \<open>A reported route names no identifier, and a route that names none is reported as it is.\<close>

lemma safeRoute_hides_ids:
  "\<not> mentions_id False (safeRoute url)
   \<and> (safeRoute url = takeWhile (\<lambda>c. c \<noteq> unit_of CHR ''?'') url \<longleftrightarrow> \<not> mentions_id False (takeWhile (\<lambda>c. c \<noteq> unit_of CHR ''?'') url))"
  unfolding safeRoute_def using hide_ids_clean hide_ids_keeps by blast

definition reportApiError :: "request option \<Rightarrow> int option \<Rightarrow> jstring option \<Rightarrow> error_report option" where
  "reportApiError config statusCode responseId =
     (if (case statusCode of Some n \<Rightarrow> n < 500 | None \<Rightarrow> False) then None
      else Some (case config of
          None \<Rightarrow> \<lparr>rep_operation = js ''UNKNOWN'', rep_requestId = responseId, rep_route = js ''unknown'', rep_statusCode = statusCode\<rparr>
        | Some rq \<Rightarrow> \<lparr>rep_operation = map (\<lambda>c. if 97 \<le> c \<and> c \<le> 122 then c - 32 else c) (rq_method rq),
            rep_requestId = requestIdFrom rq responseId, rep_route = safeRoute (rq_url rq), rep_statusCode = statusCode\<rparr>))"

section \<open>What the screens see\<close>

fun json_truthy :: "json \<Rightarrow> bool" where
  "json_truthy JNull = False"
| "json_truthy (JBool b) = b"
| "json_truthy (JNumber n) = (n \<noteq> 0)"
| "json_truthy (JString s) = (s \<noteq> [])"
| "json_truthy _ = True"

definition softenUnauthorizedMessage :: "jstring \<Rightarrow> jstring" where
  "softenUnauthorizedMessage message =
     (if message = js ''Invalid token'' \<or> message = js ''Session expired'' \<or> message = js ''Unauthorized''
      then js ''Your session expired. Sign in again.'' else message)"

text \<open>\<open>text_of\<close> is the text of a value that is not a string, \<open>String(value)\<close>.\<close>

definition body_message :: "(json \<Rightarrow> jstring) \<Rightarrow> jstring \<Rightarrow> json option \<Rightarrow> jstring" where
  "body_message text_of message body =
     (case body of
        Some (JString s) \<Rightarrow> s
      | Some (JObject members) \<Rightarrow>
          (case json_get (JObject members) (js ''message'') of
             Some (JArray ms) \<Rightarrow> join (js '', '') (map (\<lambda>m. case m of JString s \<Rightarrow> s | JNull \<Rightarrow> [] | v \<Rightarrow> text_of v) ms)
           | Some (JString s) \<Rightarrow> if s = [] then message else s
           | Some v \<Rightarrow> if json_truthy v then text_of v else message
           | None \<Rightarrow> message)
      | _ \<Rightarrow> message)"

definition body_details :: "json option \<Rightarrow> json option" where
  "body_details body = (case body of Some v \<Rightarrow> json_get v (js ''details'') | None \<Rightarrow> None)"

definition api_error_of :: "(json \<Rightarrow> jstring) \<Rightarrow> request \<Rightarrow> failure \<Rightarrow> api_error" where
  "api_error_of text_of rq f =
     (let message = body_message text_of (if fl_message f = [] then js ''Request failed'' else fl_message f) (fl_body f)
      in \<lparr>er_message = (if fl_status f = Some 401 \<and> \<not> isPublicAuthRequest (rq_url rq)
            then softenUnauthorizedMessage message else message),
          er_status = fl_status f, er_details = body_details (fl_body f), er_requestId = requestIdFrom rq (fl_responseId f)\<rparr>)"

definition unexpected_error :: api_error where
  "unexpected_error = \<lparr>er_message = js ''Unexpected network error'', er_status = None, er_details = None, er_requestId = None\<rparr>"

section \<open>Sending a request\<close>

datatype client_event =
    Sent request
  | AskedRefresh
  | SignedOut
  | Reported error_report
  | Waited int

definition reported :: "error_report option \<Rightarrow> client_event list" where
  "reported r = (case r of None \<Rightarrow> [] | Some x \<Rightarrow> [Reported x])"

definition failed_request :: "(json \<Rightarrow> jstring) \<Rightarrow> request \<Rightarrow> failure \<Rightarrow> (call_error + json) \<times> client_event list" where
  "failed_request text_of rq f = (Inl (Api (api_error_of text_of rq f)), reported (reportApiError (Some rq) (fl_status f) (fl_responseId f)))"

text \<open>The interceptor of failures: a request whose token has expired is repeated once with a new
  token; without one, or the second time, the session ends.\<close>

definition expired :: "request \<Rightarrow> failure \<Rightarrow> bool" where
  "expired rq f \<longleftrightarrow> fl_status f = Some 401 \<and> \<not> isPublicAuthRequest (rq_url rq)"

definition authorize_retry :: "jstring \<Rightarrow> request \<Rightarrow> request" where
  "authorize_retry token rq = rq\<lparr>rq_steadRetry := True, rq_authorization := Some (js ''Bearer '' @ token)\<rparr>"

lemma attach_headers_retry: "attach_headers e rq s = (Some rq', s') \<Longrightarrow> rq_steadRetry rq' = rq_steadRetry rq"
  by (auto simp: attach_headers_def Let_def split: prod.splits option.splits)

function send ::
  "'s client_env \<Rightarrow> (json \<Rightarrow> jstring) \<Rightarrow> request \<Rightarrow> 's \<Rightarrow> (call_error + json) \<times> client_event list \<times> 's"
where
  "send e text_of rq s =
     (case attach_headers e rq s of
        (None, s1) \<Rightarrow> (Inl (Api unexpected_error), reported (reportApiError None None None), s1)
      | (Some rq1, s1) \<Rightarrow>
          (case ce_transport e rq1 s1 of
             (Answer data, s2) \<Rightarrow> (Inr data, [Sent rq1], s2)
           | (Failure f, s2) \<Rightarrow>
               if \<not> expired rq1 f
               then (case failed_request text_of rq1 f of (r, rep) \<Rightarrow> (r, Sent rq1 # rep, s2))
               else if rq_steadRetry rq1
               then (case failed_request text_of rq1 f of (r, rep) \<Rightarrow> (r, Sent rq1 # SignedOut # rep, ce_unauthorized e s2))
               else (case ce_rotate e s2 of (token, s3) \<Rightarrow>
                 if truthy token
                 then (case send e text_of (authorize_retry (the token) rq1) s3 of (r, tr, s4) \<Rightarrow> (r, Sent rq1 # AskedRefresh # tr, s4))
                 else (case failed_request text_of rq1 f of (r, rep) \<Rightarrow> (r, Sent rq1 # AskedRefresh # SignedOut # rep, ce_unauthorized e s3)))))"
  by pat_completeness auto
termination
  by (relation "measure (\<lambda>(e, text_of, rq, s). if rq_steadRetry rq then 0 else 1)")
    (auto simp: authorize_retry_def dest!: sym [THEN attach_headers_retry])

declare send.simps [simp del]

section \<open>Requests for codes\<close>

definition OTP_REQUEST_MAX_ATTEMPTS :: nat where "OTP_REQUEST_MAX_ATTEMPTS = 3"
definition OTP_VERIFY_MAX_ATTEMPTS :: nat where "OTP_VERIFY_MAX_ATTEMPTS = 3"
definition OTP_RETRY_BASE_MS :: int where "OTP_RETRY_BASE_MS = 500"

fun isRetryableOtpError :: "call_error \<Rightarrow> bool" where
  "isRetryableOtpError (Api err) = (case er_status err of None \<Rightarrow> True | Some n \<Rightarrow> n = 408 \<or> n = 425 \<or> 500 \<le> n)"
| "isRetryableOtpError _ = False"

definition otpRetryDelayMs :: "rat \<Rightarrow> nat \<Rightarrow> int" where
  "otpRetryDelayMs random failedAttempt =
     (let exponential = OTP_RETRY_BASE_MS * 2 ^ (failedAttempt - 1);
          jitter = fl (3 / 4 + fl (random * (1 / 2)))
      in math_round (fl (of_int exponential * jitter)))"

definition exhausted :: "string \<Rightarrow> call_error" where
  "exhausted message = Api \<lparr>er_message = js message, er_status = None, er_details = None, er_requestId = None\<rparr>"

text \<open>The loop over the attempts, with the body that makes one attempt.\<close>

function otp_attempts ::
  "nat \<Rightarrow> call_error \<Rightarrow> ('s \<Rightarrow> rat \<times> 's) \<Rightarrow> ('s \<Rightarrow> (call_error + 'a) \<times> client_event list \<times> 's) \<Rightarrow> nat \<Rightarrow> 's \<Rightarrow>
   (call_error + 'a) \<times> client_event list \<times> 's"
where
  "otp_attempts limit over random once attempt s =
     (if limit < attempt then (Inl over, [], s)
      else (case once s of
              (Inr data, tr, s1) \<Rightarrow> (Inr data, tr, s1)
            | (Inl err, tr, s1) \<Rightarrow>
                if \<not> (isRetryableOtpError err \<and> attempt < limit) then (Inl err, tr, s1)
                else (case random s1 of (rnd, s2) \<Rightarrow>
                  (case otp_attempts limit over random once (attempt + 1) s2 of
                     (r, tr', s3) \<Rightarrow> (r, tr @ Waited (otpRetryDelayMs rnd attempt) # tr', s3)))))"
  by pat_completeness auto
termination
  by (relation "measure (\<lambda>(limit, over, random, once, attempt, s). Suc limit - attempt)") auto

declare otp_attempts.simps [simp del]

section \<open>The calls\<close>

definition new_request :: "string \<Rightarrow> jstring \<Rightarrow> json option \<Rightarrow> request" where
  "new_request method url body = \<lparr>rq_method = js method, rq_url = url, rq_params = [], rq_body = body, rq_authorization = None,
     rq_deviceId = None, rq_requestId = None, rq_idempotencyKey = None, rq_steadRetry = False\<rparr>"

text \<open>\<open>Schema.parse(response.data)\<close>\<close>

definition parsed ::
  "(json \<Rightarrow> 'a option) \<Rightarrow> (call_error + json) \<times> client_event list \<times> 's \<Rightarrow> (call_error + 'a) \<times> client_event list \<times> 's" where
  "parsed schema r = (case r of
      (Inl err, rest) \<Rightarrow> (Inl err, rest)
    | (Inr data, rest) \<Rightarrow> (case schema data of None \<Rightarrow> (Inl BadAnswer, rest) | Some a \<Rightarrow> (Inr a, rest)))"

definition api_call ::
  "'s client_env \<Rightarrow> (json \<Rightarrow> jstring) \<Rightarrow> (json \<Rightarrow> 'a option) \<Rightarrow> string \<Rightarrow> jstring \<Rightarrow> json option \<Rightarrow> 's \<Rightarrow>
   (call_error + 'a) \<times> client_event list \<times> 's" where
  "api_call e text_of schema method url body s = parsed schema (send e text_of (new_request method url body) s)"

text \<open>\<open>encodeURIComponent\<close>: all but the unreserved characters as the bytes of their UTF-8 code.\<close>

fun code_points :: "jstring \<Rightarrow> int list option" where
  "code_points [] = Some []"
| "code_points (c # s) =
     (if 0xD800 \<le> c \<and> c \<le> 0xDBFF
      then (case s of
              [] \<Rightarrow> None
            | c' # s' \<Rightarrow> if 0xDC00 \<le> c' \<and> c' \<le> 0xDFFF
                then map_option ((#) (0x10000 + (uint c - 0xD800) * 0x400 + (uint c' - 0xDC00))) (code_points s') else None)
      else if 0xDC00 \<le> c \<and> c \<le> 0xDFFF then None
      else map_option ((#) (uint c)) (code_points s))"

definition utf8_bytes :: "int \<Rightarrow> int list" where
  "utf8_bytes n = (if n < 0x80 then [n]
     else if n < 0x800 then [0xC0 + n div 0x40, 0x80 + n mod 0x40]
     else if n < 0x10000 then [0xE0 + n div 0x1000, 0x80 + n div 0x40 mod 0x40, 0x80 + n mod 0x40]
     else [0xF0 + n div 0x40000, 0x80 + n div 0x1000 mod 0x40, 0x80 + n div 0x40 mod 0x40, 0x80 + n mod 0x40])"

definition hex_digit :: "int \<Rightarrow> code_unit" where
  "hex_digit n = (if n < 10 then digit n else of_int (55 + n))"

definition is_unreserved :: "int \<Rightarrow> bool" where
  "is_unreserved n \<longleftrightarrow> 48 \<le> n \<and> n \<le> 57 \<or> 65 \<le> n \<and> n \<le> 90 \<or> 97 \<le> n \<and> n \<le> 122
     \<or> n \<in> {45, 95, 46, 33, 126, 42, 39, 40, 41}"

definition encodeURIComponent :: "jstring \<Rightarrow> jstring option" where
  "encodeURIComponent s = map_option (\<lambda>ps. concat (map (\<lambda>n. if is_unreserved n then [of_int n]
       else concat (map (\<lambda>b. [unit_of CHR ''%'', hex_digit (b div 16), hex_digit (b mod 16)]) (utf8_bytes n))) ps)) (code_points s)"

definition call_by_id where
  "call_by_id e text_of schema method prefix i suffix body s =
     (case encodeURIComponent i of
        None \<Rightarrow> (Inl BadUri, [], s)
      | Some p \<Rightarrow> api_call e text_of schema method (js prefix @ p @ js suffix) body s)"

fun parse_all :: "(json \<Rightarrow> 'a option) \<Rightarrow> json list \<Rightarrow> 'a list option" where
  "parse_all schema [] = Some []"
| "parse_all schema (x # xs) = (case (schema x, parse_all schema xs) of (Some a, Some as) \<Rightarrow> Some (a # as) | _ \<Rightarrow> None)"

text \<open>\<open>z.array(schema)\<close>\<close>

fun array_schema :: "(json \<Rightarrow> 'a option) \<Rightarrow> json \<Rightarrow> 'a list option" where
  "array_schema schema (JArray xs) = parse_all schema xs"
| "array_schema schema _ = None"

definition app_fetchAuthCountries where
  "app_fetchAuthCountries e text_of schema = api_call e text_of schema ''get'' (js ''/auth/countries'') None"

definition app_refreshSession where
  "app_refreshSession e text_of schema refreshToken =
     api_call e text_of schema ''post'' (js ''/auth/refresh'') (Some (JObject [(js ''refreshToken'', JString refreshToken)]))"

definition app_logoutSession where
  "app_logoutSession e text_of schema refreshToken allDevices =
     api_call e text_of schema ''post'' (js ''/auth/logout'')
       (Some (JObject ((if truthy refreshToken then [(js ''refreshToken'', JString (the refreshToken))] else [])
                    @ (if allDevices then [(js ''allDevices'', JBool True)] else []))))"

definition app_getActiveGoal where
  "app_getActiveGoal e text_of schema s =
     (case api_call e text_of schema ''get'' (js ''/goals/active'') None s of
        (Inr goal, rest) \<Rightarrow> (Inr (Some goal), rest)
      | (Inl (Api err), rest) \<Rightarrow> if er_status err = Some 404 then (Inr None, rest) else (Inl (Api err), rest)
      | (Inl err, rest) \<Rightarrow> (Inl err, rest))"

definition app_createGoal where
  "app_createGoal e text_of schema payload = api_call e text_of schema ''post'' (js ''/goals'') (Some payload)"

definition app_listGoals where
  "app_listGoals e text_of schema = api_call e text_of (array_schema schema) ''get'' (js ''/goals'') None"

definition app_updateGoal where
  "app_updateGoal e text_of schema i payload = call_by_id e text_of schema ''patch'' ''/goals/'' i [] (Some payload)"

definition app_endGoal where
  "app_endGoal e text_of schema i payload = call_by_id e text_of schema ''post'' ''/goals/'' i ''/end'' (Some payload)"

definition app_createTransaction where
  "app_createTransaction e text_of schema payload = api_call e text_of schema ''post'' (js ''/transactions'') (Some payload)"

text \<open>Parameters that are \<open>undefined\<close> are not sent.\<close>

definition app_listTransactions where
  "app_listTransactions e text_of schema start end' s =
     parsed (array_schema schema) (send e text_of ((new_request ''get'' (js ''/transactions'') None)\<lparr>rq_params :=
       (case start of None \<Rightarrow> [] | Some v \<Rightarrow> [(js ''from'', v)]) @ (case end' of None \<Rightarrow> [] | Some v \<Rightarrow> [(js ''to'', v)])\<rparr>) s)"

definition app_updateTransaction where
  "app_updateTransaction e text_of schema i payload = call_by_id e text_of schema ''patch'' ''/transactions/'' i [] (Some payload)"

definition app_deleteTransaction where
  "app_deleteTransaction e text_of schema i = call_by_id e text_of schema ''delete'' ''/transactions/'' i [] None"

definition app_previewTransactionImport where
  "app_previewTransactionImport e text_of schema payload = api_call e text_of schema ''post'' (js ''/transactions/import/preview'') (Some payload)"

definition app_confirmTransactionImport where
  "app_confirmTransactionImport e text_of schema payload = api_call e text_of schema ''post'' (js ''/transactions/import'') (Some payload)"

definition app_getDashboardStability where
  "app_getDashboardStability e text_of schema = api_call e text_of schema ''get'' (js ''/dashboard/stability'') None"

definition app_getAlertPreferences where
  "app_getAlertPreferences e text_of schema = api_call e text_of schema ''get'' (js ''/alerts/preferences'') None"

definition app_updateAlertPreferences where
  "app_updateAlertPreferences e text_of schema payload = api_call e text_of schema ''patch'' (js ''/alerts/preferences'') (Some payload)"

definition app_getAccount where
  "app_getAccount e text_of schema = api_call e text_of schema ''get'' (js ''/account'') None"

definition app_updateAccountProfile where
  "app_updateAccountProfile e text_of schema payload = api_call e text_of schema ''patch'' (js ''/account/profile'') (Some payload)"

definition app_updateAccountConsents where
  "app_updateAccountConsents e text_of schema payload = api_call e text_of schema ''put'' (js ''/account/consents'') (Some payload)"

definition app_exportAccountData where
  "app_exportAccountData e text_of schema = api_call e text_of schema ''get'' (js ''/account/export'') None"

definition app_deleteAccount where
  "app_deleteAccount e text_of schema =
     api_call e text_of schema ''delete'' (js ''/account'') (Some (JObject [(js ''confirmation'', JString (js ''DELETE''))]))"

text \<open>The messages of a failed schema check, for a value that is one.\<close>

definition parseApiValidationErrors :: "jstring list option \<Rightarrow> jstring option" where
  "parseApiValidationErrors issues = map_option (join (js '', '')) issues"

definition otp_payload_json :: "jstring \<Rightarrow> jstring \<Rightarrow> (jstring \<times> json) list" where
  "otp_payload_json phone countryIso = [(js ''phone'', JString phone), (js ''countryIso'', JString countryIso)]"

definition app_requestOtp where
  "app_requestOtp e text_of schema phone countryIso s =
     (case ce_uuid e s of (key, s1) \<Rightarrow>
        otp_attempts OTP_REQUEST_MAX_ATTEMPTS (exhausted ''OTP request retry policy exhausted'') (ce_random e)
          (\<lambda>s. parsed schema (send e text_of ((new_request ''post'' (js ''/auth/request-otp'')
             (Some (JObject (otp_payload_json phone countryIso))))\<lparr>rq_idempotencyKey := Some key\<rparr>) s)) 1 s1)"

definition app_verifyOtp where
  "app_verifyOtp e text_of schema phone countryIso otp givenKey s =
     (case (case givenKey of Some key \<Rightarrow> (key, s) | None \<Rightarrow> ce_uuid e s) of (key, s1) \<Rightarrow>
        otp_attempts OTP_VERIFY_MAX_ATTEMPTS (exhausted ''OTP verification retry policy exhausted'') (ce_random e)
          (\<lambda>s. parsed schema (send e text_of ((new_request ''post'' (js ''/auth/verify-otp'')
             (Some (JObject (otp_payload_json phone countryIso @ [(js ''otp'', JString otp)]))))\<lparr>rq_idempotencyKey := Some key\<rparr>) s)) 1 s1)"

section \<open>How often a request is sent\<close>

fun sent :: "client_event list \<Rightarrow> request list" where
  "sent [] = []"
| "sent (Sent rq # tr) = rq # sent tr"
| "sent (_ # tr) = sent tr"

definition how_often :: "client_event \<Rightarrow> client_event list \<Rightarrow> nat" where
  "how_often x tr = length (filter ((=) x) tr)"

lemma sent_append [simp]: "sent (a @ b) = sent a @ sent b"
  by (induction a rule: sent.induct) auto

lemma how_often_simps [simp]: "how_often x [] = 0" "how_often x (y # tr) = (if x = y then 1 else 0) + how_often x tr" "how_often x (a @ b) = how_often x a + how_often x b"
  by (simp_all add: how_often_def)

lemma reported_silent [simp]: "sent (reported r) = []" "how_often AskedRefresh (reported r) = 0" "how_often SignedOut (reported r) = 0"
  by (simp_all add: reported_def split: option.splits)

text \<open>The session has ended: the server refused the token of a call that needs one.\<close>

definition refused_token :: "request \<Rightarrow> call_error + json \<Rightarrow> bool" where
  "refused_token rq r \<longleftrightarrow> (case r of Inl (Api err) \<Rightarrow> er_status err = Some 401 \<and> \<not> isPublicAuthRequest (rq_url rq) | _ \<Rightarrow> False)"

definition same_call :: "request \<Rightarrow> request \<Rightarrow> bool" where
  "same_call a b \<longleftrightarrow> rq_method a = rq_method b \<and> rq_url a = rq_url b \<and> rq_params a = rq_params b \<and> rq_body a = rq_body b
     \<and> rq_idempotencyKey a = rq_idempotencyKey b"

lemma attach_headers_same: "attach_headers e rq s = (Some rq', s') \<Longrightarrow> same_call rq' rq \<and> rq_steadRetry rq' = rq_steadRetry rq"
  by (auto simp: attach_headers_def Let_def same_call_def split: prod.splits option.splits)

lemma authorize_retry_same: "same_call (authorize_retry t rq) rq"
  by (simp add: authorize_retry_def same_call_def)

lemma same_call_trans: "same_call a b \<Longrightarrow> same_call b c \<Longrightarrow> same_call a c"
  by (simp add: same_call_def)

lemma api_error_status [simp]: "er_status (api_error_of text_of rq f) = fl_status f"
  by (simp add: api_error_of_def Let_def)

definition well_sent :: "nat \<Rightarrow> request \<Rightarrow> (call_error + json) \<times> client_event list \<times> 's \<Rightarrow> bool" where
  "well_sent n rq out = (case out of (r, tr, _) \<Rightarrow> length (sent tr) \<le> n \<and> how_often AskedRefresh tr \<le> n - 1
     \<and> how_often SignedOut tr = (if refused_token rq r then 1 else 0) \<and> list_all (\<lambda>q. same_call q rq) (sent tr))"

lemma well_sent_bound:
  assumes "rq_steadRetry rq \<or> isPublicAuthRequest (rq_url rq)"
  shows "well_sent 1 rq (send e text_of rq s)"
proof (cases "attach_headers e rq s")
  case (Pair o1 s1)
  show ?thesis
  proof (cases o1)
    case None
    then show ?thesis using Pair by (simp add: send.simps well_sent_def refused_token_def unexpected_error_def)
  next
    case (Some rq1)
    have same: "same_call rq1 rq" "rq_steadRetry rq1 = rq_steadRetry rq" using attach_headers_same [OF Pair [unfolded Some]] by simp_all
    then have url: "rq_url rq1 = rq_url rq" by (simp add: same_call_def)
    obtain out s2 where tr: "ce_transport e rq1 s1 = (out, s2)" by fastforce
    show ?thesis
      using assms Pair Some tr same url
      by (cases out) (auto simp: send.simps [of e text_of rq s] well_sent_def refused_token_def failed_request_def expired_def)
  qed
qed

lemma well_sent_once_more: "well_sent n rq out \<Longrightarrow> n \<le> m \<Longrightarrow> well_sent m rq out"
  by (auto simp: well_sent_def split: prod.splits)

lemma send_well_sent: "well_sent 2 rq (send e text_of rq s)"
proof (cases "rq_steadRetry rq \<or> isPublicAuthRequest (rq_url rq)")
  case True
  then show ?thesis by (intro well_sent_once_more [OF well_sent_bound]) simp_all
next
  case False
  obtain o1 s1 where h: "attach_headers e rq s = (o1, s1)" by fastforce
  show ?thesis
  proof (cases o1)
    case None
    then show ?thesis using h by (simp add: send.simps well_sent_def refused_token_def unexpected_error_def)
  next
    case (Some rq1)
    have same: "same_call rq1 rq" "rq_steadRetry rq1 = rq_steadRetry rq" using attach_headers_same [OF h [unfolded Some]] by simp_all
    then have url: "rq_url rq1 = rq_url rq" by (simp add: same_call_def)
    obtain out s2 where tr: "ce_transport e rq1 s1 = (out, s2)" by fastforce
    obtain token s3 where rot: "ce_rotate e s2 = (token, s3)" by fastforce
    let ?again = "authorize_retry (the token) rq1"
    obtain r tr' s4 where again: "send e text_of ?again s3 = (r, tr', s4)" by (metis prod_cases3)
    have "well_sent 1 ?again (r, tr', s4)"
      using well_sent_bound [of ?again e text_of s3] again by (simp add: authorize_retry_def)
    moreover have "same_call ?again rq" using authorize_retry_same same(1) by (rule same_call_trans)
    ultimately have w: "length (sent tr') \<le> 1" "how_often AskedRefresh tr' = 0" "how_often SignedOut tr' = (if refused_token rq r then 1 else 0)"
      "list_all (\<lambda>q. same_call q rq) (sent tr')"
      by (auto simp: well_sent_def refused_token_def same_call_def split: sum.splits call_error.splits)
    show ?thesis
      using False h Some tr rot again same url w
      by (cases out) (auto simp: send.simps [of e text_of rq s] well_sent_def refused_token_def failed_request_def expired_def)
  qed
qed

text \<open>
  C18. Every call of the client ends: a request goes out at most twice, the same call both times,
  with at most one refresh of the token in between; and the session is ended, once, exactly
  when the call fails because the server refuses the token.
\<close>

theorem request_sent_at_most_twice:
  "case send e text_of rq s of (r, tr, _) \<Rightarrow> length (sent tr) \<le> 2 \<and> how_often AskedRefresh tr \<le> 1
     \<and> how_often SignedOut tr = (if refused_token rq r then 1 else 0) \<and> list_all (\<lambda>q. same_call q rq) (sent tr)"
  using send_well_sent [of rq e text_of s] by (simp add: well_sent_def)

section \<open>How often a code is requested\<close>

text \<open>What one attempt may do: at most one request, of the same call, and no sign-out.\<close>

definition one_attempt :: "request \<Rightarrow> ('s \<Rightarrow> (call_error + 'a) \<times> client_event list \<times> 's) \<Rightarrow> bool" where
  "one_attempt rq once \<longleftrightarrow> (\<forall>s. case once s of (r, tr, _) \<Rightarrow> length (sent tr) \<le> 1 \<and> how_often SignedOut tr = 0
     \<and> how_often AskedRefresh tr = 0 \<and> list_all (\<lambda>q. same_call q rq) (sent tr))"

definition attempts_ok :: "nat \<Rightarrow> request \<Rightarrow> (call_error + 'a) \<times> client_event list \<times> 's \<Rightarrow> bool" where
  "attempts_ok n rq out = (case out of (r, tr, _) \<Rightarrow> length (sent tr) \<le> n \<and> how_often SignedOut tr = 0
     \<and> how_often AskedRefresh tr = 0 \<and> list_all (\<lambda>q. same_call q rq) (sent tr))"

lemma otp_attempts_last:
  assumes "attempt \<le> limit" and "once s = (r, tr, s1)"
    and "\<not> (\<exists>err. r = Inl err \<and> isRetryableOtpError err \<and> attempt < limit)"
  shows "otp_attempts limit over random once attempt s = (r, tr, s1)"
  using assms by (cases r) (auto simp: otp_attempts.simps [of limit over random once attempt s])

lemma otp_attempts_again:
  assumes "once s = (Inl err, tr, s1)" and "isRetryableOtpError err" and "attempt < limit" and "random s1 = (rnd, s2)"
    and "otp_attempts limit over random once (Suc attempt) s2 = (r', tr', s3)"
  shows "otp_attempts limit over random once attempt s = (r', tr @ Waited (otpRetryDelayMs rnd attempt) # tr', s3)"
  using assms by (simp add: otp_attempts.simps [of limit over random once attempt s])

lemma otp_attempts_cases:
  assumes "attempt \<le> limit"
  obtains (last) r tr s1 where "once s = (r, tr, s1)" "otp_attempts limit over random once attempt s = (r, tr, s1)"
    | (again) err tr s1 rnd s2 r' tr' s3 where "once s = (Inl err, tr, s1)" "attempt < limit"
        "otp_attempts limit over random once (Suc attempt) s2 = (r', tr', s3)"
        "otp_attempts limit over random once attempt s = (r', tr @ Waited (otpRetryDelayMs rnd attempt) # tr', s3)"
proof -
  obtain r tr s1 where t: "once s = (r, tr, s1)" by (metis prod_cases3)
  obtain rnd s2 where rs: "random s1 = (rnd, s2)" by fastforce
  obtain r' tr' s3 where rest: "otp_attempts limit over random once (Suc attempt) s2 = (r', tr', s3)" by (metis prod_cases3)
  show ?thesis
  proof (cases "\<exists>err. r = Inl err \<and> isRetryableOtpError err \<and> attempt < limit")
    case True
    then obtain err where e: "r = Inl err" "isRetryableOtpError err" "attempt < limit" by blast
    show ?thesis
      using otp_attempts_again [where s = s, OF t [unfolded e(1)] e(2,3) rs rest] t e rest by (intro again) simp_all
  next
    case False
    then show ?thesis using otp_attempts_last [where once = once and s = s, OF assms t] t by (intro last)
  qed
qed

lemma otp_attempts_bounded:
  assumes "one_attempt rq once"
  shows "attempts_ok (Suc limit - attempt) rq (otp_attempts limit over random once attempt s)"
proof (induction "Suc limit - attempt" arbitrary: attempt s)
  case 0
  then show ?case by (simp add: otp_attempts.simps attempts_ok_def)
next
  case (Suc n)
  then have a: "attempt \<le> limit" "n = Suc limit - Suc attempt" by simp_all
  have one: "length (sent tr) \<le> 1 \<and> how_often SignedOut tr = 0 \<and> how_often AskedRefresh tr = 0 \<and> list_all (\<lambda>q. same_call q rq) (sent tr)"
    if "once s = (r, tr, s1)" for r tr s1
    using assms that unfolding one_attempt_def by (metis (mono_tags, lifting) case_prod_conv)
  from a(1) show ?case
  proof (cases rule: otp_attempts_cases [where once = once and s = s and over = over and random = random])
    case (last r tr s1)
    moreover have "1 \<le> Suc limit - attempt" using a(1) by simp
    ultimately show ?thesis using one [OF last(1)] le_trans unfolding attempts_ok_def last(2) by fastforce
  next
    case (again err tr s1 rnd s2 r' tr' s3)
    have "attempts_ok n rq (r', tr', s3)" using Suc.hyps(1) [OF a(2), of s2] unfolding again(3) a(2) [symmetric] .
    then show ?thesis using one [OF again(1)] unfolding Suc.hyps(2) [symmetric] by (simp add: attempts_ok_def again(4))
  qed
qed

lemma otp_attempts_result:
  "attempt \<le> limit \<Longrightarrow> \<exists>s1. fst (once s1) = fst (otp_attempts limit over random once attempt s)"
proof (induction "limit - attempt" arbitrary: attempt s rule: less_induct)
  case less
  from less.prems show ?case
  proof (cases rule: otp_attempts_cases [where once = once and s = s and over = over and random = random])
    case (last r tr s1)
    then have "fst (once s) = fst (otp_attempts limit over random once attempt s)" by simp
    then show ?thesis ..
  next
    case (again err tr s1 rnd s2 r' tr' s3)
    then have "\<exists>s1. fst (once s1) = fst (otp_attempts limit over random once (Suc attempt) s2)"
      by (intro less.hyps) simp_all
    then show ?thesis by (simp add: again)
  qed
qed

lemma parsed_keeps: "parsed schema out = (r, rest) \<Longrightarrow> snd out = rest"
  by (auto simp: parsed_def split: prod.splits sum.splits option.splits)

lemma public_attempt:
  assumes "isPublicAuthRequest (rq_url rq)"
  shows "one_attempt rq (\<lambda>s. parsed schema (send e text_of rq s))"
  unfolding one_attempt_def
proof
  fix s
  obtain r tr s1 where out: "send e text_of rq s = (r, tr, s1)" by (metis prod_cases3)
  obtain r' where p: "parsed schema (r, tr, s1) = (r', tr, s1)"
    using parsed_keeps [of schema "(r, tr, s1)"] by (metis prod.exhaust snd_conv)
  have "well_sent 1 rq (r, tr, s1)" using well_sent_bound [of rq e text_of s] assms out by simp
  moreover have "\<not> refused_token rq r" using assms by (auto simp: refused_token_def split: sum.splits call_error.splits)
  ultimately show "case parsed schema (send e text_of rq s) of (r, tr, _) \<Rightarrow> length (sent tr) \<le> 1 \<and> how_often SignedOut tr = 0
     \<and> how_often AskedRefresh tr = 0 \<and> list_all (\<lambda>q. same_call q rq) (sent tr)"
    by (simp add: out p well_sent_def)
qed

definition otp_request :: "jstring \<Rightarrow> jstring \<Rightarrow> jstring \<Rightarrow> request" where
  "otp_request key phone countryIso = (new_request ''post'' (js ''/auth/request-otp'')
     (Some (JObject (otp_payload_json phone countryIso))))\<lparr>rq_idempotencyKey := Some key\<rparr>"

text \<open>
  C19. A request for a code ends after at most three attempts, each the same call with the same
  idempotency key; it never signs the user out, and it ends with the answer or the error of an
  attempt, never with the error of an exhausted loop.
\<close>

theorem otp_request_ends:
  "case app_requestOtp e text_of schema phone countryIso s of (r, tr, _) \<Rightarrow>
     length (sent tr) \<le> 3 \<and> how_often SignedOut tr = 0
   \<and> list_all (\<lambda>q. same_call q (otp_request (fst (ce_uuid e s)) phone countryIso)) (sent tr)
   \<and> (\<exists>s1. fst (parsed schema (send e text_of (otp_request (fst (ce_uuid e s)) phone countryIso) s1)) = r)"
proof -
  obtain key s1 where u: "ce_uuid e s = (key, s1)" by fastforce
  let ?rq = "otp_request key phone countryIso"
  let ?out = "otp_attempts 3 (exhausted ''OTP request retry policy exhausted'') (ce_random e) (\<lambda>s. parsed schema (send e text_of ?rq s)) 1 s1"
  have out: "app_requestOtp e text_of schema phone countryIso s = ?out"
    by (simp add: app_requestOtp_def u otp_request_def OTP_REQUEST_MAX_ATTEMPTS_def)
  have "isPublicAuthRequest (rq_url ?rq)" by (simp add: otp_request_def new_request_def) code_simp
  then have "attempts_ok 3 ?rq ?out" using otp_attempts_bounded [OF public_attempt, where limit = 3 and attempt = 1] by simp
  moreover have "\<exists>s1. fst (parsed schema (send e text_of ?rq s1)) = fst ?out"
    by (rule otp_attempts_result) simp
  ultimately show ?thesis by (auto simp: out u attempts_ok_def split: prod.splits)
qed

section \<open>The delay\<close>

lemma jitter_range:
  assumes "0 \<le> random" and "random < 1"
  shows "3 / 4 \<le> fl (3 / 4 + fl (random * (1 / 2)))" and "fl (3 / 4 + fl (random * (1 / 2))) \<le> 5 / 4"
proof -
  have c: "fl (3 / 4) = 3 / 4" "fl (1 / 2) = 1 / 2" "fl (5 / 4) = 5 / 4" by code_simp+
  have h: "0 \<le> fl (random * (1 / 2))" "fl (random * (1 / 2)) \<le> 1 / 2"
    using fl_mono [of 0 "random * (1 / 2)"] fl_mono [of "random * (1 / 2)" "1 / 2"] assms c by simp_all
  show "3 / 4 \<le> fl (3 / 4 + fl (random * (1 / 2)))" using fl_mono [of "3 / 4" "3 / 4 + fl (random * (1 / 2))"] h c by simp
  show "fl (3 / 4 + fl (random * (1 / 2))) \<le> 5 / 4" using fl_mono [of "3 / 4 + fl (random * (1 / 2))" "5 / 4"] h c by simp
qed

lemma otp_delay_bounds:
  assumes "0 \<le> random" and "random < 1" and "n \<in> {1, 2}"
  shows "375 * 2 ^ (n - 1) \<le> otpRetryDelayMs random n \<and> otpRetryDelayMs random n \<le> 625 * 2 ^ (n - 1)"
proof -
  let ?j = "fl (3 / 4 + fl (random * (1 / 2)))"
  note j = jitter_range [OF assms(1,2)]
  have "of_int (375 * 2 ^ (n - 1)) \<le> fl (of_int (500 * 2 ^ (n - 1)) * ?j)" "fl (of_int (500 * 2 ^ (n - 1)) * ?j) \<le> of_int (625 * 2 ^ (n - 1))"
    using j assms(3) by (intro ieee.rnd_between [where l = "375 * 2 ^ (n - 1)" and h = "625 * 2 ^ (n - 1)"]; auto)+
  then show ?thesis
    using math_round_mono math_round_of_int unfolding otpRetryDelayMs_def Let_def OTP_RETRY_BASE_MS_def by metis
qed

end
