(* ===== verification/Mobile_Signin.thy ===== *)
theory Mobile_Signin
  imports Token_Store Mobile_Api Auth_Session Import_Parser
begin

text \<open>
  What the sign-in screens of the mobile app are built from: countries, telephone numbers and
  codes (\<open>mobile/src/lib/countries.ts\<close>, \<open>phone.ts\<close>, \<open>otp-request.ts\<close>, \<open>otp.ts\<close>), the texts for
  errors (\<open>auth-feedback.ts\<close>), the identifier of the installation that goes with every request
  (\<open>installation-id-store.ts\<close>), and the address and timeout of the API (\<open>base-url.ts\<close>,
  \<open>app-config.ts\<close>). Parsing telephone numbers is the same parameter as in the API.
\<close>

section \<open>Countries\<close>

definition fallbackAuthCountries :: "auth_country list" where
  "fallbackAuthCountries =
     [\<lparr>co_iso = js ''NG'', co_label = js ''Nigeria'', co_dialCode = js ''+234'', co_currencyCode = js ''NGN'',
       co_phoneExample = js ''08012345678'', co_authEnabled = True, co_marketEnabled = True, co_defaultCountry = True\<rparr>,
      \<lparr>co_iso = js ''US'', co_label = js ''United States'', co_dialCode = js ''+1'', co_currencyCode = js ''USD'',
       co_phoneExample = js ''4155552671'', co_authEnabled = True, co_marketEnabled = False, co_defaultCountry = False\<rparr>,
      \<lparr>co_iso = js ''GB'', co_label = js ''United Kingdom'', co_dialCode = js ''+44'', co_currencyCode = js ''GBP'',
       co_phoneExample = js ''07911123456'', co_authEnabled = True, co_marketEnabled = False, co_defaultCountry = False\<rparr>]"

definition defaultAuthCountryIso :: jstring where "defaultAuthCountryIso = js ''NG''"

text \<open>None of an empty list, where the source reads \<open>undefined\<close>.\<close>

definition getDefaultAuthCountry :: "auth_country list \<Rightarrow> auth_country option" where
  "getDefaultAuthCountry options = (case find_first co_defaultCountry options of
      Some c \<Rightarrow> Some c | None \<Rightarrow> (case options of [] \<Rightarrow> None | c # _ \<Rightarrow> Some c))"

definition getAuthCountry :: "jstring \<Rightarrow> auth_country list \<Rightarrow> auth_country option" where
  "getAuthCountry isoCode options = (case find_first (\<lambda>c. co_iso c = isoCode) options of
      Some c \<Rightarrow> Some c | None \<Rightarrow> getDefaultAuthCountry options)"

definition withDisplayPhoneExamples :: "auth_country list \<Rightarrow> auth_country list" where
  "withDisplayPhoneExamples options = map (\<lambda>c. c\<lparr>co_phoneExample :=
     (if co_iso c = js ''US'' then js ''(415) 555-2671'' else if co_iso c = js ''GB'' then js ''07911 123456''
      else js ''0801 234 5678'')\<rparr>) options"

section \<open>Telephone numbers\<close>

definition onlyDigits :: "jstring \<Rightarrow> jstring" where
  "onlyDigits phone = filter is_digit phone"

definition slice :: "nat \<Rightarrow> nat \<Rightarrow> jstring \<Rightarrow> jstring" where
  "slice from end' s = take (end' - from) (drop from s)"

definition formatNigerianPhone :: "jstring \<Rightarrow> jstring" where
  "formatNigerianPhone digits = join (js '' '') (filter (\<lambda>p. p \<noteq> []) [slice 0 4 digits, slice 4 7 digits, slice 7 11 digits])"

definition formatUsPhone :: "jstring \<Rightarrow> jstring" where
  "formatUsPhone digits =
     (let area = slice 0 3 digits; prefix = slice 3 6 digits; line = slice 6 10 digits
      in if length digits \<le> 3 then (if area \<noteq> [] then js ''('' @ area else [])
         else if length digits \<le> 6 then js ''('' @ area @ js '') '' @ prefix
         else js ''('' @ area @ js '') '' @ prefix @ js ''-'' @ line)"

definition formatGbPhone :: "jstring \<Rightarrow> jstring" where
  "formatGbPhone digits = join (js '' '') (filter (\<lambda>p. p \<noteq> []) [slice 0 5 digits, slice 5 11 digits])"

definition formatPhoneForDisplay :: "jstring \<Rightarrow> jstring \<Rightarrow> jstring" where
  "formatPhoneForDisplay phone countryIso =
     (if take 1 (trim phone) = js ''+'' then js ''+'' @ slice 0 15 (onlyDigits (trim phone))
      else if countryIso = js ''US'' then formatUsPhone (onlyDigits phone)
      else if countryIso = js ''GB'' then formatGbPhone (onlyDigits phone)
      else formatNigerianPhone (onlyDigits phone))"

definition normalizePhoneForCountry :: "auth_env \<Rightarrow> jstring \<Rightarrow> jstring \<Rightarrow> jstring option" where
  "normalizePhoneForCountry e phone countryIso =
     (let compact = filter (\<lambda>c. \<not> phone_noise c) phone;
          candidate = (if take 2 compact = js ''00'' then js ''+'' @ drop 2 compact else compact);
          parsed = (if take 1 candidate = js ''+'' then parse_phone e candidate None
                    else parse_phone e candidate (Some countryIso))
      in (case parsed of
            None \<Rightarrow> None
          | Some p \<Rightarrow> if \<not> pn_valid p \<or> pn_country p \<noteq> Some countryIso then None else Some (pn_number p)))"

definition isValidPhoneForCountry :: "auth_env \<Rightarrow> jstring \<Rightarrow> jstring \<Rightarrow> bool" where
  "isValidPhoneForCountry e phone countryIso \<longleftrightarrow> normalizePhoneForCountry e phone countryIso \<noteq> None"

section \<open>Codes\<close>

definition resolveEffectiveCountryIso :: "jstring \<Rightarrow> auth_country list \<Rightarrow> jstring" where
  "resolveEffectiveCountryIso selected options =
     (if list_ex (\<lambda>c. co_iso c = selected) options then selected
      else (case getDefaultAuthCountry options of Some c \<Rightarrow> co_iso c | None \<Rightarrow> defaultAuthCountryIso))"

definition buildOtpRequestInput :: "auth_env \<Rightarrow> jstring \<Rightarrow> jstring \<Rightarrow> auth_country list \<Rightarrow> request_otp_dto option" where
  "buildOtpRequestInput e phone selected options =
     (let countryIso = resolveEffectiveCountryIso selected options
      in map_option (\<lambda>n. \<lparr>ro_countryIso = countryIso, ro_phone = n\<rparr>) (normalizePhoneForCountry e phone countryIso))"

definition resolveOtpToSubmit :: "jstring \<Rightarrow> jstring \<Rightarrow> jstring" where
  "resolveOtpToSubmit otp devOtpHint = (if trim otp \<noteq> [] then trim otp else trim devOtpHint)"

definition isValidOtp :: "jstring \<Rightarrow> bool" where
  "isValidOtp otp \<longleftrightarrow> digits_between 6 6 otp"

section \<open>Texts for errors\<close>

datatype auth_feedback_action = ActRequest | ActVerify | ActResend

fun fallback_message :: "auth_feedback_action \<Rightarrow> string" where
  "fallback_message ActRequest = ''We could not send a code right now. Try again in a moment.''"
| "fallback_message ActVerify = ''We could not verify that code right now. Try again in a moment.''"
| "fallback_message ActResend = ''We could not send another code right now. Try again in a moment.''"

definition SESSION_EXPIRED_MESSAGE :: string where
  "SESSION_EXPIRED_MESSAGE = ''Your session expired. Sign in again.''"

definition known_messages :: "(string \<times> string) list" where
  "known_messages =
     [(''Please wait before requesting another OTP.'', ''A code was just sent. Wait a moment, then request a new one.''),
      (''Too many OTP requests from this network. Try again later.'', ''Too many code requests came from this network. Try again later.''),
      (''Too many OTP requests from this device. Try again later.'', ''Too many code requests came from this device. Try again later.''),
      (''Too many OTP requests. Try again later.'', ''Too many code requests were made for this number. Try again later.''),
      (''OTP expired or not found'', ''That code expired or is no longer valid. Request a new one and try again.''),
      (''Invalid phone or code'', ''That code did not match this phone number. Check it and try again.''),
      (''Too many invalid OTP attempts. Request a new code.'', ''Too many incorrect codes were entered. Request a new code to continue.''),
      (''Too many invalid OTP attempts from this network. Try again later.'', ''Too many incorrect codes came from this network. Try again later.''),
      (''Too many invalid OTP attempts from this device. Try again later.'', ''Too many incorrect codes came from this device. Try again later.''),
      (''Unexpected network error'', ''We could not reach Stead right now. Check your connection and try again.''),
      (''Invalid token'', SESSION_EXPIRED_MESSAGE),
      (''Session expired'', SESSION_EXPIRED_MESSAGE),
      (SESSION_EXPIRED_MESSAGE, SESSION_EXPIRED_MESSAGE)]"

fun getAuthErrorMessage :: "call_error \<Rightarrow> auth_feedback_action \<Rightarrow> jstring" where
  "getAuthErrorMessage (Api err) act =
     (case find_first (\<lambda>(m, _). js m = er_message err) known_messages of
        Some (_, shown) \<Rightarrow> js shown
      | None \<Rightarrow> if er_message err = [] then js (fallback_message act) else er_message err)"
| "getAuthErrorMessage _ act = js (fallback_message act)"

definition formatCooldownLabel :: "int \<Rightarrow> jstring" where
  "formatCooldownLabel remainingMs = int_text (max 0 (- ((- remainingMs) div 1000))) @ js ''s''"

definition OTP_RESEND_COOLDOWN_MS :: int where "OTP_RESEND_COOLDOWN_MS = 60000"

section \<open>The installation\<close>

text \<open>Its identifier is cached for the life of the process and stored like the tokens, with a
  fallback that uses the map whenever local storage is missing, throws, or has nothing.\<close>

record installation =
  in_cached :: "jstring option" \<comment> \<open>\<open>cachedInstallationId\<close>\<close>
  in_store :: device_store

definition INSTALLATION_ID_KEY :: jstring where "INSTALLATION_ID_KEY = js ''stead.installation-id''"

definition isValidInstallationId :: "jstring option \<Rightarrow> bool" where
  "isValidInstallationId v = (case v of None \<Rightarrow> False | Some s \<Rightarrow> is_uuid_v4 s)"

definition getFallbackId :: "device_store \<Rightarrow> jstring option" where
  "getFallbackId s = (case local_items s of
      LocalStorage m \<Rightarrow> (case m INSTALLATION_ID_KEY of Some v \<Rightarrow> Some v | None \<Rightarrow> memory_items s INSTALLATION_ID_KEY)
    | _ \<Rightarrow> memory_items s INSTALLATION_ID_KEY)"

definition setFallbackId :: "jstring \<Rightarrow> device_store \<Rightarrow> device_store" where
  "setFallbackId i s = (case local_items s of
      LocalStorage m \<Rightarrow> s\<lparr>local_items := LocalStorage (m(INSTALLATION_ID_KEY \<mapsto> i))\<rparr>
    | _ \<Rightarrow> s\<lparr>memory_items := (memory_items s)(INSTALLATION_ID_KEY \<mapsto> i)\<rparr>)"

definition clearFallbackId :: "device_store \<Rightarrow> device_store" where
  "clearFallbackId s =
     (let s' = (case local_items s of
          LocalStorage m \<Rightarrow> s\<lparr>local_items := LocalStorage (m(INSTALLATION_ID_KEY := None))\<rparr> | _ \<Rightarrow> s)
      in s'\<lparr>memory_items := (memory_items s')(INSTALLATION_ID_KEY := None)\<rparr>)"

definition loadStoredId :: "bool \<Rightarrow> device_store \<Rightarrow> jstring option" where
  "loadStoredId ok s =
     (if \<not> has_secure s \<or> \<not> ok then getFallbackId s
      else (case secure_items s INSTALLATION_ID_KEY of Some v \<Rightarrow> Some v | None \<Rightarrow> getFallbackId s))"

definition persistId :: "bool \<Rightarrow> jstring \<Rightarrow> device_store \<Rightarrow> device_store" where
  "persistId ok i s =
     (if \<not> has_secure s \<or> \<not> ok then setFallbackId i s
      else s\<lparr>secure_items := (secure_items s)(INSTALLATION_ID_KEY \<mapsto> i)\<rparr>)"

text \<open>\<open>uuid\<close> is the identifier the platform makes up when one is needed.\<close>

definition loadOrCreateId :: "bool \<Rightarrow> bool \<Rightarrow> jstring \<Rightarrow> installation \<Rightarrow> jstring \<times> installation" where
  "loadOrCreateId readOk writeOk uuid n =
     (if isValidInstallationId (loadStoredId readOk (in_store n))
      then (let i = ascii_lower (the (loadStoredId readOk (in_store n))) in (i, n\<lparr>in_cached := Some i\<rparr>))
      else (let i = ascii_lower uuid in (i, n\<lparr>in_cached := Some i, in_store := persistId writeOk i (in_store n)\<rparr>)))"

definition getOrCreateId :: "bool \<Rightarrow> bool \<Rightarrow> jstring \<Rightarrow> installation \<Rightarrow> jstring \<times> installation" where
  "getOrCreateId readOk writeOk uuid n =
     (if truthy (in_cached n) then (the (in_cached n), n) else loadOrCreateId readOk writeOk uuid n)"

definition clearId :: "bool \<Rightarrow> installation \<Rightarrow> installation" where
  "clearId ok n =
     n\<lparr>in_cached := None, in_store := clearFallbackId
        (if has_secure (in_store n) \<and> ok then (in_store n)\<lparr>secure_items := (secure_items (in_store n))(INSTALLATION_ID_KEY := None)\<rparr>
         else in_store n)\<rparr>"

text \<open>A new process: what is left is what was stored outside the process.\<close>

definition process_restart :: "installation \<Rightarrow> installation" where
  "process_restart n = n\<lparr>in_cached := None, in_store := (in_store n)\<lparr>memory_items := Map.empty\<rparr>\<rparr>"

lemmas installation_defs = loadStoredId_def persistId_def getFallbackId_def setFallbackId_def

lemma lower_unit_hex:
  assumes "is_hex c"
  shows "is_hex (ascii_lower_unit c)"
proof (cases "65 \<le> c \<and> c \<le> 90")
  case True
  then have "unat c \<le> 90" by (simp add: word_le_nat_alt)
  then have "unat (c + 32) = unat c + 32" by (simp add: unat_word_ariths)
  moreover have "unat c \<le> 70" using assms True by (simp add: is_hex_def is_digit_def word_le_nat_alt)
  ultimately show ?thesis using True assms by (simp add: ascii_lower_unit_def is_hex_def is_digit_def word_le_nat_alt)
next
  case False
  then show ?thesis using assms by (auto simp: ascii_lower_unit_def)
qed

lemma lower_unit_keeps:
  "is_dash c \<Longrightarrow> is_dash (ascii_lower_unit c)" "is_four c \<Longrightarrow> is_four (ascii_lower_unit c)"
  "is_variant c \<Longrightarrow> is_variant (ascii_lower_unit c)"
  by (auto simp: is_dash_def is_four_def is_variant_def ascii_lower_unit_def)

lemma lower_unit_idem [simp]: "ascii_lower_unit (ascii_lower_unit c) = ascii_lower_unit c"
proof (cases "65 \<le> c \<and> c \<le> 90")
  case True
  then have "unat c \<le> 90" "65 \<le> unat c" by (simp_all add: word_le_nat_alt)
  then have "unat (c + 32) > 90" by (simp add: unat_word_ariths)
  then have "\<not> c + 32 \<le> 90" by (simp add: word_le_nat_alt)
  then show ?thesis using True by (simp add: ascii_lower_unit_def)
next
  case False
  then show ?thesis by (auto simp: ascii_lower_unit_def)
qed

lemma ascii_lower_idem [simp]: "ascii_lower (ascii_lower s) = ascii_lower s"
  by (simp add: ascii_lower_def comp_def)

lemma list_all2_lower:
  "list_all2 (\<lambda>p c. p c) ps s \<Longrightarrow> (\<And>p c. p \<in> set ps \<Longrightarrow> p c \<Longrightarrow> p (ascii_lower_unit c)) \<Longrightarrow>
   list_all2 (\<lambda>p c. p c) ps (map ascii_lower_unit s)"
  by (induction rule: list_all2_induct) auto

lemma uuid_lower: "is_uuid_v4 s \<Longrightarrow> is_uuid_v4 (ascii_lower s)"
  unfolding is_uuid_v4_def ascii_lower_def
  by (rule list_all2_lower) (auto simp: uuid_v4_shape_def lower_unit_hex lower_unit_keeps)

lemma uuid_not_Nil: "is_uuid_v4 s \<Longrightarrow> s \<noteq> []"
  by (auto simp: is_uuid_v4_def uuid_v4_shape_def)

text \<open>The store keeps what it is given beyond the process.\<close>

definition keeps :: "bool \<Rightarrow> device_store \<Rightarrow> bool" where
  "keeps ok s \<longleftrightarrow> has_secure s \<and> ok \<or> (\<exists>m. local_items s = LocalStorage m)"

lemma load_persisted:
  assumes "keeps ok s" and "loadStoredId ok s = None \<or> \<not> isValidInstallationId (loadStoredId ok s)"
  shows "loadStoredId ok ((persistId ok i s)\<lparr>memory_items := Map.empty\<rparr>) = Some i"
  using assms by (auto simp: keeps_def installation_defs split: local_storage.splits option.splits)

text \<open>
  An installation has one identifier: the one the app sends is accepted by the API as a
  device identifier, and after a restart of the process the app sends the same one, whatever
  the platform would make up.
\<close>

lemma installation_id_kept:
  assumes "getOrCreateId ok ok uuid n = (i, n')" and "in_cached n = None" and "is_uuid_v4 uuid" and "keeps ok (in_store n)"
    and "memory_items (in_store n) INSTALLATION_ID_KEY = None" and "truthy sec"
  shows "hashDeviceIdentifier e (Some i) sec = Inr (Some (hmac_hex e (the sec) i))
       \<and> fst (getOrCreateId ok ok uuid' (process_restart n')) = i"
proof -
  let ?stored = "loadStoredId ok (in_store n)"
  have l: "loadOrCreateId ok ok uuid n = (i, n')" using assms(1,2) by (simp add: getOrCreateId_def truthy_def)
  have i: "is_uuid_v4 i" "ascii_lower i = i"
    using l assms(3) uuid_lower by (auto simp: loadOrCreateId_def Let_def isValidInstallationId_def split: if_splits option.splits)
  have "loadStoredId ok (in_store (process_restart n')) = Some i \<or> loadStoredId ok (in_store (process_restart n')) = ?stored \<and> isValidInstallationId ?stored \<and> i = ascii_lower (the ?stored)"
  proof (cases "isValidInstallationId ?stored")
    case True
    then have n': "n' = n\<lparr>in_cached := Some i\<rparr>" "i = ascii_lower (the ?stored)" using l by (auto simp: loadOrCreateId_def Let_def)
    have "loadStoredId ok (in_store (process_restart n')) = ?stored"
      using assms(5) by (auto simp: n' process_restart_def installation_defs split: local_storage.splits option.splits)
    then show ?thesis using True n' by simp
  next
    case False
    then have n': "n' = n\<lparr>in_cached := Some i, in_store := persistId ok i (in_store n)\<rparr>" using l by (auto simp: loadOrCreateId_def Let_def)
    show ?thesis using load_persisted [OF assms(4)] False by (simp add: n' process_restart_def)
  qed
  moreover have "in_cached (process_restart n') = None" by (simp add: process_restart_def)
  ultimately have "fst (getOrCreateId ok ok uuid' (process_restart n')) = i"
    using i by (auto simp: getOrCreateId_def truthy_def loadOrCreateId_def Let_def isValidInstallationId_def)
  moreover have "hashDeviceIdentifier e (Some i) sec = Inr (Some (hmac_hex e (the sec) i))"
    using i uuid_not_Nil assms(6) by (simp add: hashDeviceIdentifier_def truthy_def)
  ultimately show ?thesis by blast
qed

definition sample_uuid :: jstring where "sample_uuid = js ''123E4567-E89B-42D3-A456-426614174000''"

definition sample_installation :: installation where
  "sample_installation = \<lparr>in_cached = None, in_store = \<lparr>has_secure = False, secure_items = Map.empty,
     local_items = LocalStorage Map.empty, memory_items = Map.empty\<rparr>\<rparr>"

lemma installation_id_kept_witness:
  "\<exists>i n'. getOrCreateId True True sample_uuid sample_installation = (i, n')
     \<and> hashDeviceIdentifier sample_auth (Some i) (Some (js ''k'')) = Inr (Some (hmac_hex sample_auth (js ''k'') i))
     \<and> fst (getOrCreateId True True (js ''other'') (process_restart n')) = i"
proof -
  obtain i n' where g: "getOrCreateId True True sample_uuid sample_installation = (i, n')" by fastforce
  have "in_cached sample_installation = None" "keeps True (in_store sample_installation)"
    "memory_items (in_store sample_installation) INSTALLATION_ID_KEY = None" "truthy (Some (js ''k''))"
    by (simp_all add: sample_installation_def keeps_def truthy_def)
  moreover have "is_uuid_v4 sample_uuid" by code_simp
  ultimately show ?thesis using installation_id_kept [OF g, of "Some (js ''k'')" sample_auth "js ''other''"] g by auto
qed

section \<open>Numbers the app sends are numbers the API accepts\<close>

text \<open>What \<open>libphonenumber\<close> documents of a valid number: its \<open>number\<close> is in E.164 format, and
  parsing that again gives the same number.\<close>

definition e164 :: "auth_env \<Rightarrow> bool" where
  "e164 e \<longleftrightarrow> (\<forall>s c p. parse_phone e s c = Some p \<and> pn_valid p \<longrightarrow>
     take 1 (pn_number p) = js ''+'' \<and> digits_between 6 15 (drop 1 (pn_number p)) \<and> parse_phone e (pn_number p) None = Some p)"

lemma e164_number:
  assumes "e164 e" and "parse_phone e s c = Some p" and "pn_valid p"
  shows "take 1 (pn_number p) = js ''+'' \<and> digits_between 6 15 (drop 1 (pn_number p)) \<and> parse_phone e (pn_number p) None = Some p"
  using assms unfolding e164_def by blast

lemma plus_no_noise:
  assumes "take 1 n = js ''+''" and "list_all is_digit (drop 1 n)"
  shows "filter (\<lambda>c. \<not> phone_noise c) n = n" and "take 2 n \<noteq> js ''00''"
proof -
  have "\<not> phone_noise c" if "is_digit c" for c
    using that is_digit_props(1) [OF that] by (auto simp: phone_noise_def is_digit_def)
  moreover have "\<not> phone_noise (unit_of CHR ''+'')" by code_simp
  moreover obtain r where n: "n = unit_of CHR ''+'' # r" using assms(1) by (cases n) (auto simp: js_def)
  ultimately show "filter (\<lambda>c. \<not> phone_noise c) n = n"
    using assms(2) by (auto simp: list_all_iff filter_id_conv)
  show "take 2 n \<noteq> js ''00''" by (simp add: n js_def)
qed

lemma normalize_Some:
  assumes "normalizePhoneForCountry e phone c = Some n"
  obtains s o' p where "parse_phone e s o' = Some p" "pn_valid p" "pn_country p = Some c" "pn_number p = n"
  using assms by (auto simp: normalizePhoneForCountry_def Let_def split: option.splits if_splits)


definition sample_plan :: auth_env where
  "sample_plan = sample_auth\<lparr>parse_phone := (\<lambda>s c. if s = js ''08012345678'' \<or> s = js ''+2348012345678''
     then Some \<lparr>pn_number = js ''+2348012345678'', pn_country = Some (js ''NG''), pn_valid = True\<rparr> else None)\<rparr>"


section \<open>What the display keeps\<close>

lemma onlyDigits_append [simp]: "onlyDigits (a @ b) = onlyDigits a @ onlyDigits b"
  by (simp add: onlyDigits_def)

lemma onlyDigits_id: "list_all is_digit s \<Longrightarrow> onlyDigits s = s"
  by (simp add: onlyDigits_def list_all_iff)

lemma onlyDigits_signs [simp]:
  "onlyDigits (js '' '') = []" "onlyDigits (js ''('') = []" "onlyDigits (js '') '') = []" "onlyDigits (js ''-'') = []" "onlyDigits (js ''+'') = []"
  "onlyDigits [] = []"
  by code_simp+

lemma onlyDigits_join: "onlyDigits (join (js '' '') (filter (\<lambda>p. p \<noteq> []) ps)) = concat (map onlyDigits ps)"
proof (induction ps)
  case (Cons p ps)
  then show ?case by (cases "filter (\<lambda>p. p \<noteq> []) ps") auto
qed simp

lemma slice_digits: "list_all is_digit s \<Longrightarrow> onlyDigits (slice a b s) = slice a b s"
  by (intro onlyDigits_id) (auto simp: slice_def list_all_iff dest: in_set_takeD in_set_dropD)

lemma slice_0: "slice 0 b s = take b s"
  by (simp add: slice_def)

lemma take_slice: "a \<le> b \<Longrightarrow> take a s @ slice a b s = take b s"
  by (metis add_diff_inverse_nat not_le slice_def take_add)

text \<open>How many digits the display has room for.\<close>

definition display_room :: "jstring \<Rightarrow> jstring \<Rightarrow> nat" where
  "display_room phone countryIso = (if take 1 (trim phone) = js ''+'' then 15 else if countryIso = js ''US'' then 10 else 11)"

lemma trim_keeps_digits: "onlyDigits (trim s) = onlyDigits s"
proof -
  have drop: "filter is_digit (dropWhile is_space t) = filter is_digit t" for t
    by (induction t) (auto simp: is_digit_props)
  show ?thesis using drop [of "rev (dropWhile is_space s)"] drop [of s] by (simp add: onlyDigits_def trim_def rev_filter [symmetric])
qed

text \<open>
  The display of a telephone number keeps its digits, as far as there is room: it adds
  spaces, brackets and a dash, and nothing else.
\<close>

lemma phone_display_digits:
  "onlyDigits (formatPhoneForDisplay phone countryIso) = take (display_room phone countryIso) (onlyDigits phone)"
proof -
  let ?d = "onlyDigits phone"
  have d: "list_all is_digit ?d" by (simp add: onlyDigits_def list_all_iff)
  have s: "onlyDigits (slice a b ?d) = slice a b ?d" for a b by (rule slice_digits [OF d])
  have t: "onlyDigits (take k ?d) = take k ?d" for k using s [of 0 k] unfolding slice_0 .
  have parts: "take 4 ?d @ slice 4 7 ?d @ slice 7 11 ?d = take 11 ?d" "take 5 ?d @ slice 5 11 ?d = take 11 ?d"
    "take 3 ?d @ slice 3 6 ?d @ slice 6 10 ?d = take 10 ?d" "take 3 ?d @ slice 3 6 ?d = take 6 ?d"
  proof -
    have 1: "take 4 ?d @ slice 4 7 ?d = take 7 ?d" "take 7 ?d @ slice 7 11 ?d = take 11 ?d" "take 5 ?d @ slice 5 11 ?d = take 11 ?d"
      "take 3 ?d @ slice 3 6 ?d = take 6 ?d" "take 6 ?d @ slice 6 10 ?d = take 10 ?d"
      by (rule take_slice; simp)+
    show "take 4 ?d @ slice 4 7 ?d @ slice 7 11 ?d = take 11 ?d" by (simp only: 1 append_assoc [symmetric])
    show "take 5 ?d @ slice 5 11 ?d = take 11 ?d" "take 3 ?d @ slice 3 6 ?d = take 6 ?d" by (rule 1)+
    show "take 3 ?d @ slice 3 6 ?d @ slice 6 10 ?d = take 10 ?d" by (simp only: 1 append_assoc [symmetric])
  qed
  have ng: "onlyDigits (formatNigerianPhone ?d) = take 11 ?d"
    unfolding formatNigerianPhone_def onlyDigits_join by (simp only: list.map concat.simps s t slice_0 append_Nil2 parts)
  have gb: "onlyDigits (formatGbPhone ?d) = take 11 ?d"
    unfolding formatGbPhone_def onlyDigits_join by (simp only: list.map concat.simps s t slice_0 append_Nil2 parts)
  have us: "onlyDigits (formatUsPhone ?d) = take 10 ?d"
    using t [of 3] parts(3,4) by (auto simp: formatUsPhone_def Let_def s slice_0)
  show ?thesis
    using ng gb us t [of 15] by (simp add: formatPhoneForDisplay_def display_room_def trim_keeps_digits slice_0)
qed

section \<open>The address of the API and its timeout\<close>

definition DEFAULT_API_TIMEOUT_MS :: int where "DEFAULT_API_TIMEOUT_MS = 15000"

definition resolveApiTimeoutMs :: "jstring option \<Rightarrow> int" where
  "resolveApiTimeoutMs value =
     (let t = (case value of None \<Rightarrow> [] | Some v \<Rightarrow> trim v)
      in if t = [] \<or> \<not> list_all is_digit t then DEFAULT_API_TIMEOUT_MS
         else if 1000 \<le> digits_value t \<and> digits_value t \<le> 120000 then digits_value t else DEFAULT_API_TIMEOUT_MS)"

lemma api_timeout_range: "1000 \<le> resolveApiTimeoutMs v \<and> resolveApiTimeoutMs v \<le> 120000"
  by (simp add: resolveApiTimeoutMs_def Let_def DEFAULT_API_TIMEOUT_MS_def)

definition trimTrailingSlash :: "jstring \<Rightarrow> jstring" where
  "trimTrailingSlash url = rev (dropWhile (\<lambda>c. c = unit_of CHR ''/'') (rev url))"

definition parseExpoHost :: "jstring option \<Rightarrow> jstring option" where
  "parseExpoHost hostUri =
     (if \<not> truthy hostUri then None
      else (let host = takeWhile (\<lambda>c. c \<noteq> unit_of CHR '':'') (the hostUri) in if host = [] then None else Some host))"

definition resolveApiBaseUrl :: "jstring option \<Rightarrow> jstring option \<Rightarrow> bool \<Rightarrow> jstring" where
  "resolveApiBaseUrl fromEnv hostUri android =
     (if truthy fromEnv then trimTrailingSlash (the fromEnv)
      else (case parseExpoHost hostUri of
              Some host \<Rightarrow> js ''http://'' @ host @ js '':3000''
            | None \<Rightarrow> if android then js ''http://10.0.2.2:3000'' else js ''http://localhost:3000''))"

end
