(* ===== verification/Screen_Signin.thy ===== *)
theory Screen_Signin
  imports Mobile_Signin
begin

text \<open>
  The two screens of the sign-in, \<open>mobile/app/(auth)/request-otp.tsx\<close> and \<open>verify-otp.tsx\<close>: what
  they keep, what a press does and when it is possible, and what the answers change. What the
  screens share with the rest of the app (\<open>pendingPhone\<close> and so on of \<open>auth-state.tsx\<close>) is the
  record \<open>pending_auth\<close>.
\<close>

section \<open>What the screens share\<close>

record pending_auth =
  pa_phone :: jstring
  pa_countryIso :: jstring
  pa_otpRequestedAt :: "ms option"
  pa_devOtpHint :: jstring

definition resetPendingAuth :: "pending_auth \<Rightarrow> pending_auth" where
  "resetPendingAuth p = p\<lparr>pa_phone := [], pa_otpRequestedAt := None, pa_devOtpHint := []\<rparr>"

section \<open>Requesting a code\<close>

record request_screen =
  rs_phone :: jstring
  rs_countryIso :: jstring
  rs_menuOpen :: bool
  rs_notice :: string
  rs_pending :: "request_otp_dto option"
  rs_error :: "call_error option"
  rs_left :: bool

definition initialE2ePhone :: "jstring option \<Rightarrow> jstring" where
  "initialE2ePhone env_phone =
     (let seed = (case env_phone of Some s \<Rightarrow> trim s | None \<Rightarrow> [])
      in if seed \<noteq> [] then formatPhoneForDisplay seed defaultAuthCountryIso else [])"

text \<open>The reason the session ended is shown once.\<close>

definition request_screen_start :: "jstring option \<Rightarrow> bool \<Rightarrow> request_screen" where
  "request_screen_start env_phone sessionExpired =
     \<lparr>rs_phone = initialE2ePhone env_phone, rs_countryIso = defaultAuthCountryIso, rs_menuOpen = False,
      rs_notice = (if sessionExpired then SESSION_EXPIRED_MESSAGE else []), rs_pending = None, rs_error = None, rs_left = False\<rparr>"

text \<open>The countries the API gave, or the ones built in while it gave none.\<close>

definition shown_countries :: "auth_country list option \<Rightarrow> auth_country list" where
  "shown_countries fetched =
     withDisplayPhoneExamples (case fetched of Some (c # cs) \<Rightarrow> c # cs | _ \<Rightarrow> fallbackAuthCountries)"

definition request_input :: "auth_env \<Rightarrow> auth_country list option \<Rightarrow> request_screen \<Rightarrow> request_otp_dto option" where
  "request_input e fetched s = buildOtpRequestInput e (rs_phone s) (rs_countryIso s) (shown_countries fetched)"

definition request_validation :: "auth_env \<Rightarrow> auth_country list option \<Rightarrow> request_screen \<Rightarrow> string" where
  "request_validation e fetched s =
     (if rs_phone s \<noteq> [] \<and> (case request_input e fetched s of None \<Rightarrow> True | Some input \<Rightarrow> ro_phone input = [])
      then ''Enter a valid phone number for the selected country'' else [])"

datatype request_event =
    OpenMenu
  | ChooseCountry jstring
  | TypePhone jstring
  | PressRequest
  | RequestAnswered ms "call_error + jstring option"

fun request_screen_step ::
  "auth_env \<Rightarrow> auth_country list option \<Rightarrow> request_event \<Rightarrow> request_screen \<times> pending_auth \<Rightarrow> (request_screen \<times> pending_auth) option"
where
  "request_screen_step e fetched OpenMenu (s, p) =
     (if rs_pending s \<noteq> None then None else Some (s\<lparr>rs_menuOpen := \<not> rs_menuOpen s\<rparr>, p))"
| "request_screen_step e fetched (ChooseCountry iso') (s, p) =
     (if rs_pending s \<noteq> None \<or> \<not> rs_menuOpen s \<or> iso' \<notin> co_iso ` set (shown_countries fetched) then None
      else Some (s\<lparr>rs_countryIso := iso', rs_menuOpen := False\<rparr>, p))"
| "request_screen_step e fetched (TypePhone value) (s, p) =
     (if rs_pending s \<noteq> None then None
      else Some (s\<lparr>rs_phone := formatPhoneForDisplay value (resolveEffectiveCountryIso (rs_countryIso s) (shown_countries fetched))\<rparr>, p))"
| "request_screen_step e fetched PressRequest (s, p) =
     (case request_input e fetched s of
        None \<Rightarrow> None
      | Some input \<Rightarrow> if rs_pending s \<noteq> None then None else Some (s\<lparr>rs_pending := Some input, rs_error := None\<rparr>, p))"
| "request_screen_step e fetched (RequestAnswered now answer) (s, p) =
     (case rs_pending s of
        None \<Rightarrow> None
      | Some input \<Rightarrow>
          (case answer of
             Inl err \<Rightarrow> Some (s\<lparr>rs_pending := None, rs_error := Some err\<rparr>, p)
           | Inr otp \<Rightarrow> Some (s\<lparr>rs_pending := None, rs_left := True\<rparr>,
               p\<lparr>pa_phone := ro_phone input, pa_countryIso := ro_countryIso input, pa_otpRequestedAt := Some now,
                 pa_devOtpHint := or_default otp []\<rparr>)))"

section \<open>Verifying a code\<close>

text \<open>\<open>vs_attempt\<close>: the identity of the last attempt and the key it went out with.\<close>

record verify_screen =
  vs_otp :: jstring
  vs_now :: ms
  vs_attempt :: "(jstring \<times> jstring) option"
  vs_verifying :: bool
  vs_verifyError :: "call_error option"
  vs_resending :: bool
  vs_resendError :: "call_error option"
  vs_resent :: bool
  vs_left :: bool
  vs_pending :: pending_auth

definition verify_screen_start :: "pending_auth \<Rightarrow> verify_screen" where
  "verify_screen_start p = \<lparr>vs_otp = [], vs_now = 0, vs_attempt = None, vs_verifying = False, vs_verifyError = None,
     vs_resending = False, vs_resendError = None, vs_resent = False, vs_left = False, vs_pending = p\<rparr>"

definition otpToSubmit :: "verify_screen \<Rightarrow> jstring" where
  "otpToSubmit s = resolveOtpToSubmit (vs_otp s) (pa_devOtpHint (vs_pending s))"

definition verify_validation :: "verify_screen \<Rightarrow> string" where
  "verify_validation s = (if otpToSubmit s = [] then [] else if \<not> isValidOtp (otpToSubmit s) then ''OTP must be 6 digits'' else [])"

definition canVerify :: "verify_screen \<Rightarrow> bool" where
  "canVerify s \<longleftrightarrow> isValidOtp (otpToSubmit s)"

definition resendCooldownMs :: "verify_screen \<Rightarrow> ms" where
  "resendCooldownMs s = (case pa_otpRequestedAt (vs_pending s) of
     Some t \<Rightarrow> if t \<noteq> 0 then max 0 (t + OTP_RESEND_COOLDOWN_MS - vs_now s) else 0
   | None \<Rightarrow> 0)"

definition canResend :: "verify_screen \<Rightarrow> bool" where
  "canResend s \<longleftrightarrow> resendCooldownMs s = 0"

definition resend_label :: "verify_screen \<Rightarrow> jstring" where
  "resend_label s = (if vs_resending s then js ''Sending another code...'' else if canResend s then js ''Resend code''
     else js ''Resend in '' @ formatCooldownLabel (resendCooldownMs s))"

record verify_request =
  sr_phone :: jstring
  sr_countryIso :: jstring
  sr_otp :: jstring
  sr_key :: jstring

definition attempt_identity :: "verify_screen \<Rightarrow> jstring" where
  "attempt_identity s = pa_countryIso (vs_pending s) @ js '':'' @ pa_phone (vs_pending s) @ js '':'' @ otpToSubmit s"

text \<open>\<open>uuid\<close> is the key made up when the attempt is a new one.\<close>

definition verification_attempt :: "jstring \<Rightarrow> verify_screen \<Rightarrow> jstring \<times> jstring" where
  "verification_attempt uuid s =
     (case vs_attempt s of
        Some (identity, key) \<Rightarrow> if identity = attempt_identity s then (identity, key) else (attempt_identity s, uuid)
      | None \<Rightarrow> (attempt_identity s, uuid))"

definition verification_request :: "jstring \<Rightarrow> verify_screen \<Rightarrow> verify_request" where
  "verification_request uuid s = \<lparr>sr_phone = pa_phone (vs_pending s), sr_countryIso = pa_countryIso (vs_pending s),
     sr_otp = otpToSubmit s, sr_key = snd (verification_attempt uuid s)\<rparr>"

text \<open>A verification that succeeds signs in; storing the session may fail.\<close>

datatype verify_event =
    TypeOtp jstring
  | ClockTick ms
  | PressVerify jstring
  | VerifyAnswered "call_error option"
  | PressResend
  | ResendAnswered ms "call_error + jstring option"
  | UseOtherPhone

fun verify_screen_step :: "verify_event \<Rightarrow> verify_screen \<Rightarrow> verify_screen option" where
  "verify_screen_step (TypeOtp value) s = (if length value \<le> 6 then Some (s\<lparr>vs_otp := value\<rparr>) else None)"
| "verify_screen_step (ClockTick now) s = (if pa_otpRequestedAt (vs_pending s) = None then None else Some (s\<lparr>vs_now := now\<rparr>))"
| "verify_screen_step (PressVerify uuid) s =
     (if canVerify s \<and> \<not> vs_verifying s
      then Some (s\<lparr>vs_attempt := Some (verification_attempt uuid s), vs_verifying := True, vs_verifyError := None\<rparr>) else None)"
| "verify_screen_step (VerifyAnswered answer) s =
     (if \<not> vs_verifying s then None
      else (case answer of
          Some err \<Rightarrow> Some (s\<lparr>vs_verifying := False, vs_verifyError := Some err\<rparr>)
        | None \<Rightarrow> Some (s\<lparr>vs_verifying := False, vs_left := True, vs_pending := resetPendingAuth (vs_pending s)\<rparr>)))"
| "verify_screen_step PressResend s =
     (if canResend s \<and> \<not> vs_resending s \<and> \<not> vs_verifying s
      then Some (s\<lparr>vs_resending := True, vs_resendError := None, vs_resent := False\<rparr>) else None)"
| "verify_screen_step (ResendAnswered now answer) s =
     (if \<not> vs_resending s then None
      else (case answer of
          Inl err \<Rightarrow> Some (s\<lparr>vs_resending := False, vs_resendError := Some err\<rparr>)
        | Inr otp \<Rightarrow> Some (s\<lparr>vs_resending := False, vs_resent := True, vs_attempt := None,
            vs_pending := (vs_pending s)\<lparr>pa_otpRequestedAt := Some now, pa_devOtpHint := or_default otp []\<rparr>\<rparr>)))"
| "verify_screen_step UseOtherPhone s = Some (s\<lparr>vs_left := True, vs_pending := resetPendingAuth (vs_pending s)\<rparr>)"

text \<open>The screen shows its controls while a phone number is pending.\<close>

definition verify_screen_open :: "verify_screen \<Rightarrow> bool" where
  "verify_screen_open s \<longleftrightarrow> \<not> vs_left s \<and> pa_phone (vs_pending s) \<noteq> []"

section \<open>What the verification screen sends\<close>

text \<open>
  A history of the screen that was opened with \<open>p\<close> pending: a press happens while the screen is
  open and makes up a key that no request had before; answers arrive at any time. \<open>out\<close> are
  the requests, the last one first.
\<close>

definition verify_world :: "verify_screen \<Rightarrow> verify_request list \<Rightarrow> verify_event \<Rightarrow> bool" where
  "verify_world s out ev \<longleftrightarrow>
     (case ev of
        VerifyAnswered _ \<Rightarrow> True
      | ResendAnswered _ _ \<Rightarrow> True
      | PressVerify uuid \<Rightarrow> verify_screen_open s \<and> uuid \<notin> sr_key ` set out
      | _ \<Rightarrow> verify_screen_open s)"

definition verify_sends :: "verify_event \<Rightarrow> verify_screen \<Rightarrow> verify_request list" where
  "verify_sends ev s = (case ev of PressVerify uuid \<Rightarrow> [verification_request uuid s] | _ \<Rightarrow> [])"

inductive verify_history :: "pending_auth \<Rightarrow> verify_screen \<Rightarrow> verify_request list \<Rightarrow> bool" for p where
  opened: "verify_history p (verify_screen_start p) []"
| happens: "verify_history p s out \<Longrightarrow> verify_world s out ev \<Longrightarrow> verify_screen_step ev s = Some s'
    \<Longrightarrow> verify_history p s' (verify_sends ev s @ out)"

definition request_identity :: "verify_request \<Rightarrow> jstring" where
  "request_identity r = sr_countryIso r @ js '':'' @ sr_phone r @ js '':'' @ sr_otp r"

definition verify_screen_wf :: "pending_auth \<Rightarrow> verify_screen \<Rightarrow> verify_request list \<Rightarrow> bool" where
  "verify_screen_wf p s out \<longleftrightarrow>
     pa_countryIso (vs_pending s) = pa_countryIso p \<and> (pa_phone (vs_pending s) = pa_phone p \<or> vs_left s)
   \<and> (\<forall>r \<in> set out. sr_phone r = pa_phone p \<and> sr_countryIso r = pa_countryIso p \<and> isValidOtp (sr_otp r))
   \<and> (\<forall>r1 \<in> set out. \<forall>r2 \<in> set out. sr_key r1 = sr_key r2 \<longrightarrow> r1 = r2)
   \<and> (case vs_attempt s of None \<Rightarrow> True
      | Some (identity, key) \<Rightarrow> out \<noteq> [] \<and> identity = request_identity (hd out) \<and> key = sr_key (hd out))"

lemma request_identity_inject:
  "sr_phone r1 = sr_phone r2 \<Longrightarrow> sr_countryIso r1 = sr_countryIso r2 \<Longrightarrow> sr_key r1 = sr_key r2
    \<Longrightarrow> request_identity r1 = request_identity r2 \<Longrightarrow> r1 = r2"
  by (cases r1; cases r2) (simp add: request_identity_def)

text \<open>The request of a press: the last one again when nothing changed, else one with a new key.\<close>

lemma verification_request_cases:
  assumes "verify_screen_wf p s out" and "verify_screen_open s"
  shows "sr_phone (verification_request uuid s) = pa_phone p" and "sr_countryIso (verification_request uuid s) = pa_countryIso p"
    and "sr_otp (verification_request uuid s) = otpToSubmit s"
    and "verification_attempt uuid s = (request_identity (verification_request uuid s), sr_key (verification_request uuid s))"
    and "sr_key (verification_request uuid s) = uuid \<or> out \<noteq> [] \<and> verification_request uuid s = hd out"
    and "vs_attempt s \<noteq> None \<Longrightarrow> otpToSubmit s = sr_otp (hd out) \<Longrightarrow> verification_request uuid s = hd out"
proof -
  have phone: "pa_phone (vs_pending s) = pa_phone p" "pa_countryIso (vs_pending s) = pa_countryIso p"
    using assms by (auto simp: verify_screen_wf_def verify_screen_open_def)
  let ?r = "verification_request uuid s"
  show fields: "sr_phone ?r = pa_phone p" "sr_countryIso ?r = pa_countryIso p" "sr_otp ?r = otpToSubmit s"
    by (simp_all add: verification_request_def phone)
  have ident: "request_identity ?r = attempt_identity s"
    by (simp add: request_identity_def attempt_identity_def fields phone)
  show "verification_attempt uuid s = (request_identity ?r, sr_key ?r)"
    unfolding ident by (auto simp: verification_request_def verification_attempt_def split: option.split prod.split)
  have again: "?r = hd out" if a: "vs_attempt s \<noteq> None" "request_identity (hd out) = attempt_identity s"
  proof -
    from a(1) assms(1) have at: "vs_attempt s = Some (request_identity (hd out), sr_key (hd out))" "out \<noteq> []"
      by (auto simp: verify_screen_wf_def)
    then have "sr_phone (hd out) = pa_phone p" "sr_countryIso (hd out) = pa_countryIso p"
      using assms(1) hd_in_set by (auto simp: verify_screen_wf_def)
    with at a(2) show ?thesis
      by (intro request_identity_inject) (simp_all add: fields ident, simp add: verification_request_def verification_attempt_def)
  qed
  show "sr_key ?r = uuid \<or> out \<noteq> [] \<and> ?r = hd out"
  proof (cases "vs_attempt s")
    case (Some a)
    then have at: "a = (request_identity (hd out), sr_key (hd out))" "out \<noteq> []"
      using assms(1) by (auto simp: verify_screen_wf_def)
    show ?thesis
    proof (cases "request_identity (hd out) = attempt_identity s")
      case True
      with again Some at(2) show ?thesis by simp
    next
      case False
      with Some at(1) show ?thesis by (simp add: verification_request_def verification_attempt_def)
    qed
  qed (simp add: verification_request_def verification_attempt_def)
  show "?r = hd out" if "vs_attempt s \<noteq> None" "otpToSubmit s = sr_otp (hd out)"
  proof (rule again [OF that(1)])
    from that(1) assms(1) have "out \<noteq> []" by (auto simp: verify_screen_wf_def)
    then have "sr_phone (hd out) = pa_phone p" "sr_countryIso (hd out) = pa_countryIso p"
      using assms(1) hd_in_set by (auto simp: verify_screen_wf_def)
    with that(2) show "request_identity (hd out) = attempt_identity s"
      by (simp add: request_identity_def attempt_identity_def phone)
  qed
qed

lemma verify_step_wf:
  assumes wf: "verify_screen_wf p s out" and "verify_world s out ev" and "verify_screen_step ev s = Some s'"
  shows "verify_screen_wf p s' (verify_sends ev s @ out)"
proof (cases ev)
  case (PressVerify uuid)
  with assms(2,3) have now: "verify_screen_open s" "uuid \<notin> sr_key ` set out" "isValidOtp (otpToSubmit s)"
    "s' = s\<lparr>vs_attempt := Some (verification_attempt uuid s), vs_verifying := True, vs_verifyError := None\<rparr>"
    by (auto simp: verify_world_def canVerify_def split: if_splits)
  note r = verification_request_cases(1-5) [OF wf now(1), of uuid]
  from r(5) have "\<forall>q \<in> set out. sr_key q = sr_key (verification_request uuid s) \<longrightarrow> q = verification_request uuid s"
  proof
    assume "sr_key (verification_request uuid s) = uuid"
    with now(2) show ?thesis by auto
  next
    assume h: "out \<noteq> [] \<and> verification_request uuid s = hd out"
    then have "verification_request uuid s \<in> set out" by simp
    with wf show ?thesis unfolding verify_screen_wf_def by blast
  qed
  with wf now(3) r(1-4) show ?thesis
    by (auto simp: PressVerify verify_sends_def now(4) verify_screen_wf_def)
qed (use assms in \<open>auto simp: verify_screen_wf_def verify_sends_def resetPendingAuth_def split: if_splits option.splits sum.splits\<close>)

lemma verify_history_wf: "verify_history p s out \<Longrightarrow> verify_screen_wf p s out"
proof (induction rule: verify_history.induct)
  case opened
  show ?case by (simp add: verify_screen_wf_def verify_screen_start_def)
qed (blast intro: verify_step_wf)


text \<open>No code is asked for again while the countdown on the screen runs.\<close>

lemma resend_waits:
  assumes "verify_screen_step PressResend s = Some s'" and "pa_otpRequestedAt (vs_pending s) = Some t" and "t \<noteq> 0"
  shows "t + 60000 \<le> vs_now s"
  using assms by (auto simp: canResend_def resendCooldownMs_def OTP_RESEND_COOLDOWN_MS_def split: if_splits)

text \<open>An answer fills in what the verification screen starts from.\<close>

lemma requested_code_pending:
  assumes "request_screen_step e fetched (RequestAnswered now (Inr otp)) (s, p) = Some (s', p')"
  shows "\<exists>input. rs_pending s = Some input \<and> pa_phone p' = ro_phone input \<and> pa_countryIso p' = ro_countryIso input
    \<and> pa_otpRequestedAt p' = Some now \<and> rs_left s'"
  using assms by (auto split: option.splits)

definition sample_pending :: pending_auth where
  "sample_pending = \<lparr>pa_phone = js ''+2348012345678'', pa_countryIso = js ''NG'', pa_otpRequestedAt = Some 1, pa_devOtpHint = js ''123456''\<rparr>"


end
