(* ===== verification/Screen_Ledger.thy ===== *)
theory Screen_Ledger
  imports Mobile_Forms Mobile_Api
begin

text \<open>
  The screens that write goals and transactions: \<open>add-transaction.tsx\<close>, \<open>transactions.tsx\<close> and
  \<open>goal.tsx\<close> under \<open>mobile/app/(app)\<close>. What the query for the active goal has is an argument
  of every step, since it changes without the screen; the cache is otherwise left out.
\<close>

section \<open>The active goal, as a query\<close>

text \<open>\<open>gq_data\<close>: \<open>undefined\<close> before the first answer, \<open>null\<close> for no active goal.\<close>

record goal_query =
  gq_data :: "goal_view option option"
  gq_pending :: bool
  gq_error :: bool

definition queried_goal :: "goal_query \<Rightarrow> goal_view option" where
  "queried_goal q = (case gq_data q of Some g \<Rightarrow> g | None \<Rightarrow> None)"

definition queried_none :: "goal_query \<Rightarrow> bool" where
  "queried_none q \<longleftrightarrow> gq_data q = Some None"

section \<open>Adding a transaction\<close>

record add_screen =
  as_direction :: direction
  as_amountNaira :: jstring
  as_occurredOn :: jstring
  as_note :: jstring
  as_tagGoal :: bool
  as_success :: string
  as_pending :: bool
  as_error :: "call_error option"

definition add_screen_start :: "jstring \<Rightarrow> add_screen" where
  "add_screen_start todayInput = \<lparr>as_direction = DirIn, as_amountNaira = js ''5000'', as_occurredOn = todayInput,
     as_note = js ''manual entry'', as_tagGoal = True, as_success = [], as_pending = False, as_error = None\<rparr>"

definition amount_message :: string where
  "amount_message = ''Enter an amount greater than zero with at most two decimal places.''"

definition date_message :: string where
  "date_message = ''Enter a valid date in YYYY-MM-DD format.''"

definition add_validation :: "goal_query \<Rightarrow> add_screen \<Rightarrow> string" where
  "add_validation q s =
     (if nairaInputToKobo (as_amountNaira s) = None then amount_message
      else if dateInputToIso (as_occurredOn s) = None then date_message
      else if length (as_note s) > 280 then ''Note must be 280 characters or fewer.''
      else if as_tagGoal s \<and> \<not> gq_pending q \<and> queried_goal q = None
      then (if gq_error q \<and> \<not> queried_none q then ''Your active goal is unavailable. Reconnect or turn off goal linking.''
            else ''Create an active goal or turn off goal linking.'')
      else [])"

definition goal_link_pending :: "goal_query \<Rightarrow> add_screen \<Rightarrow> bool" where
  "goal_link_pending q s \<longleftrightarrow> as_tagGoal s \<and> gq_pending q"

text \<open>None where the mutation throws \<open>Transaction form is invalid\<close>.\<close>

definition add_payload :: "goal_query \<Rightarrow> add_screen \<Rightarrow> create_transaction_dto option" where
  "add_payload q s =
     (case (nairaInputToKobo (as_amountNaira s), dateInputToIso (as_occurredOn s)) of
        (Some amountKobo, Some occurredAt) \<Rightarrow>
          Some \<lparr>ct_direction = as_direction s, ct_amountKobo = amountKobo, ct_occurredAt = occurredAt,
                ct_goalId = (if as_tagGoal s then (case queried_goal q of Some g \<Rightarrow> Value (gv_id g) | None \<Rightarrow> Undefined) else Undefined),
                ct_note = (if as_note s = [] then Undefined else Value (as_note s))\<rparr>
      | _ \<Rightarrow> None)"

definition can_add :: "goal_query \<Rightarrow> add_screen \<Rightarrow> bool" where
  "can_add q s \<longleftrightarrow> add_validation q s = [] \<and> \<not> goal_link_pending q s \<and> \<not> as_pending s"

definition press_add :: "goal_query \<Rightarrow> add_screen \<Rightarrow> (add_screen \<times> create_transaction_dto option) option" where
  "press_add q s =
     (if can_add q s then Some (s\<lparr>as_success := [], as_error := None, as_pending := True\<rparr>, add_payload q s) else None)"

definition add_answered :: "call_error option \<Rightarrow> add_screen \<Rightarrow> add_screen" where
  "add_answered answer s = (case answer of
      Some err \<Rightarrow> s\<lparr>as_pending := False, as_error := Some err\<rparr>
    | None \<Rightarrow> s\<lparr>as_pending := False, as_success := ''Transaction added''\<rparr>)"

text \<open>The transaction the form describes is the one the API stores.\<close>

lemma date_input_iso:
  assumes "dateInputToIso v = Some t"
  shows "\<exists>m. t = to_iso_string m \<and> take 10 t = v"
  using assms by (auto simp: dateInputToIso_def split: option.splits prod.splits if_splits)

lemma kobo_in_range: "nairaInputToKobo v = Some k \<Longrightarrow> 1 \<le> k \<and> k \<le> MAX_SAFE_INTEGER"
  by (auto simp: nairaInputToKobo_def Let_def split: if_splits)

lemma added_transaction_stored:
  assumes "can_add q s" and "add_payload q s = Some dto" and "user_exists d userId"
    and "\<And>g. queried_goal q = Some g \<Longrightarrow> gv_id g \<noteq> [] \<and> ensureGoalBelongsToUser d (gv_id g) userId = Inr ()"
    and "new_date (ct_occurredAt dto) = Some t"
  shows "length (as_note s) \<le> 280"
    and "\<exists>v row. create_transaction new_date d userId newId now dto = (Inr v, d\<lparr>transactions := create_row row (transactions d)\<rparr>)
      \<and> nairaInputToKobo (as_amountNaira s) = Some (t_amountKobo row) \<and> t_direction row = direction_text (as_direction s)
      \<and> t_occurredAt row = t \<and> t_userId row = userId
      \<and> (as_tagGoal s \<longrightarrow> t_goalId row = map_option gv_id (queried_goal q)) \<and> (\<not> as_tagGoal s \<longrightarrow> t_goalId row = None)"
proof -
  show "length (as_note s) \<le> 280"
    using assms(1) by (auto simp: can_add_def add_validation_def amount_message_def date_message_def split: if_splits)
  from assms(2) obtain k where k: "nairaInputToKobo (as_amountNaira s) = Some k" "ct_amountKobo dto = k" "ct_direction dto = as_direction s"
    "ct_goalId dto = (if as_tagGoal s then (case queried_goal q of Some g \<Rightarrow> Value (gv_id g) | None \<Rightarrow> Undefined) else Undefined)"
    by (auto simp: add_payload_def split: option.splits)
  have amount: "big_int_column k = Inr k" using kobo_in_range [OF k(1)] by (intro big_int_safe) auto
  have goal: "check_goal d (ct_goalId dto) userId = Inr ()"
    "or_null (ct_goalId dto) = (if as_tagGoal s then map_option gv_id (queried_goal q) else None)"
    using assms(4) by (auto simp: k(4) check_goal_def or_null_def truthy_def split: option.splits)
  have dir: "direction_of (direction_text x) = Some x" for x
    by (cases x) (simp_all add: direction_of_def)
  show "\<exists>v row. create_transaction new_date d userId newId now dto = (Inr v, d\<lparr>transactions := create_row row (transactions d)\<rparr>)
      \<and> nairaInputToKobo (as_amountNaira s) = Some (t_amountKobo row) \<and> t_direction row = direction_text (as_direction s)
      \<and> t_occurredAt row = t \<and> t_userId row = userId
      \<and> (as_tagGoal s \<longrightarrow> t_goalId row = map_option gv_id (queried_goal q)) \<and> (\<not> as_tagGoal s \<longrightarrow> t_goalId row = None)"
  proof -
    let ?row = "\<lparr>t_id = newId, t_userId = userId, t_goalId = or_null (ct_goalId dto), t_amountKobo = k,
      t_direction = direction_text (as_direction s), t_occurredAt = t, t_note = or_null (ct_note dto),
      t_importFingerprint = None, t_createdAt = now\<rparr>"
    obtain v where "serializeTransaction ?row = Inr v" by (simp add: serializeTransaction_def dir)
    then have "create_transaction new_date d userId newId now dto = (Inr v, d\<lparr>transactions := create_row ?row (transactions d)\<rparr>)"
      using goal(1) amount k(2,3) assms(3,5) by (simp add: create_transaction_def Let_def)
    then show ?thesis
      by (intro exI [of _ v] exI [of _ ?row]) (simp add: k(1) goal(2))
  qed
qed

section \<open>The ledger: filtering, editing, deleting\<close>

record ledger_screen =
  ls_filter :: "direction option"
  ls_editing :: "transaction_view option"
  ls_direction :: direction
  ls_amountNaira :: jstring
  ls_occurredOn :: jstring
  ls_note :: jstring
  ls_tagGoal :: bool
  ls_goalSelectionChanged :: bool
  ls_saving :: "(jstring \<times> update_transaction_dto) option"
  ls_saveError :: "call_error option"
  ls_deleting :: "jstring list"

definition ledger_screen_start :: ledger_screen where
  "ledger_screen_start = \<lparr>ls_filter = None, ls_editing = None, ls_direction = DirIn, ls_amountNaira = [], ls_occurredOn = [],
     ls_note = [], ls_tagGoal = False, ls_goalSelectionChanged = False, ls_saving = None, ls_saveError = None, ls_deleting = []\<rparr>"

definition visibleTransactions :: "transaction_view list option \<Rightarrow> ledger_screen \<Rightarrow> transaction_view list" where
  "visibleTransactions fetched s = filterTransactions (case fetched of Some ts \<Rightarrow> ts | None \<Rightarrow> []) (ls_filter s)"

definition visibleNetKobo :: "transaction_view list option \<Rightarrow> ledger_screen \<Rightarrow> rat" where
  "visibleNetKobo fetched s = calculateNetKobo (visibleTransactions fetched s)"

definition edit_validation :: "goal_query \<Rightarrow> ledger_screen \<Rightarrow> string" where
  "edit_validation q s =
     (if ls_editing s = None then []
      else if nairaInputToKobo (ls_amountNaira s) = None then amount_message
      else if dateInputToIso (ls_occurredOn s) = None then date_message
      else if length (ls_note s) > 280 then ''Note must be 280 characters or fewer.''
      else if ls_tagGoal s \<and> ls_goalSelectionChanged s \<and> queried_goal q = None
      then ''Create an active goal before linking this transaction.''
      else [])"

definition editorLocked :: "ledger_screen \<Rightarrow> bool" where
  "editorLocked s \<longleftrightarrow> ls_saving s \<noteq> None \<and> ls_editing s \<noteq> None"

definition beginEdit :: "transaction_view \<Rightarrow> ledger_screen \<Rightarrow> ledger_screen" where
  "beginEdit t s =
     (if editorLocked s then s
      else s\<lparr>ls_saveError := None, ls_editing := Some t, ls_direction := tv_direction t,
             ls_amountNaira := koboToNairaInput (tv_amountKobo t), ls_occurredOn := isoToDateInput (tv_occurredAt t),
             ls_note := (case tv_note t of Some n \<Rightarrow> n | None \<Rightarrow> []), ls_tagGoal := (tv_goalId t \<noteq> None),
             ls_goalSelectionChanged := False\<rparr>)"

definition edit_form :: "goal_query \<Rightarrow> transaction_view \<Rightarrow> ledger_screen \<Rightarrow> transaction_update_form" where
  "edit_form q t s = \<lparr>tf_direction = ls_direction s, tf_amountNaira = ls_amountNaira s, tf_occurredOn = ls_occurredOn s,
     tf_note = ls_note s, tf_tagGoal = ls_tagGoal s, tf_goalSelectionChanged = ls_goalSelectionChanged s,
     tf_currentGoalId = tv_goalId t, tf_activeGoalId = map_option gv_id (queried_goal q)\<rparr>"

definition saveEdit :: "goal_query \<Rightarrow> ledger_screen \<Rightarrow> ledger_screen" where
  "saveEdit q s =
     (case ls_editing s of
        None \<Rightarrow> s
      | Some t \<Rightarrow>
          if edit_validation q s \<noteq> [] then s
          else (case buildTransactionUpdatePayload (edit_form q t s) of
                  None \<Rightarrow> s
                | Some payload \<Rightarrow> s\<lparr>ls_saving := Some (tv_id t, payload), ls_saveError := None\<rparr>))"

definition toggle_goal_link :: "ledger_screen \<Rightarrow> ledger_screen" where
  "toggle_goal_link s = s\<lparr>ls_tagGoal := \<not> ls_tagGoal s, ls_goalSelectionChanged := True\<rparr>"

definition cancelEdit :: "ledger_screen \<Rightarrow> ledger_screen" where
  "cancelEdit s = (if editorLocked s then s else s\<lparr>ls_editing := None\<rparr>)"

text \<open>The answer of an update also replaces the transaction in the list that was fetched.\<close>

definition save_answered ::
  "call_error + transaction_view \<Rightarrow> transaction_view list option \<times> ledger_screen \<Rightarrow> transaction_view list option \<times> ledger_screen" where
  "save_answered answer fs =
     (case fs of (fetched, s) \<Rightarrow>
        (case answer of
           Inl err \<Rightarrow> (fetched, s\<lparr>ls_saving := None, ls_saveError := Some err\<rparr>)
         | Inr updated \<Rightarrow> (Some (replaceTransactionInList fetched updated), s\<lparr>ls_saving := None, ls_editing := None\<rparr>)))"

definition deletion_message :: "(rat \<Rightarrow> jstring) \<Rightarrow> transaction_view \<Rightarrow> jstring" where
  "deletion_message toLocale t = formatKoboAsNaira toLocale (tv_amountKobo t) @ js '' will be removed and your dashboard will be recalculated.''"

definition confirm_delete :: "transaction_view \<Rightarrow> ledger_screen \<Rightarrow> ledger_screen" where
  "confirm_delete t s = s\<lparr>ls_deleting := ls_deleting s @ [tv_id t]\<rparr>"

text \<open>Saving without a change moves the transaction to noon of its day and nothing else.\<close>

definition editable_transaction :: "transaction_row \<Rightarrow> bool" where
  "editable_transaction t \<longleftrightarrow> (\<exists>dir. t_direction t = direction_text dir) \<and> 1 \<le> t_amountKobo t \<and> t_amountKobo t \<le> MAX_SAFE_INTEGER
     \<and> four_digit_year (t_occurredAt t)
     \<and> (case t_note t of None \<Rightarrow> True | Some n \<Rightarrow> n \<noteq> [] \<and> trim n = n \<and> length n \<le> 280)"

definition noon_occurred :: "transaction_row \<Rightarrow> transaction_row" where
  "noon_occurred t = t\<lparr>t_occurredAt := noon (t_occurredAt t)\<rparr>"

lemma unchanged_edit_payload:
  assumes "editable_transaction t" and "serializeTransaction t = Inr v" and "\<not> editorLocked s"
  obtains dir where "t_direction t = direction_text dir"
    "ls_saving (saveEdit q (beginEdit v s)) = Some (t_id t, \<lparr>ut_direction = Value dir, ut_amountKobo = Value (t_amountKobo t),
      ut_occurredAt = Value (to_iso_string (noon (t_occurredAt t))), ut_goalId = Undefined,
      ut_note = (case t_note t of None \<Rightarrow> Null | Some n \<Rightarrow> Value n)\<rparr>)"
proof -
  from assms(1) obtain dir where e: "t_direction t = direction_text dir" "1 \<le> t_amountKobo t" "t_amountKobo t \<le> MAX_SAFE_INTEGER"
    "four_digit_year (t_occurredAt t)" "case t_note t of None \<Rightarrow> True | Some n \<Rightarrow> n \<noteq> [] \<and> trim n = n \<and> length n \<le> 280"
    by (auto simp: editable_transaction_def)
  have dir: "direction_of (t_direction t) = Some dir" using e(1) by (cases dir) (simp_all add: direction_of_def)
  with assms(2) have v: "v = \<lparr>tv_id = t_id t, tv_userId = t_userId t, tv_goalId = t_goalId t, tv_amountKobo = of_int (t_amountKobo t),
      tv_direction = dir, tv_occurredAt = to_iso_string (t_occurredAt t), tv_note = t_note t, tv_createdAt = to_iso_string (t_createdAt t)\<rparr>"
    using to_number_safe [of "t_amountKobo t"] e(2,3) by (simp add: serializeTransaction_def)
  let ?s = "beginEdit v s"
  have amount: "nairaInputToKobo (ls_amountNaira ?s) = Some (t_amountKobo t)"
    using amount_typed_again [OF e(2,3)] assms(3) by (simp add: beginEdit_def v)
  have date: "dateInputToIso (ls_occurredOn ?s) = Some (to_iso_string (noon (t_occurredAt t)))"
    using date_typed_again [OF e(4)] assms(3) by (simp add: beginEdit_def v isoToDateInput_def)
  have fields: "ls_editing ?s = Some v" "ls_goalSelectionChanged ?s = False" "ls_direction ?s = dir"
    "ls_note ?s = (case t_note t of None \<Rightarrow> [] | Some n \<Rightarrow> n)"
    using assms(3) by (simp_all add: beginEdit_def v)
  have id: "tv_id v = t_id t" by (simp add: v)
  define opened where "opened = beginEdit v s"
  note known = fields amount date
  have "edit_validation q opened = []"
    using e(5) known unfolding opened_def [symmetric] by (auto simp: edit_validation_def split: option.splits)
  moreover have "buildTransactionUpdatePayload (edit_form q v opened) = Some \<lparr>ut_direction = Value dir, ut_amountKobo = Value (t_amountKobo t),
      ut_occurredAt = Value (to_iso_string (noon (t_occurredAt t))), ut_goalId = Undefined,
      ut_note = (case t_note t of None \<Rightarrow> Null | Some n \<Rightarrow> Value n)\<rparr>"
    using e(5) known unfolding opened_def [symmetric]
    by (simp add: edit_form_def buildTransactionUpdatePayload_def Let_def split: option.splits)
  ultimately show thesis
    using known(1) unfolding opened_def [symmetric] by (intro that [OF e(1)]) (simp add: saveEdit_def id flip: opened_def)
qed

lemma unchanged_transaction_edit:
  assumes "find_first (\<lambda>x. t_id x = t_id t \<and> t_userId x = userId) (transactions d) = Some t"
    and "distinct (map t_id (transactions d))" and "editable_transaction t" and "serializeTransaction t = Inr v"
    and "\<not> editorLocked s" and "parses_iso new_date"
  shows "\<exists>payload. ls_saving (saveEdit q (beginEdit v s)) = Some (tv_id v, payload)
    \<and> update_transaction new_date d userId (tv_id v) payload
      = (serializeTransaction (noon_occurred t), d\<lparr>transactions := update_many (\<lambda>x. t_id x = t_id t) noon_occurred (transactions d)\<rparr>)"
proof -
  obtain dir where p: "t_direction t = direction_text dir"
    "ls_saving (saveEdit q (beginEdit v s)) = Some (t_id t, \<lparr>ut_direction = Value dir, ut_amountKobo = Value (t_amountKobo t),
      ut_occurredAt = Value (to_iso_string (noon (t_occurredAt t))), ut_goalId = Undefined,
      ut_note = (case t_note t of None \<Rightarrow> Null | Some n \<Rightarrow> Value n)\<rparr>)"
    using assms(3-5) by (rule unchanged_edit_payload)
  have id: "tv_id v = t_id t" using assms(4) by (auto simp: serializeTransaction_def split: option.splits)
  have e: "1 \<le> t_amountKobo t" "t_amountKobo t \<le> MAX_SAFE_INTEGER" "four_digit_year (t_occurredAt t)"
    using assms(3) by (auto simp: editable_transaction_def)
  have given: "given_date new_date (Value (to_iso_string (noon (t_occurredAt t)))) = Inr (Some (noon (t_occurredAt t)))"
    "given_bigint (Value (t_amountKobo t)) = Inr (Some (t_amountKobo t))"
    using assms(6) noon_four_digit [OF e(3)] e(1,2) by (simp_all add: parses_iso_def big_int_safe)
  let ?change = "changed_transaction (Some dir) (Some (t_amountKobo t)) (Some (noon (t_occurredAt t))) Undefined
      (case t_note t of None \<Rightarrow> Null | Some n \<Rightarrow> Value n)"
  have change: "?change t = noon_occurred t"
    by (cases "t_note t") (simp_all add: changed_transaction_def noon_occurred_def p(1))
  have mem: "t \<in> set (transactions d)" using assms(1) find_first_Some by fast
  have same: "x = t" if "x \<in> set (transactions d)" "t_id x = t_id t" for x
    using assms(2) mem that by (metis distinct_map inj_on_eq_iff)
  have "update_many (\<lambda>x. t_id x = t_id t) ?change (transactions d) = update_many (\<lambda>x. t_id x = t_id t) noon_occurred (transactions d)"
    by (rule update_many_cong) (metis same change)
  then show ?thesis
    using given change by (simp add: p(2) id update_transaction_def assms(1) check_goal_def or_null_def truthy_def goal_reference_ok_def Let_def)
qed

section \<open>The steps of the ledger screen\<close>

inductive ledger_step :: "goal_query \<Rightarrow> ledger_screen \<Rightarrow> ledger_screen \<Rightarrow> bool" for q where
  filtered: "ledger_step q s (s\<lparr>ls_filter := choice\<rparr>)"
| begun: "ledger_step q s (beginEdit t s)"
| typed: "ls_editing s \<noteq> None \<Longrightarrow> ledger_step q s (s\<lparr>ls_direction := dir, ls_amountNaira := amount, ls_occurredOn := day, ls_note := note\<rparr>)"
| linked: "ls_editing s \<noteq> None \<Longrightarrow> ledger_step q s (toggle_goal_link s)"
| saved: "ls_saving s = None \<Longrightarrow> ledger_step q s (saveEdit q s)"
| cancelled: "ledger_step q s (cancelEdit s)"
| answered: "ls_saving s \<noteq> None \<Longrightarrow> ledger_step q s (snd (save_answered answer (fetched, s)))"
| removed: "ledger_step q s (confirm_delete t s)"

text \<open>While a change is being saved the editor stays with its transaction.\<close>

definition ledger_screen_wf :: "ledger_screen \<Rightarrow> bool" where
  "ledger_screen_wf s \<longleftrightarrow> (case ls_saving s of None \<Rightarrow> True | Some (i, _) \<Rightarrow> \<exists>t. ls_editing s = Some t \<and> tv_id t = i)"

lemma ledger_step_wf [wf_intros]: "ledger_step q s s' \<Longrightarrow> ledger_screen_wf s \<Longrightarrow> ledger_screen_wf s'"
proof (induction rule: ledger_step.induct)
  case (begun s t)
  then show ?case by (auto simp: ledger_screen_wf_def beginEdit_def editorLocked_def split: option.splits)
next
  case (saved s)
  then show ?case by (auto simp: ledger_screen_wf_def saveEdit_def split: option.splits)
next
  case (cancelled s)
  then show ?case by (auto simp: ledger_screen_wf_def cancelEdit_def editorLocked_def split: option.splits)
next
  case (answered s answer fetched)
  then show ?case by (cases answer) (simp_all add: ledger_screen_wf_def save_answered_def)
qed (auto simp: ledger_screen_wf_def toggle_goal_link_def confirm_delete_def split: option.splits)

section \<open>The goal screen\<close>

datatype form_mode = ModeCreate | ModeEdit | ModeReplace | ModeView

record goal_screen =
  gs_mode :: form_mode
  gs_form :: goal_form_fields
  gs_success :: string

definition futureDateInput :: "ms \<Rightarrow> jstring" where
  "futureDateInput now = take 10 (to_iso_string (now + 120 * 86400000))"

definition emptyForm :: "ms \<Rightarrow> goal_form_fields" where
  "emptyForm now = \<lparr>gf_name = [], gf_amountNaira = [], gf_dueOn = futureDateInput now, gf_monthlyIncomeNaira = []\<rparr>"

definition goal_screen_start :: "ms \<Rightarrow> goal_screen" where
  "goal_screen_start now = \<lparr>gs_mode = ModeView, gs_form = emptyForm now, gs_success = []\<rparr>"

fun statusLabel :: "goal_status \<Rightarrow> string" where
  "statusLabel GoalActive = ''Active''"
| "statusLabel GoalCompleted = ''Completed''"
| "statusLabel GoalCancelled = ''Cancelled''"
| "statusLabel GoalReplaced = ''Replaced''"

definition goal_history_shown :: "goal_view list option \<Rightarrow> goal_view list" where
  "goal_history_shown fetched = filter (\<lambda>g. \<not> gv_isActive g) (case fetched of Some gs \<Rightarrow> gs | None \<Rightarrow> [])"

definition effectiveMode :: "goal_query \<Rightarrow> goal_screen \<Rightarrow> form_mode" where
  "effectiveMode q s = (if queried_none q \<and> gs_mode s = ModeView then ModeCreate else gs_mode s)"

definition formVisible :: "goal_query \<Rightarrow> goal_screen \<Rightarrow> bool" where
  "formVisible q s \<longleftrightarrow> effectiveMode q s \<noteq> ModeView"

definition goal_validation :: "goal_query \<Rightarrow> goal_screen \<Rightarrow> string" where
  "goal_validation q s = (if formVisible q s then goalFormValidationError (gs_form s) else [])"

datatype goal_request = RequestCreate create_goal_dto | RequestUpdate jstring update_goal_dto | FormInvalid

definition goal_save_request :: "goal_query \<Rightarrow> goal_screen \<Rightarrow> goal_request" where
  "goal_save_request q s =
     (case (effectiveMode q s, queried_goal q) of
        (ModeEdit, Some g) \<Rightarrow>
          (case buildUpdateGoalPayload (gs_form s) of None \<Rightarrow> FormInvalid | Some payload \<Rightarrow> RequestUpdate (gv_id g) payload)
      | _ \<Rightarrow> (case buildCreateGoalPayload (gs_form s) of None \<Rightarrow> FormInvalid | Some payload \<Rightarrow> RequestCreate payload))"

definition goal_saved :: "goal_query \<Rightarrow> goal_screen \<Rightarrow> goal_screen" where
  "goal_saved q s = s\<lparr>gs_success := (case effectiveMode q s of ModeEdit \<Rightarrow> ''Goal changes saved''
      | ModeReplace \<Rightarrow> ''Replacement goal started'' | _ \<Rightarrow> ''Goal created''), gs_mode := ModeView\<rparr>"

definition goal_ended :: "ms \<Rightarrow> goal_view \<Rightarrow> goal_screen \<Rightarrow> goal_screen" where
  "goal_ended now g s = s\<lparr>gs_success := (if gv_status g = GoalCompleted then ''Goal marked completed'' else ''Goal cancelled''),
     gs_form := emptyForm now, gs_mode := ModeCreate\<rparr>"

definition update_goal_form :: "goal_form_fields \<Rightarrow> goal_screen \<Rightarrow> goal_screen" where
  "update_goal_form form s = s\<lparr>gs_success := [], gs_form := form\<rparr>"

definition press_edit_goal :: "goal_view \<Rightarrow> goal_screen \<Rightarrow> goal_screen" where
  "press_edit_goal g s = s\<lparr>gs_form := goalToFormFields g, gs_mode := ModeEdit, gs_success := []\<rparr>"

definition press_replace_goal :: "ms \<Rightarrow> goal_screen \<Rightarrow> goal_screen" where
  "press_replace_goal now s = s\<lparr>gs_form := emptyForm now, gs_mode := ModeReplace, gs_success := []\<rparr>"

definition close_goal_form :: "goal_screen \<Rightarrow> goal_screen" where
  "close_goal_form s = s\<lparr>gs_mode := ModeView\<rparr>"

text \<open>Replacing a goal asks first; everything else is sent at once.\<close>

definition goal_asks_first :: "goal_query \<Rightarrow> goal_screen \<Rightarrow> bool" where
  "goal_asks_first q s \<longleftrightarrow> effectiveMode q s = ModeReplace"

lemma validated_form_sends:
  assumes "formVisible q s" and "goal_validation q s = []"
  shows "goal_save_request q s \<noteq> FormInvalid"
proof -
  have valid: "goalFormValidationError (gs_form s) = []" using assms by (simp add: goal_validation_def)
  then have "buildGoalFields (gs_form s) \<noteq> None"
    by (auto simp: buildGoalFields_def goalFormValidationError_def split: if_splits option.splits field.splits)
  then show ?thesis
    by (auto simp: goal_save_request_def buildUpdateGoalPayload_def buildCreateGoalPayload_def split: form_mode.split option.split)
qed

lemma edit_saves_the_active_goal:
  assumes "queried_goal q = Some g" and "buildUpdateGoalPayload (goalToFormFields g) = Some payload"
  shows "goal_save_request q (press_edit_goal g s) = RequestUpdate (gv_id g) payload"
  using assms by (simp add: goal_save_request_def effectiveMode_def press_edit_goal_def)

text \<open>
  The form stays open while the active goal changes under it: when the goal being edited was ended
  on another device, saving the changes creates a new goal and reports saved changes; when it was
  replaced, the fields of the old goal overwrite the new one.
\<close>

lemma stale_edit_creates_goal:
  assumes "buildCreateGoalPayload (goalToFormFields g) = Some payload" and "queried_none q"
  shows "goal_save_request q (press_edit_goal g s) = RequestCreate payload"
    and "gs_success (goal_saved q (press_edit_goal g s)) = ''Goal changes saved''"
  using assms by (simp_all add: goal_save_request_def effectiveMode_def press_edit_goal_def queried_none_def queried_goal_def goal_saved_def)

lemma stale_edit_overwrites_goal:
  assumes "buildUpdateGoalPayload (goalToFormFields g) = Some payload" and "queried_goal q = Some h"
  shows "goal_save_request q (press_edit_goal g s) = RequestUpdate (gv_id h) payload"
  using assms by (simp add: goal_save_request_def effectiveMode_def press_edit_goal_def)

end
