(* ===== verification/Screen_Settings.thy ===== *)
theory Screen_Settings
  imports Alerts Account Mobile_Api
begin

text \<open>
  The screens of settings, \<open>alerts.tsx\<close> and \<open>account.tsx\<close> under \<open>mobile/app/(app)\<close>, and who may
  see which screen, \<open>mobile/app/_layout.tsx\<close>. A screen keeps a draft over what the API gave; saving
  sends the draft completed with what was given.
\<close>

definition nullish :: "'a option \<Rightarrow> 'a \<Rightarrow> 'a" where
  "nullish x d = (case x of Some v \<Rightarrow> v | None \<Rightarrow> d)"

section \<open>Notification preferences\<close>

text \<open>The hour of the draft is \<open>Number(text)\<close>, none when that is not a finite number.\<close>

record alert_draft =
  dr_weeklySummaryEnabled :: "bool option"
  dr_riskAlertsEnabled :: "bool option"
  dr_timeZone :: "jstring option"
  dr_weeklyDay :: "int option"
  dr_weeklyHourLocal :: "rat option option"

definition no_draft :: alert_draft where
  "no_draft = \<lparr>dr_weeklySummaryEnabled = None, dr_riskAlertsEnabled = None, dr_timeZone = None, dr_weeklyDay = None,
     dr_weeklyHourLocal = None\<rparr>"

record alerts_screen =
  al_draft :: alert_draft
  al_saved :: string
  al_saving :: bool
  al_failed :: bool

definition alerts_screen_start :: alerts_screen where
  "alerts_screen_start = \<lparr>al_draft = no_draft, al_saved = [], al_saving = False, al_failed = False\<rparr>"

text \<open>\<open>data\<close> is what the API gave, the form is shown only then.\<close>

definition draft_hour :: "alert_preferences \<Rightarrow> alert_draft \<Rightarrow> rat option" where
  "draft_hour data dr = nullish (dr_weeklyHourLocal dr) (Some (of_int (ar_weeklyHourLocal data)))"

definition draft_time_zone :: "alert_preferences \<Rightarrow> alert_draft \<Rightarrow> jstring" where
  "draft_time_zone data dr = nullish (dr_timeZone dr) (ar_timeZone data)"

definition alerts_form_valid :: "alert_preferences \<Rightarrow> alert_draft \<Rightarrow> bool" where
  "alerts_form_valid data dr \<longleftrightarrow> trim (draft_time_zone data dr) \<noteq> []
     \<and> (case draft_hour data dr of Some h \<Rightarrow> h \<in> \<int> \<and> 0 \<le> h \<and> h \<le> 23 | None \<Rightarrow> False)"

definition preference_keys :: "jstring list" where
  "preference_keys = [js ''weeklySummaryEnabled'', js ''riskAlertsEnabled'', js ''timeZone'', js ''weeklyDay'', js ''weeklyHourLocal'']"

definition alerts_payload :: "alert_preferences \<Rightarrow> alert_draft \<Rightarrow> update_alert_preferences_dto" where
  "alerts_payload data dr =
     \<lparr>ua_keys = preference_keys,
      ua_weeklySummaryEnabled = Value (nullish (dr_weeklySummaryEnabled dr) (ar_weeklySummaryEnabled data)),
      ua_riskAlertsEnabled = Value (nullish (dr_riskAlertsEnabled dr) (ar_riskAlertsEnabled data)),
      ua_timeZone = Value (trim (draft_time_zone data dr)),
      ua_weeklyDay = Value (nullish (dr_weeklyDay dr) (ar_weeklyDay data)),
      ua_weeklyHourLocal = Value (case draft_hour data dr of Some h \<Rightarrow> \<lfloor>h\<rfloor> | None \<Rightarrow> 0)\<rparr>"

datatype alerts_event =
    SetWeekly bool
  | SetRisk bool
  | SetDay nat
  | TypeHour "rat option"
  | TypeTimeZone jstring
  | PressSave
  | SaveAnswered bool

definition change_draft :: "(alert_draft \<Rightarrow> alert_draft) \<Rightarrow> alerts_screen \<Rightarrow> alerts_screen" where
  "change_draft f s = s\<lparr>al_draft := f (al_draft s)\<rparr>"

fun alerts_screen_step :: "alert_preferences \<Rightarrow> alerts_event \<Rightarrow> alerts_screen \<Rightarrow> alerts_screen option" where
  "alerts_screen_step data (SetWeekly b) s = Some (change_draft (\<lambda>dr. dr\<lparr>dr_weeklySummaryEnabled := Some b\<rparr>) (s\<lparr>al_saved := []\<rparr>))"
| "alerts_screen_step data (SetRisk b) s = Some (change_draft (\<lambda>dr. dr\<lparr>dr_riskAlertsEnabled := Some b\<rparr>) (s\<lparr>al_saved := []\<rparr>))"
| "alerts_screen_step data (SetDay n) s = (if n < 7 then Some (change_draft (\<lambda>dr. dr\<lparr>dr_weeklyDay := Some (int n)\<rparr>) s) else None)"
| "alerts_screen_step data (TypeHour h) s = Some (change_draft (\<lambda>dr. dr\<lparr>dr_weeklyHourLocal := Some h\<rparr>) s)"
| "alerts_screen_step data (TypeTimeZone z) s = Some (change_draft (\<lambda>dr. dr\<lparr>dr_timeZone := Some z\<rparr>) s)"
| "alerts_screen_step data PressSave s =
     (if alerts_form_valid data (al_draft s) \<and> \<not> al_saving s then Some (s\<lparr>al_saving := True, al_failed := False\<rparr>) else None)"
| "alerts_screen_step data (SaveAnswered success) s =
     (if \<not> al_saving s then None
      else if success then Some (s\<lparr>al_saving := False, al_draft := no_draft, al_saved := ''Preferences saved''\<rparr>)
      else Some (s\<lparr>al_saving := False, al_failed := True\<rparr>))"

text \<open>A form that may be saved passes the API's validation, as far as the names of time zones go.\<close>

lemma valid_form_accepted:
  assumes "alerts_form_valid data dr" and "0 \<le> ar_weeklyDay data" and "ar_weeklyDay data \<le> 6"
    and "case dr_weeklyDay dr of Some n \<Rightarrow> 0 \<le> n \<and> n \<le> 6 | None \<Rightarrow> True"
    and "length (trim (draft_time_zone data dr)) \<le> 100"
  shows "valid_update_preferences (alerts_payload data dr)"
proof -
  from assms(1) obtain h where h: "draft_hour data dr = Some h" "0 \<le> h" "h \<le> 23" and z: "trim (draft_time_zone data dr) \<noteq> []"
    by (auto simp: alerts_form_valid_def split: option.splits)
  have day: "0 \<le> nullish (dr_weeklyDay dr) (ar_weeklyDay data)" "nullish (dr_weeklyDay dr) (ar_weeklyDay data) \<le> 6"
    using assms(2-4) by (auto simp: nullish_def split: option.splits)
  show ?thesis
    using z assms(5) h(2,3) day by (simp add: valid_update_preferences_def alerts_payload_def h(1) Suc_le_eq)
qed

definition settled_preference :: "time_zones \<Rightarrow> alert_preference_row \<Rightarrow> bool" where
  "settled_preference z row \<longleftrightarrow> ap_timeZone row \<noteq> [] \<and> trim (ap_timeZone row) = ap_timeZone row \<and> tz_valid z (ap_timeZone row)
     \<and> 0 \<le> ap_weeklyHourLocal row \<and> ap_weeklyHourLocal row \<le> 23"

text \<open>Saving without a change may be done and changes nothing but the time of the last update.\<close>

lemma unchanged_preferences_saved:
  assumes "preference_of d u = Some row" and "settled_preference z row" and "distinct (map ap_userId (alertPreferences d))"
  shows "alerts_form_valid (getPreferences d u) no_draft"
    and "updatePreferences z now d u (alerts_payload (getPreferences d u) no_draft)
      = (Inr (toPreferences (row\<lparr>ap_updatedAt := now\<rparr>)),
         d\<lparr>alertPreferences := update_many (\<lambda>p. ap_userId p = u) (\<lambda>p. p\<lparr>ap_updatedAt := now\<rparr>) (alertPreferences d)\<rparr>)"
proof -
  have s: "ap_timeZone row \<noteq> []" "trim (ap_timeZone row) = ap_timeZone row" "tz_valid z (ap_timeZone row)"
    "0 \<le> ap_weeklyHourLocal row" "ap_weeklyHourLocal row \<le> 23"
    using assms(2) by (simp_all add: settled_preference_def)
  have data: "getPreferences d u = toPreferences row" by (simp add: getPreferences_def assms(1))
  show "alerts_form_valid (getPreferences d u) no_draft"
    using s by (simp add: data alerts_form_valid_def draft_time_zone_def draft_hour_def no_draft_def nullish_def toPreferences_def)
  have payload: "alerts_payload (getPreferences d u) no_draft =
    \<lparr>ua_keys = preference_keys, ua_weeklySummaryEnabled = Value (ap_weeklySummaryEnabled row),
     ua_riskAlertsEnabled = Value (ap_riskAlertsEnabled row), ua_timeZone = Value (ap_timeZone row),
     ua_weeklyDay = Value (ap_weeklyDay row), ua_weeklyHourLocal = Value (ap_weeklyHourLocal row)\<rparr>"
    using s(2) by (simp add: alerts_payload_def data no_draft_def nullish_def draft_time_zone_def draft_hour_def toPreferences_def)
  have keys: "preference_keys \<noteq> []" by (simp add: preference_keys_def)
  let ?p = "alerts_payload (getPreferences d u) no_draft"
  have applied: "apply_preferences ?p now row = row\<lparr>ap_updatedAt := now\<rparr>"
    unfolding payload by (simp add: apply_preferences_def)
  have mem: "row \<in> set (alertPreferences d)" "ap_userId row = u"
    using assms(1) find_first_Some unfolding preference_of_def by fast+
  have same: "p = row" if "p \<in> set (alertPreferences d)" "ap_userId p = u" for p
    using assms(3) mem that by (metis distinct_map inj_on_eq_iff)
  have "update_many (\<lambda>p. ap_userId p = u) (apply_preferences ?p now) (alertPreferences d)
      = update_many (\<lambda>p. ap_userId p = u) (\<lambda>p. p\<lparr>ap_updatedAt := now\<rparr>) (alertPreferences d)"
    unfolding update_many_def using same applied by (intro map_cong refl) auto
  then show "updatePreferences z now d u ?p
      = (Inr (toPreferences (row\<lparr>ap_updatedAt := now\<rparr>)),
         d\<lparr>alertPreferences := update_many (\<lambda>p. ap_userId p = u) (\<lambda>p. p\<lparr>ap_updatedAt := now\<rparr>) (alertPreferences d)\<rparr>)"
    using applied s(3) keys unfolding payload by (simp add: updatePreferences_def has_null_def assms(1))
qed

text \<open>The form stays open while it is saved, and what is typed meanwhile is thrown away by the answer.\<close>

lemma edits_while_saving_lost:
  assumes "al_saving s" and "alerts_screen_step data ev s = Some s1" and "ev \<in> {SetWeekly b, SetRisk b, SetDay n, TypeHour h, TypeTimeZone t}"
    and "alerts_screen_step data (SaveAnswered True) s1 = Some s2"
  shows "al_draft s2 = no_draft"
  using assms by (auto split: if_splits)

section \<open>The account\<close>

datatype account_mutation = SaveProfile | SaveConsents | PrepareExport | DeleteAccount

datatype account_dialog = AskDelete | AskSignOutAll

datatype account_exit = AccountDeleted | SignedOutEverywhere

text \<open>\<open>ac_pending\<close>: the mutations under way. The logout that follows an exit is that of the session.\<close>

record account_screen =
  ac_displayName :: "jstring option"
  ac_analyticsEnabled :: "bool option"
  ac_productResearchEnabled :: "bool option"
  ac_deleteConfirmation :: jstring
  ac_message :: string
  ac_pending :: "account_mutation list"
  ac_failed :: "account_mutation list"
  ac_dialog :: "account_dialog option"
  ac_left :: "account_exit option"

definition account_screen_start :: account_screen where
  "account_screen_start = \<lparr>ac_displayName = None, ac_analyticsEnabled = None, ac_productResearchEnabled = None,
     ac_deleteConfirmation = [], ac_message = [], ac_pending = [], ac_failed = [], ac_dialog = None, ac_left = None\<rparr>"

definition account_busy :: "account_screen \<Rightarrow> bool" where
  "account_busy s \<longleftrightarrow> ac_pending s \<noteq> []"

definition shown_name :: "account_profile \<Rightarrow> account_screen \<Rightarrow> jstring" where
  "shown_name profile s = nullish (ac_displayName s) (nullish (pf_displayName profile) [])"

definition profile_payload :: "account_profile \<Rightarrow> account_screen \<Rightarrow> update_profile_dto" where
  "profile_payload profile s =
     \<lparr>up_displayName = (let value = trim (shown_name profile s) in if value = [] then Null else Value value)\<rparr>"

definition consents_payload :: "account_consents \<Rightarrow> account_screen \<Rightarrow> update_consents_dto" where
  "consents_payload consents s =
     \<lparr>uc_analyticsEnabled = Some (nullish (ac_analyticsEnabled s) (cs_analyticsEnabled consents)),
      uc_productResearchEnabled = Some (nullish (ac_productResearchEnabled s) (cs_productResearchEnabled consents))\<rparr>"

definition can_delete :: "account_screen \<Rightarrow> bool" where
  "can_delete s \<longleftrightarrow> ac_deleteConfirmation s = js ''DELETE'' \<and> \<not> account_busy s"

definition begin_mutation :: "account_mutation \<Rightarrow> account_screen \<Rightarrow> account_screen" where
  "begin_mutation m s = s\<lparr>ac_pending := ac_pending s @ [m], ac_failed := filter (\<lambda>x. x \<noteq> m) (ac_failed s)\<rparr>"

fun mutation_succeeded :: "account_mutation \<Rightarrow> account_screen \<Rightarrow> account_screen" where
  "mutation_succeeded SaveProfile s = s\<lparr>ac_displayName := None, ac_message := ''Profile saved''\<rparr>"
| "mutation_succeeded SaveConsents s =
     s\<lparr>ac_analyticsEnabled := None, ac_productResearchEnabled := None, ac_message := ''Consent choices saved''\<rparr>"
| "mutation_succeeded PrepareExport s = s\<lparr>ac_message := ''Data export prepared''\<rparr>"
| "mutation_succeeded DeleteAccount s = s\<lparr>ac_left := Some AccountDeleted\<rparr>"

datatype account_event =
    TypeName jstring
  | SetAnalytics bool
  | SetResearch bool
  | TypeConfirmation jstring
  | PressSaveProfile
  | PressSaveConsents
  | PressExport
  | PressDelete
  | PressSignOutAll
  | DialogConfirmed
  | DialogDismissed
  | MutationAnswered account_mutation bool

text \<open>A dialog is modal: while it is open only its buttons work.\<close>

definition form_open :: "account_screen \<Rightarrow> bool" where
  "form_open s \<longleftrightarrow> ac_dialog s = None \<and> ac_left s = None"

definition press_mutation :: "account_mutation \<Rightarrow> account_screen \<Rightarrow> account_screen option" where
  "press_mutation m s = (if form_open s \<and> \<not> account_busy s then Some (begin_mutation m s) else None)"

fun account_screen_step :: "account_event \<Rightarrow> account_screen \<Rightarrow> account_screen option" where
  "account_screen_step (TypeName v) s =
     (if form_open s \<and> length v \<le> 100 then Some (s\<lparr>ac_displayName := Some v, ac_message := []\<rparr>) else None)"
| "account_screen_step (SetAnalytics b) s = (if form_open s then Some (s\<lparr>ac_analyticsEnabled := Some b\<rparr>) else None)"
| "account_screen_step (SetResearch b) s = (if form_open s then Some (s\<lparr>ac_productResearchEnabled := Some b\<rparr>) else None)"
| "account_screen_step (TypeConfirmation v) s = (if form_open s then Some (s\<lparr>ac_deleteConfirmation := v\<rparr>) else None)"
| "account_screen_step PressSaveProfile s = press_mutation SaveProfile s"
| "account_screen_step PressSaveConsents s = press_mutation SaveConsents s"
| "account_screen_step PressExport s = press_mutation PrepareExport s"
| "account_screen_step PressDelete s = (if form_open s \<and> can_delete s then Some (s\<lparr>ac_dialog := Some AskDelete\<rparr>) else None)"
| "account_screen_step PressSignOutAll s =
     (if form_open s \<and> \<not> account_busy s then Some (s\<lparr>ac_dialog := Some AskSignOutAll\<rparr>) else None)"
| "account_screen_step DialogConfirmed s =
     (case ac_dialog s of
        None \<Rightarrow> None
      | Some AskDelete \<Rightarrow> Some (begin_mutation DeleteAccount (s\<lparr>ac_dialog := None\<rparr>))
      | Some AskSignOutAll \<Rightarrow> Some (s\<lparr>ac_dialog := None, ac_left := Some SignedOutEverywhere\<rparr>))"
| "account_screen_step DialogDismissed s = (if ac_dialog s = None then None else Some (s\<lparr>ac_dialog := None\<rparr>))"
| "account_screen_step (MutationAnswered m success) s =
     (if m \<notin> set (ac_pending s) then None
      else (let ended = s\<lparr>ac_pending := remove1 m (ac_pending s)\<rparr>
            in Some (if success then mutation_succeeded m ended else ended\<lparr>ac_failed := ac_failed s @ [m]\<rparr>)))"

inductive account_screen_history :: "account_screen \<Rightarrow> bool" where
  opened: "account_screen_history account_screen_start"
| happens: "account_screen_history s \<Longrightarrow> account_screen_step ev s = Some s' \<Longrightarrow> account_screen_history s'"

text \<open>One mutation at a time, and no deletion without the word typed and the question answered.\<close>

definition account_screen_wf :: "account_screen \<Rightarrow> bool" where
  "account_screen_wf s \<longleftrightarrow> length (ac_pending s) \<le> 1 \<and> (ac_dialog s = None \<or> ac_pending s = [])
     \<and> (ac_dialog s = Some AskDelete \<longrightarrow> ac_deleteConfirmation s = js ''DELETE'')"

lemma account_screen_step_wf [wf_intros]:
  "account_screen_wf s \<Longrightarrow> account_screen_step ev s = Some s' \<Longrightarrow> account_screen_wf s'"
proof (cases ev)
  case (MutationAnswered m success)
  assume "account_screen_wf s" and "account_screen_step ev s = Some s'"
  then show ?thesis
    by (cases m) (auto simp: MutationAnswered account_screen_wf_def Let_def length_remove1 split: if_splits)
next
  case DialogConfirmed
  assume "account_screen_wf s" and "account_screen_step ev s = Some s'"
  then show ?thesis
    by (auto simp: DialogConfirmed account_screen_wf_def begin_mutation_def split: option.splits account_dialog.splits)
qed (auto simp: account_screen_wf_def press_mutation_def begin_mutation_def form_open_def account_busy_def can_delete_def split: if_splits)

lemma account_screen_history_wf: "account_screen_history s \<Longrightarrow> account_screen_wf s"
proof (induction rule: account_screen_history.induct)
  case opened
  show ?case by (simp add: account_screen_wf_def account_screen_start_def)
qed (rule account_screen_step_wf)

lemma deletion_was_confirmed:
  assumes "account_screen_history s" and "account_screen_step ev s = Some s'"
    and "DeleteAccount \<notin> set (ac_pending s)" and "DeleteAccount \<in> set (ac_pending s')"
  shows "ev = DialogConfirmed" and "ac_dialog s = Some AskDelete" and "ac_deleteConfirmation s = js ''DELETE''" and "ac_pending s' = [DeleteAccount]"
proof -
  have started: "ev = DialogConfirmed \<and> ac_dialog s = Some AskDelete"
  proof (cases ev)
    case (MutationAnswered m success)
    with assms(2-4) show ?thesis
      by (cases m) (auto simp: Let_def dest: in_set_remove1 [THEN iffD1, rotated] notin_set_remove1 split: if_splits)
  qed (use assms(2-4) in \<open>auto simp: press_mutation_def begin_mutation_def split: if_splits option.splits account_dialog.splits\<close>)
  then show "ev = DialogConfirmed" and "ac_dialog s = Some AskDelete" by simp_all
  with account_screen_history_wf [OF assms(1)] assms(2)
  show "ac_deleteConfirmation s = js ''DELETE''" and "ac_pending s' = [DeleteAccount]"
    by (auto simp: account_screen_wf_def begin_mutation_def)
qed

lemma trim_idem: "trim (trim s) = trim s"
proof -
  let ?t = "dropWhile is_space s"
  let ?u = "rev (dropWhile is_space (rev ?t))"
  have "dropWhile is_space ?u = ?u"
  proof (cases ?u)
    case (Cons c u)
    have "?t = ?u @ rev (takeWhile is_space (rev ?t))"
      by (metis rev_append rev_rev_ident takeWhile_dropWhile_id)
    with Cons have t: "?t = c # u @ rev (takeWhile is_space (rev ?t))" by simp
    then have "?t \<noteq> []" by (metis list.distinct(1))
    then have "\<not> is_space (hd ?t)" by (rule hd_dropWhile)
    then have "\<not> is_space c" using t by (metis list.sel(1))
    with Cons show ?thesis by simp
  next
    case Nil
    show ?thesis unfolding Nil by simp
  qed
  then show ?thesis by (simp add: trim_def)
qed

lemma length_trim: "length (trim s) \<le> length s"
  by (simp add: trim_def) (metis length_dropWhile_le length_rev order_trans)

text \<open>What the profile form sends is never refused as blank or too long, and is stored as shown.\<close>

lemma profile_accepted:
  assumes "length (shown_name profile s) \<le> 100" and "find_user d userId = Some u" and "count_rows (\<lambda>u. u_id u = userId) (users d) = 1"
  shows "valid_update_profile (profile_payload profile s)"
    and "\<exists>p c d'. updateProfile now d userId (profile_payload profile s) = (Inr (p, c), d')
      \<and> nullish (pf_displayName p) [] = trim (shown_name profile s)"
proof -
  let ?shown = "trim (shown_name profile s)"
  have len: "length ?shown \<le> 100" using length_trim assms(1) by (rule order_trans)
  then show "valid_update_profile (profile_payload profile s)"
    by (auto simp: valid_update_profile_def profile_payload_def Let_def Suc_le_eq)
  define name where "name = (if ?shown = [] then None else Some ?shown)"
  have trimmed: "trim ?shown = ?shown" by (simp add: trim_idem)
  have input: "up_displayName (profile_payload profile s) = (case name of None \<Rightarrow> Null | Some v \<Rightarrow> Value v)"
    by (simp add: profile_payload_def name_def Let_def)
  let ?rename = "\<lambda>u. u\<lparr>u_displayName := name, u_updatedAt := now\<rparr>"
  let ?d = "d\<lparr>users := update_many (\<lambda>u. u_id u = userId) ?rename (users d)\<rparr>"
  have step: "updateProfile now d userId (profile_payload profile s) = (getAccount ?d userId, ?d)"
    unfolding updateProfile_def input using assms(3) trimmed
    by (cases "?shown = []") (simp_all add: name_def truthy_def Let_def)
  have "find_user ?d userId = Some (?rename u)"
    using assms(2) find_first_Some [of "\<lambda>u. u_id u = userId" "users d" u] unfolding find_user_def by (simp add: find_first_update)
  then show "\<exists>p c d'. updateProfile now d userId (profile_payload profile s) = (Inr (p, c), d')
      \<and> nullish (pf_displayName p) [] = trim (shown_name profile s)"
    by (auto simp: step getAccount_def profile_view_def name_def nullish_def)
qed

text \<open>Saving the consents as they are records no change.\<close>

lemma unchanged_consents:
  "consent_changes now d userId (consents_payload (consents_view (consent_preference d userId)) account_screen_start) = []"
  by (cases "consent_preference d userId")
    (simp_all add: consent_changes_def CONSENT_CATEGORIES_def consents_payload_def consents_view_def account_screen_start_def
      nullish_def current_consent_def)

section \<open>Who may see which screen\<close>

datatype route = SignInRoute | DashboardRoute

text \<open>\<open>first\<close> is the first segment of the route shown.\<close>

definition gate :: "bool \<Rightarrow> jstring option \<Rightarrow> jstring option \<Rightarrow> route option" where
  "gate bootstrapping token first =
     (if bootstrapping then None
      else if \<not> truthy token \<and> first \<noteq> Some (js ''(auth)'') then Some SignInRoute
      else if truthy token \<and> first = Some (js ''(auth)'') then Some DashboardRoute
      else None)"

fun route_segment :: "route \<Rightarrow> jstring" where
  "route_segment SignInRoute = js ''(auth)''"
| "route_segment DashboardRoute = js ''(app)''"

text \<open>A redirect leads to a screen that may be seen, and nobody sees the app without a token.\<close>

lemma gate_settles: "gate b token first = Some r \<Longrightarrow> gate b token (Some (route_segment r)) = None"
  by (auto simp: gate_def js_def split: if_splits)

lemma gate_guards: "gate False token first = None \<Longrightarrow> first \<noteq> Some (js ''(auth)'') \<Longrightarrow> truthy token"
  by (auto simp: gate_def split: if_splits)

end
