(* ===== verification/Crash_Report.thy ===== *)
theory Crash_Report
  imports Mobile_Api
begin

text \<open>
  Crash reports of the app, \<open>mobile/src/lib/observability.ts\<close>: an error is replaced by one with a
  fixed message and the frames of its stack before it is captured, and an event loses what may be
  personal before it is sent. The reporting service is not part of the program; a report is what
  it is given.
\<close>

section \<open>What is captured\<close>

datatype report_area = ApiArea | AppArea

record report_context =
  rc_area :: report_area
  rc_report :: error_report

record crash_report =
  kr_name :: jstring
  kr_message :: jstring
  kr_stack :: "jstring option" \<comment> \<open>none: the stack of the place where the report is made\<close>
  kr_context :: report_context

definition drop_cr :: "jstring \<Rightarrow> jstring" where
  "drop_cr line = (if line \<noteq> [] \<and> last line = 13 then butlast line else line)"

text \<open>\<open>split(/\r?\n/u)\<close> and \<open>join('\n')\<close>.\<close>

definition text_lines :: "jstring \<Rightarrow> jstring list" where
  "text_lines s = map drop_cr (butlast (split_units 10 s)) @ [last (split_units 10 s)]"

fun join_lines :: "jstring list \<Rightarrow> jstring" where
  "join_lines [] = []"
| "join_lines [l] = l"
| "join_lines (l # ls) = l @ [10] @ join_lines ls"

definition safe_name :: "report_area \<Rightarrow> jstring" where
  "safe_name area = (case area of ApiArea \<Rightarrow> js ''ApiError'' | AppArea \<Rightarrow> js ''ApplicationError'')"

definition safe_message :: "report_area \<Rightarrow> jstring" where
  "safe_message area = (case area of ApiArea \<Rightarrow> js ''API request failed'' | AppArea \<Rightarrow> js ''Application error'')"

text \<open>\<open>enabled\<close>: a destination is configured; \<open>stack\<close>: that of the error, none when it has none.\<close>

definition reportError :: "bool \<Rightarrow> jstring option \<Rightarrow> report_context \<Rightarrow> crash_report option" where
  "reportError enabled stack ctx =
     (if \<not> enabled then None
      else Some \<lparr>kr_name = safe_name (rc_area ctx), kr_message = safe_message (rc_area ctx),
             kr_stack = (if truthy stack
               then Some (join_lines ((safe_name (rc_area ctx) @ js '': '' @ safe_message (rc_area ctx)) # tl (text_lines (the stack))))
               else None),
             kr_context = ctx\<rparr>)"

section \<open>What is sent\<close>

record sentry_request =
  sq_cookies :: "json option"
  sq_data :: "json option"
  sq_headers :: "json option"
  sq_query_string :: "json option"
  sq_url :: "json option"
  sq_method :: "json option"

record sentry_event =
  sy_user :: "json option"
  sy_request :: "sentry_request option"
  sy_breadcrumbs :: "json option"
  sy_exception :: "crash_report option"

definition beforeSend :: "sentry_event \<Rightarrow> sentry_event" where
  "beforeSend ev = ev\<lparr>sy_user := None,
     sy_request := map_option (\<lambda>rq. rq\<lparr>sq_cookies := None, sq_data := None, sq_headers := None,
       sq_query_string := None, sq_url := None\<rparr>) (sy_request ev),
     sy_breadcrumbs := None\<rparr>"

section \<open>The message of an error is not reported\<close>

lemma split_units_not_Nil [simp]: "split_units c s \<noteq> []"
  by (induction s) (auto split: list.splits)

lemma split_units_first: "c \<notin> set h \<Longrightarrow> split_units c (h @ c # s) = h # split_units c s"
  by (induction h) auto

lemma text_lines_first: "10 \<notin> set h \<Longrightarrow> text_lines (h @ 10 # s) = drop_cr h # text_lines s"
  by (simp add: text_lines_def split_units_first)

text \<open>As long as it has one line, and the header of a stack is the name and the message.\<close>

lemma report_without_message:
  assumes "10 \<notin> set name" and "10 \<notin> set message" and "frames \<noteq> []"
  shows "map_option kr_stack (reportError True (Some (name @ js '': '' @ message @ 10 # frames)) ctx)
       = Some (Some (join_lines ((safe_name (rc_area ctx) @ js '': '' @ safe_message (rc_area ctx)) # text_lines frames)))"
proof -
  have "10 \<notin> set (js '': '')" by (simp add: js_def unit_of_def)
  with assms(1,2) have "text_lines (name @ js '': '' @ message @ 10 # frames) = drop_cr (name @ js '': '' @ message) # text_lines frames"
    using text_lines_first [of "name @ js '': '' @ message" frames] by simp
  then show ?thesis by (simp add: reportError_def truthy_def)
qed

text \<open>Only the first line of the stack is replaced: what follows the first line of a message is reported.\<close>

lemma second_line_reported:
  assumes "10 \<notin> set name" and "10 \<notin> set m1" and "10 \<notin> set m2" and "m2 = [] \<or> last m2 \<noteq> 13"
  shows "map_option kr_stack (reportError True (Some (name @ js '': '' @ m1 @ 10 # m2 @ 10 # frames)) ctx)
       = Some (Some (join_lines ((safe_name (rc_area ctx) @ js '': '' @ safe_message (rc_area ctx)) # m2 # text_lines frames)))"
  using report_without_message [OF assms(1,2), of "m2 @ 10 # frames" ctx] assms(3,4)
  by (auto simp: text_lines_first drop_cr_def)

end
