(* ===== verification/Spec2Isabelle.thy ===== *)
theory Spec2Isabelle
  imports Import_Parser Alert_Run Api_Privacy Mobile_Session Http_Trace Env_Schema
    Screen_Import Screen_Signin Screen_Ledger Screen_Settings Crash_Report
begin

text \<open>
  A model of Stead, a savings tracker: the NestJS API under \<open>api/src\<close> and the Expo app under
  \<open>mobile\<close>, both in TypeScript. A user signs in with a telephone number and a code sent as a
  text message, keeps one savings goal and a ledger of transactions (typed in or imported from a
  bank's CSV file), sees a stability score on the dashboard, and receives readiness alerts and
  weekly summaries.

  \<^bold>\<open>How the parts interact.\<close> The only shared state of the API is the database, the record \<open>db\<close>:
  one list of rows per model of \<open>schema.prisma\<close>, in insertion order. Each handler of a service
  takes the request and the \<open>db\<close> and returns a sum: \<open>Inl\<close> the exception it throws, or
  \<open>Inr\<close> the answer with the new \<open>db\<close>. Services publish messages as rows of the notification
  queue; a worker (the consumer) locks a row, delivers its text message through a provider and
  records the outcome. The app talks to the API through one client that refreshes the access
  token once when a request is refused.

  \<^bold>\<open>Theories and the files they model.\<close>

  \<^item> \<open>Prelude\<close>, \<open>Js_Text\<close>, \<open>Js_Number\<close>, \<open>Js_Date\<close>: what the source uses of JavaScript. Strings
    are lists of UTF-16 code units; a Number is the rational it denotes and every operation rounds
    (\<open>fl\<close>, IEEE double, ties to even); Date is milliseconds with the calendar of ECMA-262. \<open>Prelude\<close>
    also has the tables (\<open>update_where\<close>, \<open>count_where\<close>) and the locale \<open>claim_once\<close>: a conditional
    update whose guard it falsifies can count a row only once. Four components interpret it.
  \<^item> \<open>Schema\<close>: the rows of \<open>api/prisma/schema.prisma\<close>.
  \<^item> \<open>Engine\<close>, \<open>Dashboard\<close>: \<open>dashboard/engine.ts\<close> and \<open>dashboard.service.ts\<close>, with rounding
    after every operation.
  \<^item> \<open>Goals\<close>: \<open>goals/goals.service.ts\<close> and its request classes.
  \<^item> \<open>Csv\<close>, \<open>Import_Adapters\<close>, \<open>Import_Parser\<close>, \<open>Transactions\<close>: the scanner, the bank adapters,
    the row parser and \<open>transactions.service.ts\<close> under \<open>transactions\<close>.
  \<^item> \<open>Notification_Queue\<close>, \<open>Sms\<close>, \<open>Notification_Consumer\<close>: the queue service under
    \<open>notifications\<close>, the clients of the providers under \<open>sms\<close>, and the worker.
  \<^item> \<open>Auth_Util\<close>, \<open>Auth_Telemetry\<close>, \<open>Auth_Session\<close>, \<open>Auth_Otp\<close>: the services, guards and
    helpers under \<open>auth\<close>; sessions are token families, codes are one-time passwords.
  \<^item> \<open>Alert_Rules\<close>, \<open>Alert_Keys\<close>, \<open>Alerts\<close>, \<open>Alert_Run\<close>: \<open>alerts/alert-rules.ts\<close>,
    \<open>alerts.service.ts\<close> and the scheduler, then their behaviour over time.
  \<^item> \<open>Account\<close>: \<open>account/account.service.ts\<close>: profile, consents, export, deletion.
  \<^item> \<open>Api_Routes\<close>, \<open>Api_Privacy\<close>: the controllers with their guards and the validation of bodies, one
    function \<open>api_request\<close> from the token to the answer; then what requests of one user can do
    to another.
  \<^item> \<open>Trace_Ids\<close>, \<open>Http_Trace\<close>, \<open>Env_Schema\<close>: request ids, contexts, log lines and metrics
    (\<open>observability\<close>, \<open>app.setup.ts\<close>), and the checks of the environment (\<open>config/env.schema.ts\<close>).
  \<^item> \<open>Token_Store\<close>, \<open>Mobile_Session\<close>: \<open>token-store.ts\<close>, the refresh in \<open>api.ts\<close>
    and \<open>auth-state.tsx\<close> under \<open>mobile/src/lib\<close>.
  \<^item> \<open>Mobile_Api\<close>: the client in \<open>mobile/src/lib/api.ts\<close>.
  \<^item> \<open>Mobile_Forms\<close>, \<open>Mobile_Signin\<close>: what the screens compute with (the other files of
    \<open>mobile/src/lib\<close>).
  \<^item> \<open>Screen_Import\<close>, \<open>Screen_Signin\<close>, \<open>Screen_Ledger\<close>, \<open>Screen_Settings\<close>: the state of the
    screens under \<open>mobile/app\<close>, a step function per screen over what the user does and what answers
    bring; a step is \<open>None\<close> where the control is not enabled.
  \<^item> \<open>Crash_Report\<close>: \<open>mobile/src/lib/observability.ts\<close>.

  \<^bold>\<open>What is shown.\<close> The properties are numbered across the theories.

  \<^item> Invariants of every history of a service, by rule induction over its step relation
    (\<open>goals_step\<close>, \<open>session_step\<close>, \<open>queue_step\<close>, \<open>account_step\<close>, \<open>alerts_step\<close>, \<open>app_step\<close>):
    at most one active goal, the limit on token families, the integrity of the queue, the
    truth of the consent history, no token shown after a logout.
  \<^item> Single use and single delivery: a code opens one session, a refresh token rotates
    once and its reuse closes the family, a job is claimed by one worker, an import confirmed again
    imports nothing. The races are two handlers that read the same row before either writes; the
    conditional update decides, which is the locale \<open>claim_once\<close>.
  \<^item> Isolation: however many requests of others are served, the rows of a user stay and the user's
    requests are answered as before. The hypotheses are that rows refer to rows of their own user
    (\<open>db_owned\<close>, which every request keeps) and that new identifiers are new.
  \<^item> Screens with the API behind them: the import screen stores what it showed; a verification
    goes to the number the code was requested for, and its key names one request.
  \<^item> Configuration and logs: no code is shown in production, no identifier is logged.
  \<^item> Idempotency: a repeated request for a code or verification with its key gives the first answer.
  \<^item> Refinement: every evaluation of the alerts is a step of an abstract alarm (\<open>alarm_step\<close>) that
    is raised, repeated after a day and cleared.
  \<^item> Numbers: the score lies in 0 to 100 and is monotone under double rounding; sums,
    obligations and day counts are exact within stated bounds.
  \<^item> Round trips: CSV, statements, naira amounts, the encrypted payload, the goal form.
  \<^item> Ends: the queue drains, a call of the client sends at most twice, a request for
    a code at most three times.

  \<^bold>\<open>Bounds and recursion.\<close> No definition takes fuel. The recursions that are not structural
  (\<open>csv_loop\<close>, \<open>dec\<close>, \<open>group_digits\<close>, \<open>hide_ids\<close>, \<open>send\<close>, \<open>otp_attempts\<close>) have termination
  proofs: the text left, the number, the text, the retry flag, the attempts left. Kobo amounts are
  integers as in the database (BigInt); they become doubles where the code calls \<open>Number\<close>, and the
  theorems about money state the bound (2 ^ 52, 2 ^ 53) under which no digit is lost.

  \<^bold>\<open>Parameters.\<close> Code that is not part of the repository is an argument of the definitions that use
  it: digests, HMAC and the cipher (the record \<open>crypto\<close> and its kin), the signature of a token,
  the parser of telephone numbers (libphonenumber), the time zone database, locale-dependent formatting,
  \<open>Date.parse\<close> of strings that are not ISO, case conversion beyond ASCII, the network, the schema
  validators generated for the app, and the platform's secure store. Laws assumed of them (a
  digest is injective on the texts compared, the cipher decrypts what it encrypted) are hypotheses
  of the theorems that need them, each with an instance. Random values and the clock are arguments.

  \<^bold>\<open>Granularity.\<close> A database transaction of the source is one step; single statements outside a
  transaction are separate steps where the races are the subject (claiming a job,
  spending a code, rotating a token, ending a goal). A failing database call is modelled where the code
  reacts to it (a unique constraint, a missing row); elsewhere it is a 500 without an effect.

  \<^bold>\<open>Not modelled.\<close> Rendering and navigation of the screens, the dashboard screen and the shared
  components (\<open>mobile/src/components\<close>), which show what the client returns; the cache of queries,
  whose contents are arguments. Modules, start-up and the connection to the database, which bind
  the parts to the framework. Generated contracts (\<open>contracts/generated\<close>): types and schemas
  printed from the OpenAPI file. Build, release and workflow scripts (\<open>scripts\<close>, \<open>.github\<close>): file
  system and process calls.
\<close>

end
